(* ===== verification/Prelude.thy ===== *)
theory Prelude
  imports Complex_Main "HOL-Library.Word" "HOL-Library.Multiset" "HOL-Library.Monad_Syntax"
begin

text \<open>
  Shared vocabulary of the development: the named collections of rewrite rules, the type
  synonyms for the C integer types, and generic facts about powers of two, intervals and
  options that several components use.
\<close>

named_theorems ring_simps \<open>closed forms of the skip-ring routines\<close>
named_theorems codec_simps \<open>reading back what an encoder has just written\<close>
named_theorems queue_simps \<open>effect of the queue operations on the represented list\<close>

type_synonym byte = "8 word"
type_synonym c_int = "32 word"
type_synonym c_ulong = "64 word"

text \<open>Partial operations are \<^typ>\<open>'a option\<close>; \<open>require\<close> is the C \<open>assert\<close>.\<close>

definition require :: "bool \<Rightarrow> unit option" where
  "require b = (if b then Some () else None)"

lemma require_simps [simp]:
  "require True = Some ()"
  "require False = None"
  by (simp_all add: require_def)

lemma bind_require [simp]:
  "(require b \<bind> f) = (if b then f () else None)"
  by (simp add: require_def)

lemma map_nth_rev: "map ((!) xs) (rev [0..<length xs]) = rev xs"
  by (metis rev_map map_nth)

section \<open>Powers of two\<close>

lemma pow2_le_of_dvd_less:
  fixes a b :: int
  assumes "2 ^ l dvd a" and "2 ^ l dvd b" and "a < b"
  shows "a + 2 ^ l \<le> b"
proof -
  have "2 ^ l dvd b - a" using assms by simp
  with assms(3) have "2 ^ l \<le> b - a" by (intro zdvd_imp_le) auto
  then show ?thesis by simp
qed

lemma nat_less_pow2: "int n < 2 ^ n"
proof -
  have "n < 2 ^ n" by (rule less_exp)
  then have "int n < int (2 ^ n)" by (simp only: of_nat_less_iff)
  then show ?thesis by simp
qed

lemma sint_word_of_int_small:
  "0 \<le> i \<Longrightarrow> i < 2 ^ 31 \<Longrightarrow> sint (word_of_int i :: c_int) = i"
  by (simp add: signed_of_int signed_take_bit_int_eq_self)

section \<open>Intervals as multisets\<close>

lemma mset_set_ivl_split:
  fixes a b c :: int
  assumes "a \<le> b" and "b \<le> c"
  shows "mset_set {a..<b} + mset_set {b..<c} = mset_set {a..<c}"
proof -
  have "{a..<c} = {a..<b} \<union> {b..<c}" using assms by auto
  then show ?thesis by (simp add: mset_set_Union)
qed

lemma mset_set_ivl_insert:
  fixes a b :: int
  assumes "a < b"
  shows "add_mset a (mset_set {a + 1..<b}) = mset_set {a..<b}"
proof -
  have "{a..<b} = insert a {a + 1..<b}" using assms by auto
  then show ?thesis by simp
qed

end
