(* ===== verification/DL_Queue.thy ===== *)
theory DL_Queue
  imports Prelude
begin

text \<open>
  The doubly linked queues of the program. \<^verbatim>\<open>Queue_node\<close> (\<^verbatim>\<open>util_queue.c\<close>), \<^verbatim>\<open>RLO_msg_t\<close> and
  \<^verbatim>\<open>RLO_engine_t\<close> (\<^verbatim>\<open>rootless_ops.c\<close>) carry the same two link fields, and the program has one
  append and one remove routine for each, with the same body. The link fields of all allocated
  cells form a heap from addresses; dereferencing anything else is \<^const>\<open>None\<close>.
\<close>

record dnode =
  d_prev :: "nat option"
  d_next :: "nat option"

type_synonym dheap = "nat \<rightharpoonup> dnode"

record dq =
  dq_head :: "nat option"
  dq_tail :: "nat option"

definition set_prev :: "dheap \<Rightarrow> nat \<Rightarrow> nat option \<Rightarrow> dheap option" where
  "set_prev h a v = do { n \<leftarrow> h a; Some (h(a \<mapsto> n\<lparr>d_prev := v\<rparr>)) }"

definition set_next :: "dheap \<Rightarrow> nat \<Rightarrow> nat option \<Rightarrow> dheap option" where
  "set_next h a v = do { n \<leftarrow> h a; Some (h(a \<mapsto> n\<lparr>d_next := v\<rparr>)) }"

section \<open>The shared bodies of append and remove\<close>

definition dl_append :: "dheap \<Rightarrow> 'z dq_scheme \<Rightarrow> nat \<Rightarrow> (dheap \<times> 'z dq_scheme) option" where
  "dl_append h q node =
     (if dq_head q = dq_tail q then
        (case dq_head q of
           None \<Rightarrow> do {
             h \<leftarrow> set_prev h node None;
             h \<leftarrow> set_next h node None;
             Some (h, q\<lparr>dq_head := Some node, dq_tail := Some node\<rparr>) }
         | Some h0 \<Rightarrow> do {
             h \<leftarrow> set_prev h node (dq_tail q);
             h \<leftarrow> set_next h node None;
             h \<leftarrow> set_next h h0 (Some node);
             Some (h, q\<lparr>dq_tail := Some node\<rparr>) })
      else do {
        h \<leftarrow> set_prev h node (dq_tail q);
        h \<leftarrow> set_next h node None;
        t \<leftarrow> dq_tail q;
        h \<leftarrow> set_next h t (Some node);
        Some (h, q\<lparr>dq_tail := Some node\<rparr>) })"

text \<open>
  The result says whether the count is to be decremented: the code returns early, with -1, on an
  empty queue. A queue of one cell is emptied whichever cell is passed.
\<close>

definition dl_remove :: "dheap \<Rightarrow> 'z dq_scheme \<Rightarrow> nat \<Rightarrow> (int \<times> dheap \<times> 'z dq_scheme) option" where
  "dl_remove h q node =
     (if dq_head q = dq_tail q \<and> dq_head q = None then Some (- 1, h, q)
      else do {
        (h, q) \<leftarrow>
          (if dq_head q = dq_tail q then Some (h, q\<lparr>dq_head := None, dq_tail := None\<rparr>)
           else if Some node = dq_head q then do {
             n \<leftarrow> h node;
             n2 \<leftarrow> d_next n;
             h \<leftarrow> set_prev h n2 None;
             Some (h, q\<lparr>dq_head := Some n2\<rparr>) }
           else if Some node = dq_tail q then do {
             n \<leftarrow> h node;
             p2 \<leftarrow> d_prev n;
             h \<leftarrow> set_next h p2 None;
             Some (h, q\<lparr>dq_tail := Some p2\<rparr>) }
           else do {
             n \<leftarrow> h node;
             p \<leftarrow> d_prev n;
             h \<leftarrow> set_next h p (d_next n);
             n \<leftarrow> h node;
             s \<leftarrow> d_next n;
             h \<leftarrow> set_prev h s (d_prev n);
             Some (h, q) });
        h \<leftarrow> set_prev h node None;
        h \<leftarrow> set_next h node None;
        Some (1, h, q) })"

section \<open>The list a queue represents\<close>

definition hd_or :: "nat list \<Rightarrow> nat option \<Rightarrow> nat option" where
  "hd_or xs n = (case xs of [] \<Rightarrow> n | x # _ \<Rightarrow> Some x)"

definition last_or :: "nat option \<Rightarrow> nat list \<Rightarrow> nat option" where
  "last_or p xs = (if xs = [] then p else Some (last xs))"

text \<open>\<open>xs\<close> are linked cells, entered from \<open>p\<close> and left to \<open>n\<close>.\<close>

fun dseg :: "dheap \<Rightarrow> nat option \<Rightarrow> nat list \<Rightarrow> nat option \<Rightarrow> bool" where
  "dseg h p [] n = True"
| "dseg h p (x # xs) n =
     (h x = Some \<lparr>d_prev = p, d_next = hd_or xs n\<rparr> \<and> dseg h (Some x) xs n)"

definition dlist :: "dheap \<Rightarrow> 'z dq_scheme \<Rightarrow> nat list \<Rightarrow> bool" where
  "dlist h q xs \<longleftrightarrow>
     distinct xs \<and> dseg h None xs None \<and> dq_head q = hd_or xs None \<and> dq_tail q = last_or None xs"

lemma hd_or_simps [simp]: "hd_or [] n = n" "hd_or (x # xs) n = Some x"
  by (simp_all add: hd_or_def)

lemma hd_or_append: "hd_or (xs @ ys) n = hd_or xs (hd_or ys n)"
  by (cases xs) auto

lemma last_or_simps [simp]: "last_or p [] = p" "last_or p (x # xs) = last_or (Some x) xs"
  by (auto simp: last_or_def)

lemma last_or_append: "last_or p (xs @ ys) = last_or (last_or p xs) ys"
  by (induction xs arbitrary: p) auto

lemma dseg_append [queue_simps]:
  "dseg h p (xs @ ys) n \<longleftrightarrow> dseg h p xs (hd_or ys n) \<and> dseg h (last_or p xs) ys n"
  by (induction xs arbitrary: p) (auto simp: hd_or_append)

lemma dseg_frame [queue_simps]: "a \<notin> set xs \<Longrightarrow> dseg (h(a := v)) p xs n = dseg h p xs n"
  by (induction xs arbitrary: p) auto

lemma dseg_cong: "(\<And>a. a \<in> set xs \<Longrightarrow> h' a = h a) \<Longrightarrow> dseg h' p xs n = dseg h p xs n"
  by (induction xs arbitrary: p) auto

lemma dseg_alloc: "dseg h p xs n \<Longrightarrow> a \<in> set xs \<Longrightarrow> h a \<noteq> None"
  by (induction xs arbitrary: p) auto

lemma dlist_empty: "dlist h q [] \<longleftrightarrow> dq_head q = None \<and> dq_tail q = None"
  by (auto simp: dlist_def)

lemma dlist_head_tail_eq:
  assumes "dlist h q xs"
  shows "dq_head q = dq_tail q \<longleftrightarrow> length xs \<le> 1"
  using assms by (cases xs; cases "tl xs") (auto simp: dlist_def last_or_def)

lemma dlist_frame:
  assumes "dlist h q xs" and "\<And>a. a \<in> set xs \<Longrightarrow> h' a = h a"
  shows "dlist h' q xs"
  using assms dseg_cong [of xs h' h] by (auto simp: dlist_def)

lemma set_prev_eq: "h a = Some n \<Longrightarrow> set_prev h a v = Some (h(a \<mapsto> n\<lparr>d_prev := v\<rparr>))"
  by (simp add: set_prev_def)

lemma set_next_eq: "h a = Some n \<Longrightarrow> set_next h a v = Some (h(a \<mapsto> n\<lparr>d_next := v\<rparr>))"
  by (simp add: set_next_def)

lemmas link_simps = set_prev_eq set_next_eq dseg_append dseg_frame hd_or_append last_or_append

theorem dl_append_dlist:
  assumes "dlist h q xs" and "a \<notin> set xs" and "h a \<noteq> None"
  obtains h' where
    "dl_append h q a = Some (h', q\<lparr>dq_head := hd_or xs (Some a), dq_tail := Some a\<rparr>)"
    "dlist h' (q\<lparr>dq_head := hd_or xs (Some a), dq_tail := Some a\<rparr>) (xs @ [a])"
    "\<And>x. x \<noteq> a \<Longrightarrow> x \<notin> set xs \<Longrightarrow> h' x = h x"
    "dom h' = dom h"
proof -
  obtain np nn where n: "h a = Some \<lparr>d_prev = np, d_next = nn\<rparr>"
    using assms(3) by (metis dnode.cases not_None_eq)
  show thesis
  proof (cases xs rule: rev_cases)
    case Nil
    define h' where "h' = h(a \<mapsto> \<lparr>d_prev = None, d_next = None\<rparr>)"
    have "dl_append h q a = Some (h', q\<lparr>dq_head := hd_or xs (Some a), dq_tail := Some a\<rparr>)"
      using assms(1) Nil n by (simp add: dl_append_def dlist_def link_simps h'_def)
    then show thesis by (rule that) (use Nil n in \<open>auto simp: dlist_def h'_def\<close>)
  next
    case (snoc ys y)
    define h' where "h' = h(a \<mapsto> \<lparr>d_prev = Some y, d_next = None\<rparr>,
      y \<mapsto> \<lparr>d_prev = last_or None ys, d_next = Some a\<rparr>)"
    have y: "h y = Some \<lparr>d_prev = last_or None ys, d_next = None\<rparr>" "y \<noteq> a" "y \<notin> set ys"
      and seg: "dseg h None ys (Some y)" "a \<notin> set ys" "distinct ys"
      and t: "dq_tail q = Some y" "dq_head q = hd_or ys (Some y)"
      using assms(1,2) snoc by (auto simp: dlist_def link_simps)
    have q: "q\<lparr>dq_tail := Some a\<rparr> = q\<lparr>dq_head := hd_or xs (Some a), dq_tail := Some a\<rparr>"
      using t snoc by (simp add: hd_or_append)
    have "dl_append h q a = Some (h', q\<lparr>dq_tail := Some a\<rparr>)"
      using n y t by (auto simp: dl_append_def link_simps h'_def)
    then have "dl_append h q a = Some (h', q\<lparr>dq_head := hd_or xs (Some a), dq_tail := Some a\<rparr>)"
      unfolding q .
    then show thesis
      by (rule that) (use n y snoc seg t in \<open>auto simp: dlist_def link_simps h'_def\<close>)
  qed
qed

theorem dl_remove_dlist:
  assumes "dlist h q (as @ a # bs)"
  obtains h' q' where
    "dl_remove h q a = Some (1, h', q')"
    "dlist h' q' (as @ bs)"
    "h' a = Some \<lparr>d_prev = None, d_next = None\<rparr>"
    "\<And>x. x \<noteq> a \<Longrightarrow> x \<notin> set as \<Longrightarrow> x \<notin> set bs \<Longrightarrow> h' x = h x"
    "dom h' = dom h"
    "dq.more q' = dq.more q"
proof -
  define e where "e = \<lparr>d_prev = None, d_next = None :: nat option\<rparr>"
  have d: "distinct as" "distinct bs" "a \<notin> set as" "a \<notin> set bs" "set as \<inter> set bs = {}"
    and a: "h a = Some \<lparr>d_prev = last_or None as, d_next = hd_or bs None\<rparr>"
    and seg: "dseg h None as (Some a)" "dseg h (Some a) bs None"
    and ht: "dq_head q = hd_or as (Some a)" "dq_tail q = last_or (Some a) bs"
    using assms by (auto simp: dlist_def link_simps)
  show thesis
  proof (cases as rule: rev_cases; cases bs)
    assume as: "as = []" and bs: "bs = []"
    have "dl_remove h q a = Some (1, h(a \<mapsto> e), q\<lparr>dq_head := None, dq_tail := None\<rparr>)"
      using a ht as bs by (simp add: dl_remove_def link_simps e_def)
    then show thesis
      by (rule that) (use a as bs in \<open>auto simp: dlist_def e_def\<close>)
  next
    fix b bs' assume as: "as = []" and bs: "bs = b # bs'"
    define h' where "h' = h(b \<mapsto> \<lparr>d_prev = None, d_next = hd_or bs' None\<rparr>, a \<mapsto> e)"
    have b: "h b = Some \<lparr>d_prev = Some a, d_next = hd_or bs' None\<rparr>" "a \<noteq> b" "a \<notin> set bs'" "b \<notin> set bs'"
      using seg d bs by auto
    have "last_or (Some b) bs' \<noteq> Some a" using b by (auto simp: last_or_def split: if_splits)
    then have "dl_remove h q a = Some (1, h', q\<lparr>dq_head := Some b\<rparr>)"
      using a b ht as bs by (auto simp: dl_remove_def link_simps h'_def e_def)
    then show thesis
      by (rule that) (use a b as bs seg d ht in \<open>auto simp: dlist_def e_def h'_def link_simps\<close>)
  next
    fix as' p assume as: "as = as' @ [p]" and bs: "bs = []"
    define h' where "h' = h(p \<mapsto> \<lparr>d_prev = last_or None as', d_next = None\<rparr>, a \<mapsto> e)"
    have p: "h p = Some \<lparr>d_prev = last_or None as', d_next = Some a\<rparr>" "a \<noteq> p" "a \<notin> set as'" "p \<notin> set as'"
      using seg d as by (auto simp: link_simps)
    have "hd_or as' (Some p) \<noteq> Some a" using p by (auto simp: hd_or_def split: list.splits)
    then have "dl_remove h q a = Some (1, h', q\<lparr>dq_tail := Some p\<rparr>)"
      using a p ht as bs by (auto simp: dl_remove_def link_simps h'_def e_def)
    then show thesis
      by (rule that) (use a p as bs seg d ht in \<open>auto simp: dlist_def e_def h'_def link_simps\<close>)
  next
    fix as' p b bs' assume as: "as = as' @ [p]" and bs: "bs = b # bs'"
    define h' where "h' = h(p \<mapsto> \<lparr>d_prev = last_or None as', d_next = Some b\<rparr>,
      b \<mapsto> \<lparr>d_prev = Some p, d_next = hd_or bs' None\<rparr>, a \<mapsto> e)"
    have p: "h p = Some \<lparr>d_prev = last_or None as', d_next = Some a\<rparr>" "a \<noteq> p" "a \<notin> set as'" "p \<notin> set as'"
      using seg d as by (auto simp: link_simps)
    have b: "h b = Some \<lparr>d_prev = Some a, d_next = hd_or bs' None\<rparr>" "a \<noteq> b" "a \<notin> set bs'" "b \<notin> set bs'"
      using seg d bs by auto
    have pb: "p \<noteq> b" "p \<notin> set bs'" "b \<notin> set as'" using d as bs by auto
    have hd: "hd_or as' (Some p) \<noteq> Some a" using p by (auto simp: hd_or_def split: list.splits)
    have tl: "last_or (Some b) bs' \<noteq> Some a" using b by (auto simp: last_or_def split: if_splits)
    have ne: "hd_or as' (Some p) \<noteq> last_or (Some b) bs'"
      using d as bs by (auto simp: hd_or_def last_or_def split: list.splits if_splits)
    have "dl_remove h q a = Some (1, h', q)"
      using a p b pb hd tl ne ht as bs
      by (auto simp: dl_remove_def link_simps h'_def e_def)
    then show thesis
      by (rule that) (use a p b pb as bs seg d ht in \<open>auto simp: dlist_def e_def h'_def link_simps\<close>)
  qed
qed

lemma dseg_unique:
  "dseg h p xs None \<Longrightarrow> dseg h p' ys None \<Longrightarrow> hd_or xs None = hd_or ys None \<Longrightarrow> xs = ys"
proof (induction xs arbitrary: p p' ys)
  case Nil
  then show ?case by (cases ys) auto
next
  case (Cons x xs)
  then obtain ys' where "ys = x # ys'" by (cases ys) auto
  with Cons.prems Cons.IH [of "Some x" "Some x" ys'] show ?case by auto
qed

lemma dlist_unique: "dlist h q xs \<Longrightarrow> dlist h q ys \<Longrightarrow> xs = ys"
  using dseg_unique [of h None xs None ys] by (auto simp: dlist_def)

lemma dlist_alloc: "dlist h q xs \<Longrightarrow> set xs \<subseteq> dom h"
  using dseg_alloc [of h None xs None] by (auto simp: dlist_def)

lemma dlist_more_cong: "dq_head q' = dq_head q \<Longrightarrow> dq_tail q' = dq_tail q \<Longrightarrow> dlist h q' xs = dlist h q xs"
  by (simp add: dlist_def)

text \<open>The routine does not look for its argument: a queue of one cell loses that cell.\<close>

lemma dl_remove_stranger:
  assumes "dlist h q [b]" and "a \<noteq> b" and "h a \<noteq> None"
  obtains h' q' where "dl_remove h q a = Some (1, h', q')" and "dlist h' q' []"
proof -
  obtain pa na where "h a = Some \<lparr>d_prev = pa, d_next = na\<rparr>"
    using assms(3) by (metis dnode.cases not_None_eq)
  then have "dl_remove h q a = Some (1, h(a \<mapsto> \<lparr>d_prev = None, d_next = None\<rparr>),
      q\<lparr>dq_head := None, dq_tail := None\<rparr>)"
    using assms by (simp add: dl_remove_def dlist_def link_simps)
  then show thesis by (rule that) (simp add: dlist_def)
qed

end
