(* ===== verification/Util_Queue.thy ===== *)
theory Util_Queue
  imports DL_Queue
begin

text \<open>
  \<^verbatim>\<open>util_queue.c\<close>: the generic queue, on a store that holds the link fields, the data pointers and
  the test numbers of the allocated nodes; and the message queue and engine list of
  \<^verbatim>\<open>rootless/rootless_ops.c\<close>, which have their own copies of append and remove. The interface
  \<open>counted_queue\<close> is what the users of the three rely on.
\<close>

section \<open>The generic queue\<close>

text \<open>A null data pointer is \<^const>\<open>None\<close>; \<open>qs_fresh\<close> is the address \<^verbatim>\<open>calloc\<close> returns next.\<close>

record 'd qstore =
  qs_links :: dheap
  qs_data :: "nat \<rightharpoonup> 'd option"
  qs_num :: "nat \<rightharpoonup> int"
  qs_fresh :: nat

record gen_queue = dq +
  node_cnt :: int
  q_state :: int

definition Q_ACTIVE :: int where "Q_ACTIVE = 0"
definition Q_NON_ACTIVE :: int where "Q_NON_ACTIVE = 1"

definition free_node :: "'d qstore \<Rightarrow> nat \<Rightarrow> 'd qstore" where
  "free_node s a = s\<lparr>qs_links := (qs_links s)(a := None), qs_data := (qs_data s)(a := None),
     qs_num := (qs_num s)(a := None)\<rparr>"

definition gen_queue_node_new :: "'d qstore \<Rightarrow> 'd option \<Rightarrow> nat \<times> 'd qstore" where
  "gen_queue_node_new s dat =
     (qs_fresh s,
      s\<lparr>qs_links := (qs_links s)(qs_fresh s \<mapsto> \<lparr>d_prev = None, d_next = None\<rparr>),
        qs_data := (qs_data s)(qs_fresh s \<mapsto> dat),
        qs_num := (qs_num s)(qs_fresh s \<mapsto> 0),
        qs_fresh := qs_fresh s + 1\<rparr>)"

text \<open>The data of a node goes with it; the store holds it nowhere else.\<close>

definition gen_queue_node_delete :: "'d qstore \<Rightarrow> nat \<Rightarrow> 'd qstore option" where
  "gen_queue_node_delete s a = do {
     d \<leftarrow> qs_data s a;
     h \<leftarrow> set_next (qs_links s) a None;
     h \<leftarrow> set_prev h a None;
     Some (free_node (s\<lparr>qs_links := h\<rparr>) a) }"

text \<open>The state of the queue is left as it was: the callers allocate it with \<^verbatim>\<open>calloc\<close>.\<close>

definition gen_queue_init :: "gen_queue \<Rightarrow> gen_queue" where
  "gen_queue_init q = q\<lparr>dq_head := None, dq_tail := None, node_cnt := 0\<rparr>"

definition gen_queue_insert_head :: "'d qstore \<Rightarrow> gen_queue \<Rightarrow> nat \<Rightarrow> ('d qstore \<times> gen_queue) option" where
  "gen_queue_insert_head s q node = do {
     h \<leftarrow> set_next (qs_links s) node (dq_head q);
     h \<leftarrow> set_prev h node None;
     h0 \<leftarrow> dq_head q;
     h \<leftarrow> set_prev h h0 (Some node);
     Some (s\<lparr>qs_links := h\<rparr>, q\<lparr>dq_head := Some node, node_cnt := node_cnt q + 1\<rparr>) }"

definition gen_queue_append :: "'d qstore \<Rightarrow> gen_queue \<Rightarrow> nat \<Rightarrow> ('d qstore \<times> gen_queue) option" where
  "gen_queue_append s q node = do {
     (h, q) \<leftarrow> dl_append (qs_links s) q node;
     Some (s\<lparr>qs_links := h\<rparr>, q\<lparr>node_cnt := node_cnt q + 1\<rparr>) }"

text \<open>The first component is the code's return value.\<close>

definition gen_queue_concat ::
  "'d qstore \<Rightarrow> gen_queue \<Rightarrow> gen_queue \<Rightarrow> (int \<times> 'd qstore \<times> gen_queue \<times> gen_queue) option" where
  "gen_queue_concat s q1 q2 =
     (case dq_head q2 of
        None \<Rightarrow> Some (0, s, q1, q2)
      | Some h2 \<Rightarrow> do {
          (h, q1) \<leftarrow>
            (if dq_head q1 = dq_tail q1 then
               (case dq_head q1 of
                  None \<Rightarrow> Some (qs_links s, q1\<lparr>dq_head := Some h2\<rparr>)
                | Some h1 \<Rightarrow> do {
                    h \<leftarrow> set_next (qs_links s) h1 (Some h2);
                    h \<leftarrow> set_prev h h2 (Some h1);
                    Some (h, q1) })
             else do {
               t1 \<leftarrow> dq_tail q1;
               h \<leftarrow> set_next (qs_links s) t1 (Some h2);
               h \<leftarrow> set_prev h h2 (Some t1);
               Some (h, q1) });
          Some (- 1, s\<lparr>qs_links := h\<rparr>,
                q1\<lparr>dq_tail := dq_tail q2, node_cnt := node_cnt q1 + node_cnt q2, q_state := Q_ACTIVE\<rparr>,
                q2\<lparr>dq_head := None, dq_tail := None, node_cnt := 0, q_state := Q_NON_ACTIVE\<rparr>) })"

definition gen_queue_remove ::
  "'d qstore \<Rightarrow> gen_queue \<Rightarrow> nat \<Rightarrow> bool \<Rightarrow> (int \<times> 'd qstore \<times> gen_queue) option" where
  "gen_queue_remove s q node to_free_node = do {
     (ret, h, q) \<leftarrow> dl_remove (qs_links s) q node;
     (if ret = - 1 then Some (ret, s, q)
      else
        (let s = s\<lparr>qs_links := h\<rparr> in
         Some (ret, if to_free_node then free_node s node else s, q\<lparr>node_cnt := node_cnt q - 1\<rparr>))) }"

partial_function (option) gen_queue_clear_loop ::
  "'d qstore \<Rightarrow> gen_queue \<Rightarrow> nat option \<Rightarrow> bool \<Rightarrow> ('d qstore \<times> gen_queue) option" where
  "gen_queue_clear_loop s q cur to_free =
     (case cur of
        None \<Rightarrow> Some (s, q)
      | Some t \<Rightarrow> do {
          n \<leftarrow> qs_links s t;
          (r, s, q) \<leftarrow> gen_queue_remove s q t to_free;
          gen_queue_clear_loop s q (d_next n) to_free })"

definition gen_queue_clear :: "'d qstore \<Rightarrow> gen_queue \<Rightarrow> bool \<Rightarrow> ('d qstore \<times> gen_queue) option" where
  "gen_queue_clear s q to_free = do {
     (s, q) \<leftarrow> gen_queue_clear_loop s q (dq_head q) to_free;
     Some (s, q\<lparr>node_cnt := 0, q_state := - 1\<rparr>) }"

partial_function (option) find_min_loop :: "'d qstore \<Rightarrow> nat option \<Rightarrow> nat option \<Rightarrow> nat option option" where
  "find_min_loop s cur mn =
     (case cur of
        None \<Rightarrow> Some mn
      | Some c \<Rightarrow> do {
          n \<leftarrow> qs_links s c;
          (case d_next n of
             None \<Rightarrow> Some mn
           | Some c2 \<Rightarrow> do {
               m \<leftarrow> mn;
               x \<leftarrow> qs_num s m;
               y \<leftarrow> qs_num s c2;
               find_min_loop s (Some c2) (if x > y then Some c2 else mn) }) })"

definition find_min :: "'d qstore \<Rightarrow> gen_queue \<Rightarrow> nat option option" where
  "find_min s q = find_min_loop s (dq_head q) (dq_head q)"

text \<open>
  Iteration over a queue. The callback sees the whole program state, of which \<open>links_of\<close> projects the
  link fields; the next node is read before the callback runs.
\<close>

partial_function (option) gen_queue_iterate_loop ::
  "('w \<Rightarrow> dheap) \<Rightarrow> (nat \<Rightarrow> 'w \<Rightarrow> 'w option) \<Rightarrow> nat option \<Rightarrow> 'w \<Rightarrow> 'w option" where
  "gen_queue_iterate_loop links_of cb cur w =
     (case cur of
        None \<Rightarrow> Some w
      | Some c \<Rightarrow> do {
          n \<leftarrow> links_of w c;
          w \<leftarrow> cb c w;
          gen_queue_iterate_loop links_of cb (d_next n) w })"

definition gen_queue_iterate ::
  "('w \<Rightarrow> dheap) \<Rightarrow> ('w \<Rightarrow> gen_queue) \<Rightarrow> (nat \<Rightarrow> 'w \<Rightarrow> 'w option) \<Rightarrow> 'w \<Rightarrow> 'w option" where
  "gen_queue_iterate links_of queue_of cb w =
     gen_queue_iterate_loop links_of cb (dq_head (queue_of w)) w"

declare gen_queue_clear_loop.simps [code] find_min_loop.simps [code] gen_queue_iterate_loop.simps [code]

section \<open>The message queue and the engine list\<close>

record queue = dq +
  msg_cnt :: int

definition queue_append :: "dheap \<Rightarrow> queue \<Rightarrow> nat \<Rightarrow> (dheap \<times> queue) option" where
  "queue_append h q msg = do {
     (h, q) \<leftarrow> dl_append h q msg;
     Some (h, q\<lparr>msg_cnt := msg_cnt q + 1\<rparr>) }"

definition queue_remove :: "dheap \<Rightarrow> queue \<Rightarrow> nat \<Rightarrow> (int \<times> dheap \<times> queue) option" where
  "queue_remove h q msg = do {
     (ret, h, q) \<leftarrow> dl_remove h q msg;
     Some (ret, h, if ret = - 1 then q else q\<lparr>msg_cnt := msg_cnt q - 1\<rparr>) }"

record EngineManager = dq +
  engine_cnt :: int
  eng_ever_created :: int

definition engine_manager_new :: EngineManager where
  "engine_manager_new = \<lparr>dq_head = None, dq_tail = None, engine_cnt = 0, eng_ever_created = 0\<rparr>"

definition engine_append :: "dheap \<Rightarrow> EngineManager \<Rightarrow> nat \<Rightarrow> (dheap \<times> EngineManager) option" where
  "engine_append h q eng = do {
     (h, q) \<leftarrow> dl_append h q eng;
     Some (h, q\<lparr>engine_cnt := engine_cnt q + 1\<rparr>) }"

definition engine_remove :: "dheap \<Rightarrow> EngineManager \<Rightarrow> nat \<Rightarrow> (int \<times> dheap \<times> EngineManager) option" where
  "engine_remove h q eng = do {
     (ret, h, q) \<leftarrow> dl_remove h q eng;
     Some (ret, h, if ret = - 1 then q else q\<lparr>engine_cnt := engine_cnt q - 1\<rparr>) }"

section \<open>The contract\<close>

text \<open>
  A store \<open>'s\<close> with the addresses it has allocated, a queue \<open>'q\<close>, and the list a queue stands for
  in a store. Both operations work on the end or on any element of that list, keep the counter,
  and leave every queue alone that shares no address with the one they work on.
\<close>

locale counted_queue =
  fixes enq :: "'s \<Rightarrow> 'q \<Rightarrow> nat \<Rightarrow> ('s \<times> 'q) option"
    and deq :: "'s \<Rightarrow> 'q \<Rightarrow> nat \<Rightarrow> (int \<times> 's \<times> 'q) option"
    and rep :: "'s \<Rightarrow> 'q \<Rightarrow> nat list \<Rightarrow> bool"
    and cnt :: "'q \<Rightarrow> int"
    and alloc :: "'s \<Rightarrow> nat set"
  assumes enq_law: "\<lbrakk>rep s q xs; a \<notin> set xs; a \<in> alloc s\<rbrakk> \<Longrightarrow>
      \<exists>s' q'. enq s q a = Some (s', q') \<and> rep s' q' (xs @ [a]) \<and> alloc s' = alloc s
        \<and> (\<forall>p ys. rep s p ys \<and> set ys \<inter> insert a (set xs) = {} \<longrightarrow> rep s' p ys)"
    and deq_law: "rep s q (as @ a # bs) \<Longrightarrow>
      \<exists>s' q'. deq s q a = Some (1, s', q') \<and> rep s' q' (as @ bs) \<and> alloc s' = alloc s
        \<and> (\<forall>p ys. rep s p ys \<and> set ys \<inter> set (as @ a # bs) = {} \<longrightarrow> rep s' p ys)"
    and cnt_law: "rep s q xs \<Longrightarrow> cnt q = int (length xs)"
    and distinct_law: "rep s q xs \<Longrightarrow> distinct xs"
    and alloc_law: "rep s q xs \<Longrightarrow> set xs \<subseteq> alloc s"
    and rep_unique: "rep s q xs \<Longrightarrow> rep s q ys \<Longrightarrow> xs = ys"
begin

lemma enq_obtain:
  assumes "rep s q xs" and "a \<notin> set xs" and "a \<in> alloc s"
  obtains s' q' where "enq s q a = Some (s', q')" and "rep s' q' (xs @ [a])" and "alloc s' = alloc s"
    and "\<And>p ys. rep s p ys \<Longrightarrow> set ys \<inter> insert a (set xs) = {} \<Longrightarrow> rep s' p ys"
  using enq_law [OF assms] by blast

lemma deq_obtain:
  assumes "rep s q xs" and "a \<in> set xs"
  obtains s' q' where "deq s q a = Some (1, s', q')" and "rep s' q' (remove1 a xs)"
    and "alloc s' = alloc s"
    and "\<And>p ys. rep s p ys \<Longrightarrow> set ys \<inter> set xs = {} \<Longrightarrow> rep s' p ys"
proof -
  from assms(2) obtain as bs where xs: "xs = as @ a # bs" by (meson split_list)
  with distinct_law [OF assms(1)] have "remove1 a xs = as @ bs"
    by (simp add: remove1_append)
  with deq_law [of s q as a bs] assms(1) xs show thesis by (metis that)
qed

text \<open>Moving an element from the front of one queue to the back of another.\<close>

lemma move_obtain:
  assumes "rep s q (as @ a # bs)" and "rep s p ys" and "set ys \<inter> set (as @ a # bs) = {}"
  obtains s1 q1 s2 p2 where "deq s q a = Some (1, s1, q1)" and "enq s1 p a = Some (s2, p2)"
    and "rep s2 q1 (as @ bs)" and "rep s2 p2 (ys @ [a])" and "alloc s2 = alloc s"
    and "cnt q1 + cnt p2 = cnt q + cnt p"
proof -
  have d: "distinct (as @ a # bs)" using distinct_law [OF assms(1)] .
  obtain s1 q1 where 1: "deq s q a = Some (1, s1, q1)" "rep s1 q1 (as @ bs)" "alloc s1 = alloc s"
    "rep s1 p ys"
    using deq_law [OF assms(1)] assms(2,3) by blast
  have a: "a \<in> alloc s1" using alloc_law [OF assms(1)] 1 by auto
  obtain s2 p2 where 2: "enq s1 p a = Some (s2, p2)" "rep s2 p2 (ys @ [a])" "alloc s2 = alloc s1"
    and fr: "\<And>q xs. rep s1 q xs \<Longrightarrow> set xs \<inter> insert a (set ys) = {} \<Longrightarrow> rep s2 q xs"
    using enq_obtain [OF 1(4) _ a] assms(3) by auto
  have "rep s2 q1 (as @ bs)" using fr [OF 1(2)] assms(3) d by auto
  moreover from this 2(2) assms have "cnt q1 + cnt p2 = cnt q + cnt p"
    by (simp add: cnt_law [OF assms(1)] cnt_law [OF assms(2)] cnt_law)
  ultimately show thesis using that 1 2 by simp
qed

end

section \<open>The three queues meet the contract\<close>

definition gq_rep :: "'d qstore \<Rightarrow> gen_queue \<Rightarrow> nat list \<Rightarrow> bool" where
  "gq_rep s q xs \<longleftrightarrow> dlist (qs_links s) q xs \<and> node_cnt q = int (length xs)"

definition mq_rep :: "dheap \<Rightarrow> queue \<Rightarrow> nat list \<Rightarrow> bool" where
  "mq_rep h q xs \<longleftrightarrow> dlist h q xs \<and> msg_cnt q = int (length xs)"

definition eq_rep :: "dheap \<Rightarrow> EngineManager \<Rightarrow> nat list \<Rightarrow> bool" where
  "eq_rep h q xs \<longleftrightarrow> dlist h q xs \<and> engine_cnt q = int (length xs)"

lemma dlist_scheme_simps [simp]:
  "dlist h (q\<lparr>node_cnt := c\<rparr>) xs = dlist h q xs"
  "dlist h (q\<lparr>q_state := st\<rparr>) xs = dlist h q xs"
  "dlist h (m\<lparr>msg_cnt := c\<rparr>) xs = dlist h m xs"
  "dlist h (e\<lparr>engine_cnt := c\<rparr>) xs = dlist h e xs"
  "dlist h (e\<lparr>eng_ever_created := c\<rparr>) xs = dlist h e xs"
  by (simp_all add: dlist_def)

lemma dl_append_frame:
  assumes "dlist h q xs" and "a \<notin> set xs" and "a \<in> dom h"
  obtains h' q' where "dl_append h q a = Some (h', q')" and "dlist h' q' (xs @ [a])"
    and "dom h' = dom h" and "dq.more q' = dq.more q"
    and "\<And>ys (p :: 'y dq_scheme). dlist h p ys \<Longrightarrow> set ys \<inter> insert a (set xs) = {} \<Longrightarrow> dlist h' p ys"
proof -
  from assms(3) have "h a \<noteq> None" by blast
  then obtain h' where h': "dl_append h q a = Some (h', q\<lparr>dq_head := hd_or xs (Some a), dq_tail := Some a\<rparr>)"
    "dlist h' (q\<lparr>dq_head := hd_or xs (Some a), dq_tail := Some a\<rparr>) (xs @ [a])"
    "\<And>x. x \<noteq> a \<Longrightarrow> x \<notin> set xs \<Longrightarrow> h' x = h x" "dom h' = dom h"
    using dl_append_dlist [OF assms(1,2)] by blast
  show thesis
    by (rule that [OF h'(1,2,4)]) (simp, rule dlist_frame, assumption, rule h'(3), auto)
qed

lemma dl_remove_frame:
  assumes "dlist h q (as @ a # bs)"
  obtains h' q' where "dl_remove h q a = Some (1, h', q')" and "dlist h' q' (as @ bs)"
    and "dom h' = dom h" and "dq.more q' = dq.more q"
    and "\<And>ys (p :: 'y dq_scheme). dlist h p ys \<Longrightarrow> set ys \<inter> set (as @ a # bs) = {} \<Longrightarrow> dlist h' p ys"
proof -
  obtain h' q' where h': "dl_remove h q a = Some (1, h', q')" "dlist h' q' (as @ bs)"
    "\<And>x. x \<noteq> a \<Longrightarrow> x \<notin> set as \<Longrightarrow> x \<notin> set bs \<Longrightarrow> h' x = h x" "dom h' = dom h"
    "dq.more q' = dq.more q"
    using dl_remove_dlist [OF assms] by metis
  show thesis
    by (rule that [OF h'(1,2,4,5)]) (rule dlist_frame, assumption, rule h'(3), auto)
qed

lemma more_node_cnt: "dq.more (q'::gen_queue) = dq.more q \<Longrightarrow> node_cnt q' = node_cnt q \<and> q_state q' = q_state q"
  by (cases q; cases q') simp

lemma more_msg_cnt: "dq.more (q'::queue) = dq.more q \<Longrightarrow> msg_cnt q' = msg_cnt q"
  by (cases q; cases q') simp

lemma more_engine_cnt:
  "dq.more (q'::EngineManager) = dq.more q \<Longrightarrow> engine_cnt q' = engine_cnt q \<and> eng_ever_created q' = eng_ever_created q"
  by (cases q; cases q') simp

lemma gen_queue_append_rep:
  assumes "gq_rep s q xs" and "a \<notin> set xs" and "a \<in> dom (qs_links s)"
  obtains s' q' where "gen_queue_append s q a = Some (s', q')" and "gq_rep s' q' (xs @ [a])"
    and "dom (qs_links s') = dom (qs_links s)" and "qs_data s' = qs_data s"
    and "q_state q' = q_state q" and "qs_fresh s' = qs_fresh s"
    and "\<And>p ys. gq_rep s p ys \<Longrightarrow> set ys \<inter> insert a (set xs) = {} \<Longrightarrow> gq_rep s' p ys"
proof -
  have d: "dlist (qs_links s) q xs" "node_cnt q = int (length xs)"
    using assms(1) by (simp_all add: gq_rep_def)
  obtain h' q' where h': "dl_append (qs_links s) q a = Some (h', q')" "dlist h' q' (xs @ [a])"
    "dom h' = dom (qs_links s)" "dq.more q' = dq.more q"
    and fr: "\<And>ys (p :: gen_queue). dlist (qs_links s) p ys \<Longrightarrow> set ys \<inter> insert a (set xs) = {} \<Longrightarrow> dlist h' p ys"
    using dl_append_frame [OF d(1) assms(2,3)] by blast
  have "gen_queue_append s q a = Some (s\<lparr>qs_links := h'\<rparr>, q'\<lparr>node_cnt := node_cnt q' + 1\<rparr>)"
    by (simp add: gen_queue_append_def h'(1))
  then show thesis
    by (rule that) (use h' d fr more_node_cnt [OF h'(4)] in \<open>auto simp: gq_rep_def\<close>)
qed

lemma gen_queue_remove_rep:
  assumes "gq_rep s q (as @ a # bs)"
  obtains s' q' where "gen_queue_remove s q a free = Some (1, s', q')" and "gq_rep s' q' (as @ bs)"
    and "dom (qs_links s') = (if free then dom (qs_links s) - {a} else dom (qs_links s))"
    and "\<And>x. x \<noteq> a \<or> \<not> free \<Longrightarrow> qs_data s' x = qs_data s x"
    and "q_state q' = q_state q" and "qs_fresh s' = qs_fresh s"
    and "\<And>p ys. gq_rep s p ys \<Longrightarrow> set ys \<inter> set (as @ a # bs) = {} \<Longrightarrow> gq_rep s' p ys"
proof -
  have d: "dlist (qs_links s) q (as @ a # bs)" "node_cnt q = int (length (as @ a # bs))"
    using assms(1) by (simp_all add: gq_rep_def)
  obtain h' q' where h': "dl_remove (qs_links s) q a = Some (1, h', q')" "dlist h' q' (as @ bs)"
    "dom h' = dom (qs_links s)" "dq.more q' = dq.more q"
    and fr: "\<And>ys (p :: gen_queue). dlist (qs_links s) p ys \<Longrightarrow> set ys \<inter> set (as @ a # bs) = {} \<Longrightarrow> dlist h' p ys"
    using dl_remove_frame [OF d(1)] by blast
  define s' where "s' = (if free then free_node (s\<lparr>qs_links := h'\<rparr>) a else s\<lparr>qs_links := h'\<rparr>)"
  have links: "qs_links s' x = h' x" if "x \<noteq> a" for x
    using that by (simp add: s'_def free_node_def)
  have "dlist (qs_links s') p ys" if "dlist h' p ys" "a \<notin> set ys" for p :: gen_queue and ys
    using that(1) by (rule dlist_frame) (metis links that(2))
  moreover have "a \<notin> set (as @ bs)" using d(1) by (auto simp: dlist_def)
  ultimately have r: "gq_rep s' (q'\<lparr>node_cnt := node_cnt q' - 1\<rparr>) (as @ bs)"
    and f: "\<And>p ys. gq_rep s p ys \<Longrightarrow> set ys \<inter> set (as @ a # bs) = {} \<Longrightarrow> gq_rep s' p ys"
    using h'(2) d(2) more_node_cnt [OF h'(4)] fr by (auto simp: gq_rep_def)
  have e: "gen_queue_remove s q a free = Some (1, s', q'\<lparr>node_cnt := node_cnt q' - 1\<rparr>)"
    by (simp add: gen_queue_remove_def h'(1) s'_def Let_def)
  show thesis
    by (rule that [OF e r _ _ _ _ f])
      (use h'(3) more_node_cnt [OF h'(4)] in \<open>auto simp: s'_def free_node_def\<close>)
qed

interpretation gq: counted_queue gen_queue_append "\<lambda>s q a. gen_queue_remove s q a False" gq_rep node_cnt
  "\<lambda>s. dom (qs_links s)"
proof unfold_locales
  show "\<exists>s' q'. gen_queue_append s q a = Some (s', q') \<and> gq_rep s' q' (xs @ [a])
      \<and> dom (qs_links s') = dom (qs_links s)
      \<and> (\<forall>p ys. gq_rep s p ys \<and> set ys \<inter> insert a (set xs) = {} \<longrightarrow> gq_rep s' p ys)"
    if "gq_rep s q xs" "a \<notin> set xs" "a \<in> dom (qs_links s)" for s :: "'a qstore" and q xs a
    by (rule gen_queue_append_rep [OF that]) blast
  show "\<exists>s' q'. gen_queue_remove s q a False = Some (1, s', q') \<and> gq_rep s' q' (as @ bs)
      \<and> dom (qs_links s') = dom (qs_links s)
      \<and> (\<forall>p ys. gq_rep s p ys \<and> set ys \<inter> set (as @ a # bs) = {} \<longrightarrow> gq_rep s' p ys)"
    if "gq_rep s q (as @ a # bs)" for s :: "'a qstore" and q as a bs
    by (rule gen_queue_remove_rep [OF that, of False]) auto
  show "xs = ys" if "gq_rep s q xs" "gq_rep s q ys" for s :: "'a qstore" and q xs ys
    using that by (auto simp: gq_rep_def intro: dlist_unique)
qed (auto simp: gq_rep_def dlist_def dest: dseg_alloc)

interpretation mq: counted_queue queue_append queue_remove mq_rep msg_cnt dom
proof unfold_locales
  show "\<exists>h' q'. queue_append h q a = Some (h', q') \<and> mq_rep h' q' (xs @ [a]) \<and> dom h' = dom h
      \<and> (\<forall>p ys. mq_rep h p ys \<and> set ys \<inter> insert a (set xs) = {} \<longrightarrow> mq_rep h' p ys)"
    if r: "mq_rep h q xs" and a: "a \<notin> set xs" "a \<in> dom h" for h q xs a
  proof -
    from r have d: "dlist h q xs" "msg_cnt q = int (length xs)" by (simp_all add: mq_rep_def)
    obtain h' q' where h': "dl_append h q a = Some (h', q')" "dlist h' q' (xs @ [a])"
      "dom h' = dom h" "dq.more q' = dq.more q"
      and fr: "\<And>ys (p :: queue). dlist h p ys \<Longrightarrow> set ys \<inter> insert a (set xs) = {} \<Longrightarrow> dlist h' p ys"
      using dl_append_frame [OF d(1) a] by blast
    then show ?thesis
      using d more_msg_cnt [OF h'(4)] by (auto simp: queue_append_def mq_rep_def)
  qed
  show "\<exists>h' q'. queue_remove h q a = Some (1, h', q') \<and> mq_rep h' q' (as @ bs) \<and> dom h' = dom h
      \<and> (\<forall>p ys. mq_rep h p ys \<and> set ys \<inter> set (as @ a # bs) = {} \<longrightarrow> mq_rep h' p ys)"
    if r: "mq_rep h q (as @ a # bs)" for h q as a bs
  proof -
    from r have d: "dlist h q (as @ a # bs)" "msg_cnt q = int (length (as @ a # bs))"
      by (simp_all add: mq_rep_def)
    obtain h' q' where h': "dl_remove h q a = Some (1, h', q')" "dlist h' q' (as @ bs)"
      "dom h' = dom h" "dq.more q' = dq.more q"
      and fr: "\<And>ys (p :: queue). dlist h p ys \<Longrightarrow> set ys \<inter> set (as @ a # bs) = {} \<Longrightarrow> dlist h' p ys"
      using dl_remove_frame [OF d(1)] by blast
    then show ?thesis
      using d more_msg_cnt [OF h'(4)] by (auto simp: queue_remove_def mq_rep_def)
  qed
  show "xs = ys" if "mq_rep h q xs" "mq_rep h q ys" for h q xs ys
    using that by (auto simp: mq_rep_def intro: dlist_unique)
qed (auto simp: mq_rep_def dlist_def dest: dseg_alloc)

interpretation eq: counted_queue engine_append engine_remove eq_rep engine_cnt dom
proof unfold_locales
  show "\<exists>h' q'. engine_append h q a = Some (h', q') \<and> eq_rep h' q' (xs @ [a]) \<and> dom h' = dom h
      \<and> (\<forall>p ys. eq_rep h p ys \<and> set ys \<inter> insert a (set xs) = {} \<longrightarrow> eq_rep h' p ys)"
    if r: "eq_rep h q xs" and a: "a \<notin> set xs" "a \<in> dom h" for h q xs a
  proof -
    from r have d: "dlist h q xs" "engine_cnt q = int (length xs)" by (simp_all add: eq_rep_def)
    obtain h' q' where h': "dl_append h q a = Some (h', q')" "dlist h' q' (xs @ [a])"
      "dom h' = dom h" "dq.more q' = dq.more q"
      and fr: "\<And>ys (p :: EngineManager). dlist h p ys \<Longrightarrow> set ys \<inter> insert a (set xs) = {} \<Longrightarrow> dlist h' p ys"
      using dl_append_frame [OF d(1) a] by blast
    then show ?thesis
      using d more_engine_cnt [OF h'(4)] by (auto simp: engine_append_def eq_rep_def)
  qed
  show "\<exists>h' q'. engine_remove h q a = Some (1, h', q') \<and> eq_rep h' q' (as @ bs) \<and> dom h' = dom h
      \<and> (\<forall>p ys. eq_rep h p ys \<and> set ys \<inter> set (as @ a # bs) = {} \<longrightarrow> eq_rep h' p ys)"
    if r: "eq_rep h q (as @ a # bs)" for h q as a bs
  proof -
    from r have d: "dlist h q (as @ a # bs)" "engine_cnt q = int (length (as @ a # bs))"
      by (simp_all add: eq_rep_def)
    obtain h' q' where h': "dl_remove h q a = Some (1, h', q')" "dlist h' q' (as @ bs)"
      "dom h' = dom h" "dq.more q' = dq.more q"
      and fr: "\<And>ys (p :: EngineManager). dlist h p ys \<Longrightarrow> set ys \<inter> set (as @ a # bs) = {} \<Longrightarrow> dlist h' p ys"
      using dl_remove_frame [OF d(1)] by blast
    then show ?thesis
      using d more_engine_cnt [OF h'(4)] by (auto simp: engine_remove_def eq_rep_def)
  qed
  show "xs = ys" if "eq_rep h q xs" "eq_rep h q ys" for h q xs ys
    using that by (auto simp: eq_rep_def intro: dlist_unique)
qed (auto simp: eq_rep_def dlist_def dest: dseg_alloc)

section \<open>The other operations of the generic queue\<close>

lemma gq_rep_D:
  assumes "gq_rep s q xs"
  shows "dlist (qs_links s) q xs" and "node_cnt q = int (length xs)"
  using assms by (simp_all add: gq_rep_def)

lemma dlist_node:
  assumes "dlist h q (as @ a # bs)"
  shows "h a = Some \<lparr>d_prev = last_or None as, d_next = hd_or bs None\<rparr>"
  using assms by (simp add: dlist_def dseg_append)

lemma dlist_head: "dlist h q xs \<Longrightarrow> dq_head q = hd_or xs None"
  by (simp add: dlist_def)

lemma gen_queue_init_rep: "gq_rep s (gen_queue_init q) []"
  by (simp add: gq_rep_def gen_queue_init_def dlist_def)

lemma gen_queue_insert_head_empty:
  "gq_rep s q [] \<Longrightarrow> gen_queue_insert_head s q a = None"
  by (auto simp: gen_queue_insert_head_def gq_rep_def dlist_empty Option.bind_eq_None_conv)

lemma gen_queue_insert_head_rep:
  assumes "gq_rep s q (x # xs)" and "a \<notin> set (x # xs)" and "a \<in> dom (qs_links s)"
  obtains s' q' where "gen_queue_insert_head s q a = Some (s', q')" and "gq_rep s' q' (a # x # xs)"
proof -
  obtain pa na where a: "qs_links s a = Some \<lparr>d_prev = pa, d_next = na\<rparr>"
    using assms(3) by (metis dnode.cases domD)
  note d = gq_rep_D [OF assms(1)]
  define h where "h = (qs_links s)(a \<mapsto> \<lparr>d_prev = None, d_next = Some x\<rparr>,
    x \<mapsto> \<lparr>d_prev = Some a, d_next = hd_or xs None\<rparr>)"
  have "gen_queue_insert_head s q a =
      Some (s\<lparr>qs_links := h\<rparr>, q\<lparr>dq_head := Some a, node_cnt := node_cnt q + 1\<rparr>)"
    using a d assms(2) by (auto simp: gen_queue_insert_head_def dlist_def link_simps h_def)
  then show thesis
    by (rule that) (use a d assms(2) in \<open>auto simp: gq_rep_def dlist_def h_def link_simps last_or_def\<close>)
qed

lemma gen_queue_concat_empty: "gq_rep s q2 [] \<Longrightarrow> gen_queue_concat s q1 q2 = Some (0, s, q1, q2)"
  by (simp add: gen_queue_concat_def gq_rep_def dlist_empty)

lemma gen_queue_concat_rep:
  assumes "gq_rep s q1 xs" and "gq_rep s q2 (y # ys)" and "set xs \<inter> set (y # ys) = {}"
  obtains s' q1' q2' where "gen_queue_concat s q1 q2 = Some (- 1, s', q1', q2')"
    and "gq_rep s' q1' (xs @ y # ys)" and "gq_rep s' q2' []"
    and "q_state q1' = Q_ACTIVE" and "q_state q2' = Q_NON_ACTIVE"
proof -
  note d1 = gq_rep_D [OF assms(1)] and d2 = gq_rep_D [OF assms(2)]
  define q1' where "q1' = q1\<lparr>dq_head := hd_or xs (Some y), dq_tail := dq_tail q2,
    node_cnt := node_cnt q1 + node_cnt q2, q_state := Q_ACTIVE\<rparr>"
  define q2' where "q2' = q2\<lparr>dq_head := None, dq_tail := None, node_cnt := 0, q_state := Q_NON_ACTIVE\<rparr>"
  have q2': "gq_rep s' q2' []" "q_state q2' = Q_NON_ACTIVE" for s' :: "'a qstore"
    by (simp_all add: q2'_def gq_rep_def dlist_def)
  have q1': "q_state q1' = Q_ACTIVE" by (simp add: q1'_def)
  show thesis
  proof (cases xs rule: rev_cases)
    case Nil
    have "gen_queue_concat s q1 q2 = Some (- 1, s, q1', q2')"
      using d1 d2 Nil by (simp add: gen_queue_concat_def dlist_def q1'_def q2'_def)
    then show thesis
      by (rule that [OF _ _ q2'(1) q1' q2'(2)]) (use d1 d2 Nil in \<open>auto simp: gq_rep_def dlist_def q1'_def\<close>)
  next
    case (snoc zs z)
    define h where "h = (qs_links s)(z \<mapsto> \<lparr>d_prev = last_or None zs, d_next = Some y\<rparr>,
      y \<mapsto> \<lparr>d_prev = Some z, d_next = hd_or ys None\<rparr>)"
    have zy: "z \<noteq> y" "z \<notin> set zs" "z \<notin> set ys" "y \<notin> set zs" "y \<notin> set ys"
      using assms(3) d1(1) d2(1) snoc by (auto simp: dlist_def)
    have z: "qs_links s z = Some \<lparr>d_prev = last_or None zs, d_next = None\<rparr>"
      and y: "qs_links s y = Some \<lparr>d_prev = None, d_next = hd_or ys None\<rparr>"
      and t: "dq_tail q1 = Some z" "dq_head q1 = hd_or xs (Some y)" "dq_head q2 = Some y"
      using d1(1) d2(1) snoc by (auto simp: dlist_def link_simps)
    have "gen_queue_concat s q1 q2 = Some (- 1, s\<lparr>qs_links := h\<rparr>, q1', q2')"
      using t z y zy by (auto simp: gen_queue_concat_def link_simps h_def q1'_def q2'_def)
    moreover have "gq_rep (s\<lparr>qs_links := h\<rparr>) q1' (xs @ y # ys)"
      using d1 d2 snoc z y zy assms(3)
      by (auto simp: gq_rep_def dlist_def link_simps h_def q1'_def)
    ultimately show thesis by (intro that [OF _ _ q2'(1) q1' q2'(2)])
  qed
qed

lemma gen_queue_clear_loop_rep:
  assumes "gq_rep s q xs"
  shows "\<exists>s' q'. gen_queue_clear_loop s q (dq_head q) free = Some (s', q') \<and> gq_rep s' q' []
    \<and> dom (qs_links s') = (if free then dom (qs_links s) - set xs else dom (qs_links s))"
  using assms
proof (induction xs arbitrary: s q)
  case Nil
  then show ?case
    by (subst gen_queue_clear_loop.simps) (simp add: gq_rep_def dlist_empty)
next
  case (Cons x xs)
  note d = gq_rep_D [OF Cons.prems]
  have x: "qs_links s x = Some \<lparr>d_prev = None, d_next = hd_or xs None\<rparr>" "dq_head q = Some x"
    using d(1) by (auto simp: dlist_def)
  have "gq_rep s q ([] @ x # xs)" using Cons.prems by simp
  then obtain s' q' where r: "gen_queue_remove s q x free = Some (1, s', q')" "gq_rep s' q' xs"
    "dom (qs_links s') = (if free then dom (qs_links s) - {x} else dom (qs_links s))"
    by (rule gen_queue_remove_rep [where free = free]) (rule that, simp_all)
  from Cons.IH [OF r(2)] dlist_head [OF gq_rep_D(1) [OF r(2)]] r x show ?case
    by (subst gen_queue_clear_loop.simps) auto
qed

lemma gen_queue_clear_rep:
  assumes "gq_rep s q xs"
  obtains s' q' where "gen_queue_clear s q free = Some (s', q')" and "gq_rep s' q' []"
    and "q_state q' = - 1"
    and "dom (qs_links s') = (if free then dom (qs_links s) - set xs else dom (qs_links s))"
  using gen_queue_clear_loop_rep [OF assms, of free]
  by (fastforce simp: gen_queue_clear_def gq_rep_def dlist_def)

lemma find_min_loop_rep:
  assumes "dlist (qs_links s) q (as @ c # bs)" and "\<And>x. x \<in> set (m # c # bs) \<Longrightarrow> qs_num s x \<noteq> None"
  shows "\<exists>m'. find_min_loop s (Some c) (Some m) = Some (Some m') \<and> m' \<in> set (m # bs)
    \<and> (\<forall>x\<in>set (m # bs). the (qs_num s m') \<le> the (qs_num s x))"
  using assms
proof (induction bs arbitrary: as c m)
  case Nil
  then show ?case by (subst find_min_loop.simps) (simp add: dlist_node [OF Nil(1)])
next
  case (Cons b bs)
  obtain u v where uv: "qs_num s m = Some u" "qs_num s b = Some v"
    using Cons.prems(2) [of m] Cons.prems(2) [of b] by auto
  define k where "k = (if u > v then b else m)"
  have "\<exists>m'. find_min_loop s (Some b) (Some k) = Some (Some m') \<and> m' \<in> set (k # bs)
    \<and> (\<forall>x\<in>set (k # bs). the (qs_num s m') \<le> the (qs_num s x))"
    by (rule Cons.IH [of "as @ [c]"]) (use Cons.prems k_def in auto)
  moreover have "find_min_loop s (Some c) (Some m) = find_min_loop s (Some b) (Some k)"
    by (subst find_min_loop.simps) (simp add: dlist_node [OF Cons.prems(1)] uv k_def)
  ultimately show ?case using uv by (fastforce simp: k_def split: if_splits)
qed

text \<open>
  Iteration with a callback that may change anything but the links of the nodes still to come.
\<close>

lemma gen_queue_iterate_loop_rule:
  assumes "\<And>ds x rs w. I ds (x # rs) w \<Longrightarrow>
      (\<exists>n w'. links_of w x = Some n \<and> d_next n = hd_or rs None \<and> cb x w = Some w' \<and> I (ds @ [x]) rs w')"
    and "I ds rs w"
  shows "\<exists>w'. gen_queue_iterate_loop links_of cb (hd_or rs None) w = Some w' \<and> I (ds @ rs) [] w'"
  using assms(2)
proof (induction rs arbitrary: ds w)
  case Nil
  then show ?case by (subst gen_queue_iterate_loop.simps) simp
next
  case (Cons x rs)
  obtain n w' where s: "links_of w x = Some n" "d_next n = hd_or rs None" "cb x w = Some w'" "I (ds @ [x]) rs w'"
    using assms(1) [OF Cons.prems] by blast
  then show ?case using Cons.IH [OF s(4)] by (subst gen_queue_iterate_loop.simps) simp
qed

end
