(* ===== verification/Bytes.thy ===== *)
theory Bytes
  imports Prelude
begin

text \<open>
  Values in byte buffers. The code writes a scalar through a cast pointer
  (\<^verbatim>\<open>*(size_t*)cur = x\<close>) and advances the pointer by the size of its type; a reader does the
  same. A buffer is a list of bytes, a scalar is its little-endian image (the layout of the LP64
  hosts the code runs on), and a read past the end of the buffer is \<^const>\<open>None\<close>.
\<close>

fun bytes_of :: "nat \<Rightarrow> int \<Rightarrow> byte list" where
  "bytes_of 0 i = []"
| "bytes_of (Suc n) i = word_of_int i # bytes_of n (i div 256)"

fun int_of_bytes :: "byte list \<Rightarrow> int" where
  "int_of_bytes [] = 0"
| "int_of_bytes (b # bs) = uint b + 256 * int_of_bytes bs"

definition put_int :: "c_int \<Rightarrow> byte list" where
  "put_int w = bytes_of 4 (uint w)"

definition put_ulong :: "c_ulong \<Rightarrow> byte list" where
  "put_ulong w = bytes_of 8 (uint w)"

definition get_bytes :: "nat \<Rightarrow> byte list \<Rightarrow> (byte list \<times> byte list) option" where
  "get_bytes n bs = (if n \<le> length bs then Some (take n bs, drop n bs) else None)"

definition get_int :: "byte list \<Rightarrow> (c_int \<times> byte list) option" where
  "get_int bs = do { (x, r) \<leftarrow> get_bytes 4 bs; Some (word_of_int (int_of_bytes x), r) }"

definition get_ulong :: "byte list \<Rightarrow> (c_ulong \<times> byte list) option" where
  "get_ulong bs = do { (x, r) \<leftarrow> get_bytes 8 bs; Some (word_of_int (int_of_bytes x), r) }"

text \<open>\<^verbatim>\<open>memcpy\<close> of \<open>n\<close> bytes out of a buffer.\<close>

definition memcpy_from :: "byte list \<Rightarrow> nat \<Rightarrow> byte list option" where
  "memcpy_from bs n = (if n \<le> length bs then Some (take n bs) else None)"

lemma length_bytes_of [simp]: "length (bytes_of n i) = n"
  by (induction n arbitrary: i) auto

lemma int_of_bytes_of: "int_of_bytes (bytes_of n i) = i mod 256 ^ n"
proof (induction n arbitrary: i)
  case (Suc n)
  have "uint (word_of_int i :: byte) = i mod 256" by (simp add: uint_word_of_int)
  with Suc show ?case by (simp add: mod_mult2_eq' [of i 256 "256 ^ n"] zmod_zmult2_eq ac_simps)
qed simp

lemma length_put_int [simp]: "length (put_int w) = 4"
  by (simp add: put_int_def)

lemma length_put_ulong [simp]: "length (put_ulong w) = 8"
  by (simp add: put_ulong_def)

lemma get_bytes_append [codec_simps]: "length xs = n \<Longrightarrow> get_bytes n (xs @ ys) = Some (xs, ys)"
  by (simp add: get_bytes_def)

lemma get_int_put [codec_simps]: "get_int (put_int w @ r) = Some (w, r)"
proof -
  have "uint w mod 256 ^ 4 = uint w" using uint_lt2p [of w] by (simp add: mod_pos_pos_trivial)
  then show ?thesis
    by (simp add: get_int_def get_bytes_append int_of_bytes_of put_int_def)
qed

lemma get_ulong_put [codec_simps]: "get_ulong (put_ulong w @ r) = Some (w, r)"
proof -
  have "uint w mod 256 ^ 8 = uint w" using uint_lt2p [of w] by (simp add: mod_pos_pos_trivial)
  then show ?thesis
    by (simp add: get_ulong_def get_bytes_append int_of_bytes_of put_ulong_def)
qed

lemma memcpy_from_all [codec_simps]: "length xs = n \<Longrightarrow> memcpy_from (xs @ ys) n = Some xs"
  by (simp add: memcpy_from_def)

lemma memcpy_from_exact [codec_simps]: "length xs = n \<Longrightarrow> memcpy_from xs n = Some xs"
  by (simp add: memcpy_from_def)

lemma get_bytes_short: "length bs < n \<Longrightarrow> get_bytes n bs = None"
  by (simp add: get_bytes_def)

lemma get_int_SomeD: "get_int bs = Some (w, r) \<Longrightarrow> length bs = 4 + length r"
  by (auto simp: get_int_def get_bytes_def split: if_splits)

lemma get_ulong_SomeD: "get_ulong bs = Some (w, r) \<Longrightarrow> length bs = 8 + length r"
  by (auto simp: get_ulong_def get_bytes_def split: if_splits)

text \<open>The size of a header and of data that exists in memory does not wrap around.\<close>

lemma size_no_wrap:
  fixes len :: c_ulong
  assumes "unat len < 2 ^ 63"
  shows "unat (32 + len) = 32 + unat len"
proof -
  have "unat (32 + len) = (32 + unat len) mod 2 ^ 64" by (simp add: unat_word_ariths)
  then show ?thesis using assms by simp
qed

end
