(* ===== verification/Skip_Ring.thy ===== *)
theory Skip_Ring
  imports Prelude
begin

text \<open>
  The skip ring of \<^verbatim>\<open>rootless/rootless_ops.c\<close>: the level of a rank, its wall, the send list that
  \<^verbatim>\<open>bcomm_init\<close> computes from them, and the routines that decide where a rank forwards a
  message. Ranks, levels and world sizes are \<^verbatim>\<open>int\<close> in the code and \<^typ>\<open>int\<close> here.
\<close>

unbundle bit_operations_syntax

section \<open>Level of a rank\<close>

text \<open>The loop of \<^verbatim>\<open>is_powerof2\<close> never ends on 0; \<^const>\<open>None\<close> is that case.\<close>

partial_function (option) powerof2_loop :: "int \<Rightarrow> int option" where
  "powerof2_loop n = (if n \<noteq> 1 \<and> n mod 2 = 0 then powerof2_loop (n div 2) else Some n)"

declare powerof2_loop.simps [code]

definition is_powerof2 :: "int \<Rightarrow> int option" where
  "is_powerof2 n = do { m \<leftarrow> powerof2_loop n; Some (if m = 1 then 1 else 0) }"

text \<open>\<^verbatim>\<open>(int) log2(n)\<close> of the C library, for \<open>n \<ge> 1\<close>.\<close>

function floor_log2 :: "int \<Rightarrow> int" where
  "floor_log2 n = (if n < 2 then 0 else 1 + floor_log2 (n div 2))"
  by pat_completeness auto
termination
  by (relation "measure nat") auto

declare floor_log2.simps [simp del]

text \<open>The counting loop of \<^verbatim>\<open>get_level\<close>: \<^verbatim>\<open>while (rank != 0 && (rank & 1) == 0)\<close>.\<close>

function level_loop :: "int \<Rightarrow> nat" where
  "level_loop rank =
     (if rank \<noteq> 0 \<and> rank AND 1 = 0 then Suc (level_loop (rank div 2)) else 0)"
  by pat_completeness auto
termination
  by (relation "measure (\<lambda>r. nat \<bar>r\<bar>)") (auto simp: and_one_eq)

declare level_loop.simps [simp del]

definition get_level :: "int \<Rightarrow> int \<Rightarrow> int option" where
  "get_level world_size rank =
     (if rank = 0 then do {
        p \<leftarrow> is_powerof2 world_size;
        Some (if p \<noteq> 0 then floor_log2 world_size - 1 else floor_log2 world_size) }
      else Some (int (level_loop rank)))"

text \<open>
  \<^verbatim>\<open>last_wall\<close> runs over \<^verbatim>\<open>u = 1, 2, 4, ...\<close> below \<open>2 ^ 30\<close>; the loop variable is kept as the
  exponent \<open>k\<close> of \<open>u = 2 ^ k\<close>, an unsigned 32-bit word.
\<close>

function last_wall_loop :: "nat \<Rightarrow> c_int \<Rightarrow> c_int" where
  "last_wall_loop k w =
     (if k < 30 then
        (let u = push_bit k 1 in
         if u AND w \<noteq> 0 then w XOR u else last_wall_loop (Suc k) w)
      else 0)"
  by pat_completeness auto
termination
  by (relation "measure (\<lambda>(k, w). 30 - k)") auto

declare last_wall_loop.simps [simp del]

definition last_wall :: "int \<Rightarrow> int" where
  "last_wall rank = sint (last_wall_loop 0 (word_of_int rank))"

section \<open>The communicator and its send list\<close>

record bcomm =
  my_rank :: int
  world_size :: int
  msg_size_max :: int
  my_level :: int
  bc_last_wall :: int
  world_is_power_of_2 :: int
  send_channel_cnt :: int
  send_list_len :: int
  send_list :: "int list"
  bcast_send_cnt :: int
  my_bcast_cnt :: int
  bcast_recv_cnt :: int

definition RLO_MSG_SIZE_MAX :: int where
  "RLO_MSG_SIZE_MAX = 32768"

text \<open>
  The loop over the destinations when the world size is not a power of two. It stops at the
  first destination beyond the last rank and replaces it by rank 0. The list holds the entries
  written so far.
\<close>

fun send_list_loop :: "int \<Rightarrow> int \<Rightarrow> int \<Rightarrow> int list \<Rightarrow> nat list \<Rightarrow> int \<times> int list" where
  "send_list_loop ws rank scc dests [] = (scc, dests)"
| "send_list_loop ws rank scc dests (i # is) =
     (let send_dest = rank + 2 ^ i in
      if send_dest \<ge> ws then
        (if rank = ws - 1 then (0, [0]) else (int i, dests @ [0]))
      else send_list_loop ws rank scc (dests @ [send_dest]) is)"

text \<open>
  \<^verbatim>\<open>bcomm_init\<close> on a communicator of the given size and rank. The C function returns
  \<^verbatim>\<open>NULL\<close> on fewer than two ranks.
\<close>

definition bcomm_init :: "int \<Rightarrow> int \<Rightarrow> bcomm option" where
  "bcomm_init ws rank =
     (if ws < 2 then None
      else do {
        level \<leftarrow> get_level ws rank;
        p2 \<leftarrow> is_powerof2 ws;
        let wall = (if rank = 0 then 2 ^ nat level else last_wall rank);
        let len = level + 1;
        let (scc, dests) =
          (if p2 \<noteq> 0 then (level, map (\<lambda>i. (rank + 2 ^ i) mod ws) [0..<nat len])
           else send_list_loop ws rank level [] [0..<nat len]);
        Some \<lparr>my_rank = rank, world_size = ws, msg_size_max = RLO_MSG_SIZE_MAX,
              my_level = level, bc_last_wall = wall, world_is_power_of_2 = p2,
              send_channel_cnt = scc, send_list_len = scc + 1, send_list = dests,
              bcast_send_cnt = 0, my_bcast_cnt = 0, bcast_recv_cnt = 0\<rparr> })"

section \<open>Where a rank sends\<close>

text \<open>True is the code's 1: the destination would be reached past the origin.\<close>

definition check_passed_origin :: "bcomm \<Rightarrow> int \<Rightarrow> int \<Rightarrow> bool" where
  "check_passed_origin b origin to =
     (if to = origin then True
      else if my_rank b \<ge> origin then
        (if to > my_rank b then False
         else \<not> (to \<ge> 0 \<and> to < origin))
      else \<not> (to > my_rank b \<and> to < origin))"

text \<open>
  The destinations of the \<^verbatim>\<open>MPI_Isend\<close> calls of \<^verbatim>\<open>_bc_forward\<close> and of
  \<^verbatim>\<open>RLO_bcast_gen\<close>, in call order (the furthest rank first). Indices are those the
  code uses, so a destination is read from the send list.
\<close>

definition bc_forward_dests :: "bcomm \<Rightarrow> int \<Rightarrow> int \<Rightarrow> int list" where
  "bc_forward_dests b origin src =
     (if my_level b > 0 then
        (if src > bc_last_wall b then
           map (\<lambda>j. send_list b ! j) (rev [0..<nat (send_channel_cnt b + 1)])
         else
           (let upper_bound = send_channel_cnt b - 1 in
            if upper_bound \<ge> 0 then
              filter (\<lambda>d. \<not> check_passed_origin b origin d)
                (map (\<lambda>j. send_list b ! j) (rev [0..<nat (upper_bound + 1)]))
            else []))
      else [])"

definition bcast_dests :: "bcomm \<Rightarrow> int list" where
  "bcast_dests b = map (\<lambda>i. send_list b ! i) (rev [0..<nat (send_list_len b)])"

text \<open>The separate counting loops of \<^verbatim>\<open>fwd_send_cnt\<close>.\<close>

definition fwd_send_cnt :: "bcomm \<Rightarrow> int \<Rightarrow> int \<Rightarrow> int" where
  "fwd_send_cnt b origin from =
     (let send_cnt = 0; upper_bound = send_channel_cnt b - 1 in
      if my_level b > 0 then
        (if from > bc_last_wall b then
           foldl (\<lambda>c j. c + 1) send_cnt (rev [0..<nat (send_channel_cnt b + 1)])
         else if upper_bound \<ge> 0 then
           foldl (\<lambda>c i. if \<not> check_passed_origin b origin (send_list b ! i) then c + 1 else c)
             send_cnt (rev [0..<nat (upper_bound + 1)])
         else send_cnt)
      else send_cnt)"

text \<open>\<^verbatim>\<open>make_pid\<close>: a rank's own proposal id.\<close>

definition make_pid :: "bcomm \<Rightarrow> int" where
  "make_pid b = my_rank b"

section \<open>Closed forms\<close>

lemma powerof2_loop_even: "powerof2_loop (2 * h) = powerof2_loop h"
proof -
  have "2 * h \<noteq> 1" by presburger
  then show ?thesis by (subst powerof2_loop.simps) simp
qed

lemma powerof2_loop_zero: "powerof2_loop 0 = None"
proof -
  have "n \<noteq> 0" if "powerof2_loop n = Some m" for n m
    by (rule powerof2_loop.raw_induct [OF _ that, of "\<lambda>n m. n \<noteq> 0"]) (fastforce split: if_splits)
  then show ?thesis by fastforce
qed

lemma powerof2_loop_odd: "odd n \<Longrightarrow> powerof2_loop n = Some n"
  by (subst powerof2_loop.simps) (auto simp: odd_iff_mod_2_eq_one)

lemma powerof2_loop_mult: "odd q \<Longrightarrow> powerof2_loop (2 ^ l * q) = Some q"
  by (induction l) (simp_all add: powerof2_loop_odd powerof2_loop_even mult.assoc)

lemma level_loop_even: "h \<noteq> 0 \<Longrightarrow> level_loop (2 * h) = Suc (level_loop h)"
  by (subst level_loop.simps) (simp add: and_one_eq)

lemma level_loop_odd: "odd q \<Longrightarrow> level_loop q = 0"
  by (subst level_loop.simps) (simp add: and_one_eq odd_iff_mod_2_eq_one)

lemma odd_part_exists:
  fixes r :: int
  assumes "r \<noteq> 0"
  obtains l q where "odd q" and "r = 2 ^ l * q"
proof -
  have "\<exists>l q. odd q \<and> r = 2 ^ l * q"
    using assms
  proof (induction "nat \<bar>r\<bar>" arbitrary: r rule: less_induct)
    case less
    show ?case
    proof (cases "even r")
      case True
      then obtain h where h: "r = 2 * h" by (auto elim: evenE)
      with less.prems have "nat \<bar>h\<bar> < nat \<bar>r\<bar>" and "h \<noteq> 0" by auto
      from less.hyps [OF this] obtain l q where "odd q" "h = 2 ^ l * q" by auto
      with h have "r = 2 ^ Suc l * q" by simp
      with \<open>odd q\<close> show ?thesis by blast
    next
      case False
      then have "odd r \<and> r = 2 ^ 0 * r" by simp
      then show ?thesis by blast
    qed
  qed
  then show thesis using that by blast
qed

lemma pow2_odd_part:
  assumes "odd (q::int)" and "0 < q" and "2 ^ l * q = 2 ^ k"
  shows "q = 1"
proof -
  show ?thesis
  proof (cases "l \<le> k")
    case True
    then have "(2::int) ^ k = 2 ^ l * 2 ^ (k - l)" by (simp flip: power_add)
    with assms(3) have "q = 2 ^ (k - l)" by simp
    with assms(1) show ?thesis by (cases "k - l") auto
  next
    case False
    then have "(2::int) ^ l = 2 ^ k * 2 ^ (l - k)" by (simp flip: power_add)
    with assms(3) have "2 ^ (l - k) * q = 1" by simp
    then show ?thesis using assms(2) by (simp add: pos_zmult_eq_1_iff)
  qed
qed

lemma is_powerof2_eq [ring_simps]:
  assumes "0 < n"
  shows "is_powerof2 n = Some (if \<exists>k. n = 2 ^ k then 1 else 0)"
proof -
  from assms have "n \<noteq> 0" by simp
  then obtain l q where q: "odd q" "n = 2 ^ l * q" by (rule odd_part_exists)
  with assms have "0 < q" by (simp add: zero_less_mult_iff)
  then have "q = 1 \<longleftrightarrow> (\<exists>k. n = 2 ^ k)"
    using q pow2_odd_part by auto
  then show ?thesis using q by (simp add: is_powerof2_def powerof2_loop_mult)
qed

lemma floor_log2_bounds:
  assumes "1 \<le> n"
  shows "0 \<le> floor_log2 n \<and> 2 ^ nat (floor_log2 n) \<le> n \<and> n < 2 ^ Suc (nat (floor_log2 n))"
  using assms
proof (induction n rule: floor_log2.induct)
  case (1 n)
  show ?case
  proof (cases "n < 2")
    case True
    with "1.prems" show ?thesis by (simp add: floor_log2.simps [of n])
  next
    case False
    define k where "k = nat (floor_log2 (n div 2))"
    from False "1.IH" have IH: "0 \<le> floor_log2 (n div 2)" "2 ^ k \<le> n div 2" "n div 2 < 2 ^ Suc k"
      by (auto simp: k_def)
    from False have "floor_log2 n = 1 + floor_log2 (n div 2)"
      by (simp add: floor_log2.simps [of n])
    with IH(1) have fl: "nat (floor_log2 n) = Suc k" "0 \<le> floor_log2 n"
      by (auto simp: k_def)
    have "2 ^ Suc k \<le> n" using IH(2) by simp
    moreover have "n < 2 ^ Suc (Suc k)" using IH(3) by simp
    ultimately show ?thesis using fl by simp
  qed
qed

lemma floor_log2_eq_log:
  assumes "1 \<le> n"
  shows "floor_log2 n = \<lfloor>log 2 (real_of_int n)\<rfloor>"
proof -
  define k where "k = nat (floor_log2 n)"
  have k: "floor_log2 n = int k" "2 ^ k \<le> n" "n < 2 ^ Suc k"
    using floor_log2_bounds [OF assms] by (auto simp: k_def)
  have "real_of_int (2 ^ k) \<le> real_of_int n" using k(2) by (simp only: of_int_le_iff)
  then have "2 powr real k \<le> real_of_int n" by (simp add: powr_realpow)
  moreover have "real_of_int n < real_of_int (2 ^ Suc k)" using k(3) by (simp only: of_int_less_iff)
  then have "real_of_int n < 2 powr (real k + 1)" by (simp add: powr_add powr_realpow)
  ultimately have "real k \<le> log 2 (real_of_int n)" "log 2 (real_of_int n) < real k + 1"
    using assms by (auto simp: le_log_iff log_less_iff)
  then have "\<lfloor>log 2 (real_of_int n)\<rfloor> = int k" by (intro floor_unique) auto
  with k(1) show ?thesis by simp
qed

lemma level_loop_unique: "odd q \<Longrightarrow> level_loop (2 ^ l * q) = l"
proof (induction l)
  case 0
  then show ?case by (simp add: level_loop_odd)
next
  case (Suc l)
  then have "2 ^ l * q \<noteq> 0" by auto
  with Suc show ?case by (simp add: level_loop_even mult.assoc)
qed

lemma level_loop_decomp:
  assumes "r \<noteq> 0"
  obtains q where "odd q" and "r = 2 ^ level_loop r * q"
proof -
  obtain l q where "odd q" "r = 2 ^ l * q" using assms by (rule odd_part_exists)
  then show thesis using that level_loop_unique [of q l] by simp
qed

lemma level_loop_dvd: "2 ^ level_loop r dvd r"
proof (cases "r = 0")
  case False
  then obtain q where "r = 2 ^ level_loop r * q" by (rule level_loop_decomp)
  then show ?thesis by (metis dvd_triv_left)
qed simp

lemma last_wall_loop_eq:
  fixes r :: int
  assumes "r = 2 ^ l * q" and "odd q" and "k \<le> l" and "l < 30"
  shows "last_wall_loop k (word_of_int r) = word_of_int (r - 2 ^ l)"
  using \<open>k \<le> l\<close>
proof (induction "l - k" arbitrary: k)
  case 0
  then have [simp]: "k = l" by simp
  have b: "bit r l" using assms(1,2)
    by (simp add: push_bit_eq_mult [symmetric] mult.commute bit_push_bit_iff bit_0)
  have "push_bit l 1 AND (word_of_int r :: c_int) \<noteq> 0"
  proof
    assume "push_bit l 1 AND (word_of_int r :: c_int) = 0"
    then have "bit (push_bit l 1 AND (word_of_int r :: c_int)) l = False" by simp
    with b \<open>l < 30\<close> show False by (simp add: bit_simps)
  qed
  moreover have "(word_of_int r :: c_int) XOR push_bit l 1 = word_of_int (r - 2 ^ l)"
  proof -
    have "r XOR push_bit l 1 = r - 2 ^ l"
    proof -
      have "NOT r AND push_bit l 1 = 0" by (rule bit_eqI) (use b in \<open>auto simp: bit_simps\<close>)
      then have "r XOR push_bit l 1 = r - push_bit l 1"
        by (metis disjunctive_diff_eq_and_not disjunctive_diff_eq_xor)
      then show ?thesis by simp
    qed
    then have "word_of_int (r XOR push_bit l 1) = (word_of_int (r - 2 ^ l) :: c_int)" by simp
    then show ?thesis by (simp only: of_int_xor_eq) simp
  qed
  ultimately show ?case using \<open>l < 30\<close> by (simp add: last_wall_loop.simps [of l])
next
  case (Suc d)
  then have "k < l" by simp
  then have nb: "\<not> bit r k"
    using assms(1) by (simp add: push_bit_eq_mult [symmetric] mult.commute bit_push_bit_iff)
  have "push_bit k 1 AND (word_of_int r :: c_int) = 0"
    by (rule bit_eqI) (use nb in \<open>auto simp: bit_simps\<close>)
  with Suc \<open>k < l\<close> \<open>l < 30\<close> show ?case by (simp add: last_wall_loop.simps [of k])
qed

lemma last_wall_eq [ring_simps]:
  assumes "0 < r" and "r < 2 ^ 30"
  shows "last_wall r = r - 2 ^ level_loop r"
proof -
  from assms have "r \<noteq> 0" by simp
  then obtain q where q: "odd q" "r = 2 ^ level_loop r * q" by (rule level_loop_decomp)
  have le: "2 ^ level_loop r \<le> r" using level_loop_dvd [of r] assms by (intro zdvd_imp_le)
  with assms have "(2::int) ^ level_loop r < 2 ^ 30" by linarith
  then have "level_loop r < 30" by (rule power_less_imp_less_exp [rotated]) simp
  with q have "last_wall_loop 0 (word_of_int r) = word_of_int (r - 2 ^ level_loop r)"
    by (intro last_wall_loop_eq [where q = q]) auto
  then have "last_wall r = sint (word_of_int (r - 2 ^ level_loop r) :: c_int)"
    by (simp add: last_wall_def)
  also have "\<dots> = r - 2 ^ level_loop r"
  proof (rule sint_word_of_int_small)
    have "r - 2 ^ level_loop r \<le> r" by simp
    also have "r < 2 ^ 31" using assms by simp
    finally show "r - 2 ^ level_loop r < 2 ^ 31" .
  qed (use le in simp)
  finally show ?thesis .
qed

lemma level_loop_ge:
  assumes "2 ^ l dvd r" and "r \<noteq> 0"
  shows "l \<le> level_loop r"
proof (rule ccontr)
  assume "\<not> l \<le> level_loop r"
  then have "Suc (level_loop r) \<le> l" by simp
  then have "(2::int) ^ Suc (level_loop r) dvd 2 ^ l" by (rule le_imp_power_dvd)
  with assms(1) have "2 ^ Suc (level_loop r) dvd r" by (rule dvd_trans [rotated])
  moreover obtain q where "odd q" "r = 2 ^ level_loop r * q" using assms(2) by (rule level_loop_decomp)
  ultimately have "2 ^ level_loop r * 2 dvd 2 ^ level_loop r * q" by (simp add: mult.commute)
  then have "2 dvd q" by simp
  with \<open>odd q\<close> show False by simp
qed

lemma level_loop_add:
  assumes "2 ^ Suc i dvd r"
  shows "level_loop (r + 2 ^ i) = i"
proof -
  obtain q where "r = 2 ^ Suc i * q" using assms by (elim dvdE)
  then have "r + 2 ^ i = 2 ^ i * (2 * q + 1)" by (simp add: algebra_simps)
  then show ?thesis using level_loop_unique [of "2 * q + 1" i] by simp
qed

lemma level_loop_below:
  assumes "i < level_loop r"
  shows "level_loop (r + 2 ^ i) = i"
proof (rule level_loop_add)
  show "2 ^ Suc i dvd r"
    using level_loop_dvd [of r] assms le_imp_power_dvd [of "Suc i" "level_loop r" "2::int"]
    by (auto intro: dvd_trans)
qed

lemma level_loop_up:
  assumes "0 < r"
  shows "level_loop r < level_loop (r + 2 ^ level_loop r)"
proof -
  from assms have "r \<noteq> 0" by simp
  then obtain q where q: "odd q" "r = 2 ^ level_loop r * q" by (rule level_loop_decomp)
  then have "r + 2 ^ level_loop r = 2 ^ level_loop r * (q + 1)" by (simp add: algebra_simps)
  moreover have "even (q + 1)" using q(1) by simp
  then obtain h where "q + 1 = 2 * h" by (rule evenE)
  ultimately have "2 ^ Suc (level_loop r) dvd r + 2 ^ level_loop r" by simp
  moreover have "r + 2 ^ level_loop r \<noteq> 0" using assms by (simp add: add_pos_pos less_imp_neq [symmetric])
  ultimately have "Suc (level_loop r) \<le> level_loop (r + 2 ^ level_loop r)"
    by (rule level_loop_ge)
  then show ?thesis by simp
qed

section \<open>The send list, uniformly\<close>

text \<open>The level rank 0 gets: one less than the number of bits needed to count the ranks.\<close>

definition top_level :: "int \<Rightarrow> nat" where
  "top_level ws = nat (if \<exists>k. ws = 2 ^ k then floor_log2 ws - 1 else floor_log2 ws)"

definition rank_level :: "int \<Rightarrow> int \<Rightarrow> nat" where
  "rank_level ws r = (if r = 0 then top_level ws else level_loop r)"

lemma floor_log2_pow2: "floor_log2 (2 ^ k) = int k"
proof -
  have b: "0 \<le> floor_log2 (2 ^ k)" "(2::int) ^ nat (floor_log2 (2 ^ k)) \<le> 2 ^ k"
    "(2::int) ^ k < 2 ^ Suc (nat (floor_log2 (2 ^ k)))"
    using floor_log2_bounds [of "2 ^ k"] by auto
  from b(2) have "nat (floor_log2 (2 ^ k)) \<le> k" by (rule power_le_imp_le_exp [rotated]) simp
  moreover from b(3) have "k < Suc (nat (floor_log2 (2 ^ k)))"
    by (rule power_less_imp_less_exp [rotated]) simp
  ultimately show ?thesis using b(1) by linarith
qed

lemma top_level_bounds:
  assumes "2 \<le> ws"
  shows "2 ^ top_level ws < ws" and "ws \<le> 2 ^ Suc (top_level ws)"
proof -
  have "2 ^ top_level ws < ws \<and> ws \<le> 2 ^ Suc (top_level ws)"
  proof (cases "\<exists>k. ws = 2 ^ k")
    case True
    then obtain k where k: "ws = 2 ^ k" by blast
    with assms have "k \<noteq> 0" by (intro notI) simp
    then obtain j where j: "k = Suc j" by (cases k) auto
    have "top_level ws = j" using True k j by (simp add: top_level_def floor_log2_pow2 del: power_Suc)
    with k j show ?thesis by simp
  next
    case False
    then have t: "top_level ws = nat (floor_log2 ws)" by (simp add: top_level_def)
    from False have "ws \<noteq> 2 ^ nat (floor_log2 ws)" by blast
    with floor_log2_bounds [of ws] assms t show ?thesis by simp
  qed
  then show "2 ^ top_level ws < ws" and "ws \<le> 2 ^ Suc (top_level ws)" by auto
qed

lemma get_level_eq [ring_simps]:
  assumes "2 \<le> ws"
  shows "get_level ws r = Some (int (rank_level ws r))"
proof (cases "r = 0")
  case True
  have "0 \<le> floor_log2 ws" using floor_log2_bounds [of ws] assms by simp
  moreover have "1 \<le> floor_log2 ws" if "ws = 2 ^ k" for k
    using that assms by (cases k) (auto simp: floor_log2_pow2 simp del: power_Suc)
  ultimately show ?thesis using True assms
    by (auto simp: get_level_def is_powerof2_eq rank_level_def top_level_def)
qed (simp add: get_level_def rank_level_def)

lemma send_list_loop_links:
  assumes "0 < n" and "j \<le> n" and "\<forall>i<j. r + 2 ^ i < ws" and "r < ws"
  shows "\<exists>k<n. send_list_loop ws r (int (n - 1)) (map (\<lambda>i. r + 2 ^ i) [0..<j]) [j..<n] =
           (int k, map (\<lambda>i. r + 2 ^ i) [0..<k] @ [if r + 2 ^ k < ws then r + 2 ^ k else 0])
         \<and> (\<forall>i<k. r + 2 ^ i < ws) \<and> (k < n - 1 \<longrightarrow> ws \<le> r + 2 ^ k)"
  using assms(2,3)
proof (induction "n - j" arbitrary: j)
  case 0
  then have "j = n" by simp
  moreover from assms(1) obtain m where "n = Suc m" by (cases n) auto
  ultimately show ?case using 0 by (intro exI [of _ m]) auto
next
  case (Suc d)
  then have jn: "j < n" by simp
  then have up: "[j..<n] = j # [Suc j..<n]" by (rule upt_conv_Cons)
  show ?case
  proof (cases "r + 2 ^ j < ws")
    case True
    with Suc have "\<forall>i<Suc j. r + 2 ^ i < ws" by (auto simp: less_Suc_eq)
    with Suc jn have "\<exists>k<n. send_list_loop ws r (int (n - 1)) (map (\<lambda>i. r + 2 ^ i) [0..<Suc j]) [Suc j..<n] =
           (int k, map (\<lambda>i. r + 2 ^ i) [0..<k] @ [if r + 2 ^ k < ws then r + 2 ^ k else 0])
         \<and> (\<forall>i<k. r + 2 ^ i < ws) \<and> (k < n - 1 \<longrightarrow> ws \<le> r + 2 ^ k)"
      by (intro Suc.hyps(1)) auto
    with True show ?thesis by (simp add: up)
  next
    case False
    have "j = 0" if "r = ws - 1"
    proof (rule ccontr)
      assume "j \<noteq> 0"
      with Suc.prems have "r + 2 ^ 0 < ws" by blast
      with that show False by simp
    qed
    with False jn Suc.prems show ?thesis
      by (intro exI [of _ j]) (auto simp: up Let_def)
  qed
qed

text \<open>What \<^verbatim>\<open>bcomm_init\<close> builds for a rank, in one shape for both kinds of world size.\<close>

definition ring_links :: "int \<Rightarrow> int \<Rightarrow> nat \<Rightarrow> bcomm \<Rightarrow> bool" where
  "ring_links ws r k b \<longleftrightarrow>
     my_rank b = r \<and> my_level b = int (rank_level ws r)
   \<and> bc_last_wall b = (if r = 0 then 2 ^ top_level ws else r - 2 ^ level_loop r)
   \<and> send_channel_cnt b = int k \<and> send_list_len b = int k + 1
   \<and> send_list b = map (\<lambda>i. r + 2 ^ i) [0..<k] @ [if r + 2 ^ k < ws then r + 2 ^ k else 0]
   \<and> k \<le> rank_level ws r \<and> (\<forall>i<k. r + 2 ^ i < ws)
   \<and> (k < rank_level ws r \<longrightarrow> ws \<le> r + 2 ^ k)"

lemma rank_level_pow2_bound:
  assumes "2 \<le> ws" and "ws = 2 ^ n" and "0 \<le> r" and "r < ws"
  shows "r + 2 ^ rank_level ws r \<le> ws"
proof (cases "r = 0")
  case True
  with top_level_bounds(1) [OF assms(1)] show ?thesis by (simp add: rank_level_def)
next
  case False
  have "2 ^ level_loop r \<le> r"
    using level_loop_dvd [of r] assms False by (intro zdvd_imp_le) auto
  with assms have "(2::int) ^ level_loop r < 2 ^ n" by linarith
  then have "level_loop r < n" by (rule power_less_imp_less_exp [rotated]) simp
  then have "(2::int) ^ level_loop r dvd ws" using assms(2) by (simp add: le_imp_power_dvd)
  then show ?thesis
    using pow2_le_of_dvd_less [OF level_loop_dvd] assms False by (simp add: rank_level_def)
qed

lemma bcomm_init_links:
  assumes "2 \<le> ws" and "ws \<le> 2 ^ 30" and "0 \<le> r" and "r < ws"
  obtains b k where "bcomm_init ws r = Some b" and "ring_links ws r k b"
proof -
  define l where "l = rank_level ws r"
  have wall: "(if r = 0 then 2 ^ l else last_wall r) =
      (if r = 0 then 2 ^ top_level ws else r - 2 ^ level_loop r)"
    using assms by (auto simp: l_def rank_level_def last_wall_eq)
  have "\<exists>b k. bcomm_init ws r = Some b \<and> ring_links ws r k b"
  proof (cases "\<exists>n. ws = 2 ^ n")
    case True
    then obtain n where n: "ws = 2 ^ n" by blast
    have up: "r + 2 ^ l \<le> ws" unfolding l_def by (rule rank_level_pow2_bound [OF assms(1) n assms(3,4)])
    have below: "r + 2 ^ i < ws" if "i < l" for i
    proof -
      have "(2::int) ^ i < 2 ^ l" using that by simp
      with up show ?thesis by linarith
    qed
    have m: "map (\<lambda>i. (r + 2 ^ i) mod ws) [0..<l] = map (\<lambda>i. r + 2 ^ i) [0..<l]"
      using below assms(3) by (auto intro: mod_pos_pos_trivial)
    have t: "(r + 2 ^ l) mod ws = (if r + 2 ^ l < ws then r + 2 ^ l else 0)"
      using up assms(3) by (auto intro: mod_pos_pos_trivial)
    show ?thesis
      unfolding bcomm_init_def ring_links_def
      using assms True below wall m t
      by (auto simp: get_level_eq is_powerof2_eq Let_def nat_add_distrib simp flip: l_def)
  next
    case False
    obtain k where k: "k < Suc l"
      "send_list_loop ws r (int l) [] [0..<Suc l] =
         (int k, map (\<lambda>i. r + 2 ^ i) [0..<k] @ [if r + 2 ^ k < ws then r + 2 ^ k else 0])"
      "\<forall>i<k. r + 2 ^ i < ws" "k < l \<longrightarrow> ws \<le> r + 2 ^ k"
      using send_list_loop_links [of "Suc l" 0 r ws] assms by auto
    then show ?thesis
      unfolding bcomm_init_def ring_links_def
      using assms False wall
      by (auto simp: get_level_eq is_powerof2_eq Let_def nat_add_distrib simp flip: l_def)
  qed
  then show thesis using that by blast
qed

section \<open>Forwarding\<close>

lemma foldl_count: "foldl (\<lambda>c j. c + 1) (n::int) xs = n + int (length xs)"
  by (induction xs arbitrary: n) auto

lemma foldl_count_if:
  "foldl (\<lambda>c j. if P j then c + 1 else c) (n::int) xs = n + int (length (filter P xs))"
  by (induction xs arbitrary: n) auto

lemma ring_links_simps:
  assumes "ring_links ws r k b"
  shows "my_rank b = r" and "my_level b = int (rank_level ws r)"
    and "send_channel_cnt b = int k" and "send_list_len b = int k + 1"
    and "length (send_list b) = Suc k"
    and "bc_last_wall b = (if r = 0 then 2 ^ top_level ws else r - 2 ^ level_loop r)"
  using assms by (simp_all add: ring_links_def)

lemma ring_links_send_list:
  assumes "ring_links ws r k b"
  shows "send_list b = map (\<lambda>i. r + 2 ^ i) [0..<k] @ [if r + 2 ^ k < ws then r + 2 ^ k else 0]"
  using assms by (simp add: ring_links_def)

lemma nat_int_Suc: "nat (int k + 1) = Suc k"
  by simp

lemma ring_links_bcast_dests:
  assumes "ring_links ws r k b"
  shows "bcast_dests b = rev (send_list b)"
  using map_nth_rev [of "send_list b"]
  by (simp only: bcast_dests_def ring_links_simps [OF assms] nat_int_Suc)

text \<open>An intermediate rank that got the message over an upward link serves all its channels.\<close>

lemma ring_links_forward_up:
  assumes "ring_links ws r k b" and "0 < rank_level ws r" and "bc_last_wall b < src"
  shows "bc_forward_dests b origin src = rev (send_list b)"
proof -
  have "0 < my_level b" using assms(2) by (simp add: ring_links_simps [OF assms(1)])
  then have "bc_forward_dests b origin src =
      map ((!) (send_list b)) (rev [0..<nat (send_channel_cnt b + 1)])"
    using assms(3) by (simp add: bc_forward_dests_def)
  also have "\<dots> = rev (send_list b)"
    using map_nth_rev [of "send_list b"]
    by (simp only: ring_links_simps [OF assms(1)] nat_int_Suc)
  finally show ?thesis .
qed

text \<open>Over a downward link it serves the channels below its top one, short of the origin.\<close>

lemma ring_links_forward_down:
  assumes "ring_links ws r k b" and "0 < rank_level ws r" and "src \<le> bc_last_wall b"
  shows "bc_forward_dests b origin src =
    filter (\<lambda>d. \<not> check_passed_origin b origin d) (rev (map (\<lambda>i. r + 2 ^ i) [0..<k]))"
proof (cases k)
  case 0
  with assms(3) show ?thesis by (simp add: bc_forward_dests_def ring_links_simps [OF assms(1)])
next
  case (Suc m)
  have "map ((!) (send_list b)) (rev [0..<k]) = rev (map (\<lambda>i. r + 2 ^ i) [0..<k])"
    by (simp add: ring_links_send_list [OF assms(1)] rev_map nth_append)
  moreover have "0 < my_level b" using assms(2) by (simp add: ring_links_simps [OF assms(1)])
  moreover have "nat (send_channel_cnt b - 1 + 1) = k" "0 \<le> send_channel_cnt b - 1"
    using Suc by (simp_all add: ring_links_simps [OF assms(1)])
  ultimately show ?thesis using assms(3) by (simp add: bc_forward_dests_def Let_def)
qed

lemma ring_links_forward_leaf:
  assumes "ring_links ws r k b" and "rank_level ws r = 0"
  shows "bc_forward_dests b origin src = []"
  using assms(2) by (simp add: bc_forward_dests_def ring_links_simps [OF assms(1)])

lemma check_passed_origin_above:
  assumes "my_rank b < to"
  shows "check_passed_origin b origin to \<longleftrightarrow> my_rank b < origin \<and> origin \<le> to"
  using assms by (auto simp: check_passed_origin_def)

lemma fwd_send_cnt_length [ring_simps]:
  "fwd_send_cnt b origin src = int (length (bc_forward_dests b origin src))"
  by (simp add: fwd_send_cnt_def bc_forward_dests_def Let_def foldl_count foldl_count_if
      filter_map comp_def)

end
