(* ===== verification/PBuf.thy ===== *)
theory PBuf
  imports Bytes Skip_Ring
begin

text \<open>
  The wire formats of \<^verbatim>\<open>rootless/rootless_ops.c\<close>: the \<^verbatim>\<open>PBuf\<close> package that carries a proposal, a
  vote or a decision, and the message buffer that carries a package through the broadcast. The
  callers of the serialisers always pass a null output pointer, so the output buffer is the one
  the serialiser allocates.
\<close>

section \<open>Packages\<close>

record PBuf =
  pb_pid :: c_int
  pb_vote :: c_int
  pb_time_stamp :: c_ulong
  pb_data_len :: c_ulong
  pb_data :: "byte list option"

text \<open>
  \<^verbatim>\<open>pbuf_serialize\<close>: \<open>Inl\<close> is the error return, \<open>Inr\<close> the buffer. Undefined behaviour is
  \<^const>\<open>None\<close>: a total size that wraps around, or a source shorter than \<open>data_len_in\<close>.
\<close>

definition pbuf_serialize ::
  "c_int \<Rightarrow> c_int \<Rightarrow> c_ulong \<Rightarrow> c_ulong \<Rightarrow> byte list option \<Rightarrow> (int + byte list) option" where
  "pbuf_serialize pid_in vote time_stamp data_len_in data_in =
     (let total = 8 + 4 + 4 + 8 + 8 + data_len_in in
      if data_len_in = 0 \<and> data_in \<noteq> None then Some (Inl (- 1))
      else do {
        require (unat total = 32 + unat data_len_in);
        dat \<leftarrow> (if data_len_in = 0 then Some []
                else do { src \<leftarrow> data_in; memcpy_from src (unat data_len_in) });
        Some (Inr (put_ulong total @ put_int pid_in @ put_int vote @ put_ulong time_stamp
                   @ put_ulong data_len_in @ dat)) })"

text \<open>A vote carries the voter's rank before the pid, and one byte more than its total.\<close>

definition pbuf_vote_serialize :: "c_int \<Rightarrow> c_int \<Rightarrow> c_int \<Rightarrow> byte list" where
  "pbuf_vote_serialize rank pid_in vote =
     (let total = 8 + 4 + 4 + 4 + 8 + 8 + 0; data_len = 0; ts = 0 in
      put_ulong total @ put_int rank @ put_int pid_in @ put_int vote @ put_ulong ts
      @ put_ulong data_len @ [0])"

definition pbuf_new_local ::
  "c_int \<Rightarrow> c_int \<Rightarrow> c_ulong \<Rightarrow> c_ulong \<Rightarrow> byte list option \<Rightarrow> PBuf" where
  "pbuf_new_local pid_in vote ts len dat =
     \<lparr>pb_pid = pid_in, pb_vote = vote, pb_time_stamp = ts, pb_data_len = len, pb_data = dat\<rparr>"

text \<open>\<^verbatim>\<open>pbuf_serialize_pb\<close> ignores the return code and returns the size that was set.\<close>

definition pbuf_serialize_pb :: "PBuf \<Rightarrow> (nat \<times> byte list) option" where
  "pbuf_serialize_pb p =
     (case pbuf_serialize (pb_pid p) (pb_vote p) (pb_time_stamp p) (pb_data_len p) (pb_data p) of
        None \<Rightarrow> None
      | Some (Inl _) \<Rightarrow> Some (0, replicate (unat (32 + pb_data_len p)) 0)
      | Some (Inr buf) \<Rightarrow> Some (length buf, buf))"

text \<open>The result pairs the C return value, the length cut to an \<^verbatim>\<open>int\<close>, with the package.\<close>

definition pbuf_deserialize :: "byte list \<Rightarrow> (c_int \<times> PBuf) option" where
  "pbuf_deserialize buf = do {
     (t, buf) \<leftarrow> get_ulong buf;
     (pid, buf) \<leftarrow> get_int buf;
     (vote, buf) \<leftarrow> get_int buf;
     (ts, buf) \<leftarrow> get_ulong buf;
     (len, buf) \<leftarrow> get_ulong buf;
     dat \<leftarrow> (if len = 0 then Some None
             else map_option Some (memcpy_from buf (unat len)));
     Some (ucast len, \<lparr>pb_pid = pid, pb_vote = vote, pb_time_stamp = ts, pb_data_len = len,
                       pb_data = dat\<rparr>) }"

lemma pbuf_serialize_ok:
  assumes "dat \<noteq> []" and "length dat < 2 ^ 63" and "unat len = length dat"
  shows "pbuf_serialize pid vote ts len (Some (dat @ rest)) =
    Some (Inr (put_ulong (32 + len) @ put_int pid @ put_int vote @ put_ulong ts @ put_ulong len @ dat))"
proof -
  have "len \<noteq> 0" using assms by auto
  moreover have "unat (32 + len) = 32 + unat len" using size_no_wrap [of len] assms by simp
  ultimately show ?thesis using assms by (simp add: pbuf_serialize_def Let_def memcpy_from_all)
qed

lemma pbuf_serialize_empty:
  "pbuf_serialize pid vote ts 0 None =
    Some (Inr (put_ulong 32 @ put_int pid @ put_int vote @ put_ulong ts @ put_ulong 0))"
  by (simp add: pbuf_serialize_def Let_def)

lemma pbuf_deserialize_image:
  "pbuf_deserialize (put_ulong t @ put_int pid @ put_int vote @ put_ulong ts @ put_ulong len @ dat) =
     map_option (\<lambda>d. (ucast len, \<lparr>pb_pid = pid, pb_vote = vote, pb_time_stamp = ts,
                        pb_data_len = len, pb_data = d\<rparr>))
       (if len = 0 then Some None else map_option Some (memcpy_from dat (unat len)))"
  by (auto simp: pbuf_deserialize_def codec_simps bind_map_option map_conv_bind_option)

lemma pbuf_deserialize_none:
  assumes "length buf < 32"
  shows "pbuf_deserialize buf = None"
proof (rule ccontr)
  assume "pbuf_deserialize buf \<noteq> None"
  then obtain t b1 pid b2 vote b3 ts b4 len b5 where
    "get_ulong buf = Some (t, b1)" "get_int b1 = Some (pid, b2)" "get_int b2 = Some (vote, b3)"
    "get_ulong b3 = Some (ts, b4)" "get_ulong b4 = Some (len, b5)"
    by (auto simp: pbuf_deserialize_def split: Option.bind_splits)
  then have "length buf = 32 + length b5"
    by (auto dest!: get_int_SomeD get_ulong_SomeD)
  with assms show False by simp
qed

section \<open>Message buffers\<close>

text \<open>
  \<^verbatim>\<open>RLO_user_msg.buf\<close> has \<^verbatim>\<open>RLO_MSG_SIZE_MAX + sizeof(int)\<close> bytes; \<^verbatim>\<open>data_buf\<close> starts behind the
  origin rank in its first four.
\<close>

abbreviation msg_data_max :: nat where
  "msg_data_max \<equiv> nat RLO_MSG_SIZE_MAX"

definition get_origin :: "byte list \<Rightarrow> c_int option" where
  "get_origin buf = map_option fst (get_int buf)"

definition data_buf :: "byte list \<Rightarrow> byte list" where
  "data_buf buf = drop 4 buf"

definition RLO_msg_new_generic_buf :: "c_int \<Rightarrow> byte list" where
  "RLO_msg_new_generic_buf rank = put_int rank @ replicate msg_data_max 0"

text \<open>
  The buffer \<^verbatim>\<open>RLO_msg_new_bc\<close> fills. Nothing checks that the payload fits: a payload that
  overruns \<^verbatim>\<open>data_buf\<close> is \<^const>\<open>None\<close> (the copy would run into the fields behind the buffer).
\<close>

definition RLO_msg_new_bc_buf :: "c_int \<Rightarrow> byte list \<Rightarrow> c_int \<Rightarrow> byte list option" where
  "RLO_msg_new_bc_buf rank buf_in send_size =
     (let n = unat (scast send_size :: c_ulong) in do {
        dat \<leftarrow> memcpy_from buf_in n;
        require (8 + n \<le> msg_data_max);
        Some (put_int rank @ put_ulong (scast send_size) @ dat
              @ drop (8 + n) (replicate msg_data_max 0)) })"

text \<open>
  What a receive buffer holds once a send of \<open>n\<close> bytes of \<open>buf\<close> has completed into it: the
  receive is posted for \<^verbatim>\<open>msg_size_max + sizeof(int)\<close> bytes and the buffer was zeroed.
\<close>

definition transmit :: "nat \<Rightarrow> byte list \<Rightarrow> byte list" where
  "transmit n buf = take n buf @ replicate (4 + msg_data_max - n) 0"

lemma msg_max_simps [simp]: "msg_data_max = 32768"
  by (simp add: RLO_MSG_SIZE_MAX_def)

lemma get_ulong_any: "length xs = 8 \<Longrightarrow> \<exists>t. get_ulong (xs @ ys) = Some (t, ys)"
  by (simp add: get_ulong_def get_bytes_append)

lemma get_ulong_any2: "length xs + length ys = 8 \<Longrightarrow> \<exists>t. get_ulong (xs @ ys @ zs) = Some (t, zs)"
  using get_ulong_any [of "xs @ ys" zs] by simp

text \<open>
  A vote is read at offset 4 of the receive buffer: the reader takes the upper half of the total
  and the voter's rank for its eight-byte total, and finds the other fields in place.
\<close>

lemma vote_deserialize:
  "pbuf_deserialize (data_buf (transmit (length (pbuf_vote_serialize rank pid vote))
     (pbuf_vote_serialize rank pid vote))) =
   Some (0, \<lparr>pb_pid = pid, pb_vote = vote, pb_time_stamp = 0, pb_data_len = 0, pb_data = None\<rparr>)"
proof -
  define pad where "pad = (0::byte) # replicate (4 + msg_data_max - 37) 0"
  have "data_buf (transmit (length (pbuf_vote_serialize rank pid vote))
      (pbuf_vote_serialize rank pid vote)) =
    drop 4 (put_ulong 36) @ put_int rank @ put_int pid @ put_int vote @ put_ulong 0 @ put_ulong 0 @ pad"
    by (simp add: data_buf_def transmit_def pbuf_vote_serialize_def Let_def pad_def)
  moreover obtain t where
    "get_ulong (drop 4 (put_ulong 36) @ put_int rank @ put_int pid @ put_int vote
       @ put_ulong 0 @ put_ulong 0 @ pad) =
     Some (t, put_int pid @ put_int vote @ put_ulong 0 @ put_ulong 0 @ pad)"
    using get_ulong_any2 [of "drop 4 (put_ulong 36)" "put_int rank"] by auto
  ultimately show ?thesis by (simp add: pbuf_deserialize_def codec_simps)
qed

lemma scast_of_nat_small:
  assumes "n < 2 ^ 31"
  shows "unat (scast (of_nat n :: c_int) :: c_ulong) = n" and "(scast (of_nat n :: c_int) :: c_ulong) = of_nat n"
proof -
  have "sint (of_nat n :: c_int) = int n"
    using sint_word_of_int_small [of "int n"] assms by simp
  then have "(scast (of_nat n :: c_int) :: c_ulong) = word_of_int (int n)"
    by (simp add: scast_eq)
  then show eq: "(scast (of_nat n :: c_int) :: c_ulong) = of_nat n" by simp
  show "unat (scast (of_nat n :: c_int) :: c_ulong) = n"
    using assms by (simp add: eq unat_of_nat)
qed

text \<open>The buffer of a payload that fits, and the exact bound for fitting.\<close>

lemma RLO_msg_new_bc_buf_eq:
  assumes "length payload < 2 ^ 31"
  shows "RLO_msg_new_bc_buf rank payload (of_nat (length payload)) =
    (if length payload \<le> 32760
     then Some (put_int rank @ put_ulong (of_nat (length payload)) @ payload
                @ replicate (32760 - length payload) 0)
     else None)"
proof -
  have "unat (of_nat (length payload) :: c_ulong) = length payload"
    using scast_of_nat_small [OF assms] by simp
  then show ?thesis
    using assms by (simp add: RLO_msg_new_bc_buf_def Let_def scast_of_nat_small memcpy_from_exact)
qed

text \<open>
  \<^verbatim>\<open>RLO_bcast_gen\<close> sends \<^verbatim>\<open>RLO_MSG_SIZE_MAX\<close> bytes of the buffer, origin included, so the last
  four bytes of a payload that only just fits do not travel.
\<close>

lemma bcast_payload_arrives:
  assumes "length payload \<le> 32756" and "RLO_msg_new_bc_buf rank payload (of_nat (length payload)) = Some buf"
  shows "get_origin (transmit msg_data_max buf) = Some rank"
    and "get_ulong (data_buf (transmit msg_data_max buf)) =
      Some (of_nat (length payload), payload @ replicate (32760 - length payload) 0)"
proof -
  have "buf = put_int rank @ put_ulong (of_nat (length payload)) @ payload
      @ replicate (32760 - length payload) 0"
    using assms by (simp add: RLO_msg_new_bc_buf_eq split: if_splits)
  then have "transmit msg_data_max buf = put_int rank @ put_ulong (of_nat (length payload)) @ payload
      @ replicate (32756 - length payload) 0 @ replicate 4 0"
    using assms(1) by (simp add: transmit_def)
  moreover have "replicate (32756 - length payload) (0::byte) @ replicate 4 0
      = replicate (32760 - length payload) 0"
    using assms(1) by (simp flip: replicate_add)
  ultimately have eq: "transmit msg_data_max buf = put_int rank @ put_ulong (of_nat (length payload))
      @ payload @ replicate (32760 - length payload) 0"
    by simp
  show "get_origin (transmit msg_data_max buf) = Some rank"
    by (simp only: eq get_origin_def get_int_put option.map fst_conv)
  show "get_ulong (data_buf (transmit msg_data_max buf)) =
      Some (of_nat (length payload), payload @ replicate (32760 - length payload) 0)"
    by (simp only: eq data_buf_def drop_append length_put_int) (simp add: get_ulong_put)
qed

end
