(* ===== verification/Proposal_Pool.thy ===== *)
theory Proposal_Pool
  imports Prelude
begin

text \<open>
  The state of a proposal in \<^verbatim>\<open>rootless/rootless_ops.c\<close> and the fixed pool of sixteen of them, with
  the operations that search the pool by proposal id.
\<close>

unbundle bit_operations_syntax

text \<open>\<^verbatim>\<open>RLO_Req_stat\<close>, whose values are exchanged as \<^verbatim>\<open>int\<close>.\<close>

definition RLO_COMPLETED :: int where "RLO_COMPLETED = 0"
definition RLO_IN_PROGRESS :: int where "RLO_IN_PROGRESS = 1"
definition RLO_FAILED :: int where "RLO_FAILED = 2"
definition RLO_INVALID :: int where "RLO_INVALID = 3"

lemmas req_stat_defs = RLO_COMPLETED_def RLO_IN_PROGRESS_def RLO_FAILED_def RLO_INVALID_def

text \<open>The messages are addresses.\<close>

record Proposal_state =
  ps_pid :: c_int
  recv_proposal_from :: int
  ps_vote :: c_int
  votes_needed :: int
  votes_recved :: int
  ps_state :: int
  proposal_msg :: "nat option"
  decision_msg :: "nat option"

definition proposal_state_init :: "nat option \<Rightarrow> Proposal_state" where
  "proposal_state_init prop_msg_in =
     \<lparr>ps_pid = - 1, recv_proposal_from = - 1, ps_vote = 1, votes_needed = - 1, votes_recved = 0,
      ps_state = RLO_INVALID, proposal_msg = prop_msg_in, decision_msg = None\<rparr>"

definition PROPOSAL_POOL_SIZE :: nat where
  "PROPOSAL_POOL_SIZE = 16"

text \<open>The index of the first entry from \<open>i\<close> on that has the id, as the loops of the pool find it.\<close>

fun pool_find :: "Proposal_state list \<Rightarrow> c_int \<Rightarrow> nat option" where
  "pool_find [] k = None"
| "pool_find (p # ps) k = (if ps_pid p = k then Some 0 else map_option Suc (pool_find ps k))"

text \<open>
  When both loops run to their end the index is past the last entry, so the code for a full pool
  is never returned.
\<close>

definition proposalPool_proposal_add ::
  "Proposal_state list \<Rightarrow> Proposal_state \<Rightarrow> int \<times> Proposal_state list" where
  "proposalPool_proposal_add pools pp_in =
     (case pool_find pools (ps_pid pp_in) of
        Some i \<Rightarrow> (int i, pools[i := pp_in])
      | None \<Rightarrow>
          (case pool_find pools (- 1) of
             Some i \<Rightarrow> (int i, pools[i := pp_in])
           | None \<Rightarrow> (let i = PROPOSAL_POOL_SIZE in if i = PROPOSAL_POOL_SIZE - 1 then (- 1, pools) else (- 2, pools))))"

definition proposalPool_proposal_setNeededVoteCnt ::
  "Proposal_state list \<Rightarrow> c_int \<Rightarrow> int \<Rightarrow> int \<times> Proposal_state list" where
  "proposalPool_proposal_setNeededVoteCnt pools k cnt =
     (case pool_find pools k of
        Some i \<Rightarrow> (0, pools[i := (pools ! i)\<lparr>votes_needed := cnt\<rparr>])
      | None \<Rightarrow> (- 1, pools))"

text \<open>The index is written to the caller's variable only when the id is found.\<close>

definition proposalPool_vote_merge ::
  "Proposal_state list \<Rightarrow> c_int \<Rightarrow> c_int \<Rightarrow> int \<times> nat option \<times> Proposal_state list" where
  "proposalPool_vote_merge pools k v =
     (case pool_find pools k of
        Some i \<Rightarrow>
          (let p = (pools ! i)\<lparr>votes_recved := votes_recved (pools ! i) + 1,
                               ps_vote := ps_vote (pools ! i) AND v\<rparr> in
           (if votes_recved p = votes_needed p then 1 else 0, Some i, pools[i := p]))
      | None \<Rightarrow> (- 2, None, pools))"

definition proposalPool_get :: "Proposal_state list \<Rightarrow> c_int \<Rightarrow> Proposal_state option" where
  "proposalPool_get pools k = map_option (\<lambda>i. pools ! i) (pool_find pools k)"

definition proposalPool_get_index :: "Proposal_state list \<Rightarrow> c_int \<Rightarrow> int" where
  "proposalPool_get_index pools k = (case pool_find pools k of Some i \<Rightarrow> int i | None \<Rightarrow> - 1)"

definition proposalPool_rm :: "Proposal_state list \<Rightarrow> c_int \<Rightarrow> int \<times> Proposal_state list" where
  "proposalPool_rm pools k =
     (case pool_find pools k of
        Some i \<Rightarrow> (0, pools[i := (pools ! i)\<lparr>ps_pid := - 1, ps_vote := 1\<rparr>])
      | None \<Rightarrow> (- 1, pools))"

definition proposalPools_reset :: "Proposal_state list \<Rightarrow> Proposal_state list" where
  "proposalPools_reset pools =
     map (\<lambda>p. p\<lparr>ps_pid := - 1, ps_vote := 1, recv_proposal_from := - 1, votes_needed := - 1,
              votes_recved := - 1, proposal_msg := None, ps_state := RLO_INVALID\<rparr>) pools"

section \<open>The pool as a map\<close>

text \<open>No proposal id occurs twice; -1 marks the free entries.\<close>

definition pool_ok :: "Proposal_state list \<Rightarrow> bool" where
  "pool_ok pools \<longleftrightarrow> length pools = PROPOSAL_POOL_SIZE
     \<and> (\<forall>i<length pools. \<forall>j<length pools. ps_pid (pools ! i) = ps_pid (pools ! j) \<longrightarrow>
          i = j \<or> ps_pid (pools ! i) = - 1)"

definition pool_map :: "Proposal_state list \<Rightarrow> c_int \<rightharpoonup> Proposal_state" where
  "pool_map pools k = (if k = - 1 then None else proposalPool_get pools k)"

lemma pool_find_Some:
  "pool_find ps k = Some i \<Longrightarrow> i < length ps \<and> ps_pid (ps ! i) = k \<and> (\<forall>j<i. ps_pid (ps ! j) \<noteq> k)"
proof (induction ps arbitrary: i)
  case (Cons p ps)
  then show ?case by (auto simp: nth_Cons split: if_splits nat.splits)
qed simp

lemma pool_find_None: "pool_find ps k = None \<longleftrightarrow> (\<forall>p\<in>set ps. ps_pid p \<noteq> k)"
  by (induction ps) auto

lemma pool_find_unique:
  assumes "i < length ps" and "ps_pid (ps ! i) = k" and "\<And>j. j < length ps \<Longrightarrow> ps_pid (ps ! j) = k \<Longrightarrow> j = i"
  shows "pool_find ps k = Some i"
proof (cases "pool_find ps k")
  case None
  then show ?thesis using assms(1,2) by (auto simp: pool_find_None)
next
  case (Some j)
  have "j = i" by (rule assms(3)) (use pool_find_Some [OF Some] in simp_all)
  with Some show ?thesis by simp
qed

lemma pool_okD:
  assumes "pool_ok ps" and "i < length ps" and "j < length ps" and "ps_pid (ps ! i) = ps_pid (ps ! j)"
    and "ps_pid (ps ! i) \<noteq> - 1"
  shows "i = j"
proof -
  have "\<forall>i<length ps. \<forall>j<length ps. ps_pid (ps ! i) = ps_pid (ps ! j) \<longrightarrow> i = j \<or> ps_pid (ps ! i) = - 1"
    using assms(1) unfolding pool_ok_def by (rule conjunct2)
  then have "i = j \<or> ps_pid (ps ! i) = - 1" using assms(2-4) by (elim allE impE) assumption+
  then show ?thesis using assms(5) by (elim disjE) (assumption, simp)
qed

lemma pool_ok_update:
  assumes "pool_ok ps" and "ps_pid p = - 1 \<or> (\<forall>j<length ps. j \<noteq> i \<longrightarrow> ps_pid (ps ! j) \<noteq> ps_pid p)"
  shows "pool_ok (ps[i := p])"
  unfolding pool_ok_def
proof (intro conjI allI impI)
  show "length (ps[i := p]) = PROPOSAL_POOL_SIZE" using assms(1) by (simp add: pool_ok_def)
  fix a b assume ab: "a < length (ps[i := p])" "b < length (ps[i := p])"
    "ps_pid (ps[i := p] ! a) = ps_pid (ps[i := p] ! b)"
  show "a = b \<or> ps_pid (ps[i := p] ! a) = - 1"
  proof (cases "a = i \<or> b = i")
    case True
    then show ?thesis using ab assms(2) by (cases "a = b") (auto simp: nth_list_update)
  next
    case False
    then show ?thesis using ab pool_okD [OF assms(1), of a b] by auto
  qed
qed

text \<open>Ids other than the written one and the overwritten one are found where they were.\<close>

lemma pool_get_other:
  assumes "pool_ok ps" and "i < length ps" and "k \<noteq> - 1" and "k \<noteq> ps_pid p" and "k \<noteq> ps_pid (ps ! i)"
  shows "proposalPool_get (ps[i := p]) k = proposalPool_get ps k"
proof (cases "pool_find ps k")
  case None
  then have "pool_find (ps[i := p]) k = None"
    using assms(4) by (auto simp: pool_find_None dest!: set_update_subset_insert [THEN subsetD])
  with None show ?thesis by (simp add: proposalPool_get_def)
next
  case (Some j)
  note j = pool_find_Some [OF Some]
  have ji: "j \<noteq> i" using j assms(5) by auto
  have "pool_find (ps[i := p]) k = Some j"
  proof (rule pool_find_unique)
    show "l = j" if "l < length (ps[i := p])" "ps_pid (ps[i := p] ! l) = k" for l
    proof (cases "l = i")
      case True
      then show ?thesis using that assms(4) by simp
    next
      case False
      then have "ps_pid (ps ! l) = k" using that by simp
      then show ?thesis using pool_okD [OF assms(1), of l j] that j assms(3) by auto
    qed
  qed (use j ji in auto)
  then show ?thesis using Some ji by (simp add: proposalPool_get_def)
qed

text \<open>Lookup after an update at the entry of id \<open>k\<close>, when the update keeps or frees the id.\<close>

lemma pool_get_update:
  assumes "pool_ok pools" and "i < length pools" and "ps_pid (pools ! i) = - 1 \<or> ps_pid (pools ! i) = ps_pid p"
    and "\<forall>j<length pools. j \<noteq> i \<longrightarrow> ps_pid (pools ! j) \<noteq> ps_pid p" and "ps_pid p \<noteq> - 1"
  shows "pool_ok (pools[i := p])" and "pool_map (pools[i := p]) = (pool_map pools)(ps_pid p \<mapsto> p)"
proof -
  show "pool_ok (pools[i := p])" by (rule pool_ok_update [OF assms(1)]) (use assms(4) in simp)
  have "pool_find (pools[i := p]) (ps_pid p) = Some i"
  proof (rule pool_find_unique)
    show "l = i" if "l < length (pools[i := p])" "ps_pid (pools[i := p] ! l) = ps_pid p" for l
      using that assms(4) by (cases "l = i") auto
  qed (use assms(2) in auto)
  then have "proposalPool_get (pools[i := p]) (ps_pid p) = Some p"
    using assms(2) by (simp add: proposalPool_get_def)
  moreover have "proposalPool_get (pools[i := p]) k = proposalPool_get pools k"
    if "k \<noteq> ps_pid p" "k \<noteq> - 1" for k
    by (rule pool_get_other) (use assms that in auto)
  ultimately show "pool_map (pools[i := p]) = (pool_map pools)(ps_pid p \<mapsto> p)"
    using assms(5) by (auto simp: pool_map_def fun_eq_iff)
qed

lemma pool_add_map:
  assumes "pool_ok pools" and "ps_pid p \<noteq> - 1" and "proposalPool_proposal_add pools p = (r, pools')" and "0 \<le> r"
  shows "pool_ok pools' \<and> pool_map pools' = (pool_map pools)(ps_pid p \<mapsto> p)"
proof (cases "pool_find pools (ps_pid p)")
  case (Some i)
  note i = pool_find_Some [OF Some]
  have "\<forall>j<length pools. j \<noteq> i \<longrightarrow> ps_pid (pools ! j) \<noteq> ps_pid p"
    using pool_okD [OF assms(1), of _ i] i assms(2) by auto
  with pool_get_update [OF assms(1), of i p] i assms(2,3) Some show ?thesis
    by (auto simp: proposalPool_proposal_add_def)
next
  case None
  then obtain i where i: "pool_find pools (- 1) = Some i" "pools' = pools[i := p]"
    using assms(3,4) by (auto simp: proposalPool_proposal_add_def split: option.splits if_splits)
  have "\<forall>j<length pools. j \<noteq> i \<longrightarrow> ps_pid (pools ! j) \<noteq> ps_pid p"
    using None by (auto simp: pool_find_None)
  with pool_get_update [OF assms(1), of i p] pool_find_Some [OF i(1)] i(2) assms(2) show ?thesis by auto
qed

lemma pool_full:
  assumes "pool_find pools (ps_pid p) = None" and "pool_find pools (- 1) = None"
  shows "proposalPool_proposal_add pools p = (- 2, pools)"
  using assms by (simp add: proposalPool_proposal_add_def PROPOSAL_POOL_SIZE_def)

lemma pool_rm_map:
  assumes "pool_ok pools" and "k \<noteq> - 1" and "proposalPool_rm pools k = (r, pools')"
  shows "pool_ok pools' \<and> pool_map pools' = (pool_map pools)(k := None)
    \<and> r = (if pool_map pools k = None then - 1 else 0)"
proof (cases "pool_find pools k")
  case None
  then show ?thesis using assms by (auto simp: proposalPool_rm_def pool_map_def proposalPool_get_def fun_eq_iff)
next
  case (Some i)
  note i = pool_find_Some [OF Some]
  define p where "p = (pools ! i)\<lparr>ps_pid := - 1, ps_vote := 1\<rparr>"
  have e: "pools' = pools[i := p]" "r = 0" using assms(3) Some by (auto simp: proposalPool_rm_def p_def)
  have uniq: "ps_pid (pools ! j) \<noteq> k" if "j < length pools" "j \<noteq> i" for j
    using pool_okD [OF assms(1), of j i] that i assms(2) by auto
  have ok: "pool_ok (pools[i := p])" by (rule pool_ok_update [OF assms(1)]) (simp add: p_def)
  have gone: "pool_find (pools[i := p]) k = None"
    unfolding pool_find_None
  proof
    fix q assume "q \<in> set (pools[i := p])"
    then obtain j where j: "j < length pools" "q = pools[i := p] ! j" by (auto simp: in_set_conv_nth)
    then show "ps_pid q \<noteq> k" using uniq [OF j(1)] assms(2) by (cases "j = i") (auto simp: p_def)
  qed
  have other: "proposalPool_get (pools[i := p]) l = proposalPool_get pools l" if "l \<noteq> k" "l \<noteq> - 1" for l
    by (rule pool_get_other) (use assms(1) i that in \<open>auto simp: p_def\<close>)
  have "pool_map (pools[i := p]) = (pool_map pools)(k := None)"
    using other gone by (auto simp: pool_map_def proposalPool_get_def fun_eq_iff)
  then show ?thesis using e ok Some assms(2) by (simp add: pool_map_def proposalPool_get_def)
qed

lemma pool_reset_map: "pool_map (proposalPools_reset pools) = Map.empty"
proof
  fix k
  have "pool_find (proposalPools_reset pools) k = None" if "k \<noteq> - 1"
    using that by (auto simp: pool_find_None proposalPools_reset_def)
  then show "pool_map (proposalPools_reset pools) k = None"
    by (simp add: pool_map_def proposalPool_get_def)
qed

lemma pool_reset_ok: "length pools = PROPOSAL_POOL_SIZE \<Longrightarrow> pool_ok (proposalPools_reset pools)"
  by (simp add: pool_ok_def proposalPools_reset_def)

end
