(* ===== verification/Engine.thy ===== *)
theory Engine
  imports Util_Queue PBuf Proposal_Pool
begin

text \<open>
  The progress engine of \<^verbatim>\<open>rootless/rootless_ops.c\<close>, as far as it works on one engine: messages, the
  queues they move between, forwarding, and the handlers of proposals, votes and decisions. The
  operations that turn the gears of all engines are in \<open>Progress\<close>.

  MPI is the engine's surroundings: the outcome of each test of the posted receive (the next
  message, or nothing yet), the messages handed to MPI so far, and the moments at which a pending
  send is complete.
\<close>

section \<open>Tags\<close>

definition RLO_BCAST :: int where "RLO_BCAST = 0"
definition RLO_IAR_PROPOSAL :: int where "RLO_IAR_PROPOSAL = 2"
definition RLO_IAR_VOTE :: int where "RLO_IAR_VOTE = 3"
definition RLO_IAR_DECISION :: int where "RLO_IAR_DECISION = 4"

lemmas tag_defs = RLO_BCAST_def RLO_IAR_PROPOSAL_def RLO_IAR_VOTE_def RLO_IAR_DECISION_def

section \<open>Messages and engines\<close>

text \<open>
  An entry of \<^verbatim>\<open>bc_isend_reqs\<close> is zero until a send is started in it; \<open>Req k\<close> is the send of the
  \<open>k\<close>-th message handed to MPI. The message owns its proposal state. The pointers \<^verbatim>\<open>data_buf\<close> and
  \<^verbatim>\<open>msg_usr.data\<close> always are the buffer behind its first four bytes (\<^const>\<open>data_buf\<close>).
\<close>

datatype request = Req_zero | Req nat

record RLO_msg =
  m_buf :: "byte list"
  u_type :: int
  u_pid :: c_int
  u_vote :: c_int
  u_time_stamp :: c_ulong
  u_data_len :: c_ulong
  send_type :: int
  stat_source :: int
  stat_tag :: int
  isend_reqs :: "request list"
  prop_state :: "Proposal_state option"
  send_cnt :: int
  pickup_done :: int
  fwd_done :: int
  bc_init :: int

text \<open>
  The queues are the lists their links represent (\<open>mq\<close> in \<open>Util_Queue\<close>). The state behind
  \<^verbatim>\<open>app_ctx\<close> is \<open>'a\<close>; the callbacks may change it, and \<^const>\<open>None\<close> is a callback that does not return.
\<close>

record 'a engine =
  my_bcomm :: bcomm
  engine_id :: int
  queue_recv :: "nat list"
  queue_wait :: "nat list"
  queue_pickup :: "nat list"
  queue_wait_and_pickup :: "nat list"
  queue_iar_pending :: "nat list"
  recved_bcast_cnt :: c_int
  sent_bcast_cnt :: c_int
  my_own_proposal :: Proposal_state
  proposal_state_pool :: "Proposal_state list"
  my_proposal :: "byte list option"
  prop_judgement_cb :: "byte list option \<Rightarrow> 'a \<Rightarrow> (c_int \<times> 'a) option"
  proposal_action :: "(byte list \<Rightarrow> 'a \<Rightarrow> 'a option) option"
  app_ctx :: 'a
  fwd_queued :: int
  msgs :: "nat \<rightharpoonup> RLO_msg"
  next_msg :: nat
  arrivals :: "(int \<times> int \<times> byte list) option list"
  sent :: "(int \<times> int \<times> byte list) list"
  send_complete :: "nat \<Rightarrow> nat \<Rightarrow> bool"
  mpi_tick :: nat

definition upd_msg :: "'a engine \<Rightarrow> nat \<Rightarrow> (RLO_msg \<Rightarrow> RLO_msg) \<Rightarrow> 'a engine option" where
  "upd_msg eng m f = do { x \<leftarrow> msgs eng m; Some (eng\<lparr>msgs := (msgs eng)(m \<mapsto> f x)\<rparr>) }"

text \<open>\<^verbatim>\<open>queue_remove\<close> on the represented list, with its treatment of a one-message queue.\<close>

definition lq_remove :: "nat list \<Rightarrow> nat \<Rightarrow> nat list option" where
  "lq_remove q m = (if length q \<le> 1 then Some [] else if m \<in> set q then Some (remove1 m q) else None)"

definition RLO_msg_new_generic :: "'a engine \<Rightarrow> nat \<times> 'a engine" where
  "RLO_msg_new_generic eng =
     (next_msg eng,
      eng\<lparr>msgs := (msgs eng)(next_msg eng \<mapsto>
            \<lparr>m_buf = RLO_msg_new_generic_buf (word_of_int (my_rank (my_bcomm eng))),
             u_type = - 1, u_pid = - 1, u_vote = - 1, u_time_stamp = 0, u_data_len = 0,
             send_type = 0, stat_source = 0, stat_tag = 0,
             isend_reqs = replicate (nat (send_list_len (my_bcomm eng))) Req_zero,
             prop_state = None, send_cnt = 0, pickup_done = 0, fwd_done = 0, bc_init = 0\<rparr>),
          next_msg := next_msg eng + 1\<rparr>)"

definition RLO_msg_new_bc :: "'a engine \<Rightarrow> byte list \<Rightarrow> c_int \<Rightarrow> (nat \<times> 'a engine) option" where
  "RLO_msg_new_bc eng buf_in send_size =
     (let (m, eng) = RLO_msg_new_generic eng in do {
        b \<leftarrow> RLO_msg_new_bc_buf (word_of_int (my_rank (my_bcomm eng))) buf_in send_size;
        eng \<leftarrow> upd_msg eng m (\<lambda>x. x\<lparr>m_buf := b, bc_init := 1, u_data_len := scast send_size\<rparr>);
        Some (m, eng) })"

definition RLO_msg_free :: "'a engine \<Rightarrow> nat \<Rightarrow> 'a engine option" where
  "RLO_msg_free eng m = do { x \<leftarrow> msgs eng m; Some (eng\<lparr>msgs := (msgs eng)(m := None)\<rparr>) }"

text \<open>\<^verbatim>\<open>MPI_Testall\<close> on the first \<open>send_cnt\<close> requests; a request that was never started is undefined.\<close>

fun reqs_complete :: "(nat \<Rightarrow> bool) \<Rightarrow> request list \<Rightarrow> bool option" where
  "reqs_complete f [] = Some True"
| "reqs_complete f (Req_zero # rs) = None"
| "reqs_complete f (Req k # rs) = map_option (\<lambda>b. f k \<and> b) (reqs_complete f rs)"

definition RLO_msg_test_isends :: "'a engine \<Rightarrow> nat \<Rightarrow> (bool \<times> 'a engine) option" where
  "RLO_msg_test_isends eng m = do {
     x \<leftarrow> msgs eng m;
     require (send_cnt x \<le> int (length (isend_reqs x)));
     completed \<leftarrow> reqs_complete (send_complete eng (mpi_tick eng)) (take (nat (send_cnt x)) (isend_reqs x));
     Some (completed, eng\<lparr>mpi_tick := mpi_tick eng + 1\<rparr>) }"

text \<open>
  \<^verbatim>\<open>MPI_Test\<close> on the receive posted in message \<open>m\<close>. The data overwrites the front of the buffer; a
  message longer than the posted size is an error.
\<close>

definition test_ircecv_completed :: "'a engine \<Rightarrow> nat \<Rightarrow> (bool \<times> 'a engine) option" where
  "test_ircecv_completed eng m =
     (case arrivals eng of
        [] \<Rightarrow> Some (False, eng)
      | None # as \<Rightarrow> Some (False, eng\<lparr>arrivals := as\<rparr>)
      | Some (src, tag, dat) # as \<Rightarrow> do {
          require (length dat \<le> nat (msg_size_max (my_bcomm eng)) + 4);
          eng \<leftarrow> upd_msg (eng\<lparr>arrivals := as\<rparr>) m
            (\<lambda>x. x\<lparr>m_buf := dat @ drop (length dat) (m_buf x), stat_source := src, stat_tag := tag\<rparr>);
          Some (True, eng) })"

text \<open>\<^verbatim>\<open>MPI_Isend\<close> of \<open>n\<close> bytes of the message to the \<open>j\<close>-th destination of the send list.\<close>

definition isend :: "'a engine \<Rightarrow> nat \<Rightarrow> nat \<Rightarrow> int \<Rightarrow> nat \<Rightarrow> 'a engine option" where
  "isend eng m n tag j = do {
     x \<leftarrow> msgs eng m;
     require (j < length (send_list (my_bcomm eng)) \<and> j < length (isend_reqs x));
     Some (eng\<lparr>sent := sent eng @ [(send_list (my_bcomm eng) ! j, tag, take n (m_buf x))],
               msgs := (msgs eng)(m \<mapsto> x\<lparr>isend_reqs := (isend_reqs x)[j := Req (length (sent eng))],
                                         send_cnt := send_cnt x + 1\<rparr>)\<rparr>) }"

fun isend_list :: "'a engine \<Rightarrow> nat \<Rightarrow> nat \<Rightarrow> int \<Rightarrow> nat list \<Rightarrow> 'a engine option" where
  "isend_list eng m n tag [] = Some eng"
| "isend_list eng m n tag (j # js) = do { eng \<leftarrow> isend eng m n tag j; isend_list eng m n tag js }"

section \<open>Forwarding\<close>

text \<open>
  \<^verbatim>\<open>_bc_forward\<close>: the number of sends started, and the queue the message goes to. The two ways of
  forwarding send different numbers of bytes.
\<close>

definition queue_forwarded :: "'a engine \<Rightarrow> nat \<Rightarrow> int \<Rightarrow> 'a engine" where
  "queue_forwarded eng m tag =
     (if tag = RLO_BCAST
      then eng\<lparr>queue_wait_and_pickup := queue_wait_and_pickup eng @ [m], fwd_queued := fwd_queued eng + 1\<rparr>
      else if tag \<noteq> RLO_IAR_DECISION
      then eng\<lparr>queue_iar_pending := queue_iar_pending eng @ [m], fwd_queued := fwd_queued eng + 1\<rparr>
      else eng\<lparr>fwd_queued := fwd_queued eng + 1\<rparr>)"

definition queue_not_forwarded :: "'a engine \<Rightarrow> nat \<Rightarrow> int \<Rightarrow> 'a engine option" where
  "queue_not_forwarded eng m tag =
     (if tag = RLO_BCAST then do {
        eng \<leftarrow> upd_msg eng m (\<lambda>x. x\<lparr>fwd_done := 1\<rparr>);
        Some (eng\<lparr>queue_pickup := queue_pickup eng @ [m], fwd_queued := fwd_queued eng + 1\<rparr>) }
      else if tag \<noteq> RLO_IAR_DECISION
      then Some (eng\<lparr>queue_iar_pending := queue_iar_pending eng @ [m], fwd_queued := fwd_queued eng + 1\<rparr>)
      else Some (eng\<lparr>fwd_queued := fwd_queued eng + 1\<rparr>))"

definition queue_leaf :: "'a engine \<Rightarrow> nat \<Rightarrow> int \<Rightarrow> 'a engine option" where
  "queue_leaf eng m tag = do {
     eng \<leftarrow> upd_msg eng m (\<lambda>x. x\<lparr>fwd_done := 1\<rparr>);
     Some (if tag = RLO_BCAST
           then eng\<lparr>queue_pickup := queue_pickup eng @ [m], fwd_queued := fwd_queued eng + 1\<rparr>
           else if tag \<noteq> RLO_IAR_DECISION then eng\<lparr>queue_iar_pending := queue_iar_pending eng @ [m]\<rparr>
           else eng) }"

definition bc_forward :: "'a engine \<Rightarrow> nat \<Rightarrow> (int \<times> 'a engine) option" where
  "bc_forward eng m = do {
     x \<leftarrow> msgs eng m;
     eng \<leftarrow> Some (eng\<lparr>my_bcomm := (my_bcomm eng)\<lparr>bcast_recv_cnt := bcast_recv_cnt (my_bcomm eng) + 1\<rparr>\<rparr>);
     eng \<leftarrow> upd_msg eng m (\<lambda>x. x\<lparr>send_cnt := 0\<rparr>);
     (let b = my_bcomm eng; tag = stat_tag x in
      if my_level b > 0 then do {
        origin \<leftarrow> get_origin (m_buf x);
        (if stat_source x > bc_last_wall b then
           (let js = rev [0..<nat (send_channel_cnt b + 1)] in do {
              eng \<leftarrow> isend_list eng m (nat (msg_size_max b) + 4) tag js;
              Some (int (length js), queue_forwarded eng m tag) })
         else
           (let upper_bound = send_channel_cnt b - 1 in
            if upper_bound \<ge> 0 then
              (let js = filter (\<lambda>j. \<not> check_passed_origin b (sint origin) (send_list b ! j))
                          (rev [0..<nat (upper_bound + 1)]) in do {
                 eng \<leftarrow> isend_list eng m (nat (msg_size_max b)) tag js;
                 (if js \<noteq> [] then Some (int (length js), queue_forwarded eng m tag)
                  else do { eng \<leftarrow> queue_not_forwarded eng m tag; Some (0, eng) }) })
            else do { eng \<leftarrow> queue_not_forwarded eng m tag; Some (0, eng) })) }
      else do { eng \<leftarrow> queue_leaf eng m tag; Some (0, eng) }) }"

section \<open>Proposals, votes and decisions\<close>

definition vote_back :: "'a engine \<Rightarrow> Proposal_state \<Rightarrow> c_int \<Rightarrow> 'a engine" where
  "vote_back eng ps vote =
     eng\<lparr>sent := sent eng @ [(recv_proposal_from ps, RLO_IAR_VOTE,
           pbuf_vote_serialize (word_of_int (my_rank (my_bcomm eng))) (ps_pid ps) vote)]\<rparr>"

text \<open>
  A proposal that carries this rank's own id is dropped. Judgements other than 0 and 1 leave it
  unanswered.
\<close>

definition iar_proposal_handler :: "'a engine \<Rightarrow> nat \<Rightarrow> (int \<times> 'a engine) option" where
  "iar_proposal_handler eng m = do {
     x \<leftarrow> msgs eng m;
     origin \<leftarrow> get_origin (m_buf x);
     (l, pbuf) \<leftarrow> pbuf_deserialize (drop 8 (data_buf (m_buf x)));
     (let ps = (proposal_state_init (Some m))\<lparr>ps_pid := pb_pid pbuf, recv_proposal_from := stat_source x,
                 ps_state := RLO_IN_PROGRESS\<rparr> in
      if pb_pid pbuf = ps_pid (my_own_proposal eng) then Some (- 1, eng)
      else
        (let ps = ps\<lparr>votes_needed := fwd_send_cnt (my_bcomm eng) (sint origin) (stat_source x)\<rparr> in do {
           eng \<leftarrow> upd_msg eng m (\<lambda>x. x\<lparr>prop_state := Some ps\<rparr>);
           (judgment, a) \<leftarrow> prop_judgement_cb eng (pb_data pbuf) (app_ctx eng);
           eng \<leftarrow> Some (eng\<lparr>app_ctx := a\<rparr>);
           (if judgment = 0 then Some (0, vote_back eng ps 0)
            else if judgment = 1 then do {
              (n, eng) \<leftarrow> bc_forward eng m;
              Some (0, if n = 0 then vote_back eng ps 1 else eng) }
            else Some (0, eng)) })) }"

fun find_pending :: "(nat \<rightharpoonup> RLO_msg) \<Rightarrow> c_int \<Rightarrow> nat list \<Rightarrow> nat option option" where
  "find_pending ms k [] = Some None"
| "find_pending ms k (m # q) = do {
     x \<leftarrow> ms m;
     ps \<leftarrow> prop_state x;
     (if ps_pid ps = k then Some (Some m) else find_pending ms k q) }"

definition find_proposal_msg :: "'a engine \<Rightarrow> c_int \<Rightarrow> nat option option" where
  "find_proposal_msg eng k = (if sint k < 0 then Some None else find_pending (msgs eng) k (queue_iar_pending eng))"

text \<open>The merged state is copied out for the caller when the proposal is found.\<close>

definition vote_merge :: "'a engine \<Rightarrow> c_int \<Rightarrow> c_int \<Rightarrow> (int \<times> Proposal_state option \<times> 'a engine) option" where
  "vote_merge eng k vote_in = do {
     f \<leftarrow> find_proposal_msg eng k;
     (case f of
        None \<Rightarrow> Some (- 1, None, eng)
      | Some m \<Rightarrow> do {
          x \<leftarrow> msgs eng m;
          ps \<leftarrow> prop_state x;
          ps \<leftarrow> Some (ps\<lparr>ps_vote := ps_vote ps AND vote_in, votes_recved := votes_recved ps + 1\<rparr>);
          eng \<leftarrow> upd_msg eng m (\<lambda>x. x\<lparr>prop_state := Some ps\<rparr>);
          Some (if votes_needed ps = votes_recved ps then 1 else 0, Some ps, eng) }) }"

text \<open>The part of \<^verbatim>\<open>_iar_vote_handler\<close> for a proposal of another rank.\<close>

definition vote_for_pending :: "'a engine \<Rightarrow> PBuf \<Rightarrow> (int \<times> 'a engine) option" where
  "vote_for_pending eng vote_buf = do {
     (ret, ps, eng) \<leftarrow> vote_merge eng (pb_pid vote_buf) (pb_vote vote_buf);
     (if ret < 0 then Some (- 1, eng)
      else if ret = 1 then do { ps \<leftarrow> ps; Some (0, vote_back eng ps (ps_vote ps)) }
      else Some (0, eng)) }"

definition iar_decision_handler :: "'a engine \<Rightarrow> nat \<Rightarrow> (int \<times> 'a engine) option" where
  "iar_decision_handler eng m = do {
     x \<leftarrow> msgs eng m;
     (l, decision_buf) \<leftarrow> pbuf_deserialize (drop 8 (data_buf (m_buf x)));
     f \<leftarrow> find_proposal_msg eng (pb_pid decision_buf);
     (case f of
        None \<Rightarrow> Some (- 1, eng\<lparr>queue_pickup := queue_pickup eng @ [m]\<rparr>)
      | Some pm \<Rightarrow>
          (if pb_vote decision_buf = 0 then do {
             q \<leftarrow> lq_remove (queue_iar_pending eng) pm;
             eng \<leftarrow> RLO_msg_free (eng\<lparr>queue_iar_pending := q\<rparr>) pm;
             Some (0, eng) }
           else do {
             px \<leftarrow> msgs eng pm;
             a \<leftarrow> (case proposal_action eng of None \<Rightarrow> Some (app_ctx eng)
                   | Some act \<Rightarrow> act (data_buf (m_buf px)) (app_ctx eng));
             ps \<leftarrow> prop_state px;
             q \<leftarrow> lq_remove (queue_iar_pending eng) pm;
             eng \<leftarrow> upd_msg (eng\<lparr>app_ctx := a, queue_iar_pending := q\<rparr>) pm
               (\<lambda>px. px\<lparr>fwd_done := 1, pickup_done := 0, stat_tag := stat_tag x,
                       prop_state := Some (ps\<lparr>ps_vote := 1, ps_state := RLO_COMPLETED\<rparr>)\<rparr>);
             Some (0, eng\<lparr>queue_pickup := queue_pickup eng @ [pm]\<rparr>) })) }"

definition iar_check_status :: "'a engine \<Rightarrow> c_int \<Rightarrow> int option" where
  "iar_check_status eng k = do {
     f \<leftarrow> find_proposal_msg eng k;
     (case f of None \<Rightarrow> Some RLO_INVALID
      | Some m \<Rightarrow> do { x \<leftarrow> msgs eng m; ps \<leftarrow> prop_state x; Some (ps_state ps) }) }"

definition iar_pending_queue_update_status :: "'a engine \<Rightarrow> c_int \<Rightarrow> int \<Rightarrow> (int \<times> 'a engine) option" where
  "iar_pending_queue_update_status eng k stat_in = do {
     f \<leftarrow> find_proposal_msg eng k;
     (case f of None \<Rightarrow> Some (- 1, eng)
      | Some m \<Rightarrow> do {
          x \<leftarrow> msgs eng m;
          ps \<leftarrow> prop_state x;
          eng \<leftarrow> upd_msg eng m (\<lambda>x. x\<lparr>prop_state := Some (ps\<lparr>ps_state := stat_in\<rparr>)\<rparr>);
          Some (0, eng) }) }"

section \<open>Picking messages up\<close>

definition user_msg_mock :: "'a engine \<Rightarrow> nat \<Rightarrow> 'a engine option" where
  "user_msg_mock eng m = do {
     x \<leftarrow> msgs eng m;
     x \<leftarrow> Some (x\<lparr>u_type := stat_tag x\<rparr>);
     x \<leftarrow> (if u_type x = RLO_IAR_DECISION then do {
             (l, b) \<leftarrow> pbuf_deserialize (drop 8 (data_buf (m_buf x)));
             Some (x\<lparr>u_pid := pb_pid b, u_vote := pb_vote b, u_time_stamp := pb_time_stamp b,
                     u_data_len := pb_data_len b\<rparr>) }
           else Some x);
     upd_msg eng m (\<lambda>y. x) }"

fun find_unread :: "(nat \<rightharpoonup> RLO_msg) \<Rightarrow> nat list \<Rightarrow> nat option option" where
  "find_unread ms [] = Some None"
| "find_unread ms (m # q) = do { x \<leftarrow> ms m; (if pickup_done x = 0 then Some (Some m) else find_unread ms q) }"

definition RLO_user_pickup_next :: "'a engine \<Rightarrow> (nat option \<times> 'a engine) option" where
  "RLO_user_pickup_next eng = do {
     f \<leftarrow> find_unread (msgs eng) (queue_wait_and_pickup eng);
     (case f of
        Some m \<Rightarrow> do {
          q \<leftarrow> lq_remove (queue_wait_and_pickup eng) m;
          eng \<leftarrow> user_msg_mock (eng\<lparr>queue_wait_and_pickup := q, queue_wait := queue_wait eng @ [m]\<rparr>) m;
          Some (Some m, eng) }
      | None \<Rightarrow> do {
          f \<leftarrow> find_unread (msgs eng) (queue_pickup eng);
          (case f of
             Some m \<Rightarrow> do {
               q \<leftarrow> lq_remove (queue_pickup eng) m;
               eng \<leftarrow> user_msg_mock (eng\<lparr>queue_pickup := q\<rparr>) m;
               Some (Some m, eng) }
           | None \<Rightarrow> Some (None, eng)) }) }"

definition RLO_user_msg_recycle :: "'a engine \<Rightarrow> nat \<Rightarrow> (int \<times> 'a engine) option" where
  "RLO_user_msg_recycle eng m = do {
     eng \<leftarrow> upd_msg eng m (\<lambda>x. x\<lparr>pickup_done := 1\<rparr>);
     x \<leftarrow> msgs eng m;
     (if fwd_done x \<noteq> 0 then do { eng \<leftarrow> RLO_msg_free eng m; Some (1, eng) } else Some (0, eng)) }"

section \<open>The wait queues\<close>

definition wait_and_pickup_queue_process :: "'a engine \<Rightarrow> nat \<Rightarrow> 'a engine option" where
  "wait_and_pickup_queue_process eng m = do {
     (done, eng) \<leftarrow> RLO_msg_test_isends eng m;
     (if done then do {
        eng \<leftarrow> upd_msg eng m (\<lambda>x. x\<lparr>fwd_done := 1\<rparr>);
        q \<leftarrow> lq_remove (queue_wait_and_pickup eng) m;
        eng \<leftarrow> Some (eng\<lparr>queue_wait_and_pickup := q\<rparr>);
        x \<leftarrow> msgs eng m;
        Some (if pickup_done x \<noteq> 1 then eng\<lparr>queue_pickup := queue_pickup eng @ [m]\<rparr> else eng) }
      else do {
        x \<leftarrow> msgs eng m;
        (if pickup_done x \<noteq> 0 then do {
           q \<leftarrow> lq_remove (queue_wait_and_pickup eng) m;
           Some (eng\<lparr>queue_wait_and_pickup := q, queue_wait := queue_wait eng @ [m]\<rparr>) }
         else Some eng) }) }"

text \<open>
  The loops over the two wait queues read the next message before they process one, and processing
  takes only that message out of the queue, so they visit the queue as it was at the start.
\<close>

fun wait_and_pickup_loop :: "nat list \<Rightarrow> 'a engine \<Rightarrow> 'a engine option" where
  "wait_and_pickup_loop [] eng = Some eng"
| "wait_and_pickup_loop (m # q) eng = do {
     eng \<leftarrow> wait_and_pickup_queue_process eng m;
     wait_and_pickup_loop q eng }"

definition wait_only_step :: "'a engine \<Rightarrow> nat \<Rightarrow> 'a engine option" where
  "wait_only_step eng m = do {
     (done, eng) \<leftarrow> RLO_msg_test_isends eng m;
     (if done then do {
        eng \<leftarrow> upd_msg eng m (\<lambda>x. x\<lparr>fwd_done := 1\<rparr>);
        q \<leftarrow> lq_remove (queue_wait eng) m;
        x \<leftarrow> msgs eng m;
        (if send_type x = RLO_BCAST then RLO_msg_free (eng\<lparr>queue_wait := q\<rparr>) m
         else Some (eng\<lparr>queue_wait := q\<rparr>)) }
      else Some eng) }"

fun wait_only_loop :: "nat list \<Rightarrow> 'a engine \<Rightarrow> 'a engine option" where
  "wait_only_loop [] eng = Some eng"
| "wait_only_loop (m # q) eng = do { eng \<leftarrow> wait_only_step eng m; wait_only_loop q eng }"

definition wait_only_queue_cleanup :: "'a engine \<Rightarrow> 'a engine option" where
  "wait_only_queue_cleanup eng = wait_only_loop (queue_wait eng) eng"

section \<open>The own proposal\<close>

text \<open>
  The decision message is freed here when its links are null, that is when it is in no queue or
  alone in one.
\<close>

definition unlinked :: "'a engine \<Rightarrow> nat \<Rightarrow> bool" where
  "unlinked eng m \<longleftrightarrow> list_all (\<lambda>q. m \<in> set q \<longrightarrow> length q = 1)
     [queue_recv eng, queue_wait eng, queue_pickup eng, queue_wait_and_pickup eng, queue_iar_pending eng]"

definition own_proposal_update :: "'a engine \<Rightarrow> 'a engine option" where
  "own_proposal_update eng =
     (let own = my_own_proposal eng in
      if ps_state own \<noteq> RLO_COMPLETED \<and> ps_state own \<noteq> RLO_INVALID then
        (case decision_msg own of
           None \<Rightarrow> Some eng
         | Some d \<Rightarrow> do {
             (done, eng) \<leftarrow> RLO_msg_test_isends eng d;
             (if done then
                (let own = own\<lparr>ps_state := RLO_COMPLETED\<rparr> in
                 if unlinked eng d then do {
                   eng \<leftarrow> RLO_msg_free eng d;
                   Some (eng\<lparr>my_own_proposal := own\<lparr>decision_msg := None\<rparr>\<rparr>) }
                 else Some (eng\<lparr>my_own_proposal := own\<rparr>))
              else Some eng) })
      else Some eng)"

definition RLO_proposal_reset :: "'a engine \<Rightarrow> Proposal_state \<Rightarrow> (Proposal_state \<times> 'a engine) option" where
  "RLO_proposal_reset eng ps = do {
     eng \<leftarrow> (case decision_msg ps of None \<Rightarrow> Some eng | Some d \<Rightarrow> RLO_msg_free eng d);
     eng \<leftarrow> (case proposal_msg ps of None \<Rightarrow> Some eng | Some m \<Rightarrow> RLO_msg_free eng m);
     Some (\<lparr>ps_pid = - 1, recv_proposal_from = - 1, ps_vote = - 1, votes_needed = 0, votes_recved = 0,
            ps_state = RLO_INVALID, proposal_msg = None, decision_msg = None\<rparr>, eng) }"

definition RLO_get_vote_my_proposal :: "'a engine \<Rightarrow> c_int" where
  "RLO_get_vote_my_proposal eng =
     (if ps_state (my_own_proposal eng) \<noteq> RLO_COMPLETED then - 1 else ps_vote (my_own_proposal eng))"

end
