(* ===== verification/Progress.thy ===== *)
theory Progress
  imports Engine
begin

text \<open>
  The part of \<^verbatim>\<open>rootless/rootless_ops.c\<close> that works on the process: the list of active engines,
  \<^verbatim>\<open>RLO_make_progress\<close> over all of them, and the operations that call it. A vote that completes the own
  proposal broadcasts the decision, and \<^verbatim>\<open>RLO_bcast_gen\<close> turns the gears again before it returns, so
  the routines are mutually recursive. The depth of that recursion is the fuel; a message must have
  arrived for each level, so one more than the number of messages under way is enough
  (\<open>progress_fuel\<close>).
\<close>

record 'a process =
  engines :: "nat \<rightharpoonup> 'a engine"
  active_engines :: "nat list option"
  ever_created :: int

definition set_eng :: "'a process \<Rightarrow> nat \<Rightarrow> 'a engine \<Rightarrow> 'a process" where
  "set_eng P e eng = P\<lparr>engines := (engines P)(e \<mapsto> eng)\<rparr>"

text \<open>Everything \<^verbatim>\<open>RLO_bcast_gen\<close> does before it turns the gears.\<close>

definition bcast_post :: "'a engine \<Rightarrow> nat \<Rightarrow> int \<Rightarrow> 'a engine option" where
  "bcast_post eng m tag = do {
     eng \<leftarrow> upd_msg eng m (\<lambda>x. x\<lparr>bc_init := 1, pickup_done := 1\<rparr>);
     eng \<leftarrow> isend_list eng m (nat (msg_size_max (my_bcomm eng))) tag
              (rev [0..<nat (send_list_len (my_bcomm eng))]);
     eng \<leftarrow> upd_msg eng m (\<lambda>x. x\<lparr>send_type := tag\<rparr>);
     eng \<leftarrow> Some (if tag \<noteq> RLO_IAR_DECISION then eng\<lparr>queue_wait := queue_wait eng @ [m]\<rparr> else eng);
     eng \<leftarrow> Some (if tag \<noteq> RLO_IAR_PROPOSAL then eng\<lparr>sent_bcast_cnt := sent_bcast_cnt eng + 1\<rparr> else eng);
     Some (eng\<lparr>my_bcomm := (my_bcomm eng)\<lparr>bcast_send_cnt := send_list_len (my_bcomm eng),
                                           my_bcast_cnt := my_bcast_cnt (my_bcomm eng) + 1\<rparr>\<rparr>) }"

definition RLO_bcast_gen ::
  "('a process \<Rightarrow> 'a process option) \<Rightarrow> nat \<Rightarrow> nat \<Rightarrow> int \<Rightarrow> 'a process \<Rightarrow> 'a process option" where
  "RLO_bcast_gen progress e m tag P = do {
     eng \<leftarrow> engines P e;
     eng \<leftarrow> bcast_post eng m tag;
     progress (set_eng P e eng) }"

text \<open>The data of a decision is the string \<^verbatim>\<open>IAR_DEC\<close> with its final zero.\<close>

definition decision_data :: "byte list" where
  "decision_data = [73, 65, 82, 95, 68, 69, 67, 0]"

definition iar_decision_bcast ::
  "('a process \<Rightarrow> 'a process option) \<Rightarrow> nat \<Rightarrow> c_int \<Rightarrow> c_int \<Rightarrow> 'a process \<Rightarrow> 'a process option" where
  "iar_decision_bcast progress e my_proposal_id decision P = do {
     eng \<leftarrow> engines P e;
     r \<leftarrow> pbuf_serialize my_proposal_id decision 0 8 (Some decision_data);
     (case r of
        Inl err \<Rightarrow> None
      | Inr buf \<Rightarrow> do {
          (d, eng) \<leftarrow> RLO_msg_new_bc eng buf (of_nat (length buf));
          P \<leftarrow> RLO_bcast_gen progress e d RLO_IAR_DECISION (set_eng P e eng);
          eng \<leftarrow> engines P e;
          Some (set_eng P e (eng\<lparr>my_own_proposal := (my_own_proposal eng)\<lparr>decision_msg := Some d\<rparr>\<rparr>)) }) }"

text \<open>The vote on the own proposal that completes it is judged once more by the proposer itself.\<close>

definition iar_vote_handler ::
  "('a process \<Rightarrow> 'a process option) \<Rightarrow> nat \<Rightarrow> nat \<Rightarrow> 'a process \<Rightarrow> 'a process option" where
  "iar_vote_handler progress e m P = do {
     eng \<leftarrow> engines P e;
     x \<leftarrow> msgs eng m;
     (l, vote_buf) \<leftarrow> pbuf_deserialize (data_buf (m_buf x));
     (let own = my_own_proposal eng in
      if pb_pid vote_buf = ps_pid own then
        (let own = own\<lparr>votes_recved := votes_recved own + 1, ps_vote := ps_vote own AND pb_vote vote_buf\<rparr> in
         if votes_recved own = votes_needed own then do {
           (v, a) \<leftarrow> (if ps_vote own \<noteq> 0 then prop_judgement_cb eng (my_proposal eng) (app_ctx eng)
                       else Some (ps_vote own, app_ctx eng));
           iar_decision_bcast progress e (ps_pid own) v
             (set_eng P e (eng\<lparr>my_own_proposal := own\<lparr>ps_vote := v\<rparr>, app_ctx := a\<rparr>)) }
         else Some (set_eng P e (eng\<lparr>my_own_proposal := own\<rparr>)))
      else do {
        (r, eng) \<leftarrow> vote_for_pending eng vote_buf;
        Some (set_eng P e eng) }) }"

text \<open>One received message: the receive is posted again before the message is handled.\<close>

definition handle_received ::
  "('a process \<Rightarrow> 'a process option) \<Rightarrow> nat \<Rightarrow> nat \<Rightarrow> 'a process \<Rightarrow> 'a process option" where
  "handle_received progress e m P = do {
     eng \<leftarrow> engines P e;
     x \<leftarrow> msgs eng m;
     q \<leftarrow> lq_remove (queue_recv eng) m;
     (let tag = stat_tag x;
          (m2, eng) = RLO_msg_new_generic (eng\<lparr>queue_recv := q\<rparr>);
          eng = eng\<lparr>queue_recv := queue_recv eng @ [m2]\<rparr> in
      if tag = RLO_BCAST then do {
        (n, eng) \<leftarrow> bc_forward (eng\<lparr>recved_bcast_cnt := recved_bcast_cnt eng + 1\<rparr>) m;
        Some (set_eng P e eng) }
      else if tag = RLO_IAR_PROPOSAL then do {
        (r, eng) \<leftarrow> iar_proposal_handler eng m;
        Some (set_eng P e eng) }
      else if tag = RLO_IAR_VOTE then iar_vote_handler progress e m (set_eng P e eng)
      else if tag = RLO_IAR_DECISION then do {
        (r, eng) \<leftarrow> iar_decision_handler (eng\<lparr>recved_bcast_cnt := recved_bcast_cnt eng + 1\<rparr>) m;
        (n, eng) \<leftarrow> bc_forward eng m;
        Some (set_eng P e eng) }
      else Some (set_eng P e eng)) }"

text \<open>The link to the next message of a queue, null for the last one and outside the queue.\<close>

fun next_in :: "nat list \<Rightarrow> nat \<Rightarrow> nat option" where
  "next_in [] m = None"
| "next_in (x # q) m = (if x = m then (case q of [] \<Rightarrow> None | y # _ \<Rightarrow> Some y) else next_in q m)"

partial_function (option) recv_loop ::
  "('a process \<Rightarrow> 'a process option) \<Rightarrow> nat \<Rightarrow> nat option \<Rightarrow> 'a process \<Rightarrow> 'a process option" where
  "recv_loop progress e cur P =
     (case cur of
        None \<Rightarrow> Some P
      | Some m \<Rightarrow> do {
          eng \<leftarrow> engines P e;
          (let msg_tmp = next_in (queue_recv eng) m in do {
             (completed, eng) \<leftarrow> test_ircecv_completed eng m;
             P \<leftarrow> (if completed then handle_received progress e m (set_eng P e eng)
                    else Some (set_eng P e eng));
             recv_loop progress e msg_tmp P }) })"

declare recv_loop.simps [code]

definition RLO_make_progress_gen ::
  "('a process \<Rightarrow> 'a process option) \<Rightarrow> nat \<Rightarrow> 'a process \<Rightarrow> 'a process option" where
  "RLO_make_progress_gen progress e P = do {
     eng \<leftarrow> engines P e;
     eng \<leftarrow> own_proposal_update eng;
     P \<leftarrow> recv_loop progress e (case queue_recv eng of [] \<Rightarrow> None | m # _ \<Rightarrow> Some m) (set_eng P e eng);
     eng \<leftarrow> engines P e;
     eng \<leftarrow> wait_and_pickup_loop (queue_wait_and_pickup eng) eng;
     eng \<leftarrow> wait_only_queue_cleanup eng;
     Some (set_eng P e eng) }"

fun each_engine :: "(nat \<Rightarrow> 'a process \<Rightarrow> 'a process option) \<Rightarrow> nat list \<Rightarrow> 'a process \<Rightarrow> 'a process option" where
  "each_engine f [] P = Some P"
| "each_engine f (e # es) P = do { P \<leftarrow> f e P; each_engine f es P }"

fun RLO_make_progress :: "nat \<Rightarrow> 'a process \<Rightarrow> 'a process option" where
  "RLO_make_progress 0 P = None"
| "RLO_make_progress (Suc n) P = do {
     es \<leftarrow> active_engines P;
     each_engine (RLO_make_progress_gen (RLO_make_progress n)) es P }"

definition eng_incoming :: "'a engine \<Rightarrow> nat" where
  "eng_incoming eng = length (filter (\<lambda>a. a \<noteq> None) (arrivals eng))"

definition incoming_cnt :: "'a process \<Rightarrow> nat" where
  "incoming_cnt P = sum_list (map (\<lambda>e. case engines P e of None \<Rightarrow> 0 | Some eng \<Rightarrow> eng_incoming eng)
     (case active_engines P of None \<Rightarrow> [] | Some es \<Rightarrow> es))"

definition progress_fuel :: "'a process \<Rightarrow> nat" where
  "progress_fuel P = Suc (incoming_cnt P)"

definition progress_all :: "'a process \<Rightarrow> 'a process option" where
  "progress_all P = RLO_make_progress (progress_fuel P) P"

section \<open>The interface of the engine\<close>

text \<open>What \<^verbatim>\<open>MPI_Comm_dup\<close> gives a new engine: its communicator and the traffic on it.\<close>

record comm_env =
  ce_size :: int
  ce_rank :: int
  ce_arrivals :: "(int \<times> int \<times> byte list) option list"
  ce_complete :: "nat \<Rightarrow> nat \<Rightarrow> bool"

text \<open>\<^verbatim>\<open>calloc\<close> leaves zeros in the fields nothing is assigned to before the pool is reset.\<close>

definition zero_proposal_state :: Proposal_state where
  "zero_proposal_state = \<lparr>ps_pid = 0, recv_proposal_from = 0, ps_vote = 0, votes_needed = 0, votes_recved = 0,
     ps_state = 0, proposal_msg = None, decision_msg = None\<rparr>"

definition RLO_progress_engine_new ::
  "comm_env \<Rightarrow> (byte list option \<Rightarrow> 'a \<Rightarrow> (c_int \<times> 'a) option) \<Rightarrow> 'a
   \<Rightarrow> (byte list \<Rightarrow> 'a \<Rightarrow> 'a option) option \<Rightarrow> nat \<Rightarrow> 'a process \<Rightarrow> 'a process option" where
  "RLO_progress_engine_new env approv_cb_func ctx action e P = do {
     b \<leftarrow> bcomm_init (ce_size env) (ce_rank env);
     (let eng = \<lparr>my_bcomm = b, engine_id = 0, queue_recv = [], queue_wait = [], queue_pickup = [],
            queue_wait_and_pickup = [], queue_iar_pending = [], recved_bcast_cnt = 0, sent_bcast_cnt = 0,
            my_own_proposal = proposal_state_init None,
            proposal_state_pool = proposalPools_reset (replicate PROPOSAL_POOL_SIZE zero_proposal_state),
            my_proposal = None, prop_judgement_cb = approv_cb_func, proposal_action = action,
            app_ctx = ctx, fwd_queued = 0, msgs = Map.empty, next_msg = 0, arrivals = ce_arrivals env,
            sent = [], send_complete = ce_complete env, mpi_tick = 0\<rparr>;
          (m, eng) = RLO_msg_new_generic eng;
          eng = eng\<lparr>queue_recv := queue_recv eng @ [m], engine_id := ever_created P + 1\<rparr>;
          es = (case active_engines P of None \<Rightarrow> [] | Some es \<Rightarrow> es) in
      Some (set_eng (P\<lparr>active_engines := Some (es @ [e]), ever_created := ever_created P + 1\<rparr>) e eng)) }"

definition RLO_check_my_proposal_state :: "nat \<Rightarrow> c_int \<Rightarrow> 'a process \<Rightarrow> (int \<times> 'a process) option" where
  "RLO_check_my_proposal_state e k P = do {
     P \<leftarrow> progress_all P;
     eng \<leftarrow> engines P e;
     Some (ps_state (my_own_proposal eng), P) }"

definition proposal_succeeded :: "nat \<Rightarrow> 'a process \<Rightarrow> (bool \<times> 'a process) option" where
  "proposal_succeeded e P = do {
     P \<leftarrow> progress_all P;
     eng \<leftarrow> engines P e;
     (let own = my_own_proposal eng in
      Some (votes_needed own = votes_recved own \<and> ps_vote own \<noteq> 0, P)) }"

text \<open>The time stamp is the clock reading of \<^verbatim>\<open>RLO_get_time_usec\<close>.\<close>

definition RLO_submit_proposal ::
  "nat \<Rightarrow> byte list option \<Rightarrow> c_ulong \<Rightarrow> c_int \<Rightarrow> c_ulong \<Rightarrow> 'a process \<Rightarrow> (c_int \<times> 'a process) option" where
  "RLO_submit_proposal e proposal prop_size my_proposal_id now P = do {
     eng \<leftarrow> engines P e;
     eng \<leftarrow> Some (eng\<lparr>my_own_proposal := (my_own_proposal eng)\<lparr>ps_pid := my_proposal_id, proposal_msg := None,
         ps_vote := 1, votes_needed := send_list_len (my_bcomm eng), votes_recved := 0, decision_msg := None\<rparr>,
         my_proposal := proposal\<rparr>);
     r \<leftarrow> pbuf_serialize my_proposal_id 1 now prop_size proposal;
     (case r of
        Inl err \<Rightarrow> Some (- 1, set_eng P e eng)
      | Inr buf \<Rightarrow> do {
          (m, eng) \<leftarrow> RLO_msg_new_bc eng buf (of_nat (length buf));
          eng \<leftarrow> Some (eng\<lparr>my_own_proposal := (my_own_proposal eng)\<lparr>ps_state := RLO_IN_PROGRESS,
                                                                  proposal_msg := Some m\<rparr>\<rparr>);
          P \<leftarrow> RLO_bcast_gen progress_all e m RLO_IAR_PROPOSAL (set_eng P e eng);
          P \<leftarrow> progress_all P;
          eng \<leftarrow> engines P e;
          Some (if ps_state (my_own_proposal eng) = RLO_COMPLETED then ps_vote (my_own_proposal eng) else - 1, P) }) }"

text \<open>
  Cleanup waits for the sum of the broadcasts of all ranks (\<open>total_bcast\<close>, after \<open>tests\<close> tests of the
  reduction), then for that many to have been sent or received here.
\<close>

fun cleanup_reduce :: "nat \<Rightarrow> 'a process \<Rightarrow> 'a process option" where
  "cleanup_reduce 0 P = Some P"
| "cleanup_reduce (Suc n) P = do { P \<leftarrow> progress_all P; cleanup_reduce n P }"

partial_function (option) cleanup_wait :: "nat \<Rightarrow> int \<Rightarrow> 'a process \<Rightarrow> 'a process option" where
  "cleanup_wait e total_bcast P = do {
     eng \<leftarrow> engines P e;
     (if recved_bcast_cnt eng + sent_bcast_cnt eng < word_of_int total_bcast
      then do { P \<leftarrow> progress_all P; cleanup_wait e total_bcast P }
      else Some P) }"

partial_function (option) cleanup_pickup :: "'a engine \<Rightarrow> 'a engine option" where
  "cleanup_pickup eng = do {
     (m, eng) \<leftarrow> RLO_user_pickup_next eng;
     (case m of None \<Rightarrow> Some eng | Some _ \<Rightarrow> cleanup_pickup eng) }"

fun free_all :: "nat list \<Rightarrow> 'a engine \<Rightarrow> 'a engine option" where
  "free_all [] eng = Some eng"
| "free_all (m # q) eng = do { eng \<leftarrow> RLO_msg_free eng m; free_all q eng }"

declare cleanup_wait.simps [code] cleanup_pickup.simps [code]

definition RLO_progress_engine_cleanup :: "nat \<Rightarrow> nat \<Rightarrow> int \<Rightarrow> 'a process \<Rightarrow> (int \<times> 'a process) option" where
  "RLO_progress_engine_cleanup e tests total_bcast P = do {
     P \<leftarrow> cleanup_reduce tests P;
     P \<leftarrow> cleanup_wait e total_bcast P;
     eng \<leftarrow> engines P e;
     eng \<leftarrow> cleanup_pickup eng;
     eng \<leftarrow> free_all (queue_recv eng) eng;
     es \<leftarrow> active_engines P;
     es \<leftarrow> lq_remove es e;
     Some (0, P\<lparr>active_engines := Some es, engines := (engines P)(e := None)\<rparr>) }"

end
