(* ===== verification/Proposal.thy ===== *)
theory Proposal
  imports Bytes
begin

text \<open>
  \<^verbatim>\<open>proposal.c\<close>: the proposal record, its encoding into a buffer and back, and its clock. The two
  \<^verbatim>\<open>int\<close>-valued calls to the system, \<^verbatim>\<open>gettimeofday\<close> and \<^verbatim>\<open>getpid\<close>, are arguments.
\<close>

section \<open>The record\<close>

text \<open>\<^verbatim>\<open>proposal_state\<close> is an \<^verbatim>\<open>int\<close> on the wire, and any value can be read back.\<close>

datatype proposal_state =
  PS_IN_PROGRESS | PS_APPROVED | PS_DENIED | PS_READY_EXECUTE | PS_EXECUTED | PS_DEFAULT

fun ps_code :: "proposal_state \<Rightarrow> c_int" where
  "ps_code PS_IN_PROGRESS = 0"
| "ps_code PS_APPROVED = 1"
| "ps_code PS_DENIED = 2"
| "ps_code PS_READY_EXECUTE = 3"
| "ps_code PS_EXECUTED = 4"
| "ps_code PS_DEFAULT = 5"

lemma ps_code_inject: "ps_code a = ps_code b \<longleftrightarrow> a = b"
  by (cases a; cases b) auto

text \<open>\<open>'o\<close> is the type of the object a local execution leaves behind.\<close>

record 'o proposal =
  pid :: c_int
  state :: c_int
  time :: c_ulong
  isLocal :: c_int
  op_type :: c_int
  p_data_len :: c_ulong
  proposal_data :: "byte list option"
  result_obj_local :: "'o option"

text \<open>\<^verbatim>\<open>gettimeofday\<close> fills the seconds and microseconds of a \<^verbatim>\<open>timeval\<close>.\<close>

record timeval =
  tv_sec :: c_ulong
  tv_usec :: c_ulong

definition proposal_get_time_usec :: "timeval \<Rightarrow> c_ulong" where
  "proposal_get_time_usec tv = 1000000 * tv_sec tv + tv_usec tv"

definition compose_proposal ::
  "timeval \<Rightarrow> c_int \<Rightarrow> c_int \<Rightarrow> byte list option \<Rightarrow> c_ulong \<Rightarrow> 'o proposal" where
  "compose_proposal tv pid_in op p_data len =
     \<lparr>pid = pid_in, state = ps_code PS_DEFAULT, time = proposal_get_time_usec tv, isLocal = 0,
      op_type = op, p_data_len = len, proposal_data = p_data, result_obj_local = None\<rparr>"

definition set_proposal_time :: "timeval \<Rightarrow> 'o proposal \<Rightarrow> c_ulong \<times> 'o proposal" where
  "set_proposal_time tv p =
     (let p' = p\<lparr>time := proposal_get_time_usec tv\<rparr> in (time p', p'))"

definition new_proposal_ID :: "timeval \<Rightarrow> c_int \<Rightarrow> c_int" where
  "new_proposal_ID tv getpid = getpid + ucast (tv_usec tv)"

section \<open>Encoding\<close>

text \<open>
  The returned size and the buffer. A size that wraps, or data shorter than the length field
  says, is undefined (\<^const>\<open>None\<close>).
\<close>

definition proposal_encoder :: "'o proposal \<Rightarrow> (c_ulong \<times> byte list) option" where
  "proposal_encoder p =
     (let cal_size = 4 + 4 + 8 + 4 + 4 + 8 + p_data_len p in do {
        require (unat cal_size = 32 + unat (p_data_len p));
        dat \<leftarrow> (if p_data_len p > 0
                then do { src \<leftarrow> proposal_data p; memcpy_from src (unat (p_data_len p)) }
                else Some []);
        Some (cal_size,
              put_int (pid p) @ put_int (state p) @ put_ulong (time p) @ put_int (isLocal p)
              @ put_int (op_type p) @ put_ulong (p_data_len p) @ dat) })"

definition proposal_decoder :: "byte list \<Rightarrow> 'o proposal option" where
  "proposal_decoder buf_in = do {
     (i, buf_in) \<leftarrow> get_int buf_in;
     (st, buf_in) \<leftarrow> get_int buf_in;
     (tm, buf_in) \<leftarrow> get_ulong buf_in;
     (loc, buf_in) \<leftarrow> get_int buf_in;
     (op, buf_in) \<leftarrow> get_int buf_in;
     (len, buf_in) \<leftarrow> get_ulong buf_in;
     dat \<leftarrow> (if len > 0 then map_option Some (memcpy_from buf_in (unat len)) else Some None);
     Some \<lparr>pid = i, state = st, time = tm, isLocal = loc, op_type = op, p_data_len = len,
           proposal_data = dat, result_obj_local = None\<rparr> }"

text \<open>
  Some callers read a field through a cast of the buffer to the record
  (\<^verbatim>\<open>((proposal*)buf)->time\<close>): with the LP64 layout the time is eight bytes at offset 8.
\<close>

definition cast_time :: "byte list \<Rightarrow> c_ulong option" where
  "cast_time buf = map_option fst (get_ulong (drop 8 buf))"

section \<open>Round trip\<close>

text \<open>A proposal whose data is what its length field says, and absent when that is 0.\<close>

definition wf_proposal :: "'o proposal \<Rightarrow> bool" where
  "wf_proposal p \<longleftrightarrow>
     unat (p_data_len p) < 2 ^ 63
   \<and> (case proposal_data p of None \<Rightarrow> p_data_len p = 0
      | Some d \<Rightarrow> p_data_len p > 0 \<and> length d = unat (p_data_len p))"

definition proposal_image :: "'o proposal \<Rightarrow> byte list" where
  "proposal_image p =
     put_int (pid p) @ put_int (state p) @ put_ulong (time p) @ put_int (isLocal p)
     @ put_int (op_type p) @ put_ulong (p_data_len p)
     @ (case proposal_data p of None \<Rightarrow> [] | Some d \<Rightarrow> d)"

lemma proposal_encoder_image:
  assumes "wf_proposal p"
  shows "proposal_encoder p = Some (32 + p_data_len p, proposal_image p)"
  using assms
  by (auto simp: proposal_encoder_def wf_proposal_def proposal_image_def size_no_wrap Let_def
      codec_simps split: option.splits)

lemma length_proposal_image:
  assumes "wf_proposal p"
  shows "length (proposal_image p) = 32 + unat (p_data_len p)"
  using assms by (auto simp: wf_proposal_def proposal_image_def split: option.splits)

lemma proposal_decoder_image [codec_simps]:
  assumes "wf_proposal p"
  shows "proposal_decoder (proposal_image p @ rest) = Some (p\<lparr>result_obj_local := None\<rparr>)"
  using assms
  by (cases p) (auto simp: proposal_decoder_def wf_proposal_def proposal_image_def
      codec_simps split: option.splits)

text \<open>The receiver reads the proposal whatever type its own local results have.\<close>

lemma proposal_decoder_any:
  assumes "wf_proposal (p :: 'o proposal)"
  obtains q :: "'b proposal" where "proposal_decoder (proposal_image p @ rest) = Some q"
    and "isLocal q = isLocal p" and "op_type q = op_type p" and "proposal_data q = proposal_data p"
proof -
  define q where "q = (\<lparr>pid = pid p, state = state p, time = time p, isLocal = isLocal p, op_type = op_type p,
    p_data_len = p_data_len p, proposal_data = proposal_data p, result_obj_local = None\<rparr> :: 'b proposal)"
  have "wf_proposal q" "proposal_image q = proposal_image p"
    using assms by (simp_all add: wf_proposal_def proposal_image_def q_def split: option.splits)
  then have "proposal_decoder (proposal_image p @ rest) = Some q" using proposal_decoder_image [of q rest] by (simp add: q_def)
  then show thesis by (rule that) (simp_all add: q_def)
qed

lemma cast_time_image [codec_simps]: "cast_time (proposal_image p @ rest) = Some (time p)"
  by (simp add: cast_time_def proposal_image_def codec_simps)

text \<open>What the cast reads is what the decoder reads, on every buffer the decoder accepts.\<close>

lemma get_int_drop: "get_int bs = Some (w, r) \<Longrightarrow> r = drop 4 bs"
  by (auto simp: get_int_def get_bytes_def split: if_splits)

lemma get_ulong_drop: "get_ulong bs = Some (w, r) \<Longrightarrow> r = drop 8 bs"
  by (auto simp: get_ulong_def get_bytes_def split: if_splits)

lemma cast_time_decoder:
  assumes "proposal_decoder buf = Some p"
  shows "cast_time buf = Some (time p)"
proof -
  from assms obtain i b1 st b2 b3 where
    "get_int buf = Some (i, b1)" "get_int b1 = Some (st, b2)" "get_ulong b2 = Some (time p, b3)"
    by (auto simp: proposal_decoder_def split: Option.bind_splits)
  then show ?thesis by (auto simp: cast_time_def dest!: get_int_drop)
qed

end
