(* ===== verification/Voting.thy ===== *)
theory Voting
  imports Proposal
begin

text \<open>
  \<^verbatim>\<open>VotingManager.c\<close>: the generic voting manager, which reaches a voting mechanism through the
  table of functions of a \<^verbatim>\<open>VotingPlugin\<close>. The state of the mechanism, with everything behind its
  context pointer (engine and network), is a value \<open>'v\<close> that every function of the table may change;
  \<^const>\<open>None\<close> is a call that fails an assertion or does not return.
\<close>

record ('o, 'j, 'i, 'v) VotingPlugin =
  vp_ctx_in :: 'i
  vp_init :: "'j \<Rightarrow> 'i \<Rightarrow> 'v \<Rightarrow> (int \<times> nat option \<times> 'v) option"
  vp_submit_proposal :: "nat \<Rightarrow> 'o proposal \<Rightarrow> 'v \<Rightarrow> (int \<times> 'v) option"
  vp_submit_bcast :: "nat \<Rightarrow> 'o proposal \<Rightarrow> 'v \<Rightarrow> (int \<times> 'v) option"
  vp_check_my_proposal_state :: "nat \<Rightarrow> c_int \<Rightarrow> 'v \<Rightarrow> (c_int \<times> 'v) option"
  vp_rm_my_proposal :: "nat \<Rightarrow> 'v \<Rightarrow> (int \<times> 'v) option"
  vp_checkout_proposal :: "nat \<Rightarrow> 'v \<Rightarrow> (int \<times> byte list option \<times> 'v) option"
  vp_make_progress :: "nat \<Rightarrow> 'v \<Rightarrow> (int \<times> 'v) option"
  vp_get_my_rank :: "nat \<Rightarrow> 'v \<Rightarrow> int option"
  vp_finalize :: "nat \<Rightarrow> 'v \<Rightarrow> (int \<times> 'v) option"

record ('o, 'j, 'i, 'v) voting_mgr =
  voting_plugin :: "('o, 'j, 'i, 'v) VotingPlugin"
  vp_context :: nat

text \<open>\<open>'j\<close> is the judgement callback together with the application context it is given.\<close>

definition VM_voting_manager_init ::
  "('o, 'j, 'i, 'v) VotingPlugin \<Rightarrow> 'j \<Rightarrow> 'v \<Rightarrow> (('o, 'j, 'i, 'v) voting_mgr \<times> 'v) option" where
  "VM_voting_manager_init plugin h5_namespace_judgement v = do {
     (ret, ctx, v) \<leftarrow> vp_init plugin h5_namespace_judgement (vp_ctx_in plugin) v;
     require (ret = 0);
     require (ctx \<noteq> None);
     Some (\<lparr>voting_plugin = plugin, vp_context = the ctx\<rparr>, v) }"

definition VM_voting_manager_term :: "('o, 'j, 'i, 'v) voting_mgr \<Rightarrow> 'v \<Rightarrow> (int \<times> 'v) option" where
  "VM_voting_manager_term vm v = do {
     (ret, v) \<leftarrow> vp_finalize (voting_plugin vm) (vp_context vm) v;
     require (ret \<noteq> 0);
     Some (- 1, v) }"

definition VM_voting_make_progress :: "('o, 'j, 'i, 'v) voting_mgr \<Rightarrow> 'v \<Rightarrow> (int \<times> 'v) option" where
  "VM_voting_make_progress vm v = vp_make_progress (voting_plugin vm) (vp_context vm) v"

text \<open>The two submissions set the state of the caller's proposal.\<close>

definition VM_submit_proposal_for_voting ::
  "('o, 'j, 'i, 'v) voting_mgr \<Rightarrow> 'o proposal \<Rightarrow> 'v \<Rightarrow> (int \<times> 'o proposal \<times> 'v) option" where
  "VM_submit_proposal_for_voting vm p v = do {
     p \<leftarrow> Some (p\<lparr>state := ps_code PS_IN_PROGRESS\<rparr>);
     (ret, v) \<leftarrow> vp_submit_proposal (voting_plugin vm) (vp_context vm) p v;
     Some (ret, p, v) }"

definition VM_submit_bcast ::
  "('o, 'j, 'i, 'v) voting_mgr \<Rightarrow> 'o proposal \<Rightarrow> 'v \<Rightarrow> (int \<times> 'o proposal \<times> 'v) option" where
  "VM_submit_bcast vm p v = do {
     p \<leftarrow> Some (p\<lparr>state := ps_code PS_APPROVED\<rparr>);
     (ret, v) \<leftarrow> vp_submit_bcast (voting_plugin vm) (vp_context vm) p v;
     Some (ret, p, v) }"

definition VM_check_my_proposal_state ::
  "('o, 'j, 'i, 'v) voting_mgr \<Rightarrow> c_int \<Rightarrow> 'v \<Rightarrow> (c_int \<times> 'v) option" where
  "VM_check_my_proposal_state vm i v = do {
     (r, v) \<leftarrow> VM_voting_make_progress vm v;
     vp_check_my_proposal_state (voting_plugin vm) (vp_context vm) i v }"

text \<open>The pointer the caller passes is set to null when nothing was found.\<close>

definition VM_checkout_proposal ::
  "('o, 'j, 'i, 'v) voting_mgr \<Rightarrow> 'v \<Rightarrow> (int \<times> byte list option \<times> 'v) option" where
  "VM_checkout_proposal vm v = do {
     (ret, recv_p, v) \<leftarrow> vp_checkout_proposal (voting_plugin vm) (vp_context vm) v;
     Some (if ret \<noteq> 0 then (1, recv_p, v) else (0, None, v)) }"

definition VM_rm_my_proposal :: "('o, 'j, 'i, 'v) voting_mgr \<Rightarrow> 'v \<Rightarrow> (int \<times> 'v) option" where
  "VM_rm_my_proposal vm v = do {
     (r, v) \<leftarrow> vp_rm_my_proposal (voting_plugin vm) (vp_context vm) v;
     Some (0, v) }"

end
