(* ===== verification/Plugin_RLO.thy ===== *)
theory Plugin_RLO
  imports Progress Voting
begin

text \<open>
  \<^verbatim>\<open>VotingPlugin_RLO.c\<close>: the voting mechanism on top of the progress engine, as the table of
  functions the voting manager calls. The context pointer is the engine. The state is the process
  with the clock readings that \<^verbatim>\<open>RLO_submit_proposal\<close> stamps its packages with.
\<close>

record 'a rlo_state =
  rlo_process :: "'a process"
  rlo_clock :: "nat \<Rightarrow> c_ulong"
  rlo_ticks :: nat
  cleanup_tests :: nat
  cleanup_total :: int

definition lift_process :: "('a process \<Rightarrow> ('r \<times> 'a process) option) \<Rightarrow> 'a rlo_state \<Rightarrow> ('r \<times> 'a rlo_state) option" where
  "lift_process f v = do {
     (r, P) \<leftarrow> f (rlo_process v);
     Some (r, v\<lparr>rlo_process := P\<rparr>) }"

text \<open>
  The judgement comes with the application context. The new engine is at the address \<^verbatim>\<open>calloc\<close>
  returns, which is part of the information for the plugin here.
\<close>

definition vp_init_RLO ::
  "(byte list option \<Rightarrow> 'a \<Rightarrow> (c_int \<times> 'a) option) \<times> 'a \<Rightarrow> comm_env \<times> nat \<Rightarrow> 'a rlo_state
   \<Rightarrow> (int \<times> nat option \<times> 'a rlo_state) option" where
  "vp_init_RLO h5_judgement vp_info v = do {
     (u, v) \<leftarrow> lift_process (\<lambda>P. do {
        P \<leftarrow> RLO_progress_engine_new (fst vp_info) (fst h5_judgement) (snd h5_judgement) None (snd vp_info) P;
        Some ((), P) }) v;
     Some (0, Some (snd vp_info), v) }"

definition vp_finalize_RLO :: "nat \<Rightarrow> 'a rlo_state \<Rightarrow> (int \<times> 'a rlo_state) option" where
  "vp_finalize_RLO e v = do {
     (ret, v) \<leftarrow> lift_process (RLO_progress_engine_cleanup e (cleanup_tests v) (cleanup_total v)) v;
     require (ret = 0);
     Some (1, v) }"

text \<open>
  The return code of \<^verbatim>\<open>pbuf_serialize\<close> is not looked at; it cannot be an error here, for an encoded
  proposal has at least 32 bytes.
\<close>

definition vp_submit_bcast_RLO :: "nat \<Rightarrow> 'o proposal \<Rightarrow> 'a rlo_state \<Rightarrow> (int \<times> 'a rlo_state) option" where
  "vp_submit_bcast_RLO e proposal_in v = do {
     (prop_total_size, proposal_buf) \<leftarrow> proposal_encoder proposal_in;
     r \<leftarrow> pbuf_serialize (pid proposal_in) 1 0 prop_total_size (Some proposal_buf);
     (case r of
        Inl err \<Rightarrow> None
      | Inr pbuf_buf \<Rightarrow> lift_process (\<lambda>P. do {
          eng \<leftarrow> engines P e;
          (m, eng) \<leftarrow> RLO_msg_new_bc eng pbuf_buf (of_nat (length pbuf_buf));
          P \<leftarrow> RLO_bcast_gen progress_all e m RLO_BCAST (set_eng P e eng);
          Some (0, P) }) v) }"

definition vp_submit_proposal_RLO :: "nat \<Rightarrow> 'o proposal \<Rightarrow> 'a rlo_state \<Rightarrow> (int \<times> 'a rlo_state) option" where
  "vp_submit_proposal_RLO e proposal_in v = do {
     (prop_total_size, proposal_buf) \<leftarrow> proposal_encoder proposal_in;
     (r, v) \<leftarrow> lift_process (RLO_submit_proposal e (Some proposal_buf) prop_total_size (pid proposal_in)
                (rlo_clock v (rlo_ticks v))) (v\<lparr>rlo_ticks := rlo_ticks v + 1\<rparr>);
     Some (sint r, v) }"

definition proposal_state_of_req :: "int \<Rightarrow> c_int" where
  "proposal_state_of_req ps =
     (if ps = RLO_IN_PROGRESS then ps_code PS_IN_PROGRESS
      else if ps = RLO_COMPLETED then ps_code PS_APPROVED
      else if ps = RLO_FAILED then ps_code PS_DENIED
      else ps_code PS_DEFAULT)"

definition vp_check_my_proposal_state_RLO :: "nat \<Rightarrow> c_int \<Rightarrow> 'a rlo_state \<Rightarrow> (c_int \<times> 'a rlo_state) option" where
  "vp_check_my_proposal_state_RLO e k v = do {
     (ps, v) \<leftarrow> lift_process (RLO_check_my_proposal_state e k) v;
     Some (proposal_state_of_req ps, v) }"

text \<open>A package without data gives an empty buffer.\<close>

definition checkout_engine :: "'a engine \<Rightarrow> (int \<times> byte list option \<times> 'a engine) option" where
  "checkout_engine eng = do {
     (msg_out, eng) \<leftarrow> RLO_user_pickup_next eng;
     (case msg_out of
        None \<Rightarrow> Some (0, None, eng)
      | Some m \<Rightarrow> do {
          x \<leftarrow> msgs eng m;
          (l, b) \<leftarrow> pbuf_deserialize (drop 8 (data_buf (m_buf x)));
          (r, eng) \<leftarrow> RLO_user_msg_recycle eng m;
          Some (1, Some (case pb_data b of None \<Rightarrow> [] | Some d \<Rightarrow> d), eng) }) }"

definition vp_checkout_proposal_RLO ::
  "nat \<Rightarrow> 'a rlo_state \<Rightarrow> (int \<times> byte list option \<times> 'a rlo_state) option" where
  "vp_checkout_proposal_RLO e v = do {
     ((r, buf), v) \<leftarrow> lift_process (\<lambda>P. do {
        eng \<leftarrow> engines P e;
        (r, buf, eng) \<leftarrow> checkout_engine eng;
        Some ((r, buf), set_eng P e eng) }) v;
     Some (r, buf, v) }"

definition vp_make_progress_RLO :: "nat \<Rightarrow> 'a rlo_state \<Rightarrow> (int \<times> 'a rlo_state) option" where
  "vp_make_progress_RLO e v = lift_process (\<lambda>P. do { P \<leftarrow> progress_all P; Some (0, P) }) v"

definition vp_rm_my_proposal_RLO :: "nat \<Rightarrow> 'a rlo_state \<Rightarrow> (int \<times> 'a rlo_state) option" where
  "vp_rm_my_proposal_RLO e v = Some (0, v)"

definition vp_get_my_rank_RLO :: "nat \<Rightarrow> 'a rlo_state \<Rightarrow> int option" where
  "vp_get_my_rank_RLO e v = do { eng \<leftarrow> engines (rlo_process v) e; Some (my_rank (my_bcomm eng)) }"

text \<open>
  The table as \<^verbatim>\<open>metadata_helper_init\<close> fills it in; it leaves \<^verbatim>\<open>vp_get_my_rank\<close> null, and a call of it
  is undefined.
\<close>

definition rlo_plugin :: "comm_env \<times> nat \<Rightarrow>
  ('o, (byte list option \<Rightarrow> 'a \<Rightarrow> (c_int \<times> 'a) option) \<times> 'a, comm_env \<times> nat, 'a rlo_state) VotingPlugin" where
  "rlo_plugin info =
     \<lparr>vp_ctx_in = info, vp_init = vp_init_RLO, vp_submit_proposal = vp_submit_proposal_RLO,
      vp_submit_bcast = vp_submit_bcast_RLO, vp_check_my_proposal_state = vp_check_my_proposal_state_RLO,
      vp_rm_my_proposal = vp_rm_my_proposal_RLO, vp_checkout_proposal = vp_checkout_proposal_RLO,
      vp_make_progress = vp_make_progress_RLO, vp_get_my_rank = (\<lambda>e v. None),
      vp_finalize = vp_finalize_RLO\<rparr>"

end
