(* ===== verification/Broadcast.thy ===== *)
theory Broadcast
  imports Skip_Ring
begin

text \<open>
  Rootless broadcast over the skip ring: \<^verbatim>\<open>RLO_bcast_gen\<close> at the origin and \<^verbatim>\<open>_bc_forward\<close> at
  every rank that receives the message. The delivery tree collects every rank a message
  reaches; the step relation lets the messages in flight arrive in any order.
\<close>

section \<open>The delivery tree\<close>

text \<open>
  The ranks reached through rank \<open>r\<close> once it has received the message of \<open>origin\<close> from
  \<open>src\<close>, itself included. Each hop spends one unit of fuel.
\<close>

fun relay :: "nat \<Rightarrow> int \<Rightarrow> int \<Rightarrow> int \<Rightarrow> int \<Rightarrow> int list" where
  "relay 0 ws origin src r = []"
| "relay (Suc n) ws origin src r =
     (case bcomm_init ws r of
        None \<Rightarrow> []
      | Some b \<Rightarrow> r # concat (map (relay n ws origin r) (bc_forward_dests b origin src)))"

definition broadcast :: "nat \<Rightarrow> int \<Rightarrow> int \<Rightarrow> int list" where
  "broadcast n ws origin =
     (case bcomm_init ws origin of
        None \<Rightarrow> []
      | Some b \<Rightarrow> concat (map (relay n ws origin origin) (bcast_dests b)))"

lemma relay_unfold:
  assumes "bcomm_init ws r = Some b" and "0 < n"
  shows "relay n ws origin src r =
    r # concat (map (relay (n - 1) ws origin r) (bc_forward_dests b origin src))"
  using assms by (cases n) auto

lemma mset_concat_rev: "mset (concat (rev xss)) = mset (concat xss)"
  by (induction xss) auto

lemma mset_concat_map_rev: "mset (concat (map f (rev xs))) = mset (concat (map f xs))"
  by (metis mset_concat_rev rev_map)

lemma mset_concat_filter_split:
  "mset (concat (map f (filter P xs))) = mset (concat (map (\<lambda>x. if P x then f x else []) xs))"
  by (induction xs) auto

text \<open>The subtrees behind the channels \<open>0, ..., k - 1\<close> of a rank tile the ranks after it.\<close>

lemma tile_channels:
  fixes r B :: int
  assumes "\<And>i. i < k \<Longrightarrow> r + 2 ^ i < B \<Longrightarrow>
             mset (f (r + 2 ^ i)) = mset_set {r + 2 ^ i..<min (r + 2 ^ Suc i) B}"
  shows "mset (concat (map (\<lambda>i. if r + 2 ^ i < B then f (r + 2 ^ i) else []) [0..<k]))
         = mset_set {r + 1..<min (r + 2 ^ k) B}"
  using assms
proof (induction k)
  case 0
  then show ?case by simp
next
  case (Suc k)
  then have IH: "mset (concat (map (\<lambda>i. if r + 2 ^ i < B then f (r + 2 ^ i) else []) [0..<k]))
         = mset_set {r + 1..<min (r + 2 ^ k) B}" by auto
  have one: "(1::int) \<le> 2 ^ k" by simp
  show ?case
  proof (cases "r + 2 ^ k < B")
    case True
    have "mset_set {r + 1..<r + 2 ^ k} + mset_set {r + 2 ^ k..<min (r + 2 ^ Suc k) B}
          = mset_set {r + 1..<min (r + 2 ^ Suc k) B}"
      using True one by (intro mset_set_ivl_split) auto
    with IH Suc.prems [of k] True show ?thesis by simp
  next
    case False
    then have "B \<le> r + 2 ^ k" by simp
    moreover from this one have "B \<le> r + 2 ^ Suc k" by (simp only: power_Suc)
    ultimately have "min (r + 2 ^ k) B = B" "min (r + 2 ^ Suc k) B = B" by (simp_all only: min_absorb2)
    with IH False show ?thesis by simp
  qed
qed

text \<open>
  The hypotheses of the broadcast theorems: at least two ranks (\<^verbatim>\<open>bcomm_init\<close> refuses fewer), at
  most \<open>2 ^ 30\<close> (the bound of the loop of \<^verbatim>\<open>last_wall\<close>), and an origin among them.
\<close>

definition ring_ok :: "int \<Rightarrow> int \<Rightarrow> bool" where
  "ring_ok ws origin \<longleftrightarrow> 2 \<le> ws \<and> ws \<le> 2 ^ 30 \<and> 0 \<le> origin \<and> origin < ws"

lemma ring_okD:
  assumes "ring_ok ws origin"
  shows "2 \<le> ws" and "ws \<le> 2 ^ 30" and "0 \<le> origin" and "origin < ws"
  using assms by (simp_all add: ring_ok_def)

text \<open>Where the downward part of the tree stops: before the origin, or at the last rank.\<close>

definition stop :: "int \<Rightarrow> int \<Rightarrow> int \<Rightarrow> int" where
  "stop ws origin r = (if origin \<le> r then ws else origin)"

lemma relay_down:
  assumes ok: "ring_ok ws origin" and "0 < r" and "r < ws" and "r \<noteq> origin" and "level_loop r < n"
  shows "mset (relay n ws origin (r - 2 ^ level_loop r) r)
         = mset_set {r..<min (r + 2 ^ level_loop r) (stop ws origin r)}"
  using assms(2-)
proof (induction n arbitrary: r)
  case 0
  then show ?case by simp
next
  case (Suc n)
  define l where "l = level_loop r"
  obtain b k where b: "bcomm_init ws r = Some b" "ring_links ws r k b"
    using bcomm_init_links [OF ring_okD(1,2) [OF ok], of r] Suc.prems by auto
  have lvl: "rank_level ws r = l" using Suc.prems by (simp add: rank_level_def l_def)
  have k: "k \<le> l" "\<forall>i<k. r + 2 ^ i < ws" "k < l \<Longrightarrow> ws \<le> r + 2 ^ k"
    using b(2) lvl by (auto simp: ring_links_def)
  have B: "r < stop ws origin r" "stop ws origin r \<le> ws" using Suc.prems ok by (auto simp: stop_def ring_ok_def)
  have sends: "bc_forward_dests b origin (r - 2 ^ l) =
      filter (\<lambda>d. d < stop ws origin r) (rev (map (\<lambda>i. r + 2 ^ i) [0..<k]))"
  proof (cases "l = 0")
    case True
    with ring_links_forward_leaf [OF b(2)] lvl k show ?thesis by simp
  next
    case False
    have "\<not> check_passed_origin b origin d \<longleftrightarrow> d < stop ws origin r"
      if "d \<in> set (rev (map (\<lambda>i. r + 2 ^ i) [0..<k]))" for d
    proof -
      from that obtain i where i: "i < k" "d = r + 2 ^ i" by auto
      then have "my_rank b < d" by (simp add: ring_links_simps [OF b(2)])
      moreover have "d < ws" using i k by blast
      ultimately show ?thesis
        using Suc.prems by (auto simp: check_passed_origin_above ring_links_simps [OF b(2)] stop_def)
    qed
    moreover have "r - 2 ^ l \<le> bc_last_wall b"
      using Suc.prems by (simp add: ring_links_simps [OF b(2)] l_def)
    ultimately show ?thesis
      using False lvl
      by (simp only: ring_links_forward_down [OF b(2)]) (rule filter_cong [OF refl], blast)
  qed
  have sub: "mset (relay n ws origin r (r + 2 ^ i)) =
       mset_set {r + 2 ^ i..<min (r + 2 ^ Suc i) (stop ws origin r)}"
    if "i < k" and "r + 2 ^ i < stop ws origin r" for i
  proof -
    have i: "level_loop (r + 2 ^ i) = i"
      using that(1) k(1) by (intro level_loop_below) (simp add: l_def)
    obtain p where p: "p = (2::int) ^ i" "0 < p" by simp
    have "r + p \<noteq> origin" "stop ws origin (r + p) = stop ws origin r"
      using that(2) B p(2) unfolding p(1) [symmetric] by (auto simp: stop_def split: if_splits)
    then have "r + 2 ^ i \<noteq> origin" "stop ws origin (r + 2 ^ i) = stop ws origin r"
      unfolding p(1) by blast+
    moreover have "i < n" using that(1) k(1) Suc.prems by (simp add: l_def)
    ultimately have "mset (relay n ws origin (r + 2 ^ i - 2 ^ i) (r + 2 ^ i)) =
       mset_set {r + 2 ^ i..<min (r + 2 ^ i + 2 ^ i) (stop ws origin r)}"
      using Suc.IH [of "r + 2 ^ i"] i Suc.prems that(2) B by (simp add: add_pos_pos)
    moreover have "r + 2 ^ i + 2 ^ i = r + 2 ^ Suc i" by simp
    ultimately show ?thesis by (simp only:) simp
  qed
  have "mset (relay (Suc n) ws origin (r - 2 ^ l) r)
      = add_mset r (mset (concat (map (relay n ws origin r)
          (filter (\<lambda>d. d < stop ws origin r) (map (\<lambda>i. r + 2 ^ i) [0..<k])))))"
    using b(1) sends by (simp add: mset_concat_map_rev flip: rev_filter)
  also have "\<dots> = add_mset r (mset_set {r + 1..<min (r + 2 ^ k) (stop ws origin r)})"
    using tile_channels [of k r "stop ws origin r" "relay n ws origin r", OF sub]
    by (simp add: mset_concat_filter_split comp_def)
  also have "min (r + 2 ^ k) (stop ws origin r) = min (r + 2 ^ l) (stop ws origin r)"
  proof (cases "k = l")
    case False
    with k have "ws \<le> r + 2 ^ k" by simp
    moreover have "(2::int) ^ k \<le> 2 ^ l" using k(1) by simp
    ultimately show ?thesis using B by linarith
  qed simp
  also have "add_mset r (mset_set {r + 1..<min (r + 2 ^ l) (stop ws origin r)})
      = mset_set {r..<min (r + 2 ^ l) (stop ws origin r)}"
    using B by (intro mset_set_ivl_insert) auto
  finally show ?case by (simp add: l_def)
qed

text \<open>The same for the channel of exponent \<open>i\<close> of a rank whose multiples of \<open>2 ^ i\<close> line up.\<close>

lemma relay_channel:
  assumes ok: "ring_ok ws origin" and "2 ^ Suc i dvd r" and "0 \<le> r"
    and "r + 2 ^ i < stop ws origin (r + 2 ^ i)" and "r + 2 ^ i < ws" and "r + 2 ^ i \<noteq> origin"
    and "i < n"
  shows "mset (relay n ws origin r (r + 2 ^ i))
         = mset_set {r + 2 ^ i..<min (r + 2 ^ Suc i) (stop ws origin (r + 2 ^ i))}"
proof -
  have "0 < r + 2 ^ i" using assms(3) by (simp add: add_nonneg_pos)
  then have "mset (relay n ws origin (r + 2 ^ i - 2 ^ i) (r + 2 ^ i)) =
       mset_set {r + 2 ^ i..<min (r + 2 ^ i + 2 ^ i) (stop ws origin (r + 2 ^ i))}"
    using relay_down [OF ok, of "r + 2 ^ i" n] assms(4-) by (simp add: level_loop_add [OF assms(2)])
  moreover have "r + 2 ^ i + 2 ^ i = r + 2 ^ Suc i" by simp
  ultimately show ?thesis by (simp only:) simp
qed

text \<open>Rank 0, reached over the link that wraps around, serves the ranks before the origin.\<close>

lemma relay_zero:
  assumes ok: "ring_ok ws origin" and "0 < origin"
    and src: "src \<le> 2 ^ top_level ws \<longleftrightarrow> origin \<le> 2 ^ top_level ws"
    and n: "top_level ws < n"
  shows "mset (relay (Suc n) ws origin src 0) = mset_set {0..<origin}"
proof -
  define L where "L = top_level ws"
  note ws = ring_okD [OF ok]
  obtain b k where b: "bcomm_init ws 0 = Some b" "ring_links ws 0 k b"
    using bcomm_init_links [OF ws(1,2), of 0] ws by auto
  have top: "2 ^ L < ws" "ws \<le> 2 ^ Suc L" using top_level_bounds [OF ws(1)] by (auto simp: L_def)
  have lvl: "rank_level ws 0 = L" by (simp add: rank_level_def L_def)
  have kL: "k = L"
  proof (rule ccontr)
    assume "k \<noteq> L"
    with b(2) lvl have "k < L" "ws \<le> 2 ^ k" by (auto simp: ring_links_def)
    moreover from this have "(2::int) ^ k < 2 ^ L" by simp
    ultimately show False using top by linarith
  qed
  have list: "send_list b = map (\<lambda>i. 0 + 2 ^ i) [0..<Suc L]"
    using ring_links_send_list [OF b(2)] kL top by simp
  have sub: "mset (relay n ws origin 0 (0 + 2 ^ i)) = mset_set {0 + 2 ^ i..<min (0 + 2 ^ Suc i) origin}"
    if "i < m" "m \<le> Suc L" "0 + 2 ^ i < origin" for i m
    using relay_channel [OF ok, of i 0 n] that n ws by (simp add: stop_def L_def)
  have tiles: "mset (concat (map (relay n ws origin 0) (filter (\<lambda>d. d < origin) (map (\<lambda>i. 0 + 2 ^ i) [0..<m]))))
        = mset_set {0 + 1..<min (0 + 2 ^ m) origin}" if "m \<le> Suc L" for m
    using tile_channels [of m 0 origin "relay n ws origin 0", OF sub [OF _ that]]
    by (simp add: mset_concat_filter_split comp_def cong: if_cong)
  have "mset (concat (map (relay n ws origin 0) (bc_forward_dests b origin src))) = mset_set {1..<origin}"
  proof (cases "L = 0")
    case True
    with top ws assms(2) have "origin = 1" by simp
    with True ring_links_forward_leaf [OF b(2)] lvl show ?thesis by simp
  next
    case pos: False
    show ?thesis
    proof (cases "src \<le> 2 ^ L")
      case True
      then have o: "origin \<le> 2 ^ L" using src by (simp add: L_def)
      have "bc_forward_dests b origin src =
          rev (filter (\<lambda>d. d < origin) (map (\<lambda>i. 0 + 2 ^ i) [0..<L]))"
        using pos lvl True kL assms(2)
        by (simp add: ring_links_forward_down [OF b(2)] ring_links_simps [OF b(2)] L_def [symmetric]
            rev_filter [symmetric])
          (rule filter_cong, auto simp: check_passed_origin_above ring_links_simps [OF b(2)])
      then show ?thesis using tiles [of L] o by (simp add: mset_concat_map_rev)
    next
      case False
      then have o: "2 ^ L < origin" using src by (simp add: L_def)
      have all: "filter (\<lambda>d. d < origin) (send_list b) = send_list b"
      proof (rule filter_True, rule ballI)
        fix d assume "d \<in> set (send_list b)"
        then obtain i where "i \<le> L" "d = 2 ^ i" by (auto simp: list less_Suc_eq_le)
        moreover have "(2::int) ^ i \<le> 2 ^ L" using \<open>i \<le> L\<close> by simp
        ultimately show "d < origin" using o by linarith
      qed
      have "bc_forward_dests b origin src = rev (send_list b)"
        using pos lvl False by (intro ring_links_forward_up [OF b(2)]) (auto simp: ring_links_simps [OF b(2)] L_def)
      moreover have "mset (concat (map (relay n ws origin 0) (send_list b)))
          = mset_set {0 + 1..<min (0 + 2 ^ Suc L) origin}"
        using tiles [of "Suc L", folded list] all by simp
      moreover have "min (0 + 2 ^ Suc L) origin = origin" using top ws by simp
      ultimately show ?thesis by (simp only: mset_concat_map_rev) simp
    qed
  qed
  then show ?thesis
    using b(1) mset_set_ivl_insert [of 0 origin] assms(2) by simp
qed

text \<open>
  Climbing: a rank past the origin that got the message over an upward link delivers to itself,
  to every later rank and, over the wrapping link, to the ranks before the origin.
\<close>

lemma upward_src:
  assumes "0 < c" and "ring_links ws c' k b" and "c' = c + 2 ^ level_loop c"
  shows "bc_last_wall b < c" and "0 < rank_level ws c'"
proof -
  have "0 < c'" using assms by (simp add: add_pos_pos)
  have lt: "level_loop c < level_loop c'" using level_loop_up [OF assms(1)] assms(3) by simp
  then have "(2::int) ^ level_loop c < 2 ^ level_loop c'" by simp
  then show "bc_last_wall b < c"
    using \<open>0 < c'\<close> assms(3) by (simp add: ring_links_simps [OF assms(2)])
  show "0 < rank_level ws c'" using lt \<open>0 < c'\<close> by (simp add: rank_level_def)
qed

text \<open>What a rank at or past the origin reaches when it serves its whole send list.\<close>

definition climb_goal :: "nat \<Rightarrow> int \<Rightarrow> int \<Rightarrow> int \<Rightarrow> bcomm \<Rightarrow> bool" where
  "climb_goal n ws origin c b \<longleftrightarrow>
     mset (concat (map (relay n ws origin c) (send_list b)))
       = mset_set {c + 1..<ws} + mset_set {0..<origin}"

lemma climb:
  assumes ok: "ring_ok ws origin" and "0 < c" and "origin \<le> c" and "c < ws" and "0 < origin"
    and low: "origin \<le> 2 ^ top_level ws \<Longrightarrow> c \<le> 2 ^ top_level ws"
    and n: "nat (2 * ws - c) \<le> n"
    and b: "bcomm_init ws c = Some b" "ring_links ws c k b"
  shows "climb_goal n ws origin c b"
  using assms(2-)
proof (induction "nat (ws - c)" arbitrary: c n b k rule: less_induct)
  case less
  define l where "l = level_loop c"
  define L where "L = top_level ws"
  note ws = ring_okD [OF ok]
  have top: "2 ^ L < ws" "ws \<le> 2 ^ Suc L" using top_level_bounds [OF ws(1)] by (auto simp: L_def)
  have lvl: "rank_level ws c = l" using less.prems by (simp add: rank_level_def l_def)
  have k: "k \<le> l" "\<forall>i<k. c + 2 ^ i < ws" "k < l \<longrightarrow> ws \<le> c + 2 ^ k"
    using less.prems(8) lvl by (auto simp: ring_links_def)
  have cdvd: "2 ^ l dvd c" unfolding l_def by (rule level_loop_dvd)
  have cl: "2 ^ l \<le> c" using cdvd less.prems(1) by (rule zdvd_imp_le)
  have ln: "int l < ws" using nat_less_pow2 [of l] cl less.prems by linarith
  have sub: "mset (relay n ws origin c (c + 2 ^ i)) = mset_set {c + 2 ^ i..<min (c + 2 ^ Suc i) ws}"
    if "i < k" and "c + 2 ^ i < ws" for i
  proof -
    obtain p where p: "p = (2::int) ^ i" "0 < p" by simp
    have "stop ws origin (c + p) = ws" "c + p \<noteq> origin"
      using less.prems p(2) by (auto simp: stop_def)
    then have st: "stop ws origin (c + 2 ^ i) = ws" "c + 2 ^ i \<noteq> origin" by (simp_all add: p(1))
    have "2 ^ Suc i dvd c" using cdvd that(1) k(1) le_imp_power_dvd [of "Suc i" l "2::int"]
      by (auto intro: dvd_trans)
    moreover have "i < n" using that(1) k(1) ln less.prems by linarith
    ultimately show ?thesis
      using relay_channel [OF ok, of i c n] st that less.prems by simp
  qed
  have tiles: "mset (concat (map (relay n ws origin c) (map (\<lambda>i. c + 2 ^ i) [0..<k])))
        = mset_set {c + 1..<min (c + 2 ^ k) ws}"
  proof -
    have "map (\<lambda>i. if c + 2 ^ i < ws then relay n ws origin c (c + 2 ^ i) else []) [0..<k]
        = map (relay n ws origin c) (map (\<lambda>i. c + 2 ^ i) [0..<k])"
      using k(2) by simp
    with tile_channels [of k c ws "relay n ws origin c", OF sub] show ?thesis by simp
  qed
  show ?case
  proof (cases "c + 2 ^ k < ws")
    case True
    then have kl: "k = l" using k by auto
    define c' where "c' = c + 2 ^ l"
    obtain b' k' where b': "bcomm_init ws c' = Some b'" "ring_links ws c' k' b'"
      using bcomm_init_links [OF ws(1,2), of c'] True kl less.prems
      by (auto simp: c'_def add_nonneg_nonneg)
    have c'c: "c < c'" "c' < ws" using True kl by (auto simp: c'_def)
    have low': "c' \<le> 2 ^ L" if "origin \<le> 2 ^ L"
    proof -
      have "c \<le> 2 ^ L" using less.prems(5) that by (simp add: L_def)
      moreover have "c \<noteq> 2 ^ L" using True kl top level_loop_unique [of 1 L] by (auto simp: l_def)
      ultimately have "c < 2 ^ L" by simp
      with cl have "(2::int) ^ l < 2 ^ L" by linarith
      then have "l < L" by (rule power_less_imp_less_exp [rotated]) simp
      then have "(2::int) ^ l dvd 2 ^ L" by (simp add: le_imp_power_dvd)
      from pow2_le_of_dvd_less [OF cdvd this \<open>c < 2 ^ L\<close>] show ?thesis by (simp add: c'_def)
    qed
    obtain m where m: "n = Suc m" "nat (2 * ws - c') \<le> m"
      using less.prems(6) c'c ws by (cases n) auto
    have "climb_goal m ws origin c' b'"
      using c'c less.prems low' b' m by (intro less.hyps) (auto simp: L_def)
    moreover have "bc_forward_dests b' origin c = rev (send_list b')"
      using upward_src [OF less.prems(1) b'(2)]
      by (intro ring_links_forward_up [OF b'(2)]) (auto simp: c'_def l_def)
    ultimately have "mset (relay n ws origin c c') = mset_set {c'..<ws} + mset_set {0..<origin}"
      using b'(1) m(1) mset_set_ivl_insert [of c' ws] c'c
      by (simp add: climb_goal_def mset_concat_map_rev)
    moreover have "mset_set {c + 1..<c'} + mset_set {c'..<ws} = mset_set {c + 1..<ws}"
      using c'c by (intro mset_set_ivl_split) auto
    moreover have "min (c + 2 ^ k) ws = c'" using True kl by (simp add: c'_def)
    moreover have "send_list b = map (\<lambda>i. c + 2 ^ i) [0..<k] @ [c']"
      using ring_links_send_list [OF less.prems(8)] True kl by (simp add: c'_def)
    ultimately show ?thesis using tiles by (simp add: climb_goal_def)
  next
    case False
    have pk: "(2::int) ^ k \<le> 2 ^ l" using k(1) by simp
    have "c \<le> 2 ^ L \<longleftrightarrow> origin \<le> 2 ^ L"
    proof
      assume "origin \<le> 2 ^ L"
      with less.prems(5) show "c \<le> 2 ^ L" by (simp add: L_def)
    qed (use less.prems in simp)
    moreover have "int L < ws" using nat_less_pow2 [of L] top by linarith
    then have "top_level ws < n - 1 \<and> n = Suc (n - 1)"
      using less.prems by (auto simp: L_def)
    ultimately have "mset (relay n ws origin c 0) = mset_set {0..<origin}"
      using relay_zero [OF ok less.prems(4), of c "n - 1"] by (simp add: L_def)
    moreover have "min (c + 2 ^ k) ws = ws" using False by simp
    moreover have "send_list b = map (\<lambda>i. c + 2 ^ i) [0..<k] @ [0]"
      using ring_links_send_list [OF less.prems(8)] False by simp
    ultimately show ?thesis using tiles by (simp add: climb_goal_def)
  qed
qed

text \<open>
  Every rank but the origin is reached exactly once. Twice the number of ranks is enough fuel:
  a path climbs at most once around the ring and then descends.
\<close>

lemma broadcast_mset:
  assumes ok: "ring_ok ws origin" and n: "nat (2 * ws) \<le> n"
  shows "mset (broadcast n ws origin) = mset_set ({0..<ws} - {origin})"
proof -
  note ws = ring_okD [OF ok]
  obtain b k where b: "bcomm_init ws origin = Some b" "ring_links ws origin k b"
    using bcomm_init_links [OF ws] by blast
  have eq: "mset (broadcast n ws origin)
      = mset (concat (map (relay n ws origin origin) (send_list b)))"
    using b(1) by (simp add: broadcast_def ring_links_bcast_dests [OF b(2)] mset_concat_map_rev)
  show ?thesis
  proof (cases "origin = 0")
    case True
    define L where "L = top_level ws"
    have top: "2 ^ L < ws" "ws \<le> 2 ^ Suc L" using top_level_bounds [OF ws(1)] by (auto simp: L_def)
    have "k \<le> L" "k < L \<longrightarrow> ws \<le> 2 ^ k"
      using b(2) True by (auto simp: ring_links_def rank_level_def L_def)
    moreover have "(2::int) ^ k < ws" if "k \<le> L"
      using top that power_increasing [of k L "2::int"] by linarith
    ultimately have "k = L" by force
    then have list: "send_list b = map (\<lambda>i. 0 + 2 ^ i) [0..<Suc L]"
      using ring_links_send_list [OF b(2)] True top by simp
    have "int L < ws" using nat_less_pow2 [of L] top by linarith
    then have "mset (relay n ws 0 0 (0 + 2 ^ i)) = mset_set {0 + 2 ^ i..<min (0 + 2 ^ Suc i) ws}"
      if "i < Suc L" "0 + 2 ^ i < ws" for i
      using relay_channel [OF ok, of i 0 n] that n True by (simp add: stop_def)
    note tile_channels [of "Suc L" 0 ws "relay n ws 0 0", OF this]
    moreover have "map (\<lambda>i. if 0 + 2 ^ i < ws then relay n ws 0 0 (0 + 2 ^ i) else []) [0..<Suc L]
        = map (relay n ws 0 0) (send_list b)"
    proof -
      have "(2::int) ^ i < ws" if "i < Suc L" for i
        using top that power_increasing [of i L "2::int"] by linarith
      then show ?thesis by (simp add: list del: upt_Suc)
    qed
    moreover have "min (0 + 2 ^ Suc L) ws = ws" using top by simp
    moreover have "{0..<ws} - {0} = {0 + 1..<ws}" by auto
    ultimately show ?thesis using eq True by (simp only:)
  next
    case False
    have "climb_goal n ws origin origin b"
      using False ws n b by (intro climb [OF ok]) auto
    moreover have "{0..<ws} - {origin} = {origin + 1..<ws} \<union> {0..<origin}" using ws by auto
    ultimately show ?thesis using eq
      by (simp add: climb_goal_def) (subst mset_set_Union, auto)
  qed
qed

section \<open>Messages arriving in any order\<close>

text \<open>
  A configuration is the multiset of messages in flight, each a pair of sender and receiver, and
  the multiset of deliveries so far. A step completes one receive and posts its forwards.
\<close>

type_synonym bc_config = "(int \<times> int) multiset \<times> int multiset"

definition bc_start :: "int \<Rightarrow> bcomm \<Rightarrow> bc_config" where
  "bc_start origin b = (image_mset (Pair origin) (mset (bcast_dests b)), {#})"

inductive bc_step :: "int \<Rightarrow> int \<Rightarrow> bc_config \<Rightarrow> bc_config \<Rightarrow> bool" for ws origin where
  deliver: "(src, r) \<in># fl \<Longrightarrow> bcomm_init ws r = Some b \<Longrightarrow>
    bc_step ws origin (fl, dl)
      (fl - {#(src, r)#} + image_mset (Pair r) (mset (bc_forward_dests b origin src)), add_mset r dl)"

inductive bc_run :: "int \<Rightarrow> int \<Rightarrow> bcomm \<Rightarrow> nat \<Rightarrow> bc_config \<Rightarrow> bool" for ws origin b where
  start: "bc_run ws origin b 0 (bc_start origin b)"
| step: "bc_run ws origin b n c \<Longrightarrow> bc_step ws origin c c' \<Longrightarrow> bc_run ws origin b (Suc n) c'"

inductive_cases bc_stepE: "bc_step ws origin c c'"

lemma mset_concat_map: "mset (concat (map f xs)) = (\<Sum>x\<in>#mset xs. mset (f x))"
  by (induction xs) auto

lemma sum_mset_mono_multiset:
  fixes f g :: "'a \<Rightarrow> 'b multiset"
  assumes "\<And>x. x \<in># M \<Longrightarrow> f x \<subseteq># g x"
  shows "(\<Sum>x\<in>#M. f x) \<subseteq># (\<Sum>x\<in>#M. g x)"
  using assms by (induction M) (auto intro: subset_mset.add_mono)

lemma sum_mset_eq_pointwise:
  fixes f g :: "'a \<Rightarrow> 'b multiset"
  assumes "\<And>x. x \<in># M \<Longrightarrow> f x \<subseteq># g x" and "(\<Sum>x\<in>#M. f x) = (\<Sum>x\<in>#M. g x)" and "x \<in># M"
  shows "f x = g x"
proof -
  obtain N where M: "M = add_mset x N" using assms(3) by (metis mset_add)
  have sub: "(\<Sum>y\<in>#N. f y) \<subseteq># (\<Sum>y\<in>#N. g y)"
    using assms(1) M by (intro sum_mset_mono_multiset) auto
  have fx: "f x \<subseteq># g x" using assms(1,3) by blast
  have "size (f x) + size (\<Sum>y\<in>#N. f y) = size (g x) + size (\<Sum>y\<in>#N. g y)"
    using assms(2) M by (metis size_union image_mset_add_mset sum_mset.add_mset)
  moreover have "size (f x) \<le> size (g x)" "size (\<Sum>y\<in>#N. f y) \<le> size (\<Sum>y\<in>#N. g y)"
    using size_mset_mono [OF fx] size_mset_mono [OF sub] by blast+
  ultimately have "size (f x) = size (g x)" by linarith
  with fx show ?thesis by (metis mset_subset_size subset_mset.less_le nat_neq_iff)
qed

text \<open>The part of the tree still to be delivered behind a message in flight.\<close>

definition below :: "int \<Rightarrow> int \<Rightarrow> nat \<Rightarrow> int \<times> int \<Rightarrow> int multiset" where
  "below ws origin n m = mset (relay n ws origin (fst m) (snd m))"

definition ring_fuel :: "int \<Rightarrow> nat" where
  "ring_fuel ws = nat (2 * ws)"

definition settled :: "int \<Rightarrow> int \<Rightarrow> nat \<Rightarrow> int \<times> int \<Rightarrow> bool" where
  "settled ws origin n m \<longleftrightarrow> (\<forall>n'\<ge>n. below ws origin n' m = below ws origin n m)"

lemma settledD: "settled ws origin n m \<Longrightarrow> n \<le> n' \<Longrightarrow> below ws origin n' m = below ws origin n m"
  unfolding settled_def by blast

lemma below_Suc:
  assumes "bcomm_init ws r = Some b"
  shows "below ws origin (Suc n) (src, r)
    = add_mset r (\<Sum>m\<in>#image_mset (Pair r) (mset (bc_forward_dests b origin src)). below ws origin n m)"
  using assms by (simp add: below_def mset_concat_map image_mset.compositionality comp_def)

lemma below_mono: "n \<le> n' \<Longrightarrow> below ws origin n m \<subseteq># below ws origin n' m"
proof (induction n arbitrary: n' m)
  case 0
  then show ?case by (simp add: below_def)
next
  case (Suc n)
  then obtain k where k: "n' = Suc k" "n \<le> k" by (cases n') auto
  obtain src r where m: "m = (src, r)" by (cases m)
  show ?case
  proof (cases "bcomm_init ws r")
    case None
    then show ?thesis by (simp add: below_def m)
  next
    case (Some b)
    then show ?thesis
      using Suc.IH [OF k(2)] by (simp add: m k(1) below_Suc sum_mset_mono_multiset)
  qed
qed

text \<open>
  The invariant of a run of \<open>n\<close> steps: what has been delivered and what is still below the
  messages in flight are together the ranks other than the origin, once each.
\<close>

definition bc_inv :: "int \<Rightarrow> int \<Rightarrow> nat \<Rightarrow> bc_config \<Rightarrow> bool" where
  "bc_inv ws origin n c \<longleftrightarrow> (case c of (fl, dl) \<Rightarrow>
     (\<forall>m\<in>#fl. settled ws origin (ring_fuel ws) m \<and> 0 \<le> snd m \<and> snd m < ws)
   \<and> dl + (\<Sum>m\<in>#fl. below ws origin (ring_fuel ws) m) = mset_set ({0..<ws} - {origin})
   \<and> size dl = n)"

lemma settled_children:
  assumes "bcomm_init ws r = Some b" and "settled ws origin n (src, r)"
    and "d \<in> set (bc_forward_dests b origin src)"
  shows "settled ws origin n (r, d)"
proof -
  define M where "M = image_mset (Pair r) (mset (bc_forward_dests b origin src))"
  have "below ws origin n' (r, d) = below ws origin n (r, d)" if "n \<le> n'" for n'
  proof (rule sum_mset_eq_pointwise [symmetric, where f = "below ws origin n" and M = M])
    have "below ws origin (Suc n') (src, r) = below ws origin (Suc n) (src, r)"
      using settledD [OF assms(2), of "Suc n'"] settledD [OF assms(2), of "Suc n"] that by simp
    then show "(\<Sum>m\<in>#M. below ws origin n m) = (\<Sum>m\<in>#M. below ws origin n' m)"
      by (simp add: below_Suc [OF assms(1)] M_def)
  qed (use below_mono that assms(3) in \<open>auto simp: M_def\<close>)
  then show ?thesis unfolding settled_def by blast
qed

lemma send_list_range:
  assumes "ring_links ws r k b" and "0 \<le> r" and "0 < ws" and "d \<in> set (send_list b)"
  shows "0 \<le> d \<and> d < ws"
  using assms by (auto simp: ring_links_def split: if_splits)

lemma bc_forward_dests_range:
  assumes "2 \<le> ws" "ws \<le> 2 ^ 30" "0 \<le> r" "r < ws"
    and "bcomm_init ws r = Some b" and "d \<in> set (bc_forward_dests b origin src)"
  shows "0 \<le> d \<and> d < ws"
proof -
  obtain k where k: "ring_links ws r k b"
    using bcomm_init_links [OF assms(1-4)] assms(5) by auto
  have "bc_forward_dests b origin src \<noteq> []" using assms(6) by auto
  then have "0 < rank_level ws r" using ring_links_forward_leaf [OF k] by (cases "rank_level ws r") auto
  then have "d \<in> set (send_list b)"
    using assms(6) ring_links_forward_up [OF k, of src origin] ring_links_forward_down [OF k, of src origin]
      ring_links_send_list [OF k]
    by (cases "bc_last_wall b < src") auto
  then show ?thesis using send_list_range [OF k] assms by simp
qed

lemma bc_inv_start:
  assumes ok: "ring_ok ws origin" and b: "bcomm_init ws origin = Some b"
  shows "bc_inv ws origin 0 (bc_start origin b)"
proof -
  note ws = ring_okD [OF ok]
  define M where "M = image_mset (Pair origin) (mset (bcast_dests b))"
  have total: "(\<Sum>m\<in>#M. below ws origin n m) = mset_set ({0..<ws} - {origin})"
    if "ring_fuel ws \<le> n" for n
    using broadcast_mset [OF ok that [unfolded ring_fuel_def]] b
    by (simp add: broadcast_def M_def below_def mset_concat_map image_mset.compositionality comp_def)
  have "settled ws origin (ring_fuel ws) m" if "m \<in># M" for m
    unfolding settled_def
  proof (intro allI impI)
    fix n assume n: "ring_fuel ws \<le> n"
    show "below ws origin n m = below ws origin (ring_fuel ws) m"
      by (rule sum_mset_eq_pointwise [symmetric, OF _ _ that]) (use n total below_mono in auto)
  qed
  moreover have "0 \<le> snd m \<and> snd m < ws" if "m \<in># M" for m
  proof -
    obtain k where k: "ring_links ws origin k b" using bcomm_init_links [OF ws] b by auto
    from that have "snd m \<in> set (send_list b)"
      by (auto simp: M_def ring_links_bcast_dests [OF k])
    then show ?thesis using send_list_range [OF k] ws by simp
  qed
  ultimately show ?thesis using total [of "ring_fuel ws"]
    by (simp add: bc_inv_def bc_start_def flip: M_def)
qed

lemma bc_inv_step:
  assumes ok: "ring_ok ws origin" and inv: "bc_inv ws origin n c" and "bc_step ws origin c c'"
  shows "bc_inv ws origin (Suc n) c'"
  using assms(3)
proof (cases rule: bc_step.cases)
  case (deliver src r fl b dl)
  define N where "N = ring_fuel ws"
  define M where "M = image_mset (Pair r) (mset (bc_forward_dests b origin src))"
  obtain fl' where fl': "fl = add_mset (src, r) fl'" using deliver(3) by (metis mset_add)
  have s: "settled ws origin N (src, r)" and r: "0 \<le> r" "r < ws"
    using inv deliver by (auto simp: bc_inv_def N_def)
  have "below ws origin N (src, r) = below ws origin (Suc N) (src, r)"
    using settledD [OF s, of "Suc N"] by simp
  also have "\<dots> = add_mset r (\<Sum>m\<in>#M. below ws origin N m)"
    by (simp add: below_Suc [OF deliver(4)] M_def)
  finally have eq: "below ws origin N (src, r) = add_mset r (\<Sum>m\<in>#M. below ws origin N m)" .
  have "settled ws origin N m \<and> 0 \<le> snd m \<and> snd m < ws" if "m \<in># M" for m
    using that settled_children [OF deliver(4) s]
      bc_forward_dests_range [OF ring_okD(1,2) [OF ok] r deliver(4)] by (auto simp: M_def)
  then show ?thesis
    using inv eq fl' deliver(1,2)
    by (auto simp: bc_inv_def ac_simps simp flip: M_def N_def)
qed

lemma bc_run_inv:
  assumes "ring_ok ws origin" and "bcomm_init ws origin = Some b" and "bc_run ws origin b n c"
  shows "bc_inv ws origin n c"
  using assms(3) by induction (auto intro: bc_inv_start bc_inv_step assms)

end
