(* ===== verification/Engine_Facts.thy ===== *)
theory Engine_Facts
  imports Engine
begin

text \<open>
  What the message and forwarding operations do, and the invariant of an engine that only sees
  broadcasts: every message in a queue is allocated and in the state its queue calls for, so that no
  operation reads a freed message or tests a request that was never started.
\<close>

section \<open>Starting sends\<close>

lemma isend_list_eq:
  assumes "msgs eng m = Some x"
    and "\<And>j. j \<in> set js \<Longrightarrow> j < length (send_list (my_bcomm eng)) \<and> j < length (isend_reqs x)"
  obtains rs where
    "isend_list eng m n tag js =
       Some (eng\<lparr>sent := sent eng @ map (\<lambda>j. (send_list (my_bcomm eng) ! j, tag, take n (m_buf x))) js,
                 msgs := (msgs eng)(m \<mapsto> x\<lparr>isend_reqs := rs, send_cnt := send_cnt x + int (length js)\<rparr>)\<rparr>)"
    and "length rs = length (isend_reqs x)"
    and "\<And>j. j < length rs \<Longrightarrow> (if j \<in> set js then rs ! j \<noteq> Req_zero else rs ! j = isend_reqs x ! j)"
proof -
  have "\<exists>rs. isend_list eng m n tag js =
       Some (eng\<lparr>sent := sent eng @ map (\<lambda>j. (send_list (my_bcomm eng) ! j, tag, take n (m_buf x))) js,
                 msgs := (msgs eng)(m \<mapsto> x\<lparr>isend_reqs := rs, send_cnt := send_cnt x + int (length js)\<rparr>)\<rparr>)
    \<and> length rs = length (isend_reqs x)
    \<and> (\<forall>j<length rs. if j \<in> set js then rs ! j \<noteq> Req_zero else rs ! j = isend_reqs x ! j)"
    using assms
  proof (induction js arbitrary: eng x)
    case Nil
    then have "(msgs eng)(m \<mapsto> x) = msgs eng" by auto
    then show ?case by (intro exI [of _ "isend_reqs x"]) simp
  next
    case (Cons j js)
    define x1 where "x1 = x\<lparr>isend_reqs := (isend_reqs x)[j := Req (length (sent eng))], send_cnt := send_cnt x + 1\<rparr>"
    define e1 where "e1 = eng\<lparr>sent := sent eng @ [(send_list (my_bcomm eng) ! j, tag, take n (m_buf x))],
      msgs := (msgs eng)(m \<mapsto> x1)\<rparr>"
    have s: "isend eng m n tag j = Some e1"
      using Cons.prems by (simp add: isend_def e1_def x1_def)
    have "msgs e1 m = Some x1" by (simp add: e1_def)
    moreover have "i < length (send_list (my_bcomm e1)) \<and> i < length (isend_reqs x1)" if "i \<in> set js" for i
      using Cons.prems(2) [of i] that by (simp add: e1_def x1_def)
    ultimately obtain rs where
      rs: "isend_list e1 m n tag js =
       Some (e1\<lparr>sent := sent e1 @ map (\<lambda>j. (send_list (my_bcomm e1) ! j, tag, take n (m_buf x1))) js,
                 msgs := (msgs e1)(m \<mapsto> x1\<lparr>isend_reqs := rs, send_cnt := send_cnt x1 + int (length js)\<rparr>)\<rparr>)"
      "length rs = length (isend_reqs x1)"
      "\<forall>j<length rs. if j \<in> set js then rs ! j \<noteq> Req_zero else rs ! j = isend_reqs x1 ! j"
      using Cons.IH [of e1 x1] by blast
    have "\<forall>i<length rs. if i \<in> set (j # js) then rs ! i \<noteq> Req_zero else rs ! i = isend_reqs x ! i"
      using rs(2,3) by (auto simp: x1_def nth_list_update split: if_splits)
    then show ?case
      using s rs(1,2) by (intro exI [of _ rs]) (simp add: e1_def x1_def add.assoc fun_upd_def cong: if_cong)
  qed
  then show thesis using that by blast
qed

lemma reqs_complete_total:
  "Req_zero \<notin> set rs \<Longrightarrow> reqs_complete f rs \<noteq> None"
  by (induction f rs rule: reqs_complete.induct) auto

section \<open>Messages by role\<close>

text \<open>\<open>n\<close> is the length of the send list. The requests a test looks at have been started.\<close>

definition msg_ok :: "nat \<Rightarrow> RLO_msg \<Rightarrow> bool" where
  "msg_ok n x \<longleftrightarrow> length (isend_reqs x) = n \<and> 0 \<le> send_cnt x \<and> send_cnt x \<le> int n
     \<and> Req_zero \<notin> set (take (nat (send_cnt x)) (isend_reqs x))"

definition recv_msg :: "nat \<Rightarrow> RLO_msg \<Rightarrow> bool" where
  "recv_msg n x \<longleftrightarrow> isend_reqs x = replicate n Req_zero \<and> send_cnt x = 0 \<and> pickup_done x = 0
     \<and> fwd_done x = 0 \<and> length (m_buf x) = 4 + msg_data_max"

text \<open>The encoded proposal in a receive buffer, as the voting plugin takes it out.\<close>

definition payload :: "byte list \<Rightarrow> byte list option" where
  "payload b = do {
     (l, p) \<leftarrow> pbuf_deserialize (drop 8 (data_buf b));
     Some (case pb_data p of None \<Rightarrow> [] | Some d \<Rightarrow> d) }"

text \<open>\<open>D\<close> is what the payload has to satisfy.\<close>

definition has_payload :: "(byte list \<Rightarrow> bool) \<Rightarrow> RLO_msg \<Rightarrow> bool" where
  "has_payload D x \<longleftrightarrow> (\<exists>p. payload (m_buf x) = Some p \<and> D p)"

definition fwd_msg :: "(byte list \<Rightarrow> bool) \<Rightarrow> nat \<Rightarrow> RLO_msg \<Rightarrow> bool" where
  "fwd_msg D n x \<longleftrightarrow> msg_ok n x \<and> pickup_done x = 0 \<and> fwd_done x = 0 \<and> has_payload D x \<and> stat_tag x = RLO_BCAST"

definition pick_msg :: "(byte list \<Rightarrow> bool) \<Rightarrow> nat \<Rightarrow> RLO_msg \<Rightarrow> bool" where
  "pick_msg D n x \<longleftrightarrow> pickup_done x = 0 \<and> fwd_done x = 1 \<and> has_payload D x \<and> stat_tag x = RLO_BCAST"

lemma get_bytes_append_mono:
  "get_bytes n xs = Some (a, b) \<Longrightarrow> get_bytes n (xs @ ys) = Some (a, b @ ys)"
  by (auto simp: get_bytes_def split: if_splits)

lemma get_int_append_mono: "get_int xs = Some (w, r) \<Longrightarrow> get_int (xs @ ys) = Some (w, r @ ys)"
  by (auto simp: get_int_def get_bytes_def split: if_splits)

lemma get_ulong_append_mono: "get_ulong xs = Some (w, r) \<Longrightarrow> get_ulong (xs @ ys) = Some (w, r @ ys)"
  by (auto simp: get_ulong_def get_bytes_def split: if_splits)

lemma memcpy_from_append_mono: "memcpy_from xs n = Some r \<Longrightarrow> memcpy_from (xs @ ys) n = Some r"
  by (auto simp: memcpy_from_def split: if_splits)

lemma pbuf_deserialize_append_mono:
  assumes "pbuf_deserialize xs = Some r"
  shows "pbuf_deserialize (xs @ ys) = Some r"
proof -
  from assms obtain t b1 i b2 vt b3 ts b4 len b5 dat where p:
    "get_ulong xs = Some (t, b1)" "get_int b1 = Some (i, b2)" "get_int b2 = Some (vt, b3)"
    "get_ulong b3 = Some (ts, b4)" "get_ulong b4 = Some (len, b5)"
    "(if len = 0 then Some None else map_option Some (memcpy_from b5 (unat len))) = Some dat"
    "r = (ucast len, \<lparr>pb_pid = i, pb_vote = vt, pb_time_stamp = ts, pb_data_len = len, pb_data = dat\<rparr>)"
    by (auto simp: pbuf_deserialize_def split: Option.bind_splits)
  have "(if len = 0 then Some None else map_option Some (memcpy_from (b5 @ ys) (unat len))) = Some dat"
    using p(6) memcpy_from_append_mono [of b5 "unat len" _ ys] by (auto split: if_splits)
  then show ?thesis
    using p(7) get_ulong_append_mono [OF p(1), of ys] get_int_append_mono [OF p(2), of ys]
      get_int_append_mono [OF p(3), of ys] get_ulong_append_mono [OF p(4), of ys]
      get_ulong_append_mono [OF p(5), of ys]
    by (simp add: pbuf_deserialize_def)
qed

lemma payload_append: "payload xs = Some p \<Longrightarrow> payload (xs @ ys) = Some p"
proof -
  assume a: "payload xs = Some p"
  then have "pbuf_deserialize (drop 8 (data_buf xs)) \<noteq> None"
    by (auto simp: payload_def split: Option.bind_splits)
  then have "32 \<le> length (drop 8 (data_buf xs))"
    using pbuf_deserialize_none by (metis not_le)
  then have "drop 8 (data_buf (xs @ ys)) = drop 8 (data_buf xs) @ ys" by (simp add: data_buf_def)
  with a show "payload (xs @ ys) = Some p"
    using pbuf_deserialize_append_mono [of "drop 8 (data_buf xs)" _ ys]
    by (auto simp: payload_def split: Option.bind_splits)
qed

lemma payload_length: "payload xs = Some p \<Longrightarrow> 44 \<le> length xs"
proof (rule ccontr)
  assume a: "payload xs = Some p" "\<not> 44 \<le> length xs"
  then have "pbuf_deserialize (drop 8 (data_buf xs)) = None"
    by (intro pbuf_deserialize_none) (simp add: data_buf_def)
  with a(1) show False by (simp add: payload_def)
qed

section \<open>The invariant\<close>

definition comm_ok :: "bcomm \<Rightarrow> bool" where
  "comm_ok b \<longleftrightarrow> (\<exists>ws r k. 2 \<le> ws \<and> 0 \<le> r \<and> r < ws \<and> ring_links ws r k b) \<and> msg_size_max b = RLO_MSG_SIZE_MAX"

lemma comm_ok_cong:
  "comm_ok (b\<lparr>bcast_recv_cnt := n\<rparr>) = comm_ok b"
  "comm_ok (b\<lparr>bcast_send_cnt := n\<rparr>) = comm_ok b"
  "comm_ok (b\<lparr>my_bcast_cnt := n\<rparr>) = comm_ok b"
  by (simp_all add: comm_ok_def ring_links_def)

definition roles ::
  "(byte list \<Rightarrow> bool) \<Rightarrow> nat \<Rightarrow> (nat \<rightharpoonup> RLO_msg) \<Rightarrow> nat \<Rightarrow> nat list \<Rightarrow> nat list \<Rightarrow> nat list \<Rightarrow> nat list \<Rightarrow> bool" where
  "roles D n ms nxt rq wq pq fq \<longleftrightarrow>
     distinct (rq @ wq @ pq @ fq) \<and> (\<forall>m\<in>set (rq @ wq @ pq @ fq). m < nxt)
   \<and> (\<forall>m\<in>set rq. \<exists>x. ms m = Some x \<and> recv_msg n x)
   \<and> (\<forall>m\<in>set wq. \<exists>x. ms m = Some x \<and> msg_ok n x)
   \<and> (\<forall>m\<in>set pq. \<exists>x. ms m = Some x \<and> pick_msg D n x)
   \<and> (\<forall>m\<in>set fq. \<exists>x. ms m = Some x \<and> fwd_msg D n x)"

definition good_arrival :: "(byte list \<Rightarrow> bool) \<Rightarrow> (int \<times> int \<times> byte list) option \<Rightarrow> bool" where
  "good_arrival D a = (case a of None \<Rightarrow> True
     | Some (src, tag, dat) \<Rightarrow> tag = RLO_BCAST \<and> length dat \<le> 4 + msg_data_max \<and> (\<exists>p. payload dat = Some p \<and> D p))"

definition eng_ok :: "(byte list \<Rightarrow> bool) \<Rightarrow> 'a engine \<Rightarrow> bool" where
  "eng_ok D eng \<longleftrightarrow> comm_ok (my_bcomm eng) \<and> length (queue_recv eng) = 1 \<and> queue_iar_pending eng = []
   \<and> (ps_state (my_own_proposal eng) = RLO_INVALID \<or> ps_state (my_own_proposal eng) = RLO_COMPLETED)
   \<and> roles D (nat (send_list_len (my_bcomm eng))) (msgs eng) (next_msg eng)
       (queue_recv eng) (queue_wait eng) (queue_pickup eng) (queue_wait_and_pickup eng)
   \<and> (\<forall>a\<in>set (arrivals eng). good_arrival D a)"

definition msg_payload :: "'a engine \<Rightarrow> nat \<Rightarrow> byte list" where
  "msg_payload eng m = the (payload (m_buf (the (msgs eng m))))"

definition eng_backlog :: "'a engine \<Rightarrow> byte list multiset" where
  "eng_backlog eng = image_mset (msg_payload eng) (mset (queue_wait_and_pickup eng) + mset (queue_pickup eng))"

fun arrival_payload :: "(int \<times> int \<times> byte list) option \<Rightarrow> byte list multiset" where
  "arrival_payload None = {#}"
| "arrival_payload (Some (src, tag, dat)) = {#the (payload dat)#}"

definition eng_arriving :: "'a engine \<Rightarrow> byte list multiset" where
  "eng_arriving eng = sum_list (map arrival_payload (arrivals eng))"

lemma comm_ok_send_list:
  assumes "comm_ok b"
  shows "length (send_list b) = nat (send_list_len b)" and "send_list_len b = send_channel_cnt b + 1"
    and "0 \<le> send_channel_cnt b" and "nat (msg_size_max b) = msg_data_max"
proof -
  obtain ws r k where k: "ring_links ws r k b" using assms by (auto simp: comm_ok_def)
  note l = ring_links_simps [OF k]
  show "length (send_list b) = nat (send_list_len b)" "send_list_len b = send_channel_cnt b + 1"
    "0 \<le> send_channel_cnt b"
    using l by auto
  show "nat (msg_size_max b) = msg_data_max" using assms by (simp add: comm_ok_def)
qed

text \<open>The channels a downward message is not stopped on are the lowest ones.\<close>

lemma down_channels_prefix:
  assumes "comm_ok b" and "js = filter (\<lambda>j. \<not> check_passed_origin b origin (send_list b ! j))
    (rev [0..<nat (send_channel_cnt b)])"
  shows "set js = {0..<length js}"
proof -
  obtain ws r k where k: "ring_links ws r k b" using assms(1) by (auto simp: comm_ok_def)
  have r: "my_rank b = r" "nat (send_channel_cnt b) = k" using ring_links_simps [OF k] by auto
  have sl: "send_list b ! j = r + 2 ^ j" if "j < k" for j
    using that by (simp add: ring_links_send_list [OF k] nth_append)
  define P where "P j \<longleftrightarrow> \<not> (r < origin \<and> origin \<le> r + 2 ^ j)" for j :: nat
  have P: "check_passed_origin b origin (send_list b ! j) \<longleftrightarrow> \<not> P j" if "j < k" for j
    using that check_passed_origin_above [of b "r + 2 ^ j" origin] r by (simp add: sl P_def)
  have down: "P i" if "P j" "i \<le> j" for i j
  proof -
    have "(2::int) ^ i \<le> 2 ^ j" using that(2) by simp
    then have "r + 2 ^ i \<le> r + 2 ^ j" by simp
    then show ?thesis using that(1) unfolding P_def by linarith
  qed
  have set: "set js = {j. j < k \<and> P j}" using P r(2) by (auto simp: assms(2))
  have d: "distinct js" by (simp add: assms(2))
  have "\<exists>c. {j. j < k \<and> P j} = {0..<c}"
  proof (cases "\<exists>j<k. \<not> P j")
    case True
    define c where "c = (LEAST j. j < k \<and> \<not> P j)"
    have c: "c < k" "\<not> P c" using LeastI_ex [of "\<lambda>j. j < k \<and> \<not> P j"] True by (auto simp: c_def)
    have "P j" if "j < c" for j using not_less_Least [of j "\<lambda>j. j < k \<and> \<not> P j"] that c by (auto simp: c_def)
    then have "{j. j < k \<and> P j} = {0..<c}"
      using c down by auto (metis not_less)
    then show ?thesis by blast
  next
    case False
    then have "{j. j < k \<and> P j} = {0..<k}" by auto
    then show ?thesis by blast
  qed
  then obtain c where "set js = {0..<c}" using set by auto
  moreover from this have "length js = c" using distinct_card [OF d] by simp
  ultimately show ?thesis by simp
qed

end
