(* ===== verification/Bcast_Mode.thy ===== *)
theory Bcast_Mode
  imports Engine_Facts Plugin_RLO "HOL-Library.Sublist"
begin

text \<open>
  The engine under broadcast traffic (the second mode of the metadata manager): every operation
  succeeds and keeps the invariant \<^const>\<open>eng_ok\<close>, progress turns arriving messages into messages that
  can be picked up without losing or doubling one, and the voting plugin hands each of them out once.
\<close>

lemma lq_remove_mem: "m \<in> set q \<Longrightarrow> lq_remove q m = Some (remove1 m q)"
  by (cases q; cases "tl q") (auto simp: lq_remove_def)

lemma eng_okD:
  assumes "eng_ok D eng"
  shows "comm_ok (my_bcomm eng)" and "length (queue_recv eng) = 1" and "queue_iar_pending eng = []"
    and "ps_state (my_own_proposal eng) = RLO_INVALID \<or> ps_state (my_own_proposal eng) = RLO_COMPLETED"
    and "roles D (nat (send_list_len (my_bcomm eng))) (msgs eng) (next_msg eng)
       (queue_recv eng) (queue_wait eng) (queue_pickup eng) (queue_wait_and_pickup eng)"
    and "\<forall>a\<in>set (arrivals eng). good_arrival D a"
  using assms by (simp_all add: eng_ok_def)

lemma eng_ok_frame [simp]:
  "eng_ok D (eng\<lparr>mpi_tick := t\<rparr>) = eng_ok D eng"
  "eng_ok D (eng\<lparr>fwd_queued := t2\<rparr>) = eng_ok D eng"
  "eng_ok D (eng\<lparr>sent := t3\<rparr>) = eng_ok D eng"
  "eng_ok D (eng\<lparr>recved_bcast_cnt := t4\<rparr>) = eng_ok D eng"
  "eng_ok D (eng\<lparr>sent_bcast_cnt := t5\<rparr>) = eng_ok D eng"
  "eng_ok D (eng\<lparr>my_bcomm := (my_bcomm eng)\<lparr>bcast_recv_cnt := t6\<rparr>\<rparr>) = eng_ok D eng"
  "eng_ok D (eng\<lparr>my_bcomm := (my_bcomm eng)\<lparr>bcast_send_cnt := t7, my_bcast_cnt := t8\<rparr>\<rparr>) = eng_ok D eng"
  by (simp_all add: eng_ok_def comm_ok_cong)

lemma eng_backlog_frame [simp]:
  "eng_backlog (eng\<lparr>mpi_tick := t\<rparr>) = eng_backlog eng"
  "eng_backlog (eng\<lparr>recved_bcast_cnt := n\<rparr>) = eng_backlog eng"
  by (simp_all add: eng_backlog_def msg_payload_def [abs_def])

text \<open>The pickable messages hold the same bytes, in whatever queues they now are.\<close>

lemma eng_backlog_cong:
  assumes "mset (queue_wait_and_pickup e') + mset (queue_pickup e') = mset (queue_wait_and_pickup e) + mset (queue_pickup e)"
    and "\<And>m. m \<in> set (queue_wait_and_pickup e) \<union> set (queue_pickup e) \<Longrightarrow>
      map_option m_buf (msgs e' m) = map_option m_buf (msgs e m) \<and> msgs e m \<noteq> None"
  shows "eng_backlog e' = eng_backlog e"
  unfolding eng_backlog_def assms(1)
proof (rule image_mset_cong)
  fix m assume "m \<in># mset (queue_wait_and_pickup e) + mset (queue_pickup e)"
  then have "map_option m_buf (msgs e' m) = map_option m_buf (msgs e m)" "msgs e m \<noteq> None"
    using assms(2) [of m] by auto
  then show "msg_payload e' m = msg_payload e m" by (auto simp: msg_payload_def)
qed

lemma roles_alloc:
  assumes "roles D n ms nxt rq wq pq fq"
  shows "\<And>m. m \<in> set rq \<Longrightarrow> \<exists>x. ms m = Some x \<and> recv_msg n x"
    and "\<And>m. m \<in> set wq \<Longrightarrow> \<exists>x. ms m = Some x \<and> msg_ok n x"
    and "\<And>m. m \<in> set pq \<Longrightarrow> \<exists>x. ms m = Some x \<and> pick_msg D n x"
    and "\<And>m. m \<in> set fq \<Longrightarrow> \<exists>x. ms m = Some x \<and> fwd_msg D n x"
    and "distinct (rq @ wq @ pq @ fq)" and "\<And>m. m \<in> set (rq @ wq @ pq @ fq) \<Longrightarrow> m < nxt"
  using assms unfolding roles_def by blast+

text \<open>Testing the sends of a message whose requests have been started.\<close>

lemma test_isends_ok:
  assumes "msgs eng m = Some x" and "msg_ok n x"
  obtains fin where "RLO_msg_test_isends eng m = Some (fin, eng\<lparr>mpi_tick := mpi_tick eng + 1\<rparr>)"
proof -
  have "reqs_complete (send_complete eng (mpi_tick eng)) (take (nat (send_cnt x)) (isend_reqs x)) \<noteq> None"
    by (rule reqs_complete_total) (use assms(2) in \<open>simp add: msg_ok_def\<close>)
  then obtain b where "reqs_complete (send_complete eng (mpi_tick eng))
      (take (nat (send_cnt x)) (isend_reqs x)) = Some b" by blast
  then show thesis using assms by (intro that [of b]) (simp add: RLO_msg_test_isends_def msg_ok_def)
qed

text \<open>A queue change described by where the message goes.\<close>

lemma roles_drop_wait:
  assumes "roles D n ms nxt rq wq pq fq" and "m \<in> set wq"
  shows "roles D n (ms(m := v)) nxt rq (remove1 m wq) pq fq"
  using assms unfolding roles_def
  by (auto simp: distinct_remove1 dest: notin_set_remove1)

lemma roles_fwd_to_pick:
  assumes "roles D n ms nxt rq wq pq fq" and "m \<in> set fq" and "pick_msg D n x"
  shows "roles D n (ms(m \<mapsto> x)) nxt rq wq (pq @ [m]) (remove1 m fq)"
  using assms unfolding roles_def
  by (auto simp: distinct_remove1 dest: notin_set_remove1)

lemma roles_fwd_to_wait:
  assumes "roles D n ms nxt rq wq pq fq" and "m \<in> set fq" and "msg_ok n x"
  shows "roles D n (ms(m \<mapsto> x)) nxt rq (wq @ [m]) pq (remove1 m fq)"
  using assms unfolding roles_def
  by (auto simp: distinct_remove1 dest: notin_set_remove1)

lemma roles_drop_pick:
  assumes "roles D n ms nxt rq wq pq fq" and "m \<in> set pq"
  shows "roles D n (ms(m := v)) nxt rq wq (remove1 m pq) fq"
  using assms unfolding roles_def
  by (auto simp: distinct_remove1 dest: notin_set_remove1)

lemma roles_outside:
  assumes "roles D n ms nxt rq wq pq fq" and "m \<notin> set (rq @ wq @ pq @ fq)"
  shows "roles D n (ms(m := v)) nxt rq wq pq fq"
  using assms unfolding roles_def by auto

lemma roles_add:
  assumes "roles D n ms nxt rq wq pq fq" and "m \<notin> set (rq @ wq @ pq @ fq)" and "m < nxt"
  shows "fwd_msg D n x \<Longrightarrow> roles D n (ms(m \<mapsto> x)) nxt rq wq pq (fq @ [m])"
    and "pick_msg D n x \<Longrightarrow> roles D n (ms(m \<mapsto> x)) nxt rq wq (pq @ [m]) fq"
    and "msg_ok n x \<Longrightarrow> roles D n (ms(m \<mapsto> x)) nxt rq (wq @ [m]) pq fq"
    and "recv_msg n x \<Longrightarrow> roles D n (ms(m \<mapsto> x)) nxt (rq @ [m]) wq pq fq"
  using assms unfolding roles_def by auto

section \<open>The wait queues\<close>

lemma wait_only_step_ok:
  assumes "eng_ok D eng" and "m \<in> set (queue_wait eng)"
  shows "\<exists>eng'. wait_only_step eng m = Some eng' \<and> eng_ok D eng' \<and> eng_backlog eng' = eng_backlog eng
    \<and> arrivals eng' = arrivals eng \<and> sent eng' = sent eng \<and> set (queue_wait eng) - {m} \<subseteq> set (queue_wait eng')"
proof -
  note ok = eng_okD [OF assms(1)] and r = roles_alloc [OF eng_okD(5) [OF assms(1)]]
  obtain x where x: "msgs eng m = Some x" "msg_ok (nat (send_list_len (my_bcomm eng))) x"
    using r(2) [OF assms(2)] by blast
  obtain done' where t: "RLO_msg_test_isends eng m = Some (done', eng\<lparr>mpi_tick := mpi_tick eng + 1\<rparr>)"
    using test_isends_ok [OF x] .
  have notin: "m \<notin> set (queue_wait_and_pickup eng) \<union> set (queue_pickup eng)" using r(5) assms(2) by auto
  show ?thesis
  proof (cases done')
    case False
    then have "wait_only_step eng m = Some (eng\<lparr>mpi_tick := mpi_tick eng + 1\<rparr>)"
      by (simp add: wait_only_step_def t)
    then show ?thesis using assms(1) by simp
  next
    case True
    define v where "v = (if send_type x = RLO_BCAST then None else Some (x\<lparr>fwd_done := 1\<rparr>))"
    define eng' where "eng' = eng\<lparr>mpi_tick := mpi_tick eng + 1, queue_wait := remove1 m (queue_wait eng),
      msgs := (msgs eng)(m := v)\<rparr>"
    have "wait_only_step eng m = Some eng'"
      using True x assms(2)
      by (simp add: wait_only_step_def t upd_msg_def lq_remove_mem RLO_msg_free_def eng'_def v_def)
    moreover have "eng_ok D eng'"
      using ok roles_drop_wait [OF ok(5) assms(2), of v] by (simp add: eng_ok_def eng'_def)
    moreover have "eng_backlog eng' = eng_backlog eng"
      by (rule eng_backlog_cong) (use notin r(3,4) in \<open>fastforce simp: eng'_def\<close>)+
    ultimately show ?thesis using r(5) by (auto simp: eng'_def)
  qed
qed

lemma wait_only_loop_ok:
  assumes "eng_ok D eng" and "set q \<subseteq> set (queue_wait eng)" and "distinct q"
  shows "\<exists>eng'. wait_only_loop q eng = Some eng' \<and> eng_ok D eng' \<and> eng_backlog eng' = eng_backlog eng
    \<and> arrivals eng' = arrivals eng \<and> sent eng' = sent eng"
  using assms
proof (induction q arbitrary: eng)
  case (Cons m q)
  obtain e1 where e1: "wait_only_step eng m = Some e1" "eng_ok D e1" "eng_backlog e1 = eng_backlog eng"
    "arrivals e1 = arrivals eng" "sent e1 = sent eng" "set (queue_wait eng) - {m} \<subseteq> set (queue_wait e1)"
    using wait_only_step_ok [OF Cons.prems(1), of m] Cons.prems(2) by (auto simp del: Diff_subset_conv)
  have "set q \<subseteq> set (queue_wait e1)" using Cons.prems(2,3) e1(6) by auto
  with Cons.IH [OF e1(2)] Cons.prems(3) e1 show ?case by auto
qed simp

lemma wait_and_pickup_step_ok:
  assumes "eng_ok D eng" and "m \<in> set (queue_wait_and_pickup eng)"
  shows "\<exists>eng'. wait_and_pickup_queue_process eng m = Some eng' \<and> eng_ok D eng'
    \<and> eng_backlog eng' = eng_backlog eng \<and> arrivals eng' = arrivals eng \<and> sent eng' = sent eng
    \<and> set (queue_wait_and_pickup eng) - {m} \<subseteq> set (queue_wait_and_pickup eng')"
proof -
  note ok = eng_okD [OF assms(1)] and r = roles_alloc [OF eng_okD(5) [OF assms(1)]]
  obtain x where x: "msgs eng m = Some x" "fwd_msg D (nat (send_list_len (my_bcomm eng))) x"
    using r(4) [OF assms(2)] by blast
  then have x2: "msg_ok (nat (send_list_len (my_bcomm eng))) x" "pickup_done x = 0" by (simp_all add: fwd_msg_def)
  obtain done' where t: "RLO_msg_test_isends eng m = Some (done', eng\<lparr>mpi_tick := mpi_tick eng + 1\<rparr>)"
    using test_isends_ok [OF x(1) x2(1)] .
  show ?thesis
  proof (cases done')
    case False
    then have "wait_and_pickup_queue_process eng m = Some (eng\<lparr>mpi_tick := mpi_tick eng + 1\<rparr>)"
      using x(1) x2(2) by (simp add: wait_and_pickup_queue_process_def t)
    then show ?thesis using assms(1) by simp
  next
    case True
    define x' where "x' = x\<lparr>fwd_done := 1\<rparr>"
    define eng' where "eng' = eng\<lparr>mpi_tick := mpi_tick eng + 1, msgs := (msgs eng)(m \<mapsto> x'),
      queue_wait_and_pickup := remove1 m (queue_wait_and_pickup eng), queue_pickup := queue_pickup eng @ [m]\<rparr>"
    have "wait_and_pickup_queue_process eng m = Some eng'"
      using True x x2 assms(2)
      by (simp add: wait_and_pickup_queue_process_def t upd_msg_def lq_remove_mem eng'_def x'_def)
    moreover have "pick_msg D (nat (send_list_len (my_bcomm eng))) x'"
      using x(2) by (simp add: pick_msg_def fwd_msg_def has_payload_def x'_def)
    then have "eng_ok D eng'"
      using ok roles_fwd_to_pick [OF ok(5) assms(2)] by (simp add: eng_ok_def eng'_def)
    moreover have "eng_backlog eng' = eng_backlog eng"
    proof (rule eng_backlog_cong)
      show "mset (queue_wait_and_pickup eng') + mset (queue_pickup eng')
          = mset (queue_wait_and_pickup eng) + mset (queue_pickup eng)"
        using assms(2) by (simp add: eng'_def)
    qed (use r(3,4) x(1) in \<open>fastforce simp: eng'_def x'_def\<close>)
    ultimately show ?thesis using r(5) by (auto simp: eng'_def)
  qed
qed

lemma wait_and_pickup_loop_ok:
  assumes "eng_ok D eng" and "set q \<subseteq> set (queue_wait_and_pickup eng)" and "distinct q"
  shows "\<exists>eng'. wait_and_pickup_loop q eng = Some eng' \<and> eng_ok D eng' \<and> eng_backlog eng' = eng_backlog eng
    \<and> arrivals eng' = arrivals eng \<and> sent eng' = sent eng"
  using assms
proof (induction q arbitrary: eng)
  case (Cons m q)
  obtain e1 where e1: "wait_and_pickup_queue_process eng m = Some e1" "eng_ok D e1"
    "eng_backlog e1 = eng_backlog eng" "arrivals e1 = arrivals eng" "sent e1 = sent eng"
    "set (queue_wait_and_pickup eng) - {m} \<subseteq> set (queue_wait_and_pickup e1)"
    using wait_and_pickup_step_ok [OF Cons.prems(1), of m] Cons.prems(2) by (auto simp del: Diff_subset_conv)
  have "set q \<subseteq> set (queue_wait_and_pickup e1)" using Cons.prems(2,3) e1(6) by auto
  with Cons.IH [OF e1(2)] Cons.prems(3) e1 show ?case by auto
qed simp

section \<open>Receiving and forwarding\<close>

text \<open>Where a received broadcast goes: to the pickup queue, or first to the queue that waits for its sends.\<close>

lemma reqs_prefix_started:
  assumes "{0..<c} \<subseteq> set js" and "\<And>j. j < length rs \<Longrightarrow> if j \<in> set js then rs ! j \<noteq> Req_zero else rs ! j = r0 ! j"
  shows "Req_zero \<notin> set (take c rs)"
proof
  assume "Req_zero \<in> set (take c rs)"
  then obtain j where "j < length (take c rs)" "take c rs ! j = Req_zero" by (metis in_set_conv_nth)
  moreover from this have "j \<in> set js" using assms(1) by auto
  ultimately show False using assms(2) [of j] by simp
qed

lemma bc_forward_ok:
  assumes "eng_ok D eng" and "msgs eng m = Some x" and "m < next_msg eng"
    and "m \<notin> set (queue_recv eng @ queue_wait eng @ queue_pickup eng @ queue_wait_and_pickup eng)"
    and "recv_msg (nat (send_list_len (my_bcomm eng))) x" and "stat_tag x = RLO_BCAST" and "has_payload D x"
  shows "\<exists>n eng'. bc_forward eng m = Some (n, eng') \<and> eng_ok D eng'
    \<and> eng_backlog eng' = add_mset (the (payload (m_buf x))) (eng_backlog eng) \<and> arrivals eng' = arrivals eng
    \<and> prefix (sent eng) (sent eng')"
proof -
  note ok = eng_okD [OF assms(1)] and sl = comm_ok_send_list [OF eng_okD(1) [OF assms(1)]]
  define n where "n = nat (send_list_len (my_bcomm eng))"
  define b where "b = (my_bcomm eng)\<lparr>bcast_recv_cnt := bcast_recv_cnt (my_bcomm eng) + 1\<rparr>"
  define e0 where "e0 = eng\<lparr>my_bcomm := b, msgs := (msgs eng)(m \<mapsto> x\<lparr>send_cnt := 0\<rparr>)\<rparr>"
  have b: "send_list b = send_list (my_bcomm eng)" "send_list_len b = send_list_len (my_bcomm eng)"
    "send_channel_cnt b = send_channel_cnt (my_bcomm eng)" "my_level b = my_level (my_bcomm eng)"
    "comm_ok b" "nat (msg_size_max b) = msg_data_max" "bc_last_wall b = bc_last_wall (my_bcomm eng)"
    using ok(1) sl(4) by (simp_all add: b_def comm_ok_cong)
  have len: "length (m_buf x) = 4 + msg_data_max" and rz: "isend_reqs x = replicate n Req_zero"
    and flags: "pickup_done x = 0" "fwd_done x = 0" "send_cnt x = 0"
    using assms(5) by (auto simp: recv_msg_def n_def)
  obtain origin where origin: "get_origin (m_buf x) = Some origin"
    using len by (auto simp: get_origin_def get_int_def get_bytes_def)
  have r0: "roles D n ((msgs eng)(m := v)) (next_msg eng) (queue_recv eng) (queue_wait eng)
      (queue_pickup eng) (queue_wait_and_pickup eng)" for v
    using roles_outside [OF ok(5) assms(4)] by (simp add: n_def)
  have old: "map_option m_buf (((msgs eng)(m := v)) i) = map_option m_buf (msgs eng i) \<and> msgs eng i \<noteq> None"
    if "i \<in> set (queue_wait_and_pickup eng) \<union> set (queue_pickup eng)" for i v
    using that assms(4) roles_alloc(3,4) [OF ok(5)] by fastforce
  have fwd: "\<exists>n' eng'. do { eng \<leftarrow> isend_list e0 m nb RLO_BCAST js;
        Some (int (length js), queue_forwarded eng m RLO_BCAST) } = Some (n', eng') \<and> eng_ok D eng'
      \<and> eng_backlog eng' = add_mset (the (payload (m_buf x))) (eng_backlog eng) \<and> arrivals eng' = arrivals eng
      \<and> prefix (sent eng) (sent eng')"
    if js: "set js \<subseteq> {0..<n}" "{0..<length js} \<subseteq> set js" for js nb
  proof -
    have m0: "msgs e0 m = Some (x\<lparr>send_cnt := 0\<rparr>)" by (simp add: e0_def)
    have "j < length (send_list (my_bcomm e0)) \<and> j < length (isend_reqs (x\<lparr>send_cnt := 0\<rparr>))" if "j \<in> set js" for j
      using that js(1) rz sl(1) b by (auto simp: e0_def n_def)
    then obtain rs where rs: "isend_list e0 m nb RLO_BCAST js =
       Some (e0\<lparr>sent := sent e0 @ map (\<lambda>j. (send_list (my_bcomm e0) ! j, RLO_BCAST, take nb (m_buf (x\<lparr>send_cnt := 0\<rparr>)))) js,
                msgs := (msgs e0)(m \<mapsto> x\<lparr>send_cnt := 0\<rparr>\<lparr>isend_reqs := rs,
                  send_cnt := send_cnt (x\<lparr>send_cnt := 0\<rparr>) + int (length js)\<rparr>)\<rparr>)"
      "length rs = length (isend_reqs (x\<lparr>send_cnt := 0\<rparr>))"
      "\<And>j. j < length rs \<Longrightarrow> (if j \<in> set js then rs ! j \<noteq> Req_zero else rs ! j = isend_reqs (x\<lparr>send_cnt := 0\<rparr>) ! j)"
      using isend_list_eq [OF m0] by metis
    define x' where "x' = x\<lparr>isend_reqs := rs, send_cnt := int (length js)\<rparr>"
    define eng' where "eng' = queue_forwarded (eng\<lparr>my_bcomm := b,
      sent := sent eng @ map (\<lambda>j. (send_list b ! j, RLO_BCAST, take nb (m_buf x))) js,
      msgs := (msgs eng)(m \<mapsto> x')\<rparr>) m RLO_BCAST"
    have len_js: "length js \<le> n" using subset_trans [OF js(2,1)] by (cases "js = []") auto
    have "Req_zero \<notin> set (take (length js) rs)" by (rule reqs_prefix_started [OF js(2) rs(3)])
    then have "fwd_msg D n x'"
      using assms(6,7) flags rs(2) rz len_js
      by (simp add: fwd_msg_def msg_ok_def x'_def has_payload_def)
    then have "eng_ok D eng'"
      using ok roles_add(1) [OF ok(5) assms(4,3)] b by (simp add: eng_ok_def eng'_def queue_forwarded_def n_def)
    moreover have "eng_backlog eng' = add_mset (the (payload (m_buf x))) (eng_backlog eng)"
    proof -
      have "eng_backlog (eng'\<lparr>queue_wait_and_pickup := queue_wait_and_pickup eng\<rparr>) = eng_backlog eng"
        by (rule eng_backlog_cong) (use old in \<open>auto simp: eng'_def queue_forwarded_def\<close>)
      then show ?thesis
        by (simp add: eng_backlog_def msg_payload_def [abs_def] eng'_def queue_forwarded_def x'_def)
    qed
    ultimately show ?thesis
      using rs(1) by (simp add: eng'_def queue_forwarded_def e0_def x'_def)
  qed
  have pick: "\<exists>eng'. do { eng \<leftarrow> upd_msg e0 m (\<lambda>x. x\<lparr>fwd_done := 1\<rparr>);
        Some (eng\<lparr>queue_pickup := queue_pickup eng @ [m], fwd_queued := fwd_queued eng + 1\<rparr>) } = Some eng'
      \<and> eng_ok D eng' \<and> eng_backlog eng' = add_mset (the (payload (m_buf x))) (eng_backlog eng)
      \<and> arrivals eng' = arrivals eng \<and> prefix (sent eng) (sent eng')"
  proof -
    define x' where "x' = x\<lparr>send_cnt := 0, fwd_done := 1\<rparr>"
    define eng' where "eng' = eng\<lparr>my_bcomm := b, msgs := (msgs eng)(m \<mapsto> x'),
      queue_pickup := queue_pickup eng @ [m], fwd_queued := fwd_queued eng + 1\<rparr>"
    have "pick_msg D n x'" using assms(6,7) flags by (simp add: pick_msg_def x'_def has_payload_def)
    then have "eng_ok D eng'"
      using ok roles_add(2) [OF ok(5) assms(4,3)] b by (simp add: eng_ok_def eng'_def n_def)
    moreover have "eng_backlog eng' = add_mset (the (payload (m_buf x))) (eng_backlog eng)"
    proof -
      have "eng_backlog (eng'\<lparr>queue_pickup := queue_pickup eng\<rparr>) = eng_backlog eng"
        by (rule eng_backlog_cong) (use old in \<open>auto simp: eng'_def\<close>)
      then show ?thesis by (simp add: eng_backlog_def msg_payload_def [abs_def] eng'_def x'_def)
    qed
    ultimately show ?thesis by (simp add: eng'_def e0_def x'_def upd_msg_def)
  qed
  have tag: "stat_tag x = RLO_BCAST" by fact
  have e0: "upd_msg (eng\<lparr>my_bcomm := b\<rparr>) m (\<lambda>x. x\<lparr>send_cnt := 0\<rparr>) = Some e0"
    using assms(2) by (simp add: upd_msg_def e0_def)
  have e0b: "my_bcomm e0 = b" by (simp add: e0_def)
  note unf = bc_forward_def assms(2) tag e0 e0b origin b_def [symmetric] Let_def
  consider (leaf) "\<not> my_level b > 0" | (up) "my_level b > 0" "stat_source x > bc_last_wall b"
    | (down) "my_level b > 0" "\<not> stat_source x > bc_last_wall b" by blast
  then show ?thesis
  proof cases
    case leaf
    then have "bc_forward eng m = do { eng \<leftarrow> upd_msg e0 m (\<lambda>x. x\<lparr>fwd_done := 1\<rparr>);
        Some (0, eng\<lparr>queue_pickup := queue_pickup eng @ [m], fwd_queued := fwd_queued eng + 1\<rparr>) }"
      by (simp add: unf queue_leaf_def)
    with pick show ?thesis by (auto split: Option.bind_splits)
  next
    case up
    have "nat (send_channel_cnt b + 1) = n" using sl(2) b by (simp add: n_def)
    then have "bc_forward eng m = do { eng \<leftarrow> isend_list e0 m (nat (msg_size_max b) + 4) RLO_BCAST (rev [0..<n]);
        Some (int (length (rev [0..<n])), queue_forwarded eng m RLO_BCAST) }"
      using up by (simp add: unf)
    with fwd [of "rev [0..<n]" "nat (msg_size_max b) + 4"] show ?thesis by auto
  next
    case down
    define js where "js = filter (\<lambda>j. \<not> check_passed_origin b (sint origin) (send_list b ! j)) (rev [0..<nat (send_channel_cnt b)])"
    have pre: "set js = {0..<length js}" by (rule down_channels_prefix [OF b(5) js_def])
    have sub: "set js \<subseteq> {0..<n}" using sl(2,3) b by (auto simp: js_def n_def)
    have nf: "queue_not_forwarded e0 m RLO_BCAST = do { eng \<leftarrow> upd_msg e0 m (\<lambda>x. x\<lparr>fwd_done := 1\<rparr>);
        Some (eng\<lparr>queue_pickup := queue_pickup eng @ [m], fwd_queued := fwd_queued eng + 1\<rparr>) }"
      by (simp add: queue_not_forwarded_def)
    have jsn: "js = []" if "\<not> 0 \<le> send_channel_cnt b - 1" using that by (simp add: js_def)
    show ?thesis
    proof (cases "js = []")
      case True
      then have "bc_forward eng m = do { eng \<leftarrow> queue_not_forwarded e0 m RLO_BCAST; Some (0, eng) }"
        using down by (simp add: unf js_def)
      with pick nf show ?thesis by (auto split: Option.bind_splits)
    next
      case False
      then have "0 \<le> send_channel_cnt b - 1" using jsn by blast
      then have "bc_forward eng m = do { eng \<leftarrow> isend_list e0 m (nat (msg_size_max b)) RLO_BCAST js;
          Some (int (length js), queue_forwarded eng m RLO_BCAST) }"
        using False down by (simp add: unf js_def [symmetric])
      with fwd [of js "nat (msg_size_max b)"] pre sub show ?thesis by simp
    qed
  qed
qed

lemma set_eng_simps [simp]:
  "engines (set_eng P e a) = (engines P)(e \<mapsto> a)"
  "active_engines (set_eng P e a) = active_engines P"
  "ever_created (set_eng P e a) = ever_created P"
  "set_eng (set_eng P e a) e b = set_eng P e b"
  by (simp_all add: set_eng_def)

lemma set_eng_same: "engines P e = Some a \<Longrightarrow> set_eng P e a = P"
  by (cases P) (auto simp: set_eng_def)

lemma roles_recv_swap:
  assumes "roles D n ms nxt [m] wq pq fq" and "recv_msg n x2"
  shows "roles D n (ms(m := v, nxt \<mapsto> x2)) (nxt + 1) [nxt] wq pq fq"
  using assms unfolding roles_def by (auto simp: less_Suc_eq)

lemma new_generic_recv_msg:
  assumes "RLO_msg_new_generic eng = (m2, eng2)"
  shows "m2 = next_msg eng" and "\<exists>x2. eng2 = eng\<lparr>msgs := (msgs eng)(next_msg eng \<mapsto> x2), next_msg := next_msg eng + 1\<rparr>
    \<and> recv_msg (nat (send_list_len (my_bcomm eng))) x2"
  using assms by (auto simp: RLO_msg_new_generic_def recv_msg_def RLO_msg_new_generic_buf_def)

lemma recv_completed_ok:
  assumes "engines P e = Some eng" and "eng_ok D eng" and "queue_recv eng = [m]"
    and "arrivals eng = Some (src, tag, dat) # as"
  shows "\<exists>eng1 eng'. test_ircecv_completed eng m = Some (True, eng1)
    \<and> handle_received f e m (set_eng P e eng1) = Some (set_eng P e eng') \<and> eng_ok D eng'
    \<and> eng_backlog eng' = add_mset (the (payload dat)) (eng_backlog eng) \<and> arrivals eng' = as
    \<and> prefix (sent eng) (sent eng')"
proof -
  note ok = eng_okD [OF assms(2)]
  define n where "n = nat (send_list_len (my_bcomm eng))"
  have g: "tag = RLO_BCAST" "length dat \<le> 4 + msg_data_max" "\<exists>p. payload dat = Some p \<and> D p"
    using ok(6) assms(4) by (auto simp: good_arrival_def)
  obtain p where p: "payload dat = Some p" "D p" using g(3) by blast
  obtain x where x: "msgs eng m = Some x" "recv_msg n x"
    using roles_alloc(1) [OF ok(5), of m] assms(3) by (auto simp: n_def)
  define x1 where "x1 = x\<lparr>m_buf := dat @ drop (length dat) (m_buf x), stat_source := src, stat_tag := tag\<rparr>"
  define eng1 where "eng1 = eng\<lparr>arrivals := as, msgs := (msgs eng)(m \<mapsto> x1)\<rparr>"
  have t: "test_ircecv_completed eng m = Some (True, eng1)"
    using assms(4) g(2) x(1) comm_ok_send_list(4) [OF ok(1)]
    by (simp add: test_ircecv_completed_def upd_msg_def eng1_def x1_def)
  have pay: "payload (m_buf x1) = Some p" using payload_append [OF p(1)] by (simp add: x1_def)
  have x1: "recv_msg n x1" "stat_tag x1 = RLO_BCAST" "has_payload D x1"
    using x(2) g(1,2) pay p(2) by (auto simp: recv_msg_def x1_def has_payload_def)
  obtain m2 eng2 where new: "RLO_msg_new_generic (eng1\<lparr>queue_recv := []\<rparr>) = (m2, eng2)"
    by (cases "RLO_msg_new_generic (eng1\<lparr>queue_recv := []\<rparr>)")
  obtain x2 where x2: "m2 = next_msg eng" "recv_msg n x2"
    "eng2 = eng1\<lparr>queue_recv := [], msgs := (msgs eng1)(next_msg eng \<mapsto> x2), next_msg := next_msg eng + 1\<rparr>"
    using new_generic_recv_msg [OF new] by (auto simp: eng1_def n_def)
  define eng3 where "eng3 = eng2\<lparr>queue_recv := [m2], recved_bcast_cnt := recved_bcast_cnt eng2 + 1\<rparr>"
  have mn: "m < next_msg eng" "m \<notin> set (queue_wait eng @ queue_pickup eng @ queue_wait_and_pickup eng)"
    using roles_alloc(5,6) [OF ok(5)] assms(3) by auto
  have ok3: "eng_ok D eng3"
    using ok assms(4) roles_recv_swap [OF ok(5) [unfolded assms(3)], of x2 "Some x1"] x2(2)
    by (simp add: eng_ok_def eng3_def x2(1,3) eng1_def n_def fun_upd_twist)
  have m3: "msgs eng3 m = Some x1" "m < next_msg eng3"
    "m \<notin> set (queue_recv eng3 @ queue_wait eng3 @ queue_pickup eng3 @ queue_wait_and_pickup eng3)"
    using mn by (auto simp: eng3_def x2(1,3) eng1_def)
  have x1n: "recv_msg (nat (send_list_len (my_bcomm eng3))) x1"
    using x1(1) by (simp add: eng3_def x2(3) eng1_def n_def)
  obtain c eng' where f: "bc_forward eng3 m = Some (c, eng')" "eng_ok D eng'"
    "eng_backlog eng' = add_mset (the (payload (m_buf x1))) (eng_backlog eng3)" "arrivals eng' = arrivals eng3"
    "prefix (sent eng3) (sent eng')"
    using bc_forward_ok [OF ok3 m3 x1n x1(2,3)] by blast
  have "eng_backlog eng3 = eng_backlog eng"
  proof (rule eng_backlog_cong)
    show "map_option m_buf (msgs eng3 i) = map_option m_buf (msgs eng i) \<and> msgs eng i \<noteq> None"
      if "i \<in> set (queue_wait_and_pickup eng) \<union> set (queue_pickup eng)" for i
      using that mn roles_alloc(3,4,6) [OF ok(5), of i]
      by (auto simp: eng3_def x2(1,3) eng1_def)
  qed (simp add: eng3_def x2(3) eng1_def)
  moreover have "handle_received f e m (set_eng P e eng1) = Some (set_eng P e eng')"
    using new f(1) m3(1) assms(3) g(1) x2(3)
    by (simp add: handle_received_def lq_remove_def eng1_def [symmetric] Let_def eng3_def [symmetric])
      (simp add: eng1_def eng3_def x1_def lq_remove_def)
  ultimately show ?thesis
    using t f pay p(1) by (auto simp: eng3_def x2(3) eng1_def)
qed

end
