(* ===== verification/IAR_Facts.thy ===== *)
theory IAR_Facts
  imports Plugin_RLO Broadcast Bcast_Mode
begin

text \<open>
  The vote of \<^verbatim>\<open>rootless/rootless_ops.c\<close>: what a rank sends on when a proposal reaches it, how the
  votes of the ranks below it are merged into the one vote it sends back, what a decision does to
  the proposal it is about, and what the votes of all ranks amount to at the origin.
\<close>

section \<open>Forwarding sends along the ring\<close>

lemma upd_msg_Some: "upd_msg eng m f = Some eng' \<longleftrightarrow> (\<exists>x. msgs eng m = Some x \<and> eng' = eng\<lparr>msgs := (msgs eng)(m \<mapsto> f x)\<rparr>)"
  by (auto simp: upd_msg_def bind_eq_Some_conv)

lemma isend_list_sends:
  assumes "isend_list eng m n tag js = Some eng'" and "msgs eng m = Some x"
  shows "sent eng' = sent eng @ map (\<lambda>j. (send_list (my_bcomm eng) ! j, tag, take n (m_buf x))) js"
  using assms
proof (induction js arbitrary: eng x)
  case Nil
  then show ?case by simp
next
  case (Cons j js)
  obtain e1 where e1: "isend eng m n tag j = Some e1" "isend_list e1 m n tag js = Some eng'"
    using Cons.prems(1) by (auto simp: bind_eq_Some_conv)
  obtain x1 where "msgs e1 m = Some x1" "m_buf x1 = m_buf x" "my_bcomm e1 = my_bcomm eng"
    "sent e1 = sent eng @ [(send_list (my_bcomm eng) ! j, tag, take n (m_buf x))]"
    using e1(1) Cons.prems(2) by (auto simp: isend_def bind_eq_Some_conv split: if_splits)
  with Cons.IH [OF e1(2)] show ?case by simp
qed

lemma queue_forwarded_sent [simp]: "sent (queue_forwarded eng m tag) = sent eng"
  by (simp add: queue_forwarded_def)

lemma queue_not_forwarded_sent: "queue_not_forwarded eng m tag = Some eng' \<Longrightarrow> sent eng' = sent eng"
  by (auto simp: queue_not_forwarded_def upd_msg_Some bind_eq_Some_conv split: if_splits)

lemma queue_leaf_sent: "queue_leaf eng m tag = Some eng' \<Longrightarrow> sent eng' = sent eng"
  by (auto simp: queue_leaf_def upd_msg_Some bind_eq_Some_conv)

lemma check_passed_origin_cnt [simp]:
  "check_passed_origin (b\<lparr>bcast_recv_cnt := c\<rparr>) origin to = check_passed_origin b origin to"
  by (simp add: check_passed_origin_def)

definition fwd_start :: "'a engine \<Rightarrow> nat \<Rightarrow> RLO_msg \<Rightarrow> 'a engine" where
  "fwd_start eng m x =
     eng\<lparr>my_bcomm := (my_bcomm eng)\<lparr>bcast_recv_cnt := bcast_recv_cnt (my_bcomm eng) + 1\<rparr>,
         msgs := (msgs eng)(m \<mapsto> x\<lparr>send_cnt := 0\<rparr>)\<rparr>"

lemma fwd_start_simps [simp]:
  "sent (fwd_start eng m x) = sent eng"
  "my_bcomm (fwd_start eng m x) = (my_bcomm eng)\<lparr>bcast_recv_cnt := bcast_recv_cnt (my_bcomm eng) + 1\<rparr>"
  "msgs (fwd_start eng m x) m = Some (x\<lparr>send_cnt := 0\<rparr>)"
  "queue_iar_pending (fwd_start eng m x) = queue_iar_pending eng"
  by (simp_all add: fwd_start_def)

lemma bc_forward_cases:
  assumes fwd: "bc_forward eng m = Some (n, eng')" and x: "msgs eng m = Some x"
  obtains k js e1 where "isend_list (fwd_start eng m x) m k (stat_tag x) js = Some e1" and "n = int (length js)"
    and "\<And>origin. get_origin (m_buf x) = Some origin \<Longrightarrow>
      bc_forward_dests (my_bcomm eng) (sint origin) (stat_source x) = map (\<lambda>j. send_list (my_bcomm eng) ! j) js"
    and "eng' = queue_forwarded e1 m (stat_tag x) \<or> queue_not_forwarded e1 m (stat_tag x) = Some eng'
      \<or> queue_leaf e1 m (stat_tag x) = Some eng'"
    and "js \<noteq> [] \<Longrightarrow> k = nat (msg_size_max (my_bcomm eng)) \<or> k = nat (msg_size_max (my_bcomm eng)) + 4"
proof -
  let ?b = "my_bcomm eng"
  note start = fwd_start_def [of eng m x, symmetric]
  consider (leaf) "\<not> 0 < my_level ?b" | (up) "0 < my_level ?b" "stat_source x > bc_last_wall ?b"
    | (last) "0 < my_level ?b" "\<not> stat_source x > bc_last_wall ?b" "\<not> 0 \<le> send_channel_cnt ?b - 1"
    | (down) "0 < my_level ?b" "\<not> stat_source x > bc_last_wall ?b" "0 \<le> send_channel_cnt ?b - 1"
    by blast
  then show ?thesis
  proof cases
    case leaf
    then have "queue_leaf (fwd_start eng m x) m (stat_tag x) = Some eng'" "n = 0" using fwd x
      by (auto simp: bc_forward_def upd_msg_def start bind_eq_Some_conv)
    with leaf show ?thesis by (intro that [of 0 "[]"]) (auto simp: bc_forward_dests_def)
  next
    case up
    define js where "js = rev [0..<nat (send_channel_cnt ?b + 1)]"
    from up fwd x obtain e1 where
      "isend_list (fwd_start eng m x) m (nat (msg_size_max ?b) + 4) (stat_tag x) js = Some e1"
      "n = int (length js)" "eng' = queue_forwarded e1 m (stat_tag x)"
      by (simp add: bc_forward_def upd_msg_def Let_def start flip: js_def) (auto simp: bind_eq_Some_conv)
    with up show ?thesis
      by (intro that [of "nat (msg_size_max ?b) + 4" js]) (auto simp: bc_forward_dests_def js_def simp del: upt_Suc)
  next
    case last
    then have "queue_not_forwarded (fwd_start eng m x) m (stat_tag x) = Some eng'" "n = 0" using fwd x
      by (auto simp: bc_forward_def upd_msg_def Let_def start bind_eq_Some_conv)
    with last show ?thesis by (intro that [of 0 "[]"]) (auto simp: bc_forward_dests_def)
  next
    case down
    obtain origin where origin: "get_origin (m_buf x) = Some origin" using down fwd x
      by (auto simp: bc_forward_def upd_msg_def bind_eq_Some_conv Let_def)
    define js where "js = filter (\<lambda>j. \<not> check_passed_origin ?b (sint origin) (send_list ?b ! j))
      (rev [0..<nat (send_channel_cnt ?b - 1 + 1)])"
    have dests: "bc_forward_dests ?b (sint origin) (stat_source x) = map (\<lambda>j. send_list ?b ! j) js"
      using down by (simp add: bc_forward_dests_def js_def filter_map comp_def del: upt_Suc)
    have js': "filter (\<lambda>j. \<not> check_passed_origin ?b (sint origin) (send_list ?b ! j))
      (rev [0..<nat (send_channel_cnt ?b)]) = js" by (simp add: js_def)
    from down fwd x origin obtain e1 where
      e1: "isend_list (fwd_start eng m x) m (nat (msg_size_max ?b)) (stat_tag x) js = Some e1"
      "(if js \<noteq> [] then Some (int (length js), queue_forwarded e1 m (stat_tag x))
        else do { eng \<leftarrow> queue_not_forwarded e1 m (stat_tag x); Some (0, eng) }) = Some (n, eng')"
      by (simp add: bc_forward_def upd_msg_def Let_def start js' del: upt_Suc split del: if_split)
         (auto simp: bind_eq_Some_conv js' cong del: if_weak_cong)
    then have "n = int (length js)"
      "eng' = queue_forwarded e1 m (stat_tag x) \<or> queue_not_forwarded e1 m (stat_tag x) = Some eng'"
      by (auto simp: bind_eq_Some_conv split: if_splits)
    with e1(1) dests origin show ?thesis by (intro that [of "nat (msg_size_max ?b)" js e1]) auto
  qed
qed

lemma bc_forward_sends:
  assumes fwd: "bc_forward eng m = Some (n, eng')" and x: "msgs eng m = Some x"
    and origin: "get_origin (m_buf x) = Some origin"
  shows "\<exists>k. sent eng' = sent eng @ map (\<lambda>d. (d, stat_tag x, take k (m_buf x)))
      (bc_forward_dests (my_bcomm eng) (sint origin) (stat_source x))
    \<and> n = int (length (bc_forward_dests (my_bcomm eng) (sint origin) (stat_source x)))"
  using bc_forward_cases [OF fwd x]
proof cases
  case (1 k js e1)
  then have "sent eng' = sent e1" by (auto dest: queue_not_forwarded_sent queue_leaf_sent)
  then show ?thesis
    using isend_list_sends [OF 1(1) fwd_start_simps(3)] 1(2) 1(3) [OF origin]
    by (auto simp: comp_def)
qed

lemma isend_list_rank: "isend_list eng m n tag js = Some eng' \<Longrightarrow> my_bcomm eng' = my_bcomm eng"
proof (induction js arbitrary: eng)
  case (Cons j js)
  then obtain e1 where "isend eng m n tag j = Some e1" "my_bcomm eng' = my_bcomm e1"
    by (auto simp: bind_eq_Some_conv)
  then show ?case by (auto simp: isend_def bind_eq_Some_conv split: if_splits)
qed simp

lemma bc_forward_rank:
  assumes "bc_forward eng m = Some (n, eng')"
  shows "my_rank (my_bcomm eng') = my_rank (my_bcomm eng)"
proof -
  obtain x where x: "msgs eng m = Some x" using assms by (auto simp: bc_forward_def bind_eq_Some_conv)
  from bc_forward_cases [OF assms x] show ?thesis
  proof cases
    case (1 k js e1)
    from 1(4) have "my_bcomm eng' = my_bcomm e1"
      by (auto simp: queue_forwarded_def queue_not_forwarded_def queue_leaf_def upd_msg_Some bind_eq_Some_conv split: if_splits)
    with isend_list_rank [OF 1(1)] show ?thesis by simp
  qed
qed

section \<open>A proposal arrives\<close>

lemma isend_list_frame:
  assumes "isend_list eng m n tag js = Some eng'" and "msgs eng m = Some x"
  shows "queue_iar_pending eng' = queue_iar_pending eng
    \<and> (\<exists>x'. msgs eng' m = Some x' \<and> prop_state x' = prop_state x \<and> m_buf x' = m_buf x)"
  using assms
proof (induction js arbitrary: eng x)
  case Nil
  then show ?case by auto
next
  case (Cons j js)
  obtain e1 x1 where e1: "isend eng m n tag j = Some e1" "isend_list e1 m n tag js = Some eng'"
    and "msgs e1 = (msgs eng)(m \<mapsto> x1)" "m_buf x1 = m_buf x" "prop_state x1 = prop_state x"
    "queue_iar_pending e1 = queue_iar_pending eng"
    using Cons.prems by (auto simp: isend_def bind_eq_Some_conv split: if_splits)
  with Cons.IH [OF e1(2), of x1] show ?case by auto
qed

lemma queue_up_proposal:
  "queue_iar_pending (queue_forwarded eng m RLO_IAR_PROPOSAL) = queue_iar_pending eng @ [m]"
  "msgs (queue_forwarded eng m RLO_IAR_PROPOSAL) = msgs eng"
  "queue_not_forwarded eng m RLO_IAR_PROPOSAL = Some (queue_forwarded eng m RLO_IAR_PROPOSAL)"
  by (simp_all add: queue_forwarded_def queue_not_forwarded_def tag_defs)

lemma queue_leaf_proposal:
  "queue_leaf eng m RLO_IAR_PROPOSAL = Some eng' \<Longrightarrow> msgs eng m = Some x \<Longrightarrow>
    queue_iar_pending eng' = queue_iar_pending eng @ [m] \<and> msgs eng' m = Some (x\<lparr>fwd_done := 1\<rparr>)"
  by (auto simp: queue_leaf_def upd_msg_Some bind_eq_Some_conv tag_defs)

lemma bc_forward_pending:
  assumes fwd: "bc_forward eng m = Some (n, eng')" and x: "msgs eng m = Some x" and tag: "stat_tag x = RLO_IAR_PROPOSAL"
  shows "queue_iar_pending eng' = queue_iar_pending eng @ [m]
    \<and> (\<exists>x'. msgs eng' m = Some x' \<and> prop_state x' = prop_state x)"
  using bc_forward_cases [OF fwd x]
proof cases
  case (1 k js e1)
  obtain x1 where "queue_iar_pending e1 = queue_iar_pending eng" "msgs e1 m = Some x1" "prop_state x1 = prop_state x"
    using isend_list_frame [OF 1(1) fwd_start_simps(3)] by auto
  with 1(4) tag show ?thesis
    by (auto simp: queue_up_proposal dest: queue_leaf_proposal)
qed

definition vote_msg :: "'a engine \<Rightarrow> int \<Rightarrow> c_int \<Rightarrow> c_int \<Rightarrow> int \<times> int \<times> byte list" where
  "vote_msg eng dest k v = (dest, RLO_IAR_VOTE, pbuf_vote_serialize (word_of_int (my_rank (my_bcomm eng))) k v)"

lemma vote_back_sent:
  "vote_back eng ps v = eng\<lparr>sent := sent eng @ [vote_msg eng (recv_proposal_from ps) (ps_pid ps) v]\<rparr>"
  by (simp add: vote_back_def vote_msg_def)

text \<open>
  A rank that agrees and has ranks below it sends the proposal on, keeps it as pending and expects
  one vote for every message sent; without ranks below it votes at once. A rank that disagrees
  votes at once and sends nothing on.
\<close>

definition pending_as :: "'a engine \<Rightarrow> nat \<Rightarrow> Proposal_state \<Rightarrow> bool" where
  "pending_as eng m ps \<longleftrightarrow> m \<in> set (queue_iar_pending eng) \<and> (\<exists>x. msgs eng m = Some x \<and> prop_state x = Some ps)"

lemma proposal_handled:
  assumes h: "iar_proposal_handler eng m = Some (r, eng')"
    and x: "msgs eng m = Some x" "stat_tag x = RLO_IAR_PROPOSAL" "get_origin (m_buf x) = Some origin"
    and p: "pbuf_deserialize (drop 8 (data_buf (m_buf x))) = Some (l, pbuf)"
    and other: "pb_pid pbuf \<noteq> ps_pid (my_own_proposal eng)"
    and j: "prop_judgement_cb eng (pb_data pbuf) (app_ctx eng) = Some (j, a)"
    and dests: "dests = bc_forward_dests (my_bcomm eng) (sint origin) (stat_source x)"
  shows "(j = 0 \<longrightarrow> sent eng' = sent eng @ [vote_msg eng (stat_source x) (pb_pid pbuf) 0]
      \<and> queue_iar_pending eng' = queue_iar_pending eng)
    \<and> (j = 1 \<longrightarrow> (\<exists>k. sent eng' = sent eng @
        (if dests = [] then [vote_msg eng (stat_source x) (pb_pid pbuf) 1]
         else map (\<lambda>d. (d, RLO_IAR_PROPOSAL, take k (m_buf x))) dests))
      \<and> (\<exists>ps. pending_as eng' m ps \<and> ps_pid ps = pb_pid pbuf \<and> recv_proposal_from ps = stat_source x
          \<and> votes_needed ps = int (length dests) \<and> votes_recved ps = 0 \<and> ps_vote ps = 1))"
proof -
  define ps where "ps = (proposal_state_init (Some m))\<lparr>ps_pid := pb_pid pbuf, recv_proposal_from := stat_source x,
     ps_state := RLO_IN_PROGRESS, votes_needed := int (length dests)\<rparr>"
  have ps: "ps_pid ps = pb_pid pbuf" "recv_proposal_from ps = stat_source x" "votes_needed ps = int (length dests)"
    "votes_recved ps = 0" "ps_vote ps = 1"
    by (simp_all add: ps_def proposal_state_init_def)
  define e1 where "e1 = eng\<lparr>msgs := (msgs eng)(m \<mapsto> x\<lparr>prop_state := Some ps\<rparr>), app_ctx := a\<rparr>"
  have e1: "sent e1 = sent eng" "my_bcomm e1 = my_bcomm eng" "queue_iar_pending e1 = queue_iar_pending eng"
    "msgs e1 m = Some (x\<lparr>prop_state := Some ps\<rparr>)"
    by (simp_all add: e1_def)
  have run: "(if j = 0 then Some (0, vote_back e1 ps 0)
      else if j = 1 then do { (n, eng) \<leftarrow> bc_forward e1 m; Some (0, if n = 0 then vote_back eng ps 1 else eng) }
      else Some (0, e1)) = Some (r, eng')"
    using h x p other j
    by (simp add: iar_proposal_handler_def Let_def upd_msg_def fwd_send_cnt_length dests [symmetric] e1_def ps_def proposal_state_init_def
        cong del: if_weak_cong split del: if_split)
  have vm: "vote_msg e1 d k v = vote_msg eng d k v" for d k v by (simp add: vote_msg_def e1)
  consider "j = 0" | "j = 1" | "j \<noteq> 0" "j \<noteq> 1" by blast
  then show ?thesis
  proof cases
    case 1
    with run have "eng' = vote_back e1 ps 0" by auto
    then show ?thesis using 1 by (simp add: vote_back_sent e1 vm ps)
  next
    case 2
    with run obtain n e2 where fwd: "bc_forward e1 m = Some (n, e2)"
      and eng': "eng' = (if n = 0 then vote_back e2 ps 1 else e2)"
      by (auto simp: bind_eq_Some_conv)
    have bcomm: "vote_msg e2 = vote_msg eng"
    proof -
      have "my_rank (my_bcomm e2) = my_rank (my_bcomm e1)"
        by (rule bc_forward_rank [OF fwd])
      then show ?thesis by (simp add: fun_eq_iff vote_msg_def e1)
    qed
    obtain k where s: "sent e2 = sent eng @ map (\<lambda>d. (d, RLO_IAR_PROPOSAL, take k (m_buf x))) dests"
      "n = int (length dests)"
      using bc_forward_sends [OF fwd e1(4)] x dests by (auto simp: e1)
    have q: "pending_as e2 m ps"
      using bc_forward_pending [OF fwd e1(4)] x by (auto simp: pending_as_def)
    then have "pending_as eng' m ps" by (simp add: eng' pending_as_def vote_back_def)
    moreover have "sent eng' = sent eng @ (if dests = [] then [vote_msg eng (stat_source x) (pb_pid pbuf) 1]
         else map (\<lambda>d. (d, RLO_IAR_PROPOSAL, take k (m_buf x))) dests)"
      using s by (simp add: eng' vote_back_sent bcomm ps)
    ultimately show ?thesis using 2 ps by auto
  next
    case 3
    then show ?thesis by simp
  qed
qed


section \<open>Votes come back\<close>

lemma find_pending_cong:
  assumes "\<And>m. m \<in> set q \<Longrightarrow> map_option (\<lambda>x. map_option ps_pid (prop_state x)) (ms' m)
     = map_option (\<lambda>x. map_option ps_pid (prop_state x)) (ms m)"
  shows "find_pending ms' k q = find_pending ms k q"
  using assms
proof (induction q)
  case (Cons m q)
  from Cons.prems [of m] have "map_option (\<lambda>x. map_option ps_pid (prop_state x)) (ms' m)
     = map_option (\<lambda>x. map_option ps_pid (prop_state x)) (ms m)" by simp
  with Cons show ?case
    by (cases "ms m"; cases "ms' m"; cases "prop_state (the (ms m))"; cases "prop_state (the (ms' m))") auto
qed simp

lemma find_pending_mem: "find_pending ms k q = Some (Some m) \<Longrightarrow>
    m \<in> set q \<and> (\<exists>x ps. ms m = Some x \<and> prop_state x = Some ps \<and> ps_pid ps = k)"
  by (induction q) (auto simp: bind_eq_Some_conv split: if_splits)

lemma find_proposal_msg_mem:
  assumes "find_proposal_msg eng k = Some (Some m)"
  obtains ps where "pending_as eng m ps" and "ps_pid ps = k"
  using assms find_pending_mem [of "msgs eng" k "queue_iar_pending eng" m]
  by (auto simp: find_proposal_msg_def pending_as_def split: if_splits)

text \<open>The votes of the ranks below, in the order they come back, for one pending proposal.\<close>

fun collect_votes :: "'a engine \<Rightarrow> PBuf list \<Rightarrow> 'a engine option" where
  "collect_votes eng [] = Some eng"
| "collect_votes eng (b # bs) = do { (r, eng) \<leftarrow> vote_for_pending eng b; collect_votes eng bs }"

definition merged :: "Proposal_state \<Rightarrow> c_int \<Rightarrow> Proposal_state" where
  "merged ps v = ps\<lparr>ps_vote := ps_vote ps AND v, votes_recved := votes_recved ps + 1\<rparr>"

lemma vote_step:
  assumes f: "find_proposal_msg eng (pb_pid b) = Some (Some m)" and p: "pending_as eng m ps"
  obtains e1 where "vote_for_pending eng b = Some (0, e1)"
    and "find_proposal_msg e1 (pb_pid b) = Some (Some m)" and "pending_as e1 m (merged ps (pb_vote b))"
    and "my_bcomm e1 = my_bcomm eng"
    and "sent e1 = sent eng @ (if votes_recved ps + 1 = votes_needed ps
      then [vote_msg eng (recv_proposal_from ps) (ps_pid ps) (ps_vote ps AND pb_vote b)] else [])"
proof -
  obtain x where x: "msgs eng m = Some x" "prop_state x = Some ps" "m \<in> set (queue_iar_pending eng)"
    using p by (auto simp: pending_as_def)
  define e where "e = eng\<lparr>msgs := (msgs eng)(m \<mapsto> x\<lparr>prop_state := Some (merged ps (pb_vote b))\<rparr>)\<rparr>"
  define e1 where "e1 = (if votes_needed ps = votes_recved ps + 1
    then vote_back e (merged ps (pb_vote b)) (ps_vote (merged ps (pb_vote b))) else e)"
  have same: "find_pending (msgs e) k (queue_iar_pending e) = find_pending (msgs eng) k (queue_iar_pending eng)" for k
  proof -
    have "find_pending (msgs e) k (queue_iar_pending eng) = find_pending (msgs eng) k (queue_iar_pending eng)"
      by (rule find_pending_cong) (simp add: e_def x merged_def)
    then show ?thesis by (simp add: e_def)
  qed
  have "vote_merge eng (pb_pid b) (pb_vote b) =
      Some (if votes_needed ps = votes_recved ps + 1 then 1 else 0, Some (merged ps (pb_vote b)), e)"
    using f x by (simp add: vote_merge_def upd_msg_def e_def merged_def)
  then have r: "vote_for_pending eng b = Some (0, e1)"
    by (simp add: vote_for_pending_def e1_def)
  show ?thesis
    by (rule that [OF r]; use f x in \<open>simp add: e1_def find_proposal_msg_def vote_back_def same split: if_splits\<close>;
        simp add: e1_def e_def vote_back_sent pending_as_def x vote_msg_def merged_def)
qed

lemma collect_votes_sent:
  assumes "find_proposal_msg eng k = Some (Some m)" and "pending_as eng m ps" and "\<forall>b\<in>set bs. pb_pid b = k"
    and "votes_recved ps + int (length bs) \<le> votes_needed ps"
  shows "\<exists>eng'. collect_votes eng bs = Some eng'
    \<and> sent eng' = sent eng @ (if bs \<noteq> [] \<and> votes_recved ps + int (length bs) = votes_needed ps
        then [vote_msg eng (recv_proposal_from ps) (ps_pid ps) (foldl (AND) (ps_vote ps) (map pb_vote bs))] else [])"
  using assms
proof (induction bs arbitrary: eng ps)
  case Nil
  then show ?case by simp
next
  case (Cons b bs)
  have k: "pb_pid b = k" using Cons.prems(3) by simp
  obtain e1 where e1: "vote_for_pending eng b = Some (0, e1)"
    "find_proposal_msg e1 k = Some (Some m)" "pending_as e1 m (merged ps (pb_vote b))" "my_bcomm e1 = my_bcomm eng"
    "sent e1 = sent eng @ (if votes_recved ps + 1 = votes_needed ps
      then [vote_msg eng (recv_proposal_from ps) (ps_pid ps) (ps_vote ps AND pb_vote b)] else [])"
    using vote_step [of eng b m ps] Cons.prems(1,2) k by metis
  have vm: "vote_msg e1 = vote_msg eng" by (simp add: fun_eq_iff vote_msg_def e1)
  from Cons.IH [OF e1(2,3)] Cons.prems(3,4) obtain eng' where
    "collect_votes e1 bs = Some eng'" and
    "sent eng' = sent e1 @ (if bs \<noteq> [] \<and> votes_recved ps + 1 + int (length bs) = votes_needed ps
        then [vote_msg eng (recv_proposal_from ps) (ps_pid ps) (foldl (AND) (ps_vote ps AND pb_vote b) (map pb_vote bs))] else [])"
    by (auto simp: merged_def vm)
  with e1(1,5) Cons.prems(4) show ?case by (cases bs) auto
qed

end
