(* ===== verification/IAR_Decision.thy ===== *)
theory IAR_Decision
  imports IAR_Facts
begin

text \<open>
  The decision: what it does to the pending proposal, what the origin makes of the votes, and the
  outcome over the whole ring.
\<close>

section \<open>The decision at a rank\<close>

lemma msg_free_Some: "msgs eng m = Some x \<Longrightarrow> RLO_msg_free eng m = Some (eng\<lparr>msgs := (msgs eng)(m := None)\<rparr>)"
  by (simp add: RLO_msg_free_def)

text \<open>
  A decision against the proposal drops it; a decision for it runs the action on the proposal, once,
  and hands the proposal to the user.
\<close>

lemma decision_denied:
  assumes "msgs eng m = Some x" and "pbuf_deserialize (drop 8 (data_buf (m_buf x))) = Some (l, d)"
    and "find_proposal_msg eng (pb_pid d) = Some (Some pm)" and "pb_vote d = 0"
  shows "\<exists>eng'. iar_decision_handler eng m = Some (0, eng') \<and> app_ctx eng' = app_ctx eng
    \<and> queue_iar_pending eng' = remove1 pm (queue_iar_pending eng) \<and> queue_pickup eng' = queue_pickup eng
    \<and> msgs eng' = (msgs eng)(pm := None)"
proof -
  obtain ps px where "pm \<in> set (queue_iar_pending eng)" "msgs eng pm = Some px" "prop_state px = Some ps"
    using assms(3) by (rule find_proposal_msg_mem) (auto simp: pending_as_def intro: that)
  with assms show ?thesis
    by (simp add: iar_decision_handler_def lq_remove_mem msg_free_Some)
qed

lemma decision_approved:
  assumes "msgs eng m = Some x" and "pbuf_deserialize (drop 8 (data_buf (m_buf x))) = Some (l, d)"
    and "find_proposal_msg eng (pb_pid d) = Some (Some pm)" and "pb_vote d \<noteq> 0" and "msgs eng pm = Some px"
    and "(case proposal_action eng of None \<Rightarrow> Some (app_ctx eng) | Some act \<Rightarrow> act (data_buf (m_buf px)) (app_ctx eng)) = Some a"
  shows "\<exists>eng'. iar_decision_handler eng m = Some (0, eng') \<and> app_ctx eng' = a
    \<and> queue_iar_pending eng' = remove1 pm (queue_iar_pending eng) \<and> queue_pickup eng' = queue_pickup eng @ [pm]
    \<and> (\<exists>px'. msgs eng' = (msgs eng)(pm \<mapsto> px') \<and> m_buf px' = m_buf px \<and> pickup_done px' = 0
        \<and> map_option ps_state (prop_state px') = Some RLO_COMPLETED)"
proof -
  obtain ps where "pm \<in> set (queue_iar_pending eng)" "prop_state px = Some ps"
    using assms(3) by (rule find_proposal_msg_mem) (use assms(5) in \<open>auto simp: pending_as_def intro: that\<close>)
  with assms show ?thesis
    by (auto simp: iar_decision_handler_def lq_remove_mem upd_msg_def split: option.splits)
qed

text \<open>
  A rank without the proposal (it was never asked, or it voted no) puts the decision message itself
  where the user picks messages up; the user is given the fixed text of the decision as a proposal.
\<close>

lemma decision_stray:
  assumes "msgs eng m = Some x" and "pbuf_deserialize (drop 8 (data_buf (m_buf x))) = Some (l, d)"
    and "find_proposal_msg eng (pb_pid d) = Some None"
  shows "iar_decision_handler eng m = Some (- 1, eng\<lparr>queue_pickup := queue_pickup eng @ [m]\<rparr>)"
  using assms by (simp add: iar_decision_handler_def)

section \<open>The outcome over the ring\<close>

text \<open>
  The vote rank \<open>r\<close> sends back when the ranks judge by \<open>judge\<close> and no message is lost: no when it
  disagrees itself, and otherwise the merged votes of the ranks it sent the proposal to.
\<close>

fun tree_vote :: "nat \<Rightarrow> int \<Rightarrow> (int \<Rightarrow> c_int) \<Rightarrow> int \<Rightarrow> int \<Rightarrow> int \<Rightarrow> c_int" where
  "tree_vote 0 ws judge origin src r = 1"
| "tree_vote (Suc n) ws judge origin src r =
     (case bcomm_init ws r of
        None \<Rightarrow> 1
      | Some b \<Rightarrow>
          if judge r = 0 then 0
          else foldl (AND) 1 (map (tree_vote n ws judge origin r) (bc_forward_dests b origin src)))"

text \<open>
  The origin merges the votes of its send list into its own, which starts as yes; if they are in
  favour it judges its proposal once more. This is the decision it broadcasts.
\<close>

definition ring_decision :: "nat \<Rightarrow> int \<Rightarrow> (int \<Rightarrow> c_int) \<Rightarrow> int \<Rightarrow> c_int" where
  "ring_decision n ws judge origin =
     (case bcomm_init ws origin of
        None \<Rightarrow> 0
      | Some b \<Rightarrow>
          let v = foldl (AND) 1 (map (tree_vote n ws judge origin origin) (bcast_dests b)) in
          if v \<noteq> 0 then judge origin else v)"

lemma foldl_and_01:
  assumes "\<forall>v\<in>set vs. v = 0 \<or> v = (1 :: c_int)" and "a = 0 \<or> a = 1"
  shows "foldl (AND) a vs = (if a = 1 \<and> (\<forall>v\<in>set vs. v = 1) then 1 else 0)"
  using assms
proof (induction vs arbitrary: a)
  case (Cons v vs)
  then have "a AND v = (if a = 1 \<and> v = 1 then 1 else 0)" by auto
  with Cons show ?case by (auto simp del: bit_simps)
qed auto

lemma merged_yes:
  assumes "\<And>d. d \<in> set ds \<Longrightarrow> f d = (if Q d then 1 else 0)"
  shows "foldl (AND) 1 (map f ds) = (if \<forall>d\<in>set ds. Q d then 1 else (0 :: c_int))"
proof -
  have "\<forall>v\<in>set (map f ds). v = 0 \<or> v = 1" using assms by fastforce
  from foldl_and_01 [OF this] have "foldl (AND) 1 (map f ds) = (if \<forall>v\<in>set (map f ds). v = 1 then 1 else 0)"
    by simp
  moreover have "(\<forall>v\<in>set (map f ds). v = 1) \<longleftrightarrow> (\<forall>d\<in>set ds. Q d)" using assms by force
  ultimately show ?thesis by simp
qed

lemma tree_vote_relay:
  assumes "\<And>x. judge x = 0 \<or> judge x = 1"
  shows "tree_vote n ws judge origin src r =
    (if \<forall>x\<in>set (relay n ws origin src r). judge x = 1 then 1 else 0)"
proof (induction n arbitrary: src r)
  case 0
  show ?case by simp
next
  case (Suc n)
  show ?case
  proof (cases "bcomm_init ws r")
    case None
    then show ?thesis by simp
  next
    case (Some b)
    have "foldl (AND) 1 (map (tree_vote n ws judge origin r) (bc_forward_dests b origin src)) =
      (if \<forall>d\<in>set (bc_forward_dests b origin src). \<forall>x\<in>set (relay n ws origin r d). judge x = 1 then 1 else 0)"
      by (rule merged_yes) (rule Suc.IH)
    with Some assms [of r] show ?thesis by (simp only: tree_vote.simps relay.simps option.case) auto
  qed
qed

lemma ring_decision_broadcast:
  assumes "\<And>x. judge x = 0 \<or> judge x = 1"
  shows "ring_decision n ws judge origin =
    (if bcomm_init ws origin \<noteq> None \<and> judge origin = 1 \<and> (\<forall>x\<in>set (broadcast n ws origin). judge x = 1) then 1 else 0)"
proof (cases "bcomm_init ws origin")
  case None
  then show ?thesis by (simp add: ring_decision_def)
next
  case (Some b)
  have v: "foldl (AND) 1 (map (tree_vote n ws judge origin origin) (bcast_dests b)) =
      (if \<forall>d\<in>set (bcast_dests b). \<forall>x\<in>set (relay n ws origin origin d). judge x = 1 then 1 else 0)"
    by (rule merged_yes) (rule tree_vote_relay [OF assms])
  show ?thesis using Some assms [of origin] v unfolding ring_decision_def broadcast_def Let_def
    by (simp only: option.case v) auto
qed

lemma ring_decision_unanimous:
  assumes "ring_ok ws origin" and "nat (2 * ws) \<le> n" and "\<And>x. judge x = 0 \<or> judge x = 1"
  shows "ring_decision n ws judge origin = (if \<forall>x\<in>{0..<ws}. judge x = 1 then 1 else 0)"
proof -
  have "set (broadcast n ws origin) = {0..<ws} - {origin}"
    using broadcast_mset [OF assms(1,2)] by (metis finite_Diff finite_atLeastLessThan_int finite_set_mset_mset_set set_mset_mset)
  moreover have "bcomm_init ws origin \<noteq> None" "origin \<in> {0..<ws}"
    using assms(1) bcomm_init_links [of ws origin] by (auto simp: ring_ok_def)
  ultimately show ?thesis using ring_decision_broadcast [where n = n and ws = ws and origin = origin, OF assms(3)] by auto
qed

section \<open>The state of the own proposal\<close>

lemma own_decided_completed:
  assumes "own_proposal_update eng = Some eng'" and "decision_msg (my_own_proposal eng) = Some d"
    and "ps_state (my_own_proposal eng) = RLO_IN_PROGRESS"
    and "RLO_msg_test_isends eng d = Some (True, e1)"
  shows "ps_state (my_own_proposal eng') = RLO_COMPLETED
    \<and> ps_vote (my_own_proposal eng') = ps_vote (my_own_proposal eng)"
  using assms
  by (simp add: own_proposal_update_def Let_def req_stat_defs RLO_msg_free_def)
    (auto simp: bind_eq_Some_conv RLO_msg_test_isends_def split: if_splits)

end
