(* ===== verification/Progress_Fuel.thy ===== *)
theory Progress_Fuel
  imports Progress
begin

text \<open>
  The recursion of \<^verbatim>\<open>RLO_make_progress\<close> through the vote handler and back: each level is entered after
  a message has been taken off the wire, and no operation puts one back, so \<^const>\<open>progress_fuel\<close> is
  enough and more fuel changes nothing.
\<close>

named_theorems arr_keep \<open>operations that leave the messages under way alone\<close>

lemma bind_SomeE:
  assumes "(x \<bind> f) = Some y"
  obtains z where "x = Some z" and "f z = Some y"
  using assms by (auto simp: bind_eq_Some_conv)

lemma upd_msg_arr [arr_keep]: "upd_msg eng m f = Some eng' \<Longrightarrow> arrivals eng' = arrivals eng"
  by (auto simp: upd_msg_def bind_eq_Some_conv)

lemma RLO_msg_free_arr [arr_keep]: "RLO_msg_free eng m = Some eng' \<Longrightarrow> arrivals eng' = arrivals eng"
  by (auto simp: RLO_msg_free_def bind_eq_Some_conv)

lemma RLO_msg_new_generic_arr [arr_keep]: "RLO_msg_new_generic eng = (m, eng') \<Longrightarrow> arrivals eng' = arrivals eng"
  by (auto simp: RLO_msg_new_generic_def)

lemma RLO_msg_new_bc_arr [arr_keep]: "RLO_msg_new_bc eng b n = Some (m, eng') \<Longrightarrow> arrivals eng' = arrivals eng"
  by (auto simp: RLO_msg_new_bc_def bind_eq_Some_conv split: prod.splits dest!: arr_keep)

lemma test_isends_arr [arr_keep]: "RLO_msg_test_isends eng m = Some (d, eng') \<Longrightarrow> arrivals eng' = arrivals eng"
  by (auto simp: RLO_msg_test_isends_def bind_eq_Some_conv require_def split: if_splits)

lemma isend_arr [arr_keep]: "isend eng m n tag j = Some eng' \<Longrightarrow> arrivals eng' = arrivals eng"
  by (auto simp: isend_def bind_eq_Some_conv require_def split: if_splits)

lemma isend_list_arr [arr_keep]: "isend_list eng m n tag js = Some eng' \<Longrightarrow> arrivals eng' = arrivals eng"
  by (induction js arbitrary: eng) (auto simp: bind_eq_Some_conv dest: isend_arr)

lemma queue_arr [arr_keep]:
  "arrivals (queue_forwarded eng m tag) = arrivals eng"
  "queue_not_forwarded eng m tag = Some eng' \<Longrightarrow> arrivals eng' = arrivals eng"
  "queue_leaf eng m tag = Some eng' \<Longrightarrow> arrivals eng' = arrivals eng"
  by (auto simp: queue_forwarded_def queue_not_forwarded_def queue_leaf_def bind_eq_Some_conv
      dest!: upd_msg_arr split: if_splits)

lemma bc_forward_arr [arr_keep]: "bc_forward eng m = Some (n, eng') \<Longrightarrow> arrivals eng' = arrivals eng"
  unfolding bc_forward_def Let_def
  by (auto simp: bind_eq_Some_conv queue_arr(1) dest!: upd_msg_arr isend_list_arr queue_arr(2,3)
      split: if_splits)

lemma vote_back_arr [arr_keep, simp]: "arrivals (vote_back eng ps v) = arrivals eng"
  by (simp add: vote_back_def)

lemma iar_proposal_handler_arr [arr_keep]:
  "iar_proposal_handler eng m = Some (r, eng') \<Longrightarrow> arrivals eng' = arrivals eng"
  unfolding iar_proposal_handler_def Let_def
  by (auto simp: bind_eq_Some_conv dest!: upd_msg_arr bc_forward_arr split: if_splits)

lemma vote_for_pending_arr [arr_keep]:
  "vote_for_pending eng b = Some (r, eng') \<Longrightarrow> arrivals eng' = arrivals eng"
  unfolding vote_for_pending_def vote_merge_def
  by (auto simp: bind_eq_Some_conv dest!: upd_msg_arr split: if_splits option.splits)

lemma iar_decision_handler_arr [arr_keep]:
  "iar_decision_handler eng m = Some (r, eng') \<Longrightarrow> arrivals eng' = arrivals eng"
  unfolding iar_decision_handler_def
  by (auto dest!: upd_msg_arr RLO_msg_free_arr
      split: Option.bind_split_asm if_split_asm option.split_asm prod.split_asm)

lemma wait_and_pickup_loop_arr [arr_keep]:
  "wait_and_pickup_loop q eng = Some eng' \<Longrightarrow> arrivals eng' = arrivals eng"
proof (induction q arbitrary: eng)
  case (Cons m q)
  then obtain e1 where "wait_and_pickup_queue_process eng m = Some e1" "arrivals eng' = arrivals e1"
    by (auto simp: bind_eq_Some_conv)
  then show ?case
    unfolding wait_and_pickup_queue_process_def
    by (auto simp: bind_eq_Some_conv dest!: upd_msg_arr test_isends_arr split: if_splits)
qed simp

lemma wait_only_loop_arr [arr_keep]: "wait_only_loop q eng = Some eng' \<Longrightarrow> arrivals eng' = arrivals eng"
proof (induction q arbitrary: eng)
  case (Cons m q)
  then obtain e1 where "wait_only_step eng m = Some e1" "arrivals eng' = arrivals e1"
    by (auto simp: bind_eq_Some_conv)
  then show ?case
    unfolding wait_only_step_def
    by (auto simp: bind_eq_Some_conv dest!: upd_msg_arr test_isends_arr RLO_msg_free_arr split: if_splits)
qed simp

lemma own_proposal_update_arr [arr_keep]: "own_proposal_update eng = Some eng' \<Longrightarrow> arrivals eng' = arrivals eng"
  unfolding own_proposal_update_def Let_def
  by (auto simp: bind_eq_Some_conv dest!: test_isends_arr RLO_msg_free_arr split: if_splits option.splits)

lemma bcast_post_arr [arr_keep]: "bcast_post eng m tag = Some eng' \<Longrightarrow> arrivals eng' = arrivals eng"
  unfolding bcast_post_def
  by (auto simp: bind_eq_Some_conv dest!: upd_msg_arr isend_list_arr split: if_splits)

section \<open>The messages under way\<close>

definition eng_cnt :: "'a process \<Rightarrow> nat \<Rightarrow> nat" where
  "eng_cnt P e = (case engines P e of None \<Rightarrow> 0 | Some eng \<Rightarrow> eng_incoming eng)"

lemma incoming_cnt_eq:
  "incoming_cnt P = sum_list (map (eng_cnt P) (case active_engines P of None \<Rightarrow> [] | Some es \<Rightarrow> es))"
  by (simp add: incoming_cnt_def eng_cnt_def [abs_def])

text \<open>\<open>Q\<close> has come from \<open>P\<close> without a message being added.\<close>

definition after :: "'a process \<Rightarrow> 'a process \<Rightarrow> bool" where
  "after P Q \<longleftrightarrow> active_engines Q = active_engines P \<and> (\<forall>e. eng_cnt Q e \<le> eng_cnt P e)"

lemma after_refl [simp]: "after P P"
  by (simp add: after_def)

lemma after_trans: "after P Q \<Longrightarrow> after Q R \<Longrightarrow> after P R"
  unfolding after_def by (metis le_trans)

lemma after_cnt: "after P Q \<Longrightarrow> incoming_cnt Q \<le> incoming_cnt P"
  by (auto simp: after_def incoming_cnt_eq intro!: sum_list_mono)

lemma after_set_eng:
  assumes "engines P e = Some eng" and "arrivals eng' = arrivals eng"
  shows "after P (set_eng P e eng')"
  using assms by (simp add: after_def set_eng_def eng_cnt_def eng_incoming_def)

lemma after_set_eng':
  "after P Q \<Longrightarrow> engines Q e = Some eng \<Longrightarrow> arrivals eng' = arrivals eng \<Longrightarrow> after P (set_eng Q e eng')"
  using after_set_eng after_trans by blast

definition shrinks :: "('a process \<Rightarrow> 'a process option) \<Rightarrow> bool" where
  "shrinks f \<longleftrightarrow> (\<forall>P Q. f P = Some Q \<longrightarrow> after P Q)"

lemma shrinksD: "shrinks f \<Longrightarrow> f P = Some Q \<Longrightarrow> after P Q"
  unfolding shrinks_def by blast

lemma set_eng_twice: "set_eng (set_eng P e a) e b = set_eng P e b"
  by (simp add: set_eng_def)

lemma engines_set_eng: "engines (set_eng P e a) e = Some a"
  by (simp add: set_eng_def)

lemma iar_decision_bcast_after:
  assumes "shrinks f" and "iar_decision_bcast f e k v P = Some Q"
  shows "after P Q"
proof -
  obtain eng buf d eng1 eng2 P1 eng3 where s: "engines P e = Some eng"
    "RLO_msg_new_bc eng buf (of_nat (length buf)) = Some (d, eng1)" "bcast_post eng1 d RLO_IAR_DECISION = Some eng2"
    "f (set_eng P e eng2) = Some P1" "engines P1 e = Some eng3"
    "Q = set_eng P1 e (eng3\<lparr>my_own_proposal := (my_own_proposal eng3)\<lparr>decision_msg := Some d\<rparr>\<rparr>)"
    using assms(2)
    by (auto simp: iar_decision_bcast_def RLO_bcast_gen_def set_eng_twice engines_set_eng
        split: sum.split_asm Option.bind_split_asm prod.split_asm)
  have "arrivals eng2 = arrivals eng" using s(2,3) RLO_msg_new_bc_arr bcast_post_arr by metis
  then have "after P (set_eng P e eng2)" by (rule after_set_eng [OF s(1)])
  moreover have "after (set_eng P e eng2) P1" by (rule shrinksD [OF assms(1) s(4)])
  ultimately have "after P P1" by (rule after_trans)
  then show ?thesis using s(5,6) by (auto intro: after_set_eng')
qed

lemma iar_vote_handler_after:
  assumes "shrinks f" and "iar_vote_handler f e m P = Some Q"
  shows "after P Q"
proof -
  obtain eng x l vb where s: "engines P e = Some eng" "msgs eng m = Some x"
    "pbuf_deserialize (data_buf (m_buf x)) = Some (l, vb)"
    using assms(2) by (auto simp: iar_vote_handler_def bind_eq_Some_conv)
  show ?thesis
  proof (cases "pb_pid vb = ps_pid (my_own_proposal eng)")
    case True
    have "Q = set_eng P e eng' \<and> arrivals eng' = arrivals eng
        \<or> iar_decision_bcast f e k v (set_eng P e eng') = Some Q \<and> arrivals eng' = arrivals eng \<Longrightarrow> after P Q"
      for eng' k v
      using after_set_eng [OF s(1)] iar_decision_bcast_after [OF assms(1)] after_trans by blast
    moreover have "\<exists>eng' k v. Q = set_eng P e eng' \<and> arrivals eng' = arrivals eng
        \<or> iar_decision_bcast f e k v (set_eng P e eng') = Some Q \<and> arrivals eng' = arrivals eng"
      using assms(2) s True
      by (fastforce simp: iar_vote_handler_def Let_def
          split: if_split_asm Option.bind_split_asm prod.split_asm)
    ultimately show ?thesis by blast
  next
    case False
    then show ?thesis
      using assms(2) s
      by (auto simp: iar_vote_handler_def Let_def bind_eq_Some_conv dest!: vote_for_pending_arr
          intro: after_set_eng)
  qed
qed

lemma handle_received_after:
  assumes "shrinks f" and "handle_received f e m P = Some Q"
  shows "after P Q"
proof -
  obtain eng x q m2 eng2 where s: "engines P e = Some eng" "msgs eng m = Some x"
    "lq_remove (queue_recv eng) m = Some q" "RLO_msg_new_generic (eng\<lparr>queue_recv := q\<rparr>) = (m2, eng2)"
    using assms(2) by (auto simp: handle_received_def Let_def split: Option.bind_split_asm prod.split_asm)
  define eng3 where "eng3 = eng2\<lparr>queue_recv := queue_recv eng2 @ [m2]\<rparr>"
  have a: "arrivals eng3 = arrivals eng" using RLO_msg_new_generic_arr [OF s(4)] by (simp add: eng3_def)
  have "handle_received f e m P =
     (if stat_tag x = RLO_BCAST then do {
        (n, eng) \<leftarrow> bc_forward (eng3\<lparr>recved_bcast_cnt := recved_bcast_cnt eng3 + 1\<rparr>) m;
        Some (set_eng P e eng) }
      else if stat_tag x = RLO_IAR_PROPOSAL then do {
        (r, eng) \<leftarrow> iar_proposal_handler eng3 m;
        Some (set_eng P e eng) }
      else if stat_tag x = RLO_IAR_VOTE then iar_vote_handler f e m (set_eng P e eng3)
      else if stat_tag x = RLO_IAR_DECISION then do {
        (r, eng) \<leftarrow> iar_decision_handler (eng3\<lparr>recved_bcast_cnt := recved_bcast_cnt eng3 + 1\<rparr>) m;
        (n, eng) \<leftarrow> bc_forward eng m;
        Some (set_eng P e eng) }
      else Some (set_eng P e eng3))"
    using s by (simp add: handle_received_def Let_def eng3_def)
  with assms(2) show ?thesis
    using iar_vote_handler_after [OF assms(1), of e m "set_eng P e eng3" Q] after_set_eng [OF s(1) a]
    by (auto simp: bind_eq_Some_conv a
        dest!: bc_forward_arr iar_proposal_handler_arr iar_decision_handler_arr
        intro: after_set_eng [OF s(1)] after_trans split: if_splits)
qed

lemma test_ircecv_cases:
  assumes "test_ircecv_completed eng m = Some (c, eng')"
  shows "eng_incoming eng' \<le> eng_incoming eng" and "c \<Longrightarrow> eng_incoming eng' < eng_incoming eng"
  using assms
  by (auto simp: test_ircecv_completed_def eng_incoming_def require_def
      dest!: upd_msg_arr split: list.split_asm option.split_asm Option.bind_split_asm if_split_asm)

lemma after_set_incoming:
  "engines P e = Some eng \<Longrightarrow> eng_incoming eng' \<le> eng_incoming eng \<Longrightarrow> after P (set_eng P e eng')"
  by (simp add: after_def set_eng_def eng_cnt_def)

lemma sum_list_less:
  fixes f g :: "'b \<Rightarrow> nat"
  assumes "\<And>x. f x \<le> g x" and "a \<in> set xs" and "f a < g a"
  shows "sum_list (map f xs) < sum_list (map g xs)"
  using assms(2)
proof (induction xs)
  case (Cons x xs)
  have "sum_list (map f xs) \<le> sum_list (map g xs)" by (rule sum_list_mono) (rule assms(1))
  then show ?case using Cons assms(1) [of x] assms(3) by (cases "x = a") auto
qed simp

lemma incoming_less:
  assumes "engines P e = Some eng" and "eng_incoming eng' < eng_incoming eng"
    and "active_engines P = Some es" and "e \<in> set es"
  shows "incoming_cnt (set_eng P e eng') < incoming_cnt P"
proof -
  have "sum_list (map (eng_cnt (set_eng P e eng')) es) < sum_list (map (eng_cnt P) es)"
    by (rule sum_list_less [OF _ assms(4)]) (use assms(1,2) in \<open>auto simp: set_eng_def eng_cnt_def\<close>)
  then show ?thesis using assms(3) by (simp add: incoming_cnt_eq set_eng_def)
qed

text \<open>Induction over the turns of the receive loop, with the arguments apart.\<close>

lemma recv_loop_induct:
  assumes "recv_loop f e cur P = Some Q"
    and "\<And>P. B None P P"
    and "\<And>m P Q eng c eng1 P1. engines P e = Some eng \<Longrightarrow> test_ircecv_completed eng m = Some (c, eng1) \<Longrightarrow>
      (if c then handle_received f e m (set_eng P e eng1) else Some (set_eng P e eng1)) = Some P1 \<Longrightarrow>
      B (next_in (queue_recv eng) m) P1 Q \<Longrightarrow> B (Some m) P Q"
  shows "B cur P Q"
proof -
  define F where "F x Q \<longleftrightarrow> (case x of (((g, d), cur), P) \<Rightarrow> g = f \<and> d = e \<longrightarrow> B cur P Q)" for x Q
  have "F (((f, e), cur), P) Q"
  proof (rule recv_loop.raw_induct [OF _ assms(1)], goal_cases)
    case (1 loop g d cur P Q)
    show ?case
      unfolding F_def prod.case
    proof (intro impI)
      assume gd: "g = f \<and> d = e"
      show "B cur P Q"
      proof (cases cur)
        case None
        then show ?thesis using 1(2) assms(2) by simp
      next
        case (Some m)
        obtain eng c eng1 P1 where s: "engines P e = Some eng" "test_ircecv_completed eng m = Some (c, eng1)"
          "(if c then handle_received f e m (set_eng P e eng1) else Some (set_eng P e eng1)) = Some P1"
          "loop f e (next_in (queue_recv eng) m) P1 = Some Q"
          using 1(2) Some gd by (auto simp: Let_def split: Option.bind_split_asm prod.split_asm)
        have "B (next_in (queue_recv eng) m) P1 Q" using 1(1) [OF s(4)] by (simp add: F_def)
        then show ?thesis using assms(3) [OF s(1-3)] Some by simp
      qed
    qed
  qed
  then show ?thesis by (simp add: F_def)
qed

lemma recv_loop_after:
  assumes "recv_loop f e cur P = Some Q" and "shrinks f"
  shows "after P Q"
proof (rule recv_loop_induct [where B = "\<lambda>cur P Q. after P Q", OF assms(1)], goal_cases)
  case (2 m P Q eng c eng1 P1)
  have "after P (set_eng P e eng1)" by (rule after_set_incoming [OF 2(1) test_ircecv_cases(1) [OF 2(2)]])
  moreover have "after (set_eng P e eng1) P1"
    using 2(3) handle_received_after [OF assms(2)] by (auto split: if_split_asm)
  ultimately show ?case using 2(4) after_trans by blast
qed simp

lemma RLO_make_progress_gen_after:
  assumes "shrinks f" and "RLO_make_progress_gen f e P = Some Q"
  shows "after P Q"
proof -
  obtain eng eng1 P1 eng2 eng3 eng4 where s: "engines P e = Some eng" "own_proposal_update eng = Some eng1"
    "recv_loop f e (case queue_recv eng1 of [] \<Rightarrow> None | m # _ \<Rightarrow> Some m) (set_eng P e eng1) = Some P1"
    "engines P1 e = Some eng2" "wait_and_pickup_loop (queue_wait_and_pickup eng2) eng2 = Some eng3"
    "wait_only_queue_cleanup eng3 = Some eng4" "Q = set_eng P1 e eng4"
    using assms(2) by (auto simp: RLO_make_progress_gen_def bind_eq_Some_conv)
  have "arrivals eng4 = arrivals eng2"
    using s(5,6) wait_and_pickup_loop_arr wait_only_loop_arr by (metis wait_only_queue_cleanup_def)
  then have "after P1 Q" using after_set_eng [OF s(4)] s(7) by simp
  moreover have "after (set_eng P e eng1) P1" by (rule recv_loop_after [OF s(3) assms(1)])
  moreover have "after P (set_eng P e eng1)" by (rule after_set_eng [OF s(1) own_proposal_update_arr [OF s(2)]])
  ultimately show ?thesis using after_trans by blast
qed

lemma each_engine_after:
  assumes "\<And>e P Q. f e P = Some Q \<Longrightarrow> after P Q" and "each_engine f es P = Some Q"
  shows "after P Q"
  using assms(2)
proof (induction es arbitrary: P)
  case (Cons e es)
  then obtain P1 where "f e P = Some P1" "each_engine f es P1 = Some Q" by (auto simp: bind_eq_Some_conv)
  with Cons.IH assms(1) after_trans show ?case by blast
qed simp

lemma RLO_make_progress_shrinks: "shrinks (RLO_make_progress n :: 'a process \<Rightarrow> 'a process option)"
proof (induction n)
  case (Suc n)
  have g: "after P Q" if "RLO_make_progress_gen (RLO_make_progress n) e P = Some Q" for e and P Q :: "'a process"
    by (rule RLO_make_progress_gen_after [OF Suc that])
  have "after P Q" if r: "RLO_make_progress (Suc n) P = Some Q" for P Q :: "'a process"
  proof -
    obtain es where "each_engine (RLO_make_progress_gen (RLO_make_progress n)) es P = Some Q"
      using r by (auto simp: bind_eq_Some_conv)
    with g show ?thesis by (rule each_engine_after)
  qed
  then show ?case by (simp add: shrinks_def)
qed (simp add: shrinks_def)

section \<open>Enough fuel\<close>

definition agree :: "nat \<Rightarrow> ('a process \<Rightarrow> 'a process option) \<Rightarrow> ('a process \<Rightarrow> 'a process option) \<Rightarrow> bool" where
  "agree k f g \<longleftrightarrow> (\<forall>P. incoming_cnt P < k \<longrightarrow> f P = g P)"

lemma iar_decision_bcast_agree:
  assumes "agree k f g" and "incoming_cnt P < k"
  shows "iar_decision_bcast f e i v P = iar_decision_bcast g e i v P"
proof -
  have "f (set_eng P e eng2) = g (set_eng P e eng2)"
    if "engines P e = Some eng" "RLO_msg_new_bc eng b n = Some (d, eng1)" "bcast_post eng1 d t = Some eng2"
    for eng b n d eng1 t eng2
  proof -
    have "arrivals eng2 = arrivals eng" using that(2,3) RLO_msg_new_bc_arr bcast_post_arr by metis
    then have "incoming_cnt (set_eng P e eng2) \<le> incoming_cnt P"
      using after_cnt after_set_eng [OF that(1)] by blast
    then show ?thesis using assms by (simp add: agree_def)
  qed
  then show ?thesis
    by (auto simp: iar_decision_bcast_def RLO_bcast_gen_def set_eng_twice engines_set_eng
        split: Option.bind_split sum.split prod.split)
qed

lemma iar_vote_handler_agree:
  assumes "agree k f g" and "incoming_cnt P < k"
  shows "iar_vote_handler f e m P = iar_vote_handler g e m P"
proof -
  have "iar_decision_bcast f e i v (set_eng P e eng') = iar_decision_bcast g e i v (set_eng P e eng')"
    if "engines P e = Some eng" "arrivals eng' = arrivals eng" for eng eng' i v
    by (rule iar_decision_bcast_agree [OF assms(1)])
      (use after_cnt [OF after_set_eng [OF that]] assms(2) in simp)
  then show ?thesis
    by (auto simp: iar_vote_handler_def Let_def split: Option.bind_split prod.split)
qed

lemma handle_received_agree:
  assumes "agree k f g" and "incoming_cnt P < k"
  shows "handle_received f e m P = handle_received g e m P"
proof -
  have "iar_vote_handler f e m (set_eng P e eng') = iar_vote_handler g e m (set_eng P e eng')"
    if "engines P e = Some eng" "arrivals eng' = arrivals eng" for eng eng'
    by (rule iar_vote_handler_agree [OF assms(1)])
      (use after_cnt [OF after_set_eng [OF that]] assms(2) in simp)
  then show ?thesis
    by (auto simp: handle_received_def Let_def dest!: RLO_msg_new_generic_arr
        split: Option.bind_split prod.split)
qed

lemma recv_loop_agree:
  assumes "recv_loop f e cur P = Some Q" and "shrinks f" and "agree k f g"
    and "incoming_cnt P \<le> k" and "active_engines P = Some es" and "e \<in> set es"
  shows "recv_loop g e cur P = Some Q"
proof -
  have "incoming_cnt P \<le> k \<and> active_engines P = Some es \<longrightarrow> recv_loop g e cur P = Some Q"
  proof (rule recv_loop_induct [where B = "\<lambda>cur P Q. incoming_cnt P \<le> k \<and> active_engines P = Some es \<longrightarrow>
      recv_loop g e cur P = Some Q", OF assms(1)], goal_cases)
  case (1 P)
  show ?case by (subst recv_loop.simps) simp
next
  case (2 m P Q eng c eng1 P1)
  show ?case
  proof (intro impI, elim conjE)
  assume pk: "incoming_cnt P \<le> k" "active_engines P = Some es"
  have a1: "after P (set_eng P e eng1)" by (rule after_set_incoming [OF 2(1) test_ircecv_cases(1) [OF 2(2)]])
  moreover have "after (set_eng P e eng1) P1"
    using 2(3) handle_received_after [OF assms(2)] by (auto split: if_split_asm)
  ultimately have a: "after P P1" by (rule after_trans)
  have p1: "incoming_cnt P1 \<le> k" "active_engines P1 = Some es"
    using after_cnt [OF a] a pk by (auto simp: after_def)
  have "(if c then handle_received g e m (set_eng P e eng1) else Some (set_eng P e eng1)) = Some P1"
  proof (cases c)
    case True
    have "incoming_cnt (set_eng P e eng1) < k"
      using incoming_less [OF 2(1) test_ircecv_cases(2) [OF 2(2) True] pk(2) assms(6)] pk(1) by simp
    then show ?thesis using 2(3) True handle_received_agree [OF assms(3)] by simp
  qed (use 2(3) in simp)
  then show "recv_loop g e (Some m) P = Some Q"
    using 2(1,2) 2(4) p1 by (subst recv_loop.simps) simp
  qed
  qed
  then show ?thesis using assms(4,5) by blast
qed

lemma option_eqI: "(\<And>Q. a = Some Q \<Longrightarrow> b = Some Q) \<Longrightarrow> (\<And>Q. b = Some Q \<Longrightarrow> a = Some Q) \<Longrightarrow> a = b"
  by (cases a; cases b) auto

lemma agree_sym: "agree k f g \<Longrightarrow> agree k g f"
  by (simp add: agree_def)

lemma RLO_make_progress_gen_agree:
  assumes "shrinks f" and "shrinks g" and "agree k f g"
    and "incoming_cnt P \<le> k" and "active_engines P = Some es" and "e \<in> set es"
  shows "RLO_make_progress_gen f e P = RLO_make_progress_gen g e P"
proof -
  have "recv_loop f e cur (set_eng P e eng1) = recv_loop g e cur (set_eng P e eng1)"
    if "engines P e = Some eng" "own_proposal_update eng = Some eng1" for eng eng1 cur
  proof -
    have a: "after P (set_eng P e eng1)" by (rule after_set_eng [OF that(1) own_proposal_update_arr [OF that(2)]])
    have c: "incoming_cnt (set_eng P e eng1) \<le> k" "active_engines (set_eng P e eng1) = Some es"
      using after_cnt [OF a] a assms(4,5) by (auto simp: after_def)
    show ?thesis
      by (rule option_eqI; erule recv_loop_agree)
        (use assms(1-3) agree_sym [OF assms(3)] c assms(6) in blast)+
  qed
  then show ?thesis
    by (auto simp: RLO_make_progress_gen_def split: Option.bind_split)
qed

lemma each_engine_agree:
  assumes "shrinks f" and "shrinks g" and "agree k f g"
    and "incoming_cnt P \<le> k" and "active_engines P = Some es" and "set ds \<subseteq> set es"
  shows "each_engine (RLO_make_progress_gen f) ds P = each_engine (RLO_make_progress_gen g) ds P"
  using assms(4-6)
proof (induction ds arbitrary: P)
  case (Cons d ds)
  have eq: "RLO_make_progress_gen f d P = RLO_make_progress_gen g d P"
    using RLO_make_progress_gen_agree [OF assms(1-3) Cons.prems(1,2)] Cons.prems(3) by simp
  show ?case
  proof (cases "RLO_make_progress_gen g d P")
    case (Some Q)
    have a: "after P Q" by (rule RLO_make_progress_gen_after [OF assms(2) Some])
    then have "incoming_cnt Q \<le> k" "active_engines Q = Some es"
      using after_cnt [OF a] Cons.prems(1,2) by (auto simp: after_def)
    then show ?thesis using Cons.IH Cons.prems(3) eq Some by simp
  qed (simp add: eq)
qed simp

lemma fuel_irrelevant:
  fixes P :: "'a process"
  assumes "incoming_cnt P < n" and "incoming_cnt P < k"
  shows "RLO_make_progress n P = RLO_make_progress k P"
  using assms
proof (induction n arbitrary: k P)
  case (Suc n)
  then obtain j where j: "k = Suc j" by (cases k) auto
  define l where "l = min n j"
  have "RLO_make_progress n R = RLO_make_progress j R" if "incoming_cnt R < l" for R :: "'a process"
    by (rule Suc.IH) (use that in \<open>auto simp: l_def\<close>)
  then have "agree l (RLO_make_progress n :: 'a process \<Rightarrow> _) (RLO_make_progress j)"
    by (auto simp: agree_def)
  then have "each_engine (RLO_make_progress_gen (RLO_make_progress n)) es P
      = each_engine (RLO_make_progress_gen (RLO_make_progress j)) es P" if "active_engines P = Some es" for es
    using each_engine_agree [OF RLO_make_progress_shrinks RLO_make_progress_shrinks _ _ that] Suc.prems j
    by (simp add: l_def)
  then show ?case using j by (cases "active_engines P") auto
qed simp

end
