(* ===== verification/Ledger.thy ===== *)
theory Ledger
  imports Util_Queue Proposal "HOL-Library.Product_Lexorder"
begin

text \<open>
  \<^verbatim>\<open>LedgerManager.c\<close>: the ledger queue of approved proposals and the search for its oldest record.
  The queue nodes carry encoded proposals. The search is the same code in
  \<^verbatim>\<open>EM_get_oldest_record\<close> and is stated here for both. \<open>record_key\<close> is the order it follows: the
  unsigned time first, then the signed proposal id.
\<close>

type_synonym pstore = "byte list qstore"

record ledger_mgr =
  ledger_q :: gen_queue

text \<open>Storage from \<^verbatim>\<open>calloc\<close>: null pointers, zero count, state 0.\<close>

definition zero_queue :: gen_queue where
  "zero_queue = \<lparr>dq_head = None, dq_tail = None, node_cnt = 0, q_state = 0\<rparr>"

definition LM_ledger_manager_init :: ledger_mgr where
  "LM_ledger_manager_init = \<lparr>ledger_q = gen_queue_init zero_queue\<rparr>"

definition LM_add_ledger :: "pstore \<Rightarrow> ledger_mgr \<Rightarrow> nat \<Rightarrow> (pstore \<times> ledger_mgr) option" where
  "LM_add_ledger s lm new_node = do {
     (s, q) \<leftarrow> gen_queue_append s (ledger_q lm) new_node;
     Some (s, lm\<lparr>ledger_q := q\<rparr>) }"

definition LM_remove_ledger :: "pstore \<Rightarrow> ledger_mgr \<Rightarrow> nat \<Rightarrow> (pstore \<times> ledger_mgr) option" where
  "LM_remove_ledger s lm to_remove = do {
     (r, s, q) \<leftarrow> gen_queue_remove s (ledger_q lm) to_remove False;
     Some (s, lm\<lparr>ledger_q := q\<rparr>) }"

definition LM_iterate ::
  "('w \<Rightarrow> dheap) \<Rightarrow> ('w \<Rightarrow> ledger_mgr) \<Rightarrow> (nat \<Rightarrow> 'w \<Rightarrow> 'w option) \<Rightarrow> 'w \<Rightarrow> 'w option" where
  "LM_iterate links_of lm_of cb w = gen_queue_iterate links_of (\<lambda>w. ledger_q (lm_of w)) cb w"

definition LM_ledger_cnt :: "ledger_mgr \<Rightarrow> int" where
  "LM_ledger_cnt lm = node_cnt (ledger_q lm)"

section \<open>The oldest record\<close>

text \<open>\<^verbatim>\<open>proposal_decoder(node->data)\<close>; a null or dangling pointer is \<^const>\<open>None\<close>.\<close>

definition node_data :: "pstore \<Rightarrow> nat \<Rightarrow> byte list option" where
  "node_data s a = do { d \<leftarrow> qs_data s a; d }"

definition node_proposal :: "pstore \<Rightarrow> nat \<Rightarrow> unit proposal option" where
  "node_proposal s a = do { buf \<leftarrow> node_data s a; proposal_decoder buf }"

partial_function (option) oldest_loop :: "pstore \<Rightarrow> nat option \<Rightarrow> nat option \<Rightarrow> nat option option" where
  "oldest_loop s cur old =
     (case cur of
        None \<Rightarrow> Some old
      | Some c \<Rightarrow> do {
          n \<leftarrow> qs_links s c;
          (case d_next n of
             None \<Rightarrow> Some old
           | Some c2 \<Rightarrow> do {
               d \<leftarrow> node_data s c;
               d2 \<leftarrow> node_data s c2;
               ol \<leftarrow> old;
               old_prop \<leftarrow> node_proposal s ol;
               r_next \<leftarrow> node_proposal s c2;
               oldest_loop s (Some c2)
                 (if time old_prop > time r_next then Some c2
                  else if time old_prop = time r_next \<and> sint (pid old_prop) > sint (pid r_next)
                  then Some c2
                  else old) }) })"

declare oldest_loop.simps [code]

text \<open>The returned node with the time written through the output pointer, or the null node.\<close>

definition oldest_record :: "pstore \<Rightarrow> gen_queue \<Rightarrow> (nat \<times> c_ulong) option option" where
  "oldest_record s q =
     (if node_cnt q = 0 \<or> q_state q \<noteq> Q_ACTIVE then Some None
      else do {
        old \<leftarrow> oldest_loop s (dq_head q) (dq_head q);
        ol \<leftarrow> old;
        old_prop \<leftarrow> node_proposal s ol;
        Some (Some (ol, time old_prop)) })"

definition LM_get_oldest_record :: "pstore \<Rightarrow> ledger_mgr \<Rightarrow> (nat \<times> c_ulong) option option" where
  "LM_get_oldest_record s lm = oldest_record s (ledger_q lm)"

definition record_key :: "pstore \<Rightarrow> nat \<Rightarrow> nat \<times> int" where
  "record_key s a = (let p = the (node_proposal s a) in (unat (time p), sint (pid p)))"

definition decodable :: "pstore \<Rightarrow> nat list \<Rightarrow> bool" where
  "decodable s xs \<longleftrightarrow> (\<forall>a\<in>set xs. node_proposal s a \<noteq> None)"

lemma decodable_simps [simp]:
  "decodable s []" "decodable s (x # xs) \<longleftrightarrow> node_proposal s x \<noteq> None \<and> decodable s xs"
  "decodable s (xs @ ys) \<longleftrightarrow> decodable s xs \<and> decodable s ys"
  by (auto simp: decodable_def)

lemma node_proposal_data: "node_proposal s a = Some p \<Longrightarrow> \<exists>d. node_data s a = Some d"
  by (auto simp: node_proposal_def split: Option.bind_splits)

lemma record_key_less:
  assumes "node_proposal s a = Some p" and "node_proposal s b = Some r"
  shows "record_key s b < record_key s a \<longleftrightarrow>
    time p > time r \<or> time p = time r \<and> sint (pid p) > sint (pid r)"
  using assms by (auto simp: record_key_def word_less_nat_alt word_unat_eq_iff)

text \<open>
  The loop, started anywhere in the list with the first minimum of what it has seen, ends with the
  first minimum of the list.
\<close>

definition first_min :: "('a \<Rightarrow> 'k::linorder) \<Rightarrow> 'a list \<Rightarrow> 'a \<Rightarrow> bool" where
  "first_min f xs m \<longleftrightarrow>
     (\<exists>us vs. xs = us @ m # vs \<and> (\<forall>x\<in>set us. f m < f x) \<and> (\<forall>x\<in>set vs. f m \<le> f x))"

lemma first_min_snoc:
  assumes "first_min f xs m"
  shows "first_min f (xs @ [y]) (if f y < f m then y else m)"
proof -
  obtain us vs where xs: "xs = us @ m # vs" "\<forall>x\<in>set us. f m < f x" "\<forall>x\<in>set vs. f m \<le> f x"
    using assms by (auto simp: first_min_def)
  show ?thesis
  proof (cases "f y < f m")
    case True
    then have "\<forall>x\<in>set xs. f y < f x" using xs by fastforce
    then show ?thesis using True
      unfolding first_min_def by (intro exI [of _ xs] exI [of _ "[]"]) auto
  next
    case False
    then show ?thesis using xs
      unfolding first_min_def by (intro exI [of _ us] exI [of _ "vs @ [y]"]) auto
  qed
qed

lemma first_min_mem: "first_min f xs m \<Longrightarrow> m \<in> set xs"
  by (auto simp: first_min_def)

lemma oldest_loop_min:
  assumes "dlist (qs_links s) q (as @ c # bs)" and "decodable s (as @ c # bs)"
    and "first_min (record_key s) (as @ [c]) m"
  shows "\<exists>m'. oldest_loop s (Some c) (Some m) = Some (Some m') \<and> first_min (record_key s) (as @ c # bs) m'"
  using assms
proof (induction bs arbitrary: as c m)
  case Nil
  then show ?case by (subst oldest_loop.simps) (simp add: dlist_node [OF Nil(1)])
next
  case (Cons b bs)
  from first_min_mem [OF Cons.prems(3)] have "m \<in> set (as @ [c])" .
  then obtain p where p: "node_proposal s m = Some p"
    using Cons.prems(2) by (auto simp: decodable_def)
  obtain r where r: "node_proposal s b = Some r" using Cons.prems(2) by auto
  obtain d d2 where d: "node_data s c = Some d" "node_data s b = Some d2"
    using Cons.prems(2) by (auto dest!: node_proposal_data)
  define k where "k = (if record_key s b < record_key s m then b else m)"
  have "first_min (record_key s) ((as @ [c]) @ [b]) k"
    unfolding k_def by (rule first_min_snoc [OF Cons.prems(3)])
  then have "\<exists>m'. oldest_loop s (Some b) (Some k) = Some (Some m')
      \<and> first_min (record_key s) ((as @ [c]) @ b # bs) m'"
    by (intro Cons.IH) (use Cons.prems(1,2) in simp_all)
  moreover have "oldest_loop s (Some c) (Some m) = oldest_loop s (Some b) (Some k)"
    by (subst oldest_loop.simps)
      (auto simp: dlist_node [OF Cons.prems(1)] d p r k_def record_key_less [OF p r])
  ultimately show ?case by simp
qed

lemma oldest_record_min:
  assumes "gq_rep s q xs" and "decodable s xs" and "xs \<noteq> []" and "q_state q = Q_ACTIVE"
  obtains m p where "oldest_record s q = Some (Some (m, time p))" and "first_min (record_key s) xs m"
    and "node_proposal s m = Some p"
proof -
  obtain x xs' where xs: "xs = x # xs'" using assms(3) by (cases xs) auto
  note d = gq_rep_D [OF assms(1)]
  have "first_min (record_key s) ([] @ [x]) x"
    unfolding first_min_def by (intro exI [of _ "[]"]) simp
  with oldest_loop_min [of s q "[]" x xs' x] d(1) assms(2) xs obtain m where
    m: "oldest_loop s (Some x) (Some x) = Some (Some m)" "first_min (record_key s) xs m"
    by auto
  obtain p where p: "node_proposal s m = Some p"
    using first_min_mem [OF m(2)] assms(2) by (auto simp: decodable_def)
  have "oldest_record s q = Some (Some (m, time p))"
    using d xs m p assms(4) dlist_head [OF d(1)] by (simp add: oldest_record_def)
  then show thesis using m(2) p by (rule that)
qed

lemma oldest_record_none:
  "gq_rep s q [] \<Longrightarrow> oldest_record s q = Some None"
  by (simp add: oldest_record_def gq_rep_def)

text \<open>Taking first minima one after the other is a stable sort.\<close>

lemma sort_key_first_min:
  assumes "first_min f (as @ m # bs) m" and "distinct (as @ m # bs)"
  shows "sort_key f (as @ m # bs) = m # sort_key f (as @ bs)"
proof (rule properties_for_sort_key)
  obtain us vs where x: "as @ m # bs = us @ m # vs" "\<forall>x\<in>set us. f m < f x" "\<forall>x\<in>set vs. f m \<le> f x"
    using assms(1) by (auto simp: first_min_def)
  have ab: "as = us" "bs = vs"
    using x(1) assms(2) by (auto simp: append_eq_append_conv2 append_eq_Cons_conv Cons_eq_append_conv)
  show "mset (m # sort_key f (as @ bs)) = mset (as @ m # bs)" by simp
  show "sorted (map f (m # sort_key f (as @ bs)))"
    using x ab by (auto intro: less_imp_le)
  show "filter (\<lambda>y. f k = f y) (m # sort_key f (as @ bs)) = filter (\<lambda>y. f k = f y) (as @ m # bs)"
    if "k \<in> set (m # sort_key f (as @ bs))" for k
  proof -
    have "filter (\<lambda>y. f m = f y) as = []" using x(2) ab by (auto simp: filter_empty_conv)
    moreover have "filter (\<lambda>y. f k = f y) (sort_key f (as @ bs)) = filter (\<lambda>y. f k = f y) (as @ bs)"
      using sort_key_stable [of f "f k" "as @ bs"] by (simp add: eq_commute)
    ultimately show ?thesis by auto
  qed
qed

end
