(* ===== verification/Execution.thy ===== *)
theory Execution
  imports Ledger
begin

text \<open>
  \<^verbatim>\<open>ExecutionManager.c\<close>: the execution queue, and the loop that executes it oldest first. The
  callback into the VOL connector is an argument; it works on a state \<open>'w\<close> of its own (the files and
  objects of the application), and \<^const>\<open>None\<close> is a callback that does not return.
\<close>

record ('c, 'w) execution_mgr =
  execution_q :: gen_queue
  em_app_ctx :: 'c
  execute_cb :: "'c \<Rightarrow> byte list \<Rightarrow> 'w \<Rightarrow> (int \<times> 'w) option"

definition EM_execution_manager_init ::
  "('c \<Rightarrow> byte list \<Rightarrow> 'w \<Rightarrow> (int \<times> 'w) option) \<Rightarrow> 'c \<Rightarrow> ('c, 'w) execution_mgr" where
  "EM_execution_manager_init cb_execute ctx =
     \<lparr>execution_q = gen_queue_init zero_queue, em_app_ctx = ctx, execute_cb = cb_execute\<rparr>"

definition EM_add_proposal ::
  "pstore \<Rightarrow> ('c, 'w) execution_mgr \<Rightarrow> nat \<Rightarrow> (pstore \<times> ('c, 'w) execution_mgr) option" where
  "EM_add_proposal s em pp = do {
     (s, q) \<leftarrow> gen_queue_append s (execution_q em) pp;
     Some (s, em\<lparr>execution_q := q\<rparr>) }"

definition EM_execute :: "('c, 'w) execution_mgr \<Rightarrow> byte list \<Rightarrow> 'w \<Rightarrow> (int \<times> 'w) option" where
  "EM_execute em pbuf_in w = execute_cb em (em_app_ctx em) pbuf_in w"

definition EM_get_oldest_record ::
  "pstore \<Rightarrow> ('c, 'w) execution_mgr \<Rightarrow> (nat \<times> c_ulong) option option" where
  "EM_get_oldest_record s em = oldest_record s (execution_q em)"

partial_function (option) EM_execute_loop ::
  "pstore \<Rightarrow> ('c, 'w) execution_mgr \<Rightarrow> 'w \<Rightarrow> (pstore \<times> ('c, 'w) execution_mgr \<times> 'w) option" where
  "EM_execute_loop s em w =
     (if dq_head (execution_q em) = None then Some (s, em, w)
      else do {
        rec \<leftarrow> EM_get_oldest_record s em;
        (old, t) \<leftarrow> rec;
        prop_buf \<leftarrow> node_data s old;
        (r, w) \<leftarrow> EM_execute em prop_buf w;
        (r, s, q) \<leftarrow> gen_queue_remove s (execution_q em) old True;
        EM_execute_loop s (em\<lparr>execution_q := q\<rparr>) w })"

declare EM_execute_loop.simps [code]

definition EM_execute_all ::
  "pstore \<Rightarrow> ('c, 'w) execution_mgr \<Rightarrow> 'w \<Rightarrow> (pstore \<times> ('c, 'w) execution_mgr \<times> 'w) option" where
  "EM_execute_all s em w = EM_execute_loop s em w"

definition EM_execute_cnt :: "('c, 'w) execution_mgr \<Rightarrow> int" where
  "EM_execute_cnt em = node_cnt (execution_q em)"

text \<open>The specification: the buffers are executed one after the other.\<close>

fun execute_in_order :: "('c, 'w) execution_mgr \<Rightarrow> byte list list \<Rightarrow> 'w \<Rightarrow> 'w option" where
  "execute_in_order em [] w = Some w"
| "execute_in_order em (b # bs) w = do { (r, w) \<leftarrow> EM_execute em b w; execute_in_order em bs w }"

lemma execute_in_order_cong:
  "execute_cb em' = execute_cb em \<Longrightarrow> em_app_ctx em' = em_app_ctx em \<Longrightarrow>
    execute_in_order em' bs w = execute_in_order em bs w"
  by (induction bs arbitrary: w) (auto simp: EM_execute_def split: Option.bind_split)

definition node_bufs :: "pstore \<Rightarrow> nat list \<Rightarrow> byte list list" where
  "node_bufs s xs = map (\<lambda>a. the (node_data s a)) xs"

text \<open>Data pointers of other nodes do not change, so neither do their records.\<close>

lemma node_data_cong: "qs_data s' a = qs_data s a \<Longrightarrow> node_data s' a = node_data s a"
  by (simp add: node_data_def)

lemma node_proposal_cong: "qs_data s' a = qs_data s a \<Longrightarrow> node_proposal s' a = node_proposal s a"
  by (simp add: node_proposal_def node_data_def)

lemma record_key_cong: "qs_data s' a = qs_data s a \<Longrightarrow> record_key s' a = record_key s a"
  unfolding record_key_def by (simp only: node_proposal_cong [of s' a s])

lemma sort_key_cong_on:
  assumes "\<And>x. x \<in> set xs \<Longrightarrow> f x = g x"
  shows "sort_key f xs = sort_key g xs"
proof (rule properties_for_sort_key)
  have "map f (sort_key g xs) = map g (sort_key g xs)" using assms by simp
  then show "sorted (map f (sort_key g xs))" by (simp only: sorted_sort_key)
  show "filter (\<lambda>y. f k = f y) (sort_key g xs) = filter (\<lambda>y. f k = f y) xs"
    if "k \<in> set (sort_key g xs)" for k
  proof -
    have "filter (\<lambda>y. f k = f y) ys = filter (\<lambda>y. g y = g k) ys" if "set ys \<subseteq> set xs" for ys
      using that assms \<open>k \<in> set (sort_key g xs)\<close> by (intro filter_cong) auto
    then show ?thesis using sort_key_stable [of g "g k" xs] by simp
  qed
qed simp

lemma store_cong:
  assumes "\<And>x. x \<in> set xs \<Longrightarrow> qs_data s' x = qs_data s x"
  shows "decodable s' xs = decodable s xs"
    and "sort_key (record_key s') xs = sort_key (record_key s) xs"
    and "node_bufs s' (sort_key (record_key s) xs) = node_bufs s (sort_key (record_key s) xs)"
proof -
  show "decodable s' xs = decodable s xs"
    unfolding decodable_def by (rule ball_cong [OF refl]) (simp add: node_proposal_cong [OF assms])
  show "sort_key (record_key s') xs = sort_key (record_key s) xs"
    by (rule sort_key_cong_on) (rule record_key_cong [OF assms])
  show "node_bufs s' (sort_key (record_key s) xs) = node_bufs s (sort_key (record_key s) xs)"
    unfolding node_bufs_def by (rule map_cong [OF refl]) (simp add: node_data_cong [OF assms])
qed

lemma EM_execute_loop_sorted:
  assumes "gq_rep s (execution_q em) xs" and "decodable s xs" and "q_state (execution_q em) = Q_ACTIVE"
    and "execute_in_order em (node_bufs s (sort_key (record_key s) xs)) w = Some w'"
  shows "\<exists>s' em'. EM_execute_loop s em w = Some (s', em', w')
    \<and> em' = em\<lparr>execution_q := execution_q em'\<rparr> \<and> gq_rep s' (execution_q em') []
    \<and> q_state (execution_q em') = Q_ACTIVE \<and> dom (qs_links s') = dom (qs_links s) - set xs
    \<and> (\<forall>a. a \<notin> set xs \<longrightarrow> qs_data s' a = qs_data s a) \<and> qs_fresh s' = qs_fresh s
    \<and> (\<forall>p ys. gq_rep s p ys \<and> set ys \<inter> set xs = {} \<longrightarrow> gq_rep s' p ys)"
  using assms
proof (induction "length xs" arbitrary: s em xs w)
  case 0
  then show ?case
    by (subst EM_execute_loop.simps) (auto simp: gq_rep_def dlist_empty node_bufs_def)
next
  case (Suc n)
  have ne: "xs \<noteq> []" using Suc.hyps(2) by auto
  obtain m p where m: "oldest_record s (execution_q em) = Some (Some (m, time p))"
    "first_min (record_key s) xs m" "node_proposal s m = Some p"
    using oldest_record_min [OF Suc.prems(1,2) ne Suc.prems(3)] by blast
  obtain as bs where xs: "xs = as @ m # bs" using first_min_mem [OF m(2)] by (meson split_list)
  have d: "distinct (as @ m # bs)" using Suc.prems(1) xs gq.distinct_law by blast
  have sk: "sort_key (record_key s) xs = m # sort_key (record_key s) (as @ bs)"
    using sort_key_first_min [OF m(2) [unfolded xs] d] xs by simp
  obtain buf where buf: "node_data s m = Some buf" using node_proposal_data m(3) by blast
  obtain r w1 where w1: "EM_execute em buf w = Some (r, w1)"
    and rest: "execute_in_order em (node_bufs s (sort_key (record_key s) (as @ bs))) w1 = Some w'"
    using Suc.prems(4) by (auto simp: sk node_bufs_def buf split: Option.bind_splits)
  obtain s1 q1 where s1: "gen_queue_remove s (execution_q em) m True = Some (1, s1, q1)"
    "gq_rep s1 q1 (as @ bs)" "dom (qs_links s1) = dom (qs_links s) - {m}"
    "\<And>x. x \<noteq> m \<Longrightarrow> qs_data s1 x = qs_data s x"
    "q_state q1 = q_state (execution_q em)" "qs_fresh s1 = qs_fresh s"
    "\<And>p ys. gq_rep s p ys \<Longrightarrow> set ys \<inter> set (as @ m # bs) = {} \<Longrightarrow> gq_rep s1 p ys"
    using gen_queue_remove_rep [OF Suc.prems(1) [unfolded xs], of True] by (metis (full_types))
  define em1 where "em1 = em\<lparr>execution_q := q1\<rparr>"
  have data: "qs_data s1 x = qs_data s x" if "x \<in> set (as @ bs)" for x
    by (rule s1(4)) (use that d in auto)
  have step: "EM_execute_loop s em w = EM_execute_loop s1 em1 w1"
    using ne Suc.prems(1) w1 s1(1) buf m(1)
    by (subst EM_execute_loop.simps)
      (auto simp: EM_get_oldest_record_def em1_def gq_rep_def dlist_def hd_or_def split: list.splits)
  have dec: "decodable s1 (as @ bs)"
    using store_cong(1) [of "as @ bs" s1 s, OF data] Suc.prems(2) xs by simp
  have "execute_in_order em1 (node_bufs s1 (sort_key (record_key s1) (as @ bs))) w1 = Some w'"
    using rest execute_in_order_cong [of em1 em]
      store_cong(2,3) [of "as @ bs" s1 s, OF data] by (simp add: em1_def)
  from Suc.hyps(1) [OF _ _ dec _ this] have "\<exists>s' em'. EM_execute_loop s1 em1 w1 = Some (s', em', w')
    \<and> em' = em1\<lparr>execution_q := execution_q em'\<rparr> \<and> gq_rep s' (execution_q em') []
    \<and> q_state (execution_q em') = Q_ACTIVE \<and> dom (qs_links s') = dom (qs_links s1) - set (as @ bs)
    \<and> (\<forall>a. a \<notin> set (as @ bs) \<longrightarrow> qs_data s' a = qs_data s1 a) \<and> qs_fresh s' = qs_fresh s1
    \<and> (\<forall>p ys. gq_rep s1 p ys \<and> set ys \<inter> set (as @ bs) = {} \<longrightarrow> gq_rep s' p ys)"
    using Suc.hyps(2) Suc.prems(3) s1(2,5) xs by (simp add: em1_def)
  then obtain s' em' where r: "EM_execute_loop s1 em1 w1 = Some (s', em', w')"
    "em' = em1\<lparr>execution_q := execution_q em'\<rparr>" "gq_rep s' (execution_q em') []"
    "q_state (execution_q em') = Q_ACTIVE" "dom (qs_links s') = dom (qs_links s1) - set (as @ bs)"
    "\<And>a. a \<notin> set (as @ bs) \<Longrightarrow> qs_data s' a = qs_data s1 a" "qs_fresh s' = qs_fresh s1"
    "\<And>p ys. gq_rep s1 p ys \<Longrightarrow> set ys \<inter> set (as @ bs) = {} \<Longrightarrow> gq_rep s' p ys"
    by blast
  have "em' = em\<lparr>execution_q := execution_q em'\<rparr>" using r(2) by (simp add: em1_def)
  moreover have "gq_rep s' p ys" if "gq_rep s p ys" "set ys \<inter> set xs = {}" for p ys
    by (rule r(8), rule s1(7)) (use that xs in auto)
  moreover have "dom (qs_links s') = dom (qs_links s) - set xs" using r(5) s1(3) xs by auto
  moreover have "\<forall>a. a \<notin> set xs \<longrightarrow> qs_data s' a = qs_data s a" using r(6) s1(4) xs by auto
  ultimately show ?case using r(1,3,4,7) s1(6) step by auto
qed

lemma EM_execute_all_empty:
  assumes "gq_rep s (execution_q em) []"
  shows "EM_execute_all s em w = Some (s, em, w)"
  unfolding EM_execute_all_def
  by (subst EM_execute_loop.simps) (use assms in \<open>auto simp: gq_rep_def dlist_empty\<close>)

end
