(* ===== verification/Metadata.thy ===== *)
theory Metadata
  imports Execution Voting
begin

text \<open>
  \<^verbatim>\<open>metadata_update_helper.c\<close>: the metadata manager, which takes approved proposals from the voting
  manager into the ledger, moves those that have aged out of the time window to the execution
  queue, and executes them oldest first.
\<close>

section \<open>State\<close>

text \<open>
  The manager is a null pointer in \<open>mm_lm\<close> and \<open>mm_em\<close> until they are initialised. The last
  fields are its surroundings: the store of queue nodes, the state of the voting mechanism and of
  the application, and the readings of the clock with their number so far.
\<close>

record ('o, 'j, 'i, 'v, 'c, 'w) metadata_manager =
  mm_mode :: int
  mm_world_size :: int
  time_window_size :: c_ulong
  mm_app_ctx :: 'c
  mm_vm :: "('o, 'j, 'i, 'v) voting_mgr"
  mm_lm :: "ledger_mgr option"
  mm_em :: "('c, 'w) execution_mgr option"
  mm_store :: pstore
  mm_vs :: 'v
  mm_app :: 'w
  mm_clock :: "nat \<Rightarrow> c_ulong"
  mm_ticks :: nat

definition MM_get_time_stamp_us ::
  "('o, 'j, 'i, 'v, 'c, 'w) metadata_manager \<Rightarrow> c_ulong \<times> ('o, 'j, 'i, 'v, 'c, 'w) metadata_manager" where
  "MM_get_time_stamp_us m = (mm_clock m (mm_ticks m), m\<lparr>mm_ticks := mm_ticks m + 1\<rparr>)"

text \<open>The calls into the managers, with the components of the state they work on.\<close>

definition mm_voting_make_progress ::
  "('o, 'j, 'i, 'v, 'c, 'w) metadata_manager \<Rightarrow> ('o, 'j, 'i, 'v, 'c, 'w) metadata_manager option" where
  "mm_voting_make_progress m = do {
     (r, v) \<leftarrow> VM_voting_make_progress (mm_vm m) (mm_vs m);
     Some (m\<lparr>mm_vs := v\<rparr>) }"

definition mm_add_ledger ::
  "('o, 'j, 'i, 'v, 'c, 'w) metadata_manager \<Rightarrow> nat \<Rightarrow> ('o, 'j, 'i, 'v, 'c, 'w) metadata_manager option" where
  "mm_add_ledger m node = do {
     l \<leftarrow> mm_lm m;
     (s, l) \<leftarrow> LM_add_ledger (mm_store m) l node;
     Some (m\<lparr>mm_store := s, mm_lm := Some l\<rparr>) }"

definition mm_ledger_to_execution ::
  "('o, 'j, 'i, 'v, 'c, 'w) metadata_manager \<Rightarrow> nat \<Rightarrow> ('o, 'j, 'i, 'v, 'c, 'w) metadata_manager option" where
  "mm_ledger_to_execution m node = do {
     l \<leftarrow> mm_lm m;
     (s, l) \<leftarrow> LM_remove_ledger (mm_store m) l node;
     e \<leftarrow> mm_em m;
     (s, e) \<leftarrow> EM_add_proposal s e node;
     Some (m\<lparr>mm_store := s, mm_lm := Some l, mm_em := Some e\<rparr>) }"

definition mm_execute_all ::
  "('o, 'j, 'i, 'v, 'c, 'w) metadata_manager \<Rightarrow> ('o, 'j, 'i, 'v, 'c, 'w) metadata_manager option" where
  "mm_execute_all m = do {
     e \<leftarrow> mm_em m;
     (s, e, w) \<leftarrow> EM_execute_all (mm_store m) e (mm_app m);
     Some (m\<lparr>mm_store := s, mm_em := Some e, mm_app := w\<rparr>) }"

definition mm_new_node ::
  "('o, 'j, 'i, 'v, 'c, 'w) metadata_manager \<Rightarrow> byte list \<Rightarrow> nat \<times> ('o, 'j, 'i, 'v, 'c, 'w) metadata_manager" where
  "mm_new_node m buf =
     (let (node, s) = gen_queue_node_new (mm_store m) (Some buf) in (node, m\<lparr>mm_store := s\<rparr>))"

section \<open>Operations\<close>

partial_function (option) checkout_proposal_make_progress ::
  "('o, 'j, 'i, 'v, 'c, 'w) metadata_manager \<Rightarrow> ('o, 'j, 'i, 'v, 'c, 'w) metadata_manager option" where
  "checkout_proposal_make_progress m = do {
     (ret, new_proposal_buf, v) \<leftarrow> VM_checkout_proposal (mm_vm m) (mm_vs m);
     (if ret = 0 then Some (m\<lparr>mm_vs := v\<rparr>)
      else do {
        buf \<leftarrow> new_proposal_buf;
        (let (node, m) = mm_new_node (m\<lparr>mm_vs := v\<rparr>) buf in do {
           m \<leftarrow> mm_add_ledger m node;
           checkout_proposal_make_progress m }) }) }"

definition MM_metadata_update_helper_init ::
  "int \<Rightarrow> int \<Rightarrow> c_ulong \<Rightarrow> 'j \<Rightarrow> 'c \<Rightarrow> ('o, 'j, 'i, 'v) VotingPlugin
   \<Rightarrow> ('c \<Rightarrow> byte list \<Rightarrow> 'w \<Rightarrow> (int \<times> 'w) option)
   \<Rightarrow> pstore \<Rightarrow> 'v \<Rightarrow> 'w \<Rightarrow> (nat \<Rightarrow> c_ulong) \<Rightarrow> nat
   \<Rightarrow> ('o, 'j, 'i, 'v, 'c, 'w) metadata_manager option" where
  "MM_metadata_update_helper_init md ws window judgement ctx vp cb_execute s v w clk n = do {
     (vmgr, v) \<leftarrow> VM_voting_manager_init vp judgement v;
     m \<leftarrow> Some \<lparr>mm_mode = md, mm_world_size = ws, time_window_size = window, mm_app_ctx = ctx,
       mm_vm = vmgr, mm_lm = None, mm_em = None, mm_store = s, mm_vs = v, mm_app = w,
       mm_clock = clk, mm_ticks = n\<rparr>;
     m \<leftarrow> checkout_proposal_make_progress m;
     m \<leftarrow> Some (m\<lparr>mm_lm := Some LM_ledger_manager_init\<rparr>);
     Some (m\<lparr>mm_em := Some (EM_execution_manager_init cb_execute ctx)\<rparr>) }"

text \<open>The ledger and the execution manager are only checked; what their queues hold stays there.\<close>

definition MM_metadata_update_helper_term ::
  "('o, 'j, 'i, 'v, 'c, 'w) metadata_manager \<Rightarrow> (int \<times> ('o, 'j, 'i, 'v, 'c, 'w) metadata_manager) option" where
  "MM_metadata_update_helper_term m = do {
     (r, v) \<leftarrow> VM_voting_manager_term (mm_vm m) (mm_vs m);
     require (mm_lm m \<noteq> None);
     Some (- 1, m\<lparr>mm_vs := v\<rparr>) }"

text \<open>The time of the node is read through a cast of its buffer; the difference wraps around.\<close>

definition MM_make_progress_cb ::
  "nat \<Rightarrow> ('o, 'j, 'i, 'v, 'c, 'w) metadata_manager \<Rightarrow> ('o, 'j, 'i, 'v, 'c, 'w) metadata_manager option" where
  "MM_make_progress_cb node m = do {
     buf \<leftarrow> node_data (mm_store m) node;
     prop_time \<leftarrow> cast_time buf;
     (let (now, m) = MM_get_time_stamp_us m in
      if now - prop_time > time_window_size m then mm_ledger_to_execution m node
      else Some m) }"

definition mm_ledger_cnt :: "('o, 'j, 'i, 'v, 'c, 'w) metadata_manager \<Rightarrow> int option" where
  "mm_ledger_cnt m = do { l \<leftarrow> mm_lm m; Some (LM_ledger_cnt l) }"

definition MM_make_progress ::
  "('o, 'j, 'i, 'v, 'c, 'w) metadata_manager \<Rightarrow> ('o, 'j, 'i, 'v, 'c, 'w) metadata_manager option" where
  "MM_make_progress m = do {
     m \<leftarrow> mm_voting_make_progress m;
     m \<leftarrow> checkout_proposal_make_progress m;
     q_cnt \<leftarrow> mm_ledger_cnt m;
     m \<leftarrow> (if q_cnt > 0
            then LM_iterate (\<lambda>m. qs_links (mm_store m)) (\<lambda>m. the (mm_lm m)) MM_make_progress_cb m
            else Some m);
     e \<leftarrow> mm_em m;
     (if EM_execute_cnt e > 0 then mm_execute_all m else Some m) }"

partial_function (option) MM_ledger_process_loop ::
  "int \<Rightarrow> ('o, 'j, 'i, 'v, 'c, 'w) metadata_manager \<Rightarrow> ('o, 'j, 'i, 'v, 'c, 'w) metadata_manager option" where
  "MM_ledger_process_loop ledger_cnt m =
     (if ledger_cnt > 0 then do {
        l \<leftarrow> mm_lm m;
        old \<leftarrow> LM_get_oldest_record (mm_store m) l;
        (let pp_time = (case old of None \<Rightarrow> 0 | Some (a, t) \<Rightarrow> t);
             (now, m) = MM_get_time_stamp_us m in do {
           m \<leftarrow> (if now - pp_time > time_window_size m
                  then do { (a, t) \<leftarrow> old; mm_ledger_to_execution m a }
                  else Some m);
           m \<leftarrow> mm_voting_make_progress m;
           m \<leftarrow> checkout_proposal_make_progress m;
           ledger_cnt \<leftarrow> mm_ledger_cnt m;
           MM_ledger_process_loop ledger_cnt m }) }
      else Some m)"

definition MM_ledger_process ::
  "('o, 'j, 'i, 'v, 'c, 'w) metadata_manager \<Rightarrow> ('o, 'j, 'i, 'v, 'c, 'w) metadata_manager option" where
  "MM_ledger_process m = do {
     m \<leftarrow> mm_voting_make_progress m;
     m \<leftarrow> checkout_proposal_make_progress m;
     ledger_cnt \<leftarrow> mm_ledger_cnt m;
     MM_ledger_process_loop ledger_cnt m }"

partial_function (option) MM_move_all_ledger_loop ::
  "int \<Rightarrow> ('o, 'j, 'i, 'v, 'c, 'w) metadata_manager \<Rightarrow> ('o, 'j, 'i, 'v, 'c, 'w) metadata_manager option" where
  "MM_move_all_ledger_loop ledger_cnt m =
     (if ledger_cnt > 0 then do {
        l \<leftarrow> mm_lm m;
        old \<leftarrow> LM_get_oldest_record (mm_store m) l;
        (a, t) \<leftarrow> old;
        m \<leftarrow> mm_ledger_to_execution m a;
        m \<leftarrow> mm_voting_make_progress m;
        ledger_cnt \<leftarrow> mm_ledger_cnt m;
        MM_move_all_ledger_loop ledger_cnt m }
      else Some m)"

definition MM_move_all_ledger ::
  "('o, 'j, 'i, 'v, 'c, 'w) metadata_manager \<Rightarrow> ('o, 'j, 'i, 'v, 'c, 'w) metadata_manager option" where
  "MM_move_all_ledger m = do {
     ledger_cnt \<leftarrow> mm_ledger_cnt m;
     MM_move_all_ledger_loop ledger_cnt m }"

section \<open>Submission\<close>

definition mm_check_my_proposal_state ::
  "('o, 'j, 'i, 'v, 'c, 'w) metadata_manager \<Rightarrow> c_int
   \<Rightarrow> (c_int \<times> ('o, 'j, 'i, 'v, 'c, 'w) metadata_manager) option" where
  "mm_check_my_proposal_state m i = do {
     (st, v) \<leftarrow> VM_check_my_proposal_state (mm_vm m) i (mm_vs m);
     Some (st, m\<lparr>mm_vs := v\<rparr>) }"

text \<open>Waiting for the vote, and waiting for the own proposal to age.\<close>

partial_function (option) wait_my_state ::
  "c_int \<Rightarrow> ('o, 'j, 'i, 'v, 'c, 'w) metadata_manager
   \<Rightarrow> (c_int \<times> ('o, 'j, 'i, 'v, 'c, 'w) metadata_manager) option" where
  "wait_my_state i m = do {
     m \<leftarrow> checkout_proposal_make_progress m;
     (my_ps, m) \<leftarrow> mm_check_my_proposal_state m i;
     (if my_ps = ps_code PS_IN_PROGRESS then wait_my_state i m else Some (my_ps, m)) }"

partial_function (option) wait_my_window ::
  "c_ulong \<Rightarrow> ('o, 'j, 'i, 'v, 'c, 'w) metadata_manager
   \<Rightarrow> ('o, 'j, 'i, 'v, 'c, 'w) metadata_manager option" where
  "wait_my_window t m =
     (let (now, m) = MM_get_time_stamp_us m in
      if now - t < time_window_size m then do {
        m \<leftarrow> mm_voting_make_progress m;
        m \<leftarrow> checkout_proposal_make_progress m;
        wait_my_window t m }
      else Some m)"

declare checkout_proposal_make_progress.simps [code] MM_ledger_process_loop.simps [code]
  MM_move_all_ledger_loop.simps [code] wait_my_state.simps [code] wait_my_window.simps [code]

definition mm_add_own ::
  "('o, 'j, 'i, 'v, 'c, 'w) metadata_manager \<Rightarrow> 'o proposal
   \<Rightarrow> ('o, 'j, 'i, 'v, 'c, 'w) metadata_manager option" where
  "mm_add_own m p = do {
     (n, local_prop_buf) \<leftarrow> proposal_encoder p;
     (let (my_node, m) = mm_new_node m local_prop_buf in mm_add_ledger m my_node) }"

text \<open>
  \<^verbatim>\<open>MM_submit_proposal\<close>, built without \<^verbatim>\<open>OLD_WAY\<close>: the return value, the caller's proposal and
  the manager. Mode 1 is the voted path, mode 2 broadcasts without a vote.
\<close>

definition MM_submit_proposal ::
  "('o, 'j, 'i, 'v, 'c, 'w) metadata_manager \<Rightarrow> 'o proposal
   \<Rightarrow> (int \<times> 'o proposal \<times> ('o, 'j, 'i, 'v, 'c, 'w) metadata_manager) option" where
  "MM_submit_proposal m p =
     (let p = p\<lparr>isLocal := 0\<rparr> in
      if mm_mode m = 1 then do {
        (ret, p, v) \<leftarrow> VM_submit_proposal_for_voting (mm_vm m) p (mm_vs m);
        (my_ps, m) \<leftarrow> wait_my_state (pid p) (m\<lparr>mm_vs := v\<rparr>);
        (p, m) \<leftarrow>
          (if my_ps = ps_code PS_APPROVED then do {
             p \<leftarrow> Some (p\<lparr>isLocal := 1\<rparr>);
             m \<leftarrow> mm_add_own m p;
             m \<leftarrow> wait_my_window (time p) m;
             Some (p, m) }
           else Some (p, m));
        m \<leftarrow> MM_ledger_process m;
        m \<leftarrow> mm_execute_all m;
        (st, m) \<leftarrow> mm_check_my_proposal_state m (pid p);
        (r, v) \<leftarrow> VM_rm_my_proposal (mm_vm m) (mm_vs m);
        Some (if st = ps_code PS_APPROVED then 1 else 0, p, m\<lparr>mm_vs := v\<rparr>) }
      else if mm_mode m = 2 then do {
        (r, p, v) \<leftarrow> VM_submit_bcast (mm_vm m) p (mm_vs m);
        m \<leftarrow> mm_voting_make_progress (m\<lparr>mm_vs := v\<rparr>);
        p \<leftarrow> Some (p\<lparr>isLocal := 1\<rparr>);
        m \<leftarrow> mm_add_own m p;
        m \<leftarrow> MM_make_progress m;
        Some (1, p, m) }
      else Some (- 1, p, m))"

definition MM_updata_helper_make_progress ::
  "('o, 'j, 'i, 'v, 'c, 'w) metadata_manager \<Rightarrow> (int \<times> ('o, 'j, 'i, 'v, 'c, 'w) metadata_manager) option" where
  "MM_updata_helper_make_progress m = do {
     m \<leftarrow> MM_ledger_process m;
     m \<leftarrow> mm_execute_all m;
     Some (0, m) }"

end
