(* ===== verification/Metadata_Facts.thy ===== *)
theory Metadata_Facts
  imports Metadata
begin

text \<open>
  What the operations of the metadata manager do to the lists its two queues stand for, and the
  interface \<open>voting_service\<close> that the manager relies on when it takes proposals in.
\<close>

section \<open>The invariant of the manager\<close>

text \<open>
  \<open>xs\<close> is the ledger and \<open>ys\<close> the execution queue: disjoint, active, every node holding a buffer that
  decodes, and no node at an address that is still to be allocated.
\<close>

definition mm_rep :: "('o, 'j, 'i, 'v, 'c, 'w) metadata_manager \<Rightarrow> nat list \<Rightarrow> nat list \<Rightarrow> bool" where
  "mm_rep m xs ys \<longleftrightarrow> (\<exists>l e. mm_lm m = Some l \<and> mm_em m = Some e
     \<and> gq_rep (mm_store m) (ledger_q l) xs \<and> q_state (ledger_q l) = Q_ACTIVE
     \<and> gq_rep (mm_store m) (execution_q e) ys \<and> q_state (execution_q e) = Q_ACTIVE
     \<and> set xs \<inter> set ys = {} \<and> decodable (mm_store m) (xs @ ys)
     \<and> (\<forall>a\<in>dom (qs_links (mm_store m)). a < qs_fresh (mm_store m)))"

text \<open>What no operation of the manager changes.\<close>

definition mm_const where
  "mm_const m = (mm_mode m, mm_world_size m, time_window_size m, mm_app_ctx m, mm_vm m, mm_clock m,
     map_option (\<lambda>e. (execute_cb e, em_app_ctx e)) (mm_em m))"

lemma mm_repE:
  assumes "mm_rep m xs ys"
  obtains l e where "mm_lm m = Some l" and "mm_em m = Some e"
    and "gq_rep (mm_store m) (ledger_q l) xs" and "q_state (ledger_q l) = Q_ACTIVE"
    and "gq_rep (mm_store m) (execution_q e) ys" and "q_state (execution_q e) = Q_ACTIVE"
    and "set xs \<inter> set ys = {}" and "decodable (mm_store m) (xs @ ys)"
    and "\<forall>a\<in>dom (qs_links (mm_store m)). a < qs_fresh (mm_store m)"
  using assms unfolding mm_rep_def by blast

lemma mm_rep_ledger_cnt: "mm_rep m xs ys \<Longrightarrow> mm_ledger_cnt m = Some (int (length xs))"
  by (auto simp: mm_rep_def mm_ledger_cnt_def LM_ledger_cnt_def gq.cnt_law)

lemma mm_rep_distinct: "mm_rep m xs ys \<Longrightarrow> distinct (xs @ ys)"
  by (auto simp: mm_rep_def dest: gq.distinct_law)

lemma mm_rep_vs [simp]: "mm_rep (m\<lparr>mm_vs := v\<rparr>) xs ys = mm_rep m xs ys"
  by (simp add: mm_rep_def)

lemma mm_rep_ticks [simp]: "mm_rep (m\<lparr>mm_ticks := n\<rparr>) xs ys = mm_rep m xs ys"
  by (simp add: mm_rep_def)

lemma mm_const_simps [simp]:
  "mm_const (m\<lparr>mm_vs := v\<rparr>) = mm_const m" "mm_const (m\<lparr>mm_ticks := n\<rparr>) = mm_const m"
  "mm_const (m\<lparr>mm_store := s\<rparr>) = mm_const m" "mm_const (m\<lparr>mm_lm := l\<rparr>) = mm_const m"
  "mm_const (m\<lparr>mm_app := w\<rparr>) = mm_const m"
  by (simp_all add: mm_const_def)

lemma decodable_frame:
  "decodable s xs \<Longrightarrow> (\<And>x. x \<in> set xs \<Longrightarrow> qs_data s' x = qs_data s x) \<Longrightarrow> decodable s' xs"
  using store_cong(1) by blast

lemma mm_new_node_add:
  assumes "mm_rep m xs ys" and "proposal_decoder buf = Some (p :: unit proposal)"
  obtains a m1 m2 where "mm_new_node m buf = (a, m1)" and "mm_add_ledger m1 a = Some m2"
    and "mm_rep m2 (xs @ [a]) ys" and "node_data (mm_store m2) a = Some buf" and "a \<notin> set (xs @ ys)"
    and "\<forall>x\<in>set (xs @ ys). qs_data (mm_store m2) x = qs_data (mm_store m) x"
    and "m2 = m\<lparr>mm_store := mm_store m2, mm_lm := mm_lm m2\<rparr>"
proof -
  from assms(1) obtain l e where r: "mm_lm m = Some l" "mm_em m = Some e"
    "gq_rep (mm_store m) (ledger_q l) xs" "q_state (ledger_q l) = Q_ACTIVE"
    "gq_rep (mm_store m) (execution_q e) ys" "q_state (execution_q e) = Q_ACTIVE"
    "set xs \<inter> set ys = {}" "decodable (mm_store m) (xs @ ys)"
    "\<forall>a\<in>dom (qs_links (mm_store m)). a < qs_fresh (mm_store m)"
    by (rule mm_repE)
  define a where "a = qs_fresh (mm_store m)"
  define s1 where "s1 = snd (gen_queue_node_new (mm_store m) (Some buf))"
  define m1 where "m1 = m\<lparr>mm_store := s1\<rparr>"
  have fresh: "a \<notin> set xs" "a \<notin> set ys"
    using gq.alloc_law [OF r(3)] gq.alloc_law [OF r(5)] r(9) by (auto simp: a_def)
  have s1: "qs_links s1 = (qs_links (mm_store m))(a \<mapsto> \<lparr>d_prev = None, d_next = None\<rparr>)"
    "qs_data s1 = (qs_data (mm_store m))(a \<mapsto> Some buf)" "qs_fresh s1 = Suc a"
    by (simp_all add: s1_def gen_queue_node_new_def a_def)
  have rep1: "gq_rep s1 q zs" if "gq_rep (mm_store m) q zs" "a \<notin> set zs" for q zs
    using that by (auto simp: gq_rep_def s1 elim!: dlist_frame)
  obtain s2 q2 where s2: "gen_queue_append s1 (ledger_q l) a = Some (s2, q2)" "gq_rep s2 q2 (xs @ [a])"
    "dom (qs_links s2) = dom (qs_links s1)" "qs_data s2 = qs_data s1"
    "q_state q2 = q_state (ledger_q l)" "qs_fresh s2 = qs_fresh s1"
    "\<And>p ys. gq_rep s1 p ys \<Longrightarrow> set ys \<inter> insert a (set xs) = {} \<Longrightarrow> gq_rep s2 p ys"
    using gen_queue_append_rep [OF rep1 [OF r(3) fresh(1)] fresh(1)] s1 by auto
  define m2 where "m2 = m1\<lparr>mm_store := s2, mm_lm := Some (l\<lparr>ledger_q := q2\<rparr>)\<rparr>"
  have nn: "mm_new_node m buf = (a, m1)"
    by (simp add: mm_new_node_def m1_def s1_def gen_queue_node_new_def a_def)
  have add: "mm_add_ledger m1 a = Some m2"
    using r s2 by (simp add: mm_add_ledger_def m2_def m1_def LM_add_ledger_def)
  have data: "node_data s2 a = Some buf" by (simp add: node_data_def s2(4) s1(2))
  have dec: "decodable s2 ((xs @ [a]) @ ys)"
  proof -
    have "decodable s2 (xs @ ys)"
      using r(8) by (rule decodable_frame) (use fresh s1 s2 in auto)
    moreover have "node_proposal s2 a \<noteq> None" using data assms(2) by (simp add: node_proposal_def)
    ultimately show ?thesis by simp
  qed
  have ys2: "gq_rep s2 (execution_q e) ys"
    by (rule s2(7) [OF rep1 [OF r(5) fresh(2)]]) (use fresh r(7) in auto)
  have "mm_rep m2 (xs @ [a]) ys"
    unfolding mm_rep_def
    using r fresh s1 s2 ys2 dec by (auto simp: m2_def m1_def less_Suc_eq a_def)
  then show thesis
    by (rule that [OF nn add]) (use data fresh s1 s2 in \<open>auto simp: m2_def m1_def\<close>)
qed

lemma mm_ledger_to_execution_rep:
  assumes "mm_rep m (as @ a # bs) ys"
  obtains m' where "mm_ledger_to_execution m a = Some m'" and "mm_rep m' (as @ bs) (ys @ [a])"
    and "qs_data (mm_store m') = qs_data (mm_store m)" and "mm_const m' = mm_const m"
    and "mm_ticks m' = mm_ticks m" and "mm_app m' = mm_app m" and "mm_vs m' = mm_vs m"
proof -
  from assms(1) obtain l e where r: "mm_lm m = Some l" "mm_em m = Some e"
    "gq_rep (mm_store m) (ledger_q l) (as @ a # bs)" "q_state (ledger_q l) = Q_ACTIVE"
    "gq_rep (mm_store m) (execution_q e) ys" "q_state (execution_q e) = Q_ACTIVE"
    "set (as @ a # bs) \<inter> set ys = {}" "decodable (mm_store m) ((as @ a # bs) @ ys)"
    "\<forall>a\<in>dom (qs_links (mm_store m)). a < qs_fresh (mm_store m)"
    by (rule mm_repE)
  have d: "distinct (as @ a # bs)" using gq.distinct_law [OF r(3)] .
  obtain s1 q1 where s1: "gen_queue_remove (mm_store m) (ledger_q l) a False = Some (1, s1, q1)"
    "gq_rep s1 q1 (as @ bs)" "dom (qs_links s1) = dom (qs_links (mm_store m))"
    "\<And>x. qs_data s1 x = qs_data (mm_store m) x" "q_state q1 = q_state (ledger_q l)"
    "qs_fresh s1 = qs_fresh (mm_store m)"
    "\<And>p ys. gq_rep (mm_store m) p ys \<Longrightarrow> set ys \<inter> set (as @ a # bs) = {} \<Longrightarrow> gq_rep s1 p ys"
    using gen_queue_remove_rep [OF r(3), of False] by (metis (full_types))
  have ys1: "gq_rep s1 (execution_q e) ys" by (rule s1(7) [OF r(5)]) (use r(7) in auto)
  have a: "a \<notin> set ys" "a \<in> dom (qs_links s1)"
    using r(7) gq.alloc_law [OF r(3)] s1(3) by auto
  obtain s2 q2 where s2: "gen_queue_append s1 (execution_q e) a = Some (s2, q2)" "gq_rep s2 q2 (ys @ [a])"
    "dom (qs_links s2) = dom (qs_links s1)" "qs_data s2 = qs_data s1"
    "q_state q2 = q_state (execution_q e)" "qs_fresh s2 = qs_fresh s1"
    "\<And>p zs. gq_rep s1 p zs \<Longrightarrow> set zs \<inter> insert a (set ys) = {} \<Longrightarrow> gq_rep s2 p zs"
    using gen_queue_append_rep [OF ys1 a] by metis
  have q1: "gq_rep s2 q1 (as @ bs)" by (rule s2(7) [OF s1(2)]) (use d r(7) in auto)
  define m' where "m' = m\<lparr>mm_store := s2, mm_lm := Some (l\<lparr>ledger_q := q1\<rparr>),
    mm_em := Some (e\<lparr>execution_q := q2\<rparr>)\<rparr>"
  have ex: "mm_ledger_to_execution m a = Some m'"
    using r s1(1) s2(1)
    by (simp add: mm_ledger_to_execution_def LM_remove_ledger_def EM_add_proposal_def m'_def)
  have data: "qs_data s2 = qs_data (mm_store m)" using s1(4) s2(4) by auto
  have "decodable s2 ((as @ bs) @ ys @ [a])"
    using decodable_frame [OF r(8), of s2] data by simp
  then have "mm_rep m' (as @ bs) (ys @ [a])"
    unfolding mm_rep_def using r q1 s2 s1 d by (auto simp: m'_def)
  then show thesis
    by (rule that [OF ex]) (use r data in \<open>auto simp: m'_def mm_const_def\<close>)
qed

lemma mm_execute_all_rep:
  assumes "mm_rep m xs ys" and "mm_em m = Some e"
    and "execute_in_order e (node_bufs (mm_store m) (sort_key (record_key (mm_store m)) ys)) (mm_app m) = Some w'"
  obtains m' where "mm_execute_all m = Some m'" and "mm_rep m' xs []" and "mm_app m' = w'"
    and "\<And>x. x \<notin> set ys \<Longrightarrow> qs_data (mm_store m') x = qs_data (mm_store m) x"
    and "mm_const m' = mm_const m" and "mm_ticks m' = mm_ticks m" and "mm_vs m' = mm_vs m"
proof -
  from assms(1,2) obtain l where r: "mm_lm m = Some l" "mm_em m = Some e"
    "gq_rep (mm_store m) (ledger_q l) xs" "q_state (ledger_q l) = Q_ACTIVE"
    "gq_rep (mm_store m) (execution_q e) ys" "q_state (execution_q e) = Q_ACTIVE"
    "set xs \<inter> set ys = {}" "decodable (mm_store m) (xs @ ys)"
    "\<forall>a\<in>dom (qs_links (mm_store m)). a < qs_fresh (mm_store m)"
    by (auto elim!: mm_repE)
  have dy: "decodable (mm_store m) ys" using r(8) by simp
  obtain s' e' where x: "EM_execute_loop (mm_store m) e (mm_app m) = Some (s', e', w')"
    "e' = e\<lparr>execution_q := execution_q e'\<rparr>" "gq_rep s' (execution_q e') []"
    "q_state (execution_q e') = Q_ACTIVE" "dom (qs_links s') = dom (qs_links (mm_store m)) - set ys"
    "\<And>a. a \<notin> set ys \<Longrightarrow> qs_data s' a = qs_data (mm_store m) a" "qs_fresh s' = qs_fresh (mm_store m)"
    "\<And>p zs. gq_rep (mm_store m) p zs \<Longrightarrow> set zs \<inter> set ys = {} \<Longrightarrow> gq_rep s' p zs"
    using EM_execute_loop_sorted [OF r(5) dy r(6) assms(3)] by blast
  define m' where "m' = m\<lparr>mm_store := s', mm_em := Some e', mm_app := w'\<rparr>"
  have ex: "mm_execute_all m = Some m'"
    using r x(1) by (simp add: mm_execute_all_def EM_execute_all_def m'_def)
  have "decodable s' xs"
    using decodable_frame [of "mm_store m" xs s'] r(7,8) x(6) by auto
  then have "mm_rep m' xs []"
    unfolding mm_rep_def using r x(3,4,5,7,8) by (auto simp: m'_def)
  moreover have "mm_const m' = mm_const m"
    using r(2) x(2) by (auto simp: m'_def mm_const_def) (metis execution_mgr.select_convs(2,3)
      execution_mgr.surjective execution_mgr.update_convs(1))+
  ultimately show thesis
    by (intro that [OF ex]) (use x(6) in \<open>auto simp: m'_def\<close>)
qed

section \<open>Ageing out\<close>

text \<open>The test of \<^verbatim>\<open>MM_make_progress_cb\<close> for node \<open>a\<close> at the \<open>t\<close>-th reading of the clock.\<close>

definition aged :: "(nat \<Rightarrow> c_ulong) \<Rightarrow> c_ulong \<Rightarrow> pstore \<Rightarrow> nat \<times> nat \<Rightarrow> bool" where
  "aged clk win s = (\<lambda>(t, a). clk t - time (the (node_proposal s a)) > win)"

definition kept_nodes where
  "kept_nodes clk win s t xs = map snd (filter (\<lambda>x. \<not> aged clk win s x) (enumerate t xs))"

definition aged_nodes where
  "aged_nodes clk win s t xs = map snd (filter (aged clk win s) (enumerate t xs))"

lemma enumerate_snoc: "enumerate t (xs @ [x]) = enumerate t xs @ [(t + length xs, x)]"
  by (induction xs arbitrary: t) auto

lemma node_nodes_snoc:
  "kept_nodes clk win s t (xs @ [x]) =
     kept_nodes clk win s t xs @ (if aged clk win s (t + length xs, x) then [] else [x])"
  "aged_nodes clk win s t (xs @ [x]) =
     aged_nodes clk win s t xs @ (if aged clk win s (t + length xs, x) then [x] else [])"
  by (simp_all add: kept_nodes_def aged_nodes_def enumerate_snoc)

lemma kept_aged_mset: "mset (kept_nodes clk win s t xs) + mset (aged_nodes clk win s t xs) = mset xs"
  by (induction xs rule: rev_induct) (auto simp: node_nodes_snoc, simp_all add: kept_nodes_def aged_nodes_def)

lemma node_cast_time:
  assumes "node_proposal s a = Some p"
  obtains buf where "node_data s a = Some buf" and "cast_time buf = Some (time p)"
  using assms cast_time_decoder by (auto simp: node_proposal_def split: Option.bind_splits)

lemma mm_rep_head:
  assumes "mm_rep m (as @ x # rs) ys"
  obtains n where "qs_links (mm_store m) x = Some n" and "d_next n = hd_or rs None"
  using assms by (auto simp: mm_rep_def dest!: gq_rep_D(1) dlist_node)

lemma LM_iterate_ages_out:
  assumes "mm_rep m xs ys"
  obtains m' where
    "LM_iterate (\<lambda>m. qs_links (mm_store m)) (\<lambda>m. the (mm_lm m)) MM_make_progress_cb m = Some m'"
    and "mm_rep m' (kept_nodes (mm_clock m) (time_window_size m) (mm_store m) (mm_ticks m) xs)
           (ys @ aged_nodes (mm_clock m) (time_window_size m) (mm_store m) (mm_ticks m) xs)"
    and "qs_data (mm_store m') = qs_data (mm_store m)" and "mm_const m' = mm_const m"
    and "mm_app m' = mm_app m" and "mm_vs m' = mm_vs m" and "mm_ticks m' = mm_ticks m + length xs"
proof -
  define K A where "K = kept_nodes (mm_clock m) (time_window_size m) (mm_store m) (mm_ticks m)"
    and "A = aged_nodes (mm_clock m) (time_window_size m) (mm_store m) (mm_ticks m)"
  define I where "I ds rs w \<longleftrightarrow> ds @ rs = xs \<and> mm_rep w (K ds @ rs) (ys @ A ds)
     \<and> qs_data (mm_store w) = qs_data (mm_store m) \<and> mm_const w = mm_const m
     \<and> mm_app w = mm_app m \<and> mm_vs w = mm_vs m \<and> mm_ticks w = mm_ticks m + length ds" for ds rs w
  have np: "node_proposal (mm_store w) a = node_proposal (mm_store m) a"
    if "qs_data (mm_store w) = qs_data (mm_store m)" for w :: "('a, 'b, 'c, 'd, 'e, 'f) metadata_manager" and a
    by (rule node_proposal_cong) (simp add: that)
  have step: "\<exists>n w'. qs_links (mm_store w) x = Some n \<and> d_next n = hd_or rs None
      \<and> MM_make_progress_cb x w = Some w' \<and> I (ds @ [x]) rs w'" if i: "I ds (x # rs) w" for ds x rs w
  proof -
    from i have w: "ds @ x # rs = xs" "mm_rep w (K ds @ x # rs) (ys @ A ds)"
      "qs_data (mm_store w) = qs_data (mm_store m)" "mm_const w = mm_const m"
      "mm_app w = mm_app m" "mm_vs w = mm_vs m" "mm_ticks w = mm_ticks m + length ds"
      by (auto simp: I_def)
    obtain n where n: "qs_links (mm_store w) x = Some n" "d_next n = hd_or rs None"
      using mm_rep_head [OF w(2)] by blast
    have "decodable (mm_store w) (K ds @ x # rs)" using w(2) by (auto simp: mm_rep_def)
    then obtain p where p: "node_proposal (mm_store w) x = Some p" by auto
    obtain buf where buf: "node_data (mm_store w) x = Some buf" "cast_time buf = Some (time p)"
      using node_cast_time [OF p] .
    have c: "mm_clock w = mm_clock m" "time_window_size w = time_window_size m"
      using w(4) by (simp_all add: mm_const_def)
    define w1 where "w1 = w\<lparr>mm_ticks := mm_ticks w + 1\<rparr>"
    have test: "aged (mm_clock m) (time_window_size m) (mm_store m) (mm_ticks m + length ds, x) \<longleftrightarrow>
        mm_clock w (mm_ticks w) - time p > time_window_size w"
      using p np [OF w(3)] c w(7) by (simp add: aged_def)
    show ?thesis
    proof (cases "mm_clock w (mm_ticks w) - time p > time_window_size w")
      case True
      have "mm_rep w1 (K ds @ x # rs) (ys @ A ds)" using w(2) by (simp add: w1_def)
      then obtain w' where w': "mm_ledger_to_execution w1 x = Some w'" "mm_rep w' (K ds @ rs) ((ys @ A ds) @ [x])"
        "qs_data (mm_store w') = qs_data (mm_store w1)" "mm_const w' = mm_const w1"
        "mm_ticks w' = mm_ticks w1" "mm_app w' = mm_app w1" "mm_vs w' = mm_vs w1"
        by (rule mm_ledger_to_execution_rep)
      have "MM_make_progress_cb x w = Some w'"
        using True buf w'(1) by (simp add: MM_make_progress_cb_def MM_get_time_stamp_us_def w1_def)
      moreover have "I (ds @ [x]) rs w'"
        unfolding I_def using w w' True test
        by (simp add: w1_def) (simp add: K_def A_def node_nodes_snoc)
      ultimately show ?thesis using n by blast
    next
      case False
      have "MM_make_progress_cb x w = Some w1"
        using False buf by (simp add: MM_make_progress_cb_def MM_get_time_stamp_us_def w1_def)
      moreover have "I (ds @ [x]) rs w1"
        unfolding I_def using w False test
        by (simp add: w1_def) (simp add: K_def A_def node_nodes_snoc)
      ultimately show ?thesis using n by blast
    qed
  qed
  have "I [] xs m" using assms by (simp add: I_def K_def A_def kept_nodes_def aged_nodes_def)
  from gen_queue_iterate_loop_rule [of I "\<lambda>m. qs_links (mm_store m)" MM_make_progress_cb, OF step this]
  obtain m' where m': "gen_queue_iterate_loop (\<lambda>m. qs_links (mm_store m)) MM_make_progress_cb (hd_or xs None) m = Some m'"
    "I xs [] m'" by auto
  have "dq_head (ledger_q (the (mm_lm m))) = hd_or xs None"
    using assms by (auto simp: mm_rep_def dest!: gq_rep_D(1) dlist_head)
  then have "LM_iterate (\<lambda>m. qs_links (mm_store m)) (\<lambda>m. the (mm_lm m)) MM_make_progress_cb m = Some m'"
    using m'(1) by (simp add: LM_iterate_def gen_queue_iterate_def)
  then show thesis
    by (rule that) (use m'(2) in \<open>auto simp: I_def K_def A_def\<close>)
qed

lemma MM_make_progress_rep:
  assumes "mm_voting_make_progress m = Some m1" and "checkout_proposal_make_progress m1 = Some m2"
    and "mm_rep m2 xs ys" and "mm_em m2 = Some e"
    and "due = ys @ aged_nodes (mm_clock m2) (time_window_size m2) (mm_store m2) (mm_ticks m2) xs"
    and "execute_in_order e (node_bufs (mm_store m2) (sort_key (record_key (mm_store m2)) due)) (mm_app m2)
           = Some w'"
  shows "\<exists>m'. MM_make_progress m = Some m' \<and> mm_app m' = w' \<and> mm_const m' = mm_const m2
    \<and> mm_rep m' (kept_nodes (mm_clock m2) (time_window_size m2) (mm_store m2) (mm_ticks m2) xs) []
    \<and> mm_vs m' = mm_vs m2 \<and> mm_ticks m2 \<le> mm_ticks m' \<and> (\<forall>x. x \<notin> set due \<longrightarrow> qs_data (mm_store m') x = qs_data (mm_store m2) x)"
proof -
  define K where "K = kept_nodes (mm_clock m2) (time_window_size m2) (mm_store m2) (mm_ticks m2) xs"
  obtain m3 where m3: "(if int (length xs) > 0
      then LM_iterate (\<lambda>m. qs_links (mm_store m)) (\<lambda>m. the (mm_lm m)) MM_make_progress_cb m2
      else Some m2) = Some m3" "mm_rep m3 K due" "qs_data (mm_store m3) = qs_data (mm_store m2)"
    "mm_const m3 = mm_const m2" "mm_app m3 = mm_app m2" "mm_vs m3 = mm_vs m2" "mm_ticks m2 \<le> mm_ticks m3"
  proof (cases "xs = []")
    case True
    then show thesis using assms(3,5) by (intro that [of m2]) (auto simp: K_def kept_nodes_def aged_nodes_def)
  next
    case False
    then show thesis
      using that by (rule_tac LM_iterate_ages_out [OF assms(3)]) (auto simp: K_def assms(5))
  qed
  obtain e3 where e3: "mm_em m3 = Some e3" "execute_cb e3 = execute_cb e" "em_app_ctx e3 = em_app_ctx e"
    using m3(2,4) assms(4) by (auto simp: mm_const_def mm_rep_def)
  have x: "execute_in_order e3 (node_bufs (mm_store m3) (sort_key (record_key (mm_store m3)) due)) (mm_app m3)
      = Some w'"
    using assms(6) store_cong(2,3) [of due "mm_store m3" "mm_store m2"] m3(3,5)
      execute_in_order_cong [OF e3(2,3)] by simp
  have cnt: "EM_execute_cnt e3 = int (length due)"
    using m3(2) e3(1) by (auto simp: mm_rep_def EM_execute_cnt_def gq.cnt_law)
  have "MM_make_progress m = (if int (length due) > 0 then mm_execute_all m3 else Some m3)"
    using assms(1,2) mm_rep_ledger_cnt [OF assms(3)] m3(1) e3(1) cnt by (simp add: MM_make_progress_def)
  moreover obtain m4 where m4: "(if int (length due) > 0 then mm_execute_all m3 else Some m3) = Some m4"
    "mm_rep m4 K []" "mm_app m4 = w'" "mm_const m4 = mm_const m3" "mm_vs m4 = mm_vs m3" "mm_ticks m4 = mm_ticks m3"
    "\<And>x. x \<notin> set due \<Longrightarrow> qs_data (mm_store m4) x = qs_data (mm_store m3) x"
  proof (cases "due = []")
    case True
    then show thesis using m3(2) x by (intro that [of m3]) (auto simp: node_bufs_def)
  next
    case False
    then show thesis
      using that by (rule_tac mm_execute_all_rep [OF m3(2) e3(1) x]) auto
  qed
  ultimately show ?thesis using m3(3,4,6,7) by (auto simp: K_def)
qed

section \<open>The voting service\<close>

text \<open>
  What the manager needs of the voting manager it polls: progress never fails and turns messages
  still under way into proposals to check out, losing and adding none; a checkout takes one of
  these out as long as there is one; and everything that can be checked out is an encoded proposal.
\<close>

locale voting_service =
  fixes vmgr :: "('o, 'j, 'i, 'v) voting_mgr"
    and vok :: "'v \<Rightarrow> bool"
    and backlog :: "'v \<Rightarrow> byte list multiset"
    and incoming :: "'v \<Rightarrow> byte list multiset"
  assumes progress_law: "vok v \<Longrightarrow> \<exists>r v'. VM_voting_make_progress vmgr v = Some (r, v') \<and> vok v'
      \<and> backlog v' + incoming v' = backlog v + incoming v \<and> backlog v \<subseteq># backlog v'"
    and checkout_none: "vok v \<Longrightarrow> backlog v = {#} \<Longrightarrow>
      \<exists>v'. VM_checkout_proposal vmgr v = Some (0, None, v') \<and> vok v' \<and> backlog v' = {#} \<and> incoming v' = incoming v"
    and checkout_some: "vok v \<Longrightarrow> backlog v \<noteq> {#} \<Longrightarrow>
      \<exists>b v'. VM_checkout_proposal vmgr v = Some (1, Some b, v') \<and> vok v' \<and> backlog v = add_mset b (backlog v')
        \<and> incoming v' = incoming v"
    and decode_law: "vok v \<Longrightarrow> b \<in># backlog v + incoming v \<Longrightarrow> proposal_decoder b \<noteq> (None :: unit proposal option)"
begin

lemma checkout_takes_all:
  assumes "mm_rep m xs ys" and "mm_vm m = vmgr" and "vok (mm_vs m)"
  shows "\<exists>m' new. checkout_proposal_make_progress m = Some m' \<and> mm_rep m' (xs @ new) ys
    \<and> mset (node_bufs (mm_store m') new) = backlog (mm_vs m)
    \<and> vok (mm_vs m') \<and> backlog (mm_vs m') = {#} \<and> incoming (mm_vs m') = incoming (mm_vs m)
    \<and> (\<forall>x\<in>set (xs @ ys). qs_data (mm_store m') x = qs_data (mm_store m) x)
    \<and> mm_const m' = mm_const m \<and> mm_app m' = mm_app m \<and> mm_ticks m' = mm_ticks m"
  using assms
proof (induction "size (backlog (mm_vs m))" arbitrary: m xs)
  case 0
  then obtain v' where v': "VM_checkout_proposal vmgr (mm_vs m) = Some (0, None, v')" "vok v'"
    "backlog v' = {#}" "incoming v' = incoming (mm_vs m)"
    using checkout_none [OF 0(4)] by auto
  have "checkout_proposal_make_progress m = Some (m\<lparr>mm_vs := v'\<rparr>)"
    using v'(1) 0(3) by (subst checkout_proposal_make_progress.simps) simp
  moreover have "mm_rep (m\<lparr>mm_vs := v'\<rparr>) (xs @ []) ys" using 0(2) by simp
  ultimately show ?case using 0(1) v'
    by (intro exI [of _ "m\<lparr>mm_vs := v'\<rparr>"] exI [of _ "[]"]) (auto simp: node_bufs_def)
next
  case (Suc n)
  then have "backlog (mm_vs m) \<noteq> {#}" by auto
  then obtain b v' where v': "VM_checkout_proposal vmgr (mm_vs m) = Some (1, Some b, v')" "vok v'"
    "backlog (mm_vs m) = add_mset b (backlog v')" "incoming v' = incoming (mm_vs m)"
    using checkout_some [OF Suc.prems(3)] by blast
  have "proposal_decoder b \<noteq> (None :: unit proposal option)"
    using decode_law [OF Suc.prems(3)] v'(3) by simp
  then obtain p :: "unit proposal" where p: "proposal_decoder b = Some p" by blast
  have "mm_rep (m\<lparr>mm_vs := v'\<rparr>) xs ys" using Suc.prems(1) by simp
  then obtain a m1 m2 where m2: "mm_new_node (m\<lparr>mm_vs := v'\<rparr>) b = (a, m1)" "mm_add_ledger m1 a = Some m2"
    "mm_rep m2 (xs @ [a]) ys" "node_data (mm_store m2) a = Some b" "a \<notin> set (xs @ ys)"
    "\<forall>x\<in>set (xs @ ys). qs_data (mm_store m2) x = qs_data (mm_store (m\<lparr>mm_vs := v'\<rparr>)) x"
    "m2 = m\<lparr>mm_vs := v'\<rparr>\<lparr>mm_store := mm_store m2, mm_lm := mm_lm m2\<rparr>"
    using p by (rule mm_new_node_add)
  have vs2: "mm_vs m2 = v'" "mm_vm m2 = mm_vm m" "mm_const m2 = mm_const m" "mm_app m2 = mm_app m"
    "mm_ticks m2 = mm_ticks m"
    by (subst m2(7), simp)+
  have "n = size (backlog (mm_vs m2))" using Suc.hyps(2) v'(3) vs2 by simp
  from Suc.hyps(1) [OF this m2(3)] Suc.prems(2) vs2 v'(2) obtain m' new where
    m': "checkout_proposal_make_progress m2 = Some m'" "mm_rep m' ((xs @ [a]) @ new) ys"
    "mset (node_bufs (mm_store m') new) = backlog (mm_vs m2)" "vok (mm_vs m')" "backlog (mm_vs m') = {#}"
    "incoming (mm_vs m') = incoming (mm_vs m2)"
    "\<forall>x\<in>set ((xs @ [a]) @ ys). qs_data (mm_store m') x = qs_data (mm_store m2) x"
    "mm_const m' = mm_const m2" "mm_app m' = mm_app m2" "mm_ticks m' = mm_ticks m2"
    by auto
  have "checkout_proposal_make_progress m = Some m'"
    using v'(1) m2(1,2) m'(1) Suc.prems(2) by (subst checkout_proposal_make_progress.simps) simp
  moreover have "node_data (mm_store m') a = Some b"
    using m2(4) m'(7) by (simp add: node_data_def)
  ultimately show ?case
    using m' m2(6) vs2 v' by (intro exI [of _ m'] exI [of _ "a # new"]) (auto simp: node_bufs_def)
qed

lemma progress_obtain:
  assumes "vok (mm_vs m)" and "mm_vm m = vmgr"
  obtains v' where "mm_voting_make_progress m = Some (m\<lparr>mm_vs := v'\<rparr>)" and "vok v'"
    and "backlog v' + incoming v' = backlog (mm_vs m) + incoming (mm_vs m)"
    and "backlog (mm_vs m) \<subseteq># backlog v'"
  using progress_law [OF assms(1)] assms(2) by (auto simp: mm_voting_make_progress_def)

text \<open>Moving everything to the execution queue, in the order of the records.\<close>

lemma move_all:
  assumes "mm_rep m xs ys" and "mm_vm m = vmgr" and "vok (mm_vs m)"
  shows "\<exists>m'. MM_move_all_ledger_loop (int (length xs)) m = Some m'
    \<and> mm_rep m' [] (ys @ sort_key (record_key (mm_store m)) xs) \<and> vok (mm_vs m')
    \<and> qs_data (mm_store m') = qs_data (mm_store m) \<and> mm_const m' = mm_const m"
  using assms
proof (induction "length xs" arbitrary: m xs ys)
  case 0
  then show ?case by (subst MM_move_all_ledger_loop.simps) simp
next
  case (Suc n)
  from Suc.prems(1) obtain l where l: "mm_lm m = Some l" "gq_rep (mm_store m) (ledger_q l) xs"
    "q_state (ledger_q l) = Q_ACTIVE" "decodable (mm_store m) xs" by (auto elim!: mm_repE)
  have ne: "xs \<noteq> []" using Suc.hyps(2) by auto
  obtain a p where a: "oldest_record (mm_store m) (ledger_q l) = Some (Some (a, time p))"
    "first_min (record_key (mm_store m)) xs a" "node_proposal (mm_store m) a = Some p"
    by (rule oldest_record_min [OF l(2,4) ne l(3)])
  obtain as bs where xs: "xs = as @ a # bs" using first_min_mem [OF a(2)] by (meson split_list)
  have d: "distinct (as @ a # bs)" using mm_rep_distinct [OF Suc.prems(1)] xs by auto
  obtain m1 where m1: "mm_ledger_to_execution m a = Some m1" "mm_rep m1 (as @ bs) (ys @ [a])"
    "qs_data (mm_store m1) = qs_data (mm_store m)" "mm_const m1 = mm_const m"
    "mm_ticks m1 = mm_ticks m" "mm_app m1 = mm_app m" "mm_vs m1 = mm_vs m"
    using Suc.prems(1) unfolding xs by (rule mm_ledger_to_execution_rep)
  have vm1: "mm_vm m1 = vmgr" using m1(4) Suc.prems(2) by (simp add: mm_const_def)
  have vok1: "vok (mm_vs m1)" using Suc.prems(3) m1(7) by simp
  obtain v' where v': "mm_voting_make_progress m1 = Some (m1\<lparr>mm_vs := v'\<rparr>)" "vok v'"
    using progress_obtain [OF vok1 vm1] by blast
  define m2 where "m2 = m1\<lparr>mm_vs := v'\<rparr>"
  have m2: "mm_rep m2 (as @ bs) (ys @ [a])" "mm_vm m2 = vmgr" "vok (mm_vs m2)"
    "qs_data (mm_store m2) = qs_data (mm_store m)" "mm_const m2 = mm_const m"
    using m1 vm1 v' by (simp_all add: m2_def)
  have key: "sort_key (record_key (mm_store m2)) (as @ bs) = sort_key (record_key (mm_store m)) (as @ bs)"
    by (rule store_cong(2)) (simp add: m2(4))
  have "n = length (as @ bs)" using Suc.hyps(2) xs by simp
  from Suc.hyps(1) [OF this m2(1,2,3)] obtain m' where
    m': "MM_move_all_ledger_loop (int (length (as @ bs))) m2 = Some m'"
    "mm_rep m' [] ((ys @ [a]) @ sort_key (record_key (mm_store m)) (as @ bs))" "vok (mm_vs m')"
    "qs_data (mm_store m') = qs_data (mm_store m2)" "mm_const m' = mm_const m2"
    using key by auto
  have "MM_move_all_ledger_loop (int (length xs)) m = Some m'"
    using l(1) a(1) m1(1) v'(1) m'(1) mm_rep_ledger_cnt [OF m2(1)] xs
    by (subst MM_move_all_ledger_loop.simps) (simp add: LM_get_oldest_record_def flip: m2_def)
  moreover have "sort_key (record_key (mm_store m)) xs = a # sort_key (record_key (mm_store m)) (as @ bs)"
    using sort_key_first_min [OF a(2) [unfolded xs] d] xs by simp
  ultimately show ?case using m' m2 by auto
qed

text \<open>
  With nothing to check out and nothing under way, the ledger loop ends as soon as the clock has
  passed the window of every record, and has then moved them all in the order of the records.
\<close>

lemma idle_ledger_process:
  assumes "mm_rep m xs ys" and "mm_vm m = vmgr" and "vok (mm_vs m)"
    and "backlog (mm_vs m) = {#}" and "incoming (mm_vs m) = {#}"
    and "\<And>t a. t \<ge> late \<Longrightarrow> a \<in> set xs \<Longrightarrow> aged (mm_clock m) (time_window_size m) (mm_store m) (t, a)"
  shows "\<exists>m'. MM_ledger_process_loop (int (length xs)) m = Some m'
    \<and> mm_rep m' [] (ys @ sort_key (record_key (mm_store m)) xs) \<and> vok (mm_vs m')
    \<and> (\<forall>x\<in>set (xs @ ys). qs_data (mm_store m') x = qs_data (mm_store m) x)
    \<and> mm_const m' = mm_const m \<and> mm_app m' = mm_app m"
  using assms
proof (induction "length xs + (late - mm_ticks m)" arbitrary: m xs ys rule: less_induct)
  case less
  show ?case
  proof (cases "xs = []")
    case True
    then show ?thesis
      using less.prems(1,3) by (subst MM_ledger_process_loop.simps) simp
  next
    case ne: False
    from less.prems(1) obtain l where l: "mm_lm m = Some l" "gq_rep (mm_store m) (ledger_q l) xs"
      "q_state (ledger_q l) = Q_ACTIVE" "decodable (mm_store m) xs" by (auto elim!: mm_repE)
    obtain a p where a: "oldest_record (mm_store m) (ledger_q l) = Some (Some (a, time p))"
      "first_min (record_key (mm_store m)) xs a" "node_proposal (mm_store m) a = Some p"
      by (rule oldest_record_min [OF l(2,4) ne l(3)])
    obtain as bs where xs: "xs = as @ a # bs" using first_min_mem [OF a(2)] by (meson split_list)
    have d: "distinct (as @ a # bs)" using mm_rep_distinct [OF less.prems(1)] xs by auto
    define late_now where "late_now \<longleftrightarrow> mm_clock m (mm_ticks m) - time p > time_window_size m"
    define m0 where "m0 = m\<lparr>mm_ticks := mm_ticks m + 1\<rparr>"
    define xs' ys' where "xs' = (if late_now then as @ bs else xs)" and "ys' = (if late_now then ys @ [a] else ys)"
    have m0: "mm_rep m0 (as @ a # bs) ys" using less.prems(1) xs by (simp add: m0_def)
    obtain m1 where m1: "(if late_now then mm_ledger_to_execution m0 a else Some m0) = Some m1"
      "mm_rep m1 xs' ys'" "qs_data (mm_store m1) = qs_data (mm_store m)" "mm_const m1 = mm_const m"
      "mm_ticks m1 = mm_ticks m + 1" "mm_app m1 = mm_app m" "mm_vs m1 = mm_vs m"
    proof (cases late_now)
      case True
      from m0 obtain m1 where "mm_ledger_to_execution m0 a = Some m1" "mm_rep m1 (as @ bs) (ys @ [a])"
        "qs_data (mm_store m1) = qs_data (mm_store m0)" "mm_const m1 = mm_const m0"
        "mm_ticks m1 = mm_ticks m0" "mm_app m1 = mm_app m0" "mm_vs m1 = mm_vs m0"
        by (rule mm_ledger_to_execution_rep)
      then show thesis using True by (intro that [of m1]) (simp_all add: m0_def xs'_def ys'_def)
    next
      case False
      then show thesis using m0 xs by (intro that [of m0]) (simp_all add: m0_def xs'_def ys'_def)
    qed
    have c1: "mm_vm m1 = vmgr" "mm_clock m1 = mm_clock m" "time_window_size m1 = time_window_size m"
      using m1(4) less.prems(2) by (simp_all add: mm_const_def)
    have vok1: "vok (mm_vs m1)" using less.prems(3) m1(7) by simp
    obtain v' where v': "mm_voting_make_progress m1 = Some (m1\<lparr>mm_vs := v'\<rparr>)" "vok v'"
      "backlog v' + incoming v' = backlog (mm_vs m1) + incoming (mm_vs m1)"
      using progress_obtain [OF vok1 c1(1)] by blast
    have idle: "backlog v' = {#}" "incoming v' = {#}" using v'(3) less.prems(4,5) m1(7) by auto
    define m2 where "m2 = m1\<lparr>mm_vs := v'\<rparr>"
    have m2: "mm_rep m2 xs' ys'" "mm_vm m2 = vmgr" "vok (mm_vs m2)"
      using m1 c1 v' by (simp_all add: m2_def)
    from checkout_takes_all [OF m2] obtain m3 new where
      m3: "checkout_proposal_make_progress m2 = Some m3" "mm_rep m3 (xs' @ new) ys'"
      "mset (node_bufs (mm_store m3) new) = {#}" "vok (mm_vs m3)" "backlog (mm_vs m3) = {#}"
      "incoming (mm_vs m3) = {#}" "\<forall>x\<in>set (xs' @ ys'). qs_data (mm_store m3) x = qs_data (mm_store m2) x"
      "mm_const m3 = mm_const m2" "mm_app m3 = mm_app m2" "mm_ticks m3 = mm_ticks m2"
      using idle by (auto simp: m2_def)
    have "new = []" using m3(3) by (simp add: node_bufs_def)
    with m3(2) have m3r: "mm_rep m3 xs' ys'" by simp
    have const3: "mm_const m3 = mm_const m" using m3(8) m1(4) by (simp add: m2_def)
    then have c3: "mm_vm m3 = vmgr" "mm_clock m3 = mm_clock m" "time_window_size m3 = time_window_size m"
      using less.prems(2) by (simp_all add: mm_const_def)
    have sub: "set (xs' @ ys') = set (xs @ ys)" "set xs' \<subseteq> set xs"
      using xs by (auto simp: xs'_def ys'_def)
    have data3: "qs_data (mm_store m3) x = qs_data (mm_store m) x" if "x \<in> set (xs @ ys)" for x
      using m3(7) m1(3) that sub by (simp add: m2_def)
    have tick3: "mm_ticks m3 = mm_ticks m + 1" using m3(10) m1(5) by (simp add: m2_def)
    have aged3: "aged (mm_clock m3) (time_window_size m3) (mm_store m3) (t, b)"
      if "late \<le> t" "b \<in> set xs'" for t b
    proof -
      have "node_proposal (mm_store m3) b = node_proposal (mm_store m) b"
        by (rule node_proposal_cong) (use data3 that sub in auto)
      then show ?thesis using less.prems(6) [of t b] that sub c3 by (auto simp: aged_def)
    qed
    have "late \<le> mm_ticks m \<longrightarrow> late_now"
      using less.prems(6) [of "mm_ticks m" a] a(3) xs by (simp add: aged_def late_now_def)
    then have meas: "length xs' + (late - mm_ticks m3) < length xs + (late - mm_ticks m)"
      using tick3 xs by (cases late_now) (simp_all add: xs'_def not_le, linarith?)
    have key: "sort_key (record_key (mm_store m3)) xs' = sort_key (record_key (mm_store m)) xs'"
      by (rule store_cong(2)) (use data3 sub in auto)
    obtain m' where m': "MM_ledger_process_loop (int (length xs')) m3 = Some m'"
      "mm_rep m' [] (ys' @ sort_key (record_key (mm_store m)) xs')" "vok (mm_vs m')"
      "\<forall>x\<in>set (xs' @ ys'). qs_data (mm_store m') x = qs_data (mm_store m3) x"
      "mm_const m' = mm_const m3" "mm_app m' = mm_app m3"
      using less.hyps [OF meas m3r c3(1) m3(4,5,6) aged3] key by auto
    have "MM_ledger_process_loop (int (length xs)) m = Some m'"
      using ne l(1) a(1) m1(1) v'(1) m3(1) m'(1) mm_rep_ledger_cnt [OF m3r]
      by (subst MM_ledger_process_loop.simps)
        (auto simp: LM_get_oldest_record_def MM_get_time_stamp_us_def late_now_def m0_def
          simp flip: m2_def split: if_splits)
    moreover have "ys' @ sort_key (record_key (mm_store m)) xs' = ys @ sort_key (record_key (mm_store m)) xs"
      using sort_key_first_min [OF a(2) [unfolded xs] d] xs by (simp add: xs'_def ys'_def)
    moreover have "mm_const m' = mm_const m" "mm_app m' = mm_app m"
      using m'(5,6) const3 m3(9) m1(6) by (simp_all add: m2_def)
    moreover have "\<forall>x\<in>set (xs @ ys). qs_data (mm_store m') x = qs_data (mm_store m) x"
      using m'(4) data3 sub by auto
    ultimately show ?thesis using m'(2,3) by auto
  qed
qed

end

end
