(* ===== verification/Bcast_Service.thy ===== *)
theory Bcast_Service
  imports Bcast_Mode Metadata_Facts
begin

text \<open>
  Progress over all engines of a process and the voting plugin, under broadcast traffic; the
  rootless voting plugin as the voting service the metadata manager relies on.
\<close>

section \<open>Progress\<close>

lemma eng_arriving_simps:
  "eng_arriving (eng\<lparr>arrivals := []\<rparr>) = {#}"
  "arrivals eng = a # as \<Longrightarrow> eng_arriving eng = arrival_payload a + sum_list (map arrival_payload as)"
  by (simp_all add: eng_arriving_def)

lemma recv_loop_None: "recv_loop f e None = Some"
  by (rule ext, subst recv_loop.simps) simp

lemma recv_loop_ok:
  assumes "engines P e = Some eng" and "eng_ok D eng"
  shows "\<exists>eng'. recv_loop f e (case queue_recv eng of [] \<Rightarrow> None | m # _ \<Rightarrow> Some m) P = Some (set_eng P e eng')
    \<and> eng_ok D eng' \<and> eng_backlog eng' + eng_arriving eng' = eng_backlog eng + eng_arriving eng
    \<and> eng_backlog eng \<subseteq># eng_backlog eng' \<and> arrivals eng' = tl (arrivals eng) \<and> prefix (sent eng) (sent eng')"
proof -
  obtain m where m: "queue_recv eng = [m]" using eng_okD(2) [OF assms(2)] by (auto simp: length_Suc_conv)
  have loop: "recv_loop f e (Some m) P = do {
      (completed, eng) \<leftarrow> test_ircecv_completed eng m;
      (if completed then handle_received f e m (set_eng P e eng) else Some (set_eng P e eng)) }"
    using assms(1) m
    by (subst recv_loop.simps) (simp add: recv_loop_None Let_def)
  show ?thesis
  proof (cases "arrivals eng")
    case Nil
    then have "test_ircecv_completed eng m = Some (False, eng)" by (simp add: test_ircecv_completed_def)
    then show ?thesis using assms m loop Nil by (intro exI [of _ eng]) simp
  next
    case (Cons a as)
    show ?thesis
    proof (cases a)
      case None
      define eng' where "eng' = eng\<lparr>arrivals := as\<rparr>"
      have "test_ircecv_completed eng m = Some (False, eng')"
        using Cons None by (simp add: test_ircecv_completed_def eng'_def)
      moreover have "eng_ok D eng'" using assms(2) Cons by (auto simp: eng_ok_def eng'_def)
      moreover have "eng_backlog eng' = eng_backlog eng" "eng_arriving eng' = eng_arriving eng"
        using Cons None by (simp_all add: eng'_def eng_backlog_def msg_payload_def [abs_def] eng_arriving_def)
      moreover have "arrivals eng' = tl (arrivals eng)" using Cons by (simp add: eng'_def)
      moreover have "sent eng' = sent eng" by (simp add: eng'_def)
      ultimately show ?thesis using m loop by (intro exI [of _ eng']) simp
    next
      case (Some t)
      obtain src tag dat where t: "t = (src, tag, dat)" by (cases t)
      obtain eng1 eng' where r: "test_ircecv_completed eng m = Some (True, eng1)"
        "handle_received f e m (set_eng P e eng1) = Some (set_eng P e eng')" "eng_ok D eng'"
        "eng_backlog eng' = add_mset (the (payload dat)) (eng_backlog eng)" "arrivals eng' = as"
          "prefix (sent eng) (sent eng')"
        using recv_completed_ok [OF assms m, of src tag dat as f] Cons Some t by blast
      have "eng_backlog eng' + eng_arriving eng' = eng_backlog eng + eng_arriving eng"
        using r(4,5) Cons Some t by (simp add: eng_arriving_def)
      then show ?thesis using r m loop Cons by (intro exI [of _ eng']) simp
    qed
  qed
qed

lemma own_proposal_update_idle:
  "ps_state (my_own_proposal eng) = RLO_INVALID \<or> ps_state (my_own_proposal eng) = RLO_COMPLETED \<Longrightarrow>
    own_proposal_update eng = Some eng"
  by (auto simp: own_proposal_update_def Let_def)

lemma make_progress_gen_ok:
  assumes "engines P e = Some eng" and "eng_ok D eng"
  shows "\<exists>eng'. RLO_make_progress_gen f e P = Some (set_eng P e eng') \<and> eng_ok D eng'
    \<and> eng_backlog eng' + eng_arriving eng' = eng_backlog eng + eng_arriving eng
    \<and> eng_backlog eng \<subseteq># eng_backlog eng' \<and> arrivals eng' = tl (arrivals eng) \<and> prefix (sent eng) (sent eng')"
proof -
  obtain e1 where e1: "recv_loop f e (case queue_recv eng of [] \<Rightarrow> None | m # _ \<Rightarrow> Some m) P = Some (set_eng P e e1)"
    "eng_ok D e1" "eng_backlog e1 + eng_arriving e1 = eng_backlog eng + eng_arriving eng"
    "eng_backlog eng \<subseteq># eng_backlog e1" "arrivals e1 = tl (arrivals eng)" "prefix (sent eng) (sent e1)"
    using recv_loop_ok [OF assms] by blast
  have d1: "distinct (queue_wait_and_pickup e1)" using roles_alloc(5) [OF eng_okD(5) [OF e1(2)]] by simp
  obtain e2 where e2: "wait_and_pickup_loop (queue_wait_and_pickup e1) e1 = Some e2" "eng_ok D e2"
    "eng_backlog e2 = eng_backlog e1" "arrivals e2 = arrivals e1" "sent e2 = sent e1"
    using wait_and_pickup_loop_ok [OF e1(2) subset_refl d1] by blast
  have d2: "distinct (queue_wait e2)" using roles_alloc(5) [OF eng_okD(5) [OF e2(2)]] by simp
  obtain e3 where e3: "wait_only_loop (queue_wait e2) e2 = Some e3" "eng_ok D e3"
    "eng_backlog e3 = eng_backlog e2" "arrivals e3 = arrivals e2" "sent e3 = sent e2"
    using wait_only_loop_ok [OF e2(2) subset_refl d2] by blast
  have "RLO_make_progress_gen f e P = Some (set_eng P e e3)"
    using assms(1) e1(1) e2(1) e3(1) eng_okD(4) [OF assms(2)]
    by (simp add: RLO_make_progress_gen_def own_proposal_update_idle wait_only_queue_cleanup_def
        set_eng_same)
  then show ?thesis using e1 e2 e3 by (intro exI [of _ e3]) (simp add: eng_arriving_def)
qed

definition process_ok :: "(byte list \<Rightarrow> bool) \<Rightarrow> 'a process \<Rightarrow> bool" where
  "process_ok D P \<longleftrightarrow> (\<exists>es. active_engines P = Some es \<and> distinct es
     \<and> (\<forall>e\<in>set es. \<exists>eng. engines P e = Some eng \<and> eng_ok D eng))"

lemma each_engine_ok:
  assumes "distinct es" and "\<forall>e\<in>set es. \<exists>eng. engines P e = Some eng \<and> eng_ok D eng"
  shows "\<exists>P'. each_engine (RLO_make_progress_gen f) es P = Some P' \<and> active_engines P' = active_engines P
    \<and> (\<forall>e. e \<notin> set es \<longrightarrow> engines P' e = engines P e)
    \<and> (\<forall>e\<in>set es. \<exists>eng eng'. engines P e = Some eng \<and> engines P' e = Some eng' \<and> eng_ok D eng'
         \<and> eng_backlog eng' + eng_arriving eng' = eng_backlog eng + eng_arriving eng
         \<and> eng_backlog eng \<subseteq># eng_backlog eng' \<and> arrivals eng' = tl (arrivals eng) \<and> prefix (sent eng) (sent eng'))"
  using assms
proof (induction es arbitrary: P)
  case (Cons e es)
  then obtain eng where eng: "engines P e = Some eng" "eng_ok D eng" by auto
  obtain eng' where g: "RLO_make_progress_gen f e P = Some (set_eng P e eng')" "eng_ok D eng'"
    "eng_backlog eng' + eng_arriving eng' = eng_backlog eng + eng_arriving eng"
    "eng_backlog eng \<subseteq># eng_backlog eng'" "arrivals eng' = tl (arrivals eng)" "prefix (sent eng) (sent eng')"
    using make_progress_gen_ok [OF eng] by blast
  have "\<forall>d\<in>set es. \<exists>x. engines (set_eng P e eng') d = Some x \<and> eng_ok D x"
    using Cons.prems by auto
  then obtain P' where P': "each_engine (RLO_make_progress_gen f) es (set_eng P e eng') = Some P'"
    "active_engines P' = active_engines (set_eng P e eng')"
    "\<forall>d. d \<notin> set es \<longrightarrow> engines P' d = engines (set_eng P e eng') d"
    "\<forall>d\<in>set es. \<exists>x x'. engines (set_eng P e eng') d = Some x \<and> engines P' d = Some x' \<and> eng_ok D x'
         \<and> eng_backlog x' + eng_arriving x' = eng_backlog x + eng_arriving x
         \<and> eng_backlog x \<subseteq># eng_backlog x' \<and> arrivals x' = tl (arrivals x) \<and> prefix (sent x) (sent x')"
    using Cons.IH [of "set_eng P e eng'"] Cons.prems(1) by auto
  have "e \<notin> set es" using Cons.prems(1) by simp
  then have here: "engines P' e = Some eng'" using P'(3) by simp
  have there: "\<exists>x x'. engines P d = Some x \<and> engines P' d = Some x' \<and> eng_ok D x'
         \<and> eng_backlog x' + eng_arriving x' = eng_backlog x + eng_arriving x
         \<and> eng_backlog x \<subseteq># eng_backlog x' \<and> arrivals x' = tl (arrivals x) \<and> prefix (sent x) (sent x')" if "d \<in> set es" for d
    using bspec [OF P'(4) that] \<open>e \<notin> set es\<close> that by (auto split: if_splits)
  have "\<forall>d\<in>set (e # es). \<exists>x x'. engines P d = Some x \<and> engines P' d = Some x' \<and> eng_ok D x'
         \<and> eng_backlog x' + eng_arriving x' = eng_backlog x + eng_arriving x
         \<and> eng_backlog x \<subseteq># eng_backlog x' \<and> arrivals x' = tl (arrivals x) \<and> prefix (sent x) (sent x')"
    using there here eng g by auto
  then show ?case using P'(1,2,3) g(1) by (intro exI [of _ P']) auto
qed simp

lemma progress_all_ok:
  assumes "process_ok D P" and "engines P e = Some eng" and "active_engines P = Some es" and "e \<in> set es"
  shows "\<exists>P' eng'. progress_all P = Some P' \<and> process_ok D P' \<and> active_engines P' = active_engines P
    \<and> engines P' e = Some eng' \<and> eng_ok D eng'
    \<and> eng_backlog eng' + eng_arriving eng' = eng_backlog eng + eng_arriving eng
    \<and> eng_backlog eng \<subseteq># eng_backlog eng' \<and> arrivals eng' = tl (arrivals eng) \<and> prefix (sent eng) (sent eng')"
proof -
  have d: "distinct es" "\<forall>e\<in>set es. \<exists>eng. engines P e = Some eng \<and> eng_ok D eng"
    using assms(1,3) by (auto simp: process_ok_def)
  obtain P' where P': "each_engine (RLO_make_progress_gen (RLO_make_progress (incoming_cnt P))) es P = Some P'"
    "active_engines P' = active_engines P"
    "\<forall>e\<in>set es. \<exists>eng eng'. engines P e = Some eng \<and> engines P' e = Some eng' \<and> eng_ok D eng'
         \<and> eng_backlog eng' + eng_arriving eng' = eng_backlog eng + eng_arriving eng
         \<and> eng_backlog eng \<subseteq># eng_backlog eng' \<and> arrivals eng' = tl (arrivals eng) \<and> prefix (sent eng) (sent eng')"
    using each_engine_ok [OF d, of "RLO_make_progress (incoming_cnt P)"] by blast
  have "process_ok D P'" using P'(2,3) assms(3) d(1) by (auto simp: process_ok_def)
  moreover have "progress_all P = Some P'"
    using P'(1) assms(3) by (simp add: progress_all_def progress_fuel_def)
  ultimately show ?thesis using bspec [OF P'(3) assms(4)] assms(2) P'(2) by auto
qed

section \<open>Checking out\<close>

lemma find_unread_head:
  assumes "\<And>m. m \<in> set q \<Longrightarrow> \<exists>x. ms m = Some x \<and> pickup_done x = 0"
  shows "find_unread ms q = Some (case q of [] \<Rightarrow> None | m # _ \<Rightarrow> Some m)"
  using assms by (cases q) fastforce+

lemma user_msg_mock_bcast:
  assumes "msgs eng m = Some x" and "stat_tag x = RLO_BCAST"
  shows "user_msg_mock eng m = Some (eng\<lparr>msgs := (msgs eng)(m \<mapsto> x\<lparr>u_type := RLO_BCAST\<rparr>)\<rparr>)"
  using assms by (simp add: user_msg_mock_def upd_msg_def tag_defs)

lemma payload_obtain:
  assumes "payload b = Some p"
  obtains l q where "pbuf_deserialize (drop 8 (data_buf b)) = Some (l, q)"
    and "p = (case pb_data q of None \<Rightarrow> [] | Some d \<Rightarrow> d)"
  using assms by (auto simp: payload_def split: Option.bind_splits)

lemma checkout_engine_ok:
  assumes "eng_ok D eng"
  shows "if eng_backlog eng = {#} then checkout_engine eng = Some (0, None, eng)
    else (\<exists>b eng'. checkout_engine eng = Some (1, Some b, eng') \<and> eng_ok D eng' \<and> D b
      \<and> eng_backlog eng = add_mset b (eng_backlog eng') \<and> arrivals eng' = arrivals eng)"
proof -
  note ok = eng_okD [OF assms] and r = roles_alloc [OF eng_okD(5) [OF assms]]
  define n where "n = nat (send_list_len (my_bcomm eng))"
  have ff: "find_unread (msgs eng) (queue_wait_and_pickup eng) =
      Some (case queue_wait_and_pickup eng of [] \<Rightarrow> None | m # _ \<Rightarrow> Some m)"
    by (rule find_unread_head) (use r(4) in \<open>fastforce simp: fwd_msg_def\<close>)
  have fp: "find_unread (msgs eng) (queue_pickup eng) =
      Some (case queue_pickup eng of [] \<Rightarrow> None | m # _ \<Rightarrow> Some m)"
    by (rule find_unread_head) (use r(3) in \<open>fastforce simp: pick_msg_def\<close>)
  have same: "map_option m_buf (((msgs eng)(m := v)) i) = map_option m_buf (msgs eng i) \<and> msgs eng i \<noteq> None"
    if "i \<in> set (queue_wait_and_pickup eng) \<union> set (queue_pickup eng)" "i \<noteq> m" for i m v
    using that r(3,4) [of i] by auto
  show ?thesis
  proof (cases "queue_wait_and_pickup eng")
    case (Cons m q)
    obtain x where x: "msgs eng m = Some x" "fwd_msg D n x" using r(4) Cons by (auto simp: n_def)
    obtain p where p: "payload (m_buf x) = Some p" "D p" using x(2) by (auto simp: fwd_msg_def has_payload_def)
    obtain l pb where pb: "pbuf_deserialize (drop 8 (data_buf (m_buf x))) = Some (l, pb)"
      "p = (case pb_data pb of None \<Rightarrow> [] | Some d \<Rightarrow> d)" using payload_obtain [OF p(1)] .
    define x' where "x' = x\<lparr>u_type := RLO_BCAST, pickup_done := 1\<rparr>"
    define eng' where "eng' = eng\<lparr>queue_wait_and_pickup := q, queue_wait := queue_wait eng @ [m],
      msgs := (msgs eng)(m \<mapsto> x')\<rparr>"
    have "checkout_engine eng = Some (1, Some p, eng')"
      using x Cons ff pb
      by (simp add: checkout_engine_def RLO_user_pickup_next_def lq_remove_mem user_msg_mock_bcast fwd_msg_def
          RLO_user_msg_recycle_def upd_msg_def eng'_def x'_def)
    moreover have "msg_ok n x'" using x(2) by (simp add: fwd_msg_def msg_ok_def x'_def)
    then have "eng_ok D eng'"
      using ok roles_fwd_to_wait [OF ok(5), of m x'] Cons by (simp add: eng_ok_def eng'_def n_def)
    moreover have "eng_backlog eng = add_mset p (eng_backlog eng')"
    proof -
      have q: "m \<notin> set q" "m \<notin> set (queue_pickup eng)" using r(5) Cons by auto
      have "msg_payload eng' i = msg_payload eng i" if "i \<in> set q \<union> set (queue_pickup eng)" for i
        using that q by (auto simp: msg_payload_def eng'_def)
      then have "image_mset (msg_payload eng') (mset q + mset (queue_pickup eng))
          = image_mset (msg_payload eng) (mset q + mset (queue_pickup eng))"
        by (intro image_mset_cong) auto
      then show ?thesis
        using Cons x(1) p(1) by (simp add: eng_backlog_def eng'_def) (simp add: msg_payload_def)
    qed
    moreover have "arrivals eng' = arrivals eng" by (simp add: eng'_def)
    ultimately show ?thesis using p(2) by auto
  next
    case Nil
    show ?thesis
    proof (cases "queue_pickup eng")
      case pk: (Cons m q)
      obtain x where x: "msgs eng m = Some x" "pick_msg D n x" using r(3) pk by (auto simp: n_def)
      obtain p where p: "payload (m_buf x) = Some p" "D p" using x(2) by (auto simp: pick_msg_def has_payload_def)
      obtain l pb where pb: "pbuf_deserialize (drop 8 (data_buf (m_buf x))) = Some (l, pb)"
        "p = (case pb_data pb of None \<Rightarrow> [] | Some d \<Rightarrow> d)" using payload_obtain [OF p(1)] .
      define eng' where "eng' = eng\<lparr>queue_pickup := q, msgs := (msgs eng)(m := None)\<rparr>"
      have "checkout_engine eng = Some (1, Some p, eng')"
        using x Nil pk ff fp pb
        by (simp add: checkout_engine_def RLO_user_pickup_next_def lq_remove_mem user_msg_mock_bcast pick_msg_def
            RLO_user_msg_recycle_def RLO_msg_free_def upd_msg_def eng'_def)
      moreover have "eng_ok D eng'"
        using ok roles_drop_pick [OF ok(5), of m None] pk by (simp add: eng_ok_def eng'_def n_def)
      moreover have "eng_backlog eng = add_mset p (eng_backlog eng')"
      proof -
        have q: "m \<notin> set q" using r(5) pk by auto
        have "image_mset (msg_payload eng') (mset q) = image_mset (msg_payload eng) (mset q)"
          by (intro image_mset_cong) (use q in \<open>auto simp: msg_payload_def eng'_def\<close>)
        then show ?thesis
          using Nil pk x(1) p(1) by (simp add: eng_backlog_def eng'_def) (simp add: msg_payload_def)
      qed
      moreover have "arrivals eng' = arrivals eng" by (simp add: eng'_def)
      ultimately show ?thesis using p(2) by auto
    next
      case pk: Nil
      then show ?thesis using Nil ff fp
        by (simp add: eng_backlog_def checkout_engine_def RLO_user_pickup_next_def)
    qed
  qed
qed

section \<open>The rootless plugin is a voting service\<close>

definition encoded_proposal :: "byte list \<Rightarrow> bool" where
  "encoded_proposal b \<longleftrightarrow> proposal_decoder b \<noteq> (None :: unit proposal option)"

definition rlo_mgr :: "comm_env \<times> nat \<Rightarrow> nat \<Rightarrow>
  ('o, (byte list option \<Rightarrow> 'a \<Rightarrow> (c_int \<times> 'a) option) \<times> 'a, comm_env \<times> nat, 'a rlo_state) voting_mgr" where
  "rlo_mgr info e = \<lparr>voting_plugin = rlo_plugin info, vp_context = e\<rparr>"

definition rlo_ok :: "nat \<Rightarrow> 'a rlo_state \<Rightarrow> bool" where
  "rlo_ok e v \<longleftrightarrow> process_ok encoded_proposal (rlo_process v)
     \<and> (\<exists>es. active_engines (rlo_process v) = Some es \<and> e \<in> set es)"

definition rlo_backlog :: "nat \<Rightarrow> 'a rlo_state \<Rightarrow> byte list multiset" where
  "rlo_backlog e v = eng_backlog (the (engines (rlo_process v) e))"

definition rlo_incoming :: "nat \<Rightarrow> 'a rlo_state \<Rightarrow> byte list multiset" where
  "rlo_incoming e v = eng_arriving (the (engines (rlo_process v) e))"

text \<open>The tests for a message until all that arrives here has arrived.\<close>

definition rlo_pending :: "nat \<Rightarrow> 'a rlo_state \<Rightarrow> nat" where
  "rlo_pending e v = length (arrivals (the (engines (rlo_process v) e)))"

lemma rlo_okE:
  assumes "rlo_ok e v"
  obtains es eng where "process_ok encoded_proposal (rlo_process v)" and "active_engines (rlo_process v) = Some es"
    and "e \<in> set es" and "engines (rlo_process v) e = Some eng" and "eng_ok encoded_proposal eng"
    and "rlo_backlog e v = eng_backlog eng" and "rlo_incoming e v = eng_arriving eng"
proof -
  obtain es where es: "process_ok encoded_proposal (rlo_process v)" "active_engines (rlo_process v) = Some es"
    "e \<in> set es" using assms by (auto simp: rlo_ok_def)
  then obtain eng where "engines (rlo_process v) e = Some eng" "eng_ok encoded_proposal eng"
    by (auto simp: process_ok_def)
  then show thesis using that [OF es] by (simp add: rlo_backlog_def rlo_incoming_def)
qed

lemma process_ok_set_eng:
  "process_ok D P \<Longrightarrow> eng_ok D eng \<Longrightarrow> process_ok D (set_eng P e eng)"
  by (auto simp: process_ok_def)

lemma rlo_checkout_ok:
  assumes "rlo_ok e v"
  shows "if rlo_backlog e v = {#}
    then \<exists>v'. VM_checkout_proposal (rlo_mgr info e) v = Some (0, None, v') \<and> rlo_ok e v'
      \<and> rlo_backlog e v' = {#} \<and> rlo_incoming e v' = rlo_incoming e v \<and> rlo_pending e v' = rlo_pending e v
    else \<exists>b v'. VM_checkout_proposal (rlo_mgr info e) v = Some (1, Some b, v') \<and> rlo_ok e v'
      \<and> rlo_backlog e v = add_mset b (rlo_backlog e v') \<and> rlo_incoming e v' = rlo_incoming e v \<and> rlo_pending e v' = rlo_pending e v"
proof -
  obtain es eng where v: "process_ok encoded_proposal (rlo_process v)" "active_engines (rlo_process v) = Some es"
    "e \<in> set es" "engines (rlo_process v) e = Some eng" "eng_ok encoded_proposal eng"
    "rlo_backlog e v = eng_backlog eng" "rlo_incoming e v = eng_arriving eng"
    using assms by (rule rlo_okE)
  note c = checkout_engine_ok [OF v(5)]
  have unf: "VM_checkout_proposal (rlo_mgr info e) v = do {
      (r, b, eng') \<leftarrow> checkout_engine eng;
      Some (if r \<noteq> 0 then (1, b, v\<lparr>rlo_process := set_eng (rlo_process v) e eng'\<rparr>)
            else (0, None, v\<lparr>rlo_process := set_eng (rlo_process v) e eng'\<rparr>)) }"
    using v(4) by (simp add: VM_checkout_proposal_def rlo_mgr_def rlo_plugin_def vp_checkout_proposal_RLO_def
        lift_process_def split: Option.bind_splits)
  have keep: "rlo_ok e (v\<lparr>rlo_process := set_eng (rlo_process v) e eng'\<rparr>)" if "eng_ok encoded_proposal eng'" for eng'
    using v(1-3) that by (simp add: rlo_ok_def process_ok_set_eng)
  show ?thesis
  proof (cases "eng_backlog eng = {#}")
    case True
    define v' where "v' = v\<lparr>rlo_process := set_eng (rlo_process v) e eng\<rparr>"
    have "VM_checkout_proposal (rlo_mgr info e) v = Some (0, None, v')" using True c unf by (simp add: v'_def)
    moreover have "rlo_backlog e v' = eng_backlog eng" "rlo_incoming e v' = eng_arriving eng" "rlo_pending e v' = rlo_pending e v"
      using v(4) by (simp_all add: rlo_backlog_def rlo_incoming_def rlo_pending_def v'_def)
    ultimately show ?thesis using True keep [OF v(5)] v(6,7) unfolding v'_def [symmetric] by auto
  next
    case False
    then obtain b eng' where e: "checkout_engine eng = Some (1, Some b, eng')" "eng_ok encoded_proposal eng'"
      "eng_backlog eng = add_mset b (eng_backlog eng')" "arrivals eng' = arrivals eng"
      using c by auto
    define v' where "v' = v\<lparr>rlo_process := set_eng (rlo_process v) e eng'\<rparr>"
    have "VM_checkout_proposal (rlo_mgr info e) v = Some (1, Some b, v')" using e(1) unf by (simp add: v'_def)
    moreover have "rlo_backlog e v' = eng_backlog eng'" "rlo_incoming e v' = eng_arriving eng"
      "rlo_pending e v' = rlo_pending e v"
      using e(4) v(4) by (simp_all add: rlo_backlog_def rlo_incoming_def rlo_pending_def v'_def eng_arriving_def)
    moreover have "rlo_ok e v'" using keep [OF e(2)] by (simp add: v'_def)
    ultimately have "\<exists>b v'. VM_checkout_proposal (rlo_mgr info e) v = Some (1, Some b, v') \<and> rlo_ok e v'
      \<and> rlo_backlog e v = add_mset b (rlo_backlog e v') \<and> rlo_incoming e v' = rlo_incoming e v \<and> rlo_pending e v' = rlo_pending e v"
      using e(3) v(6,7) by (intro exI [of _ b] exI [of _ v']) simp
    then show ?thesis using False v(6) by simp
  qed
qed

lemma rlo_progress_ok:
  assumes "rlo_ok e v"
  shows "\<exists>r v'. VM_voting_make_progress (rlo_mgr info e) v = Some (r, v') \<and> rlo_ok e v'
    \<and> rlo_backlog e v' + rlo_incoming e v' = rlo_backlog e v + rlo_incoming e v
    \<and> rlo_backlog e v \<subseteq># rlo_backlog e v' \<and> rlo_pending e v' = rlo_pending e v - 1"
proof -
  obtain es eng where v: "process_ok encoded_proposal (rlo_process v)" "active_engines (rlo_process v) = Some es"
    "e \<in> set es" "engines (rlo_process v) e = Some eng" "eng_ok encoded_proposal eng"
    "rlo_backlog e v = eng_backlog eng" "rlo_incoming e v = eng_arriving eng"
    using assms by (rule rlo_okE)
  obtain P' eng' where p: "progress_all (rlo_process v) = Some P'" "process_ok encoded_proposal P'"
    "active_engines P' = active_engines (rlo_process v)" "engines P' e = Some eng'"
    "eng_backlog eng' + eng_arriving eng' = eng_backlog eng + eng_arriving eng"
    "eng_backlog eng \<subseteq># eng_backlog eng'" "arrivals eng' = tl (arrivals eng)"
    using progress_all_ok [OF v(1,4,2,3)] by blast
  have "VM_voting_make_progress (rlo_mgr info e) v = Some (0, v\<lparr>rlo_process := P'\<rparr>)"
    by (simp add: VM_voting_make_progress_def rlo_mgr_def rlo_plugin_def vp_make_progress_RLO_def
        lift_process_def p(1))
  moreover have "rlo_ok e (v\<lparr>rlo_process := P'\<rparr>)" using p v by (simp add: rlo_ok_def)
  moreover have "rlo_backlog e (v\<lparr>rlo_process := P'\<rparr>) = eng_backlog eng'"
    "rlo_incoming e (v\<lparr>rlo_process := P'\<rparr>) = eng_arriving eng'"
    "rlo_pending e (v\<lparr>rlo_process := P'\<rparr>) = rlo_pending e v - 1"
    using p(4,7) v(4) by (simp_all add: rlo_backlog_def rlo_incoming_def rlo_pending_def)
  ultimately show ?thesis
    using p(5,6) v(6,7) by (intro exI [of _ 0] exI [of _ "v\<lparr>rlo_process := P'\<rparr>"]) simp
qed

lemma in_sum_list_mset: "c \<in># sum_list Ms \<longleftrightarrow> (\<exists>M\<in>set Ms. c \<in># M)"
  by (induction Ms) auto

lemma rlo_decodes:
  assumes "rlo_ok e v" and "b \<in># rlo_backlog e v + rlo_incoming e v"
  shows "proposal_decoder b \<noteq> (None :: unit proposal option)"
proof -
  obtain es eng where v0: "process_ok encoded_proposal (rlo_process v)" "active_engines (rlo_process v) = Some es"
    "e \<in> set es" "engines (rlo_process v) e = Some eng" and v: "eng_ok encoded_proposal eng"
    "rlo_backlog e v = eng_backlog eng" "rlo_incoming e v = eng_arriving eng"
    using assms(1) by (rule rlo_okE)
  have queued: "encoded_proposal (msg_payload eng m)"
    if "m \<in> set (queue_wait_and_pickup eng) \<union> set (queue_pickup eng)" for m
    using that roles_alloc(3,4) [OF eng_okD(5) [OF v(1)], of m]
    by (auto simp: msg_payload_def fwd_msg_def pick_msg_def has_payload_def)
  have "encoded_proposal c" if "c \<in># arrival_payload a" "a \<in> set (arrivals eng)" for c a
    using that(1) bspec [OF eng_okD(6) [OF v(1)] that(2)]
    by (cases a rule: arrival_payload.cases) (auto simp: good_arrival_def)
  then have arriving: "encoded_proposal c" if "c \<in># eng_arriving eng" for c
    using that by (auto simp: eng_arriving_def in_sum_list_mset)
  have "encoded_proposal b"
    using assms(2) v(2,3) queued arriving by (auto simp: eng_backlog_def)
  then show ?thesis by (simp add: encoded_proposal_def)
qed

lemma rlo_checkout_none:
  "rlo_ok e v \<Longrightarrow> rlo_backlog e v = {#} \<Longrightarrow> \<exists>v'. VM_checkout_proposal (rlo_mgr info e) v = Some (0, None, v')
    \<and> rlo_ok e v' \<and> rlo_backlog e v' = {#} \<and> rlo_incoming e v' = rlo_incoming e v"
  using rlo_checkout_ok [of e v info] by auto

lemma rlo_checkout_some:
  "rlo_ok e v \<Longrightarrow> rlo_backlog e v \<noteq> {#} \<Longrightarrow> \<exists>b v'. VM_checkout_proposal (rlo_mgr info e) v = Some (1, Some b, v')
    \<and> rlo_ok e v' \<and> rlo_backlog e v = add_mset b (rlo_backlog e v') \<and> rlo_incoming e v' = rlo_incoming e v"
  using rlo_checkout_ok [of e v info] by auto

interpretation rlo: voting_service "rlo_mgr info e" "rlo_ok e" "rlo_backlog e" "rlo_incoming e"
  for info :: "comm_env \<times> nat" and e :: nat
proof unfold_locales
  show "\<exists>r v'. VM_voting_make_progress (rlo_mgr info e) v = Some (r, v') \<and> rlo_ok e v'
      \<and> rlo_backlog e v' + rlo_incoming e v' = rlo_backlog e v + rlo_incoming e v \<and> rlo_backlog e v \<subseteq># rlo_backlog e v'"
    if "rlo_ok e v" for v
    using rlo_progress_ok [OF that, of info] by blast
qed (rule rlo_checkout_none rlo_checkout_some rlo_decodes; assumption)+

end
