(* ===== verification/Helper_Service.thy ===== *)
theory Helper_Service
  imports Bcast_Service
begin

text \<open>
  The update helper over the voting plugin in broadcast mode: what initialisation establishes, and
  that making progress neither loses nor repeats a proposal and executes those that are due in the
  order of their time stamps.
\<close>

section \<open>Making progress over a voting service\<close>

definition buf_key :: "byte list \<Rightarrow> nat \<times> int" where
  "buf_key b = (let p = the (proposal_decoder b :: unit proposal option) in (unat (time p), sint (pid p)))"

lemma record_key_buf: "node_proposal s a \<noteq> None \<Longrightarrow> record_key s a = buf_key (the (node_data s a))"
  by (auto simp: record_key_def buf_key_def node_proposal_def bind_eq_Some_conv)

lemma sorted_node_bufs:
  assumes "decodable s xs"
  shows "sorted (map buf_key (node_bufs s (sort_key (record_key s) xs)))"
proof -
  have "map buf_key (node_bufs s (sort_key (record_key s) xs)) = map (record_key s) (sort_key (record_key s) xs)"
    using assms by (auto simp: node_bufs_def decodable_def record_key_buf)
  then show ?thesis by (simp add: sorted_sort_key)
qed

lemma mset_node_bufs: "mset (node_bufs s xs) = image_mset (\<lambda>a. the (node_data s a)) (mset xs)"
  by (simp add: node_bufs_def)

lemma mset_node_bufs_cong:
  assumes "\<And>a. a \<in> set xs \<Longrightarrow> qs_data s' a = qs_data s a"
  shows "mset (node_bufs s' xs) = mset (node_bufs s xs)"
  using assms by (auto simp: mset_node_bufs node_data_def intro!: image_mset_cong)

definition total_execute :: "('c, 'w) execution_mgr \<Rightarrow> bool" where
  "total_execute e \<longleftrightarrow> (\<forall>b w. \<exists>r w'. EM_execute e b w = Some (r, w'))"

lemma total_execute_in_order: "total_execute e \<Longrightarrow> \<exists>w'. execute_in_order e bs w = Some w'"
proof (induction bs arbitrary: w)
  case (Cons b bs)
  then obtain r w1 where "EM_execute e b w = Some (r, w1)" unfolding total_execute_def by blast
  with Cons show ?case by auto
qed simp

text \<open>Whether a proposal is older than the window at a reading of the clock.\<close>

definition due_at :: "(nat \<Rightarrow> c_ulong) \<Rightarrow> c_ulong \<Rightarrow> nat \<Rightarrow> byte list \<Rightarrow> bool" where
  "due_at clk win t b \<longleftrightarrow> clk t - time (the (proposal_decoder b :: unit proposal option)) > win"

lemma kept_not_due:
  assumes "a \<in> set (kept_nodes clk win s t xs)" and "decodable s xs"
  shows "\<exists>t'\<ge>t. \<not> due_at clk win t' (the (node_data s a))"
proof -
  obtain t' where t': "(t', a) \<in> set (enumerate t xs)" "\<not> aged clk win s (t', a)"
    using assms(1) by (auto simp: kept_nodes_def)
  then have "a \<in> set xs" "t \<le> t'" by (auto simp: in_set_enumerate_eq)
  with assms(2) have "node_proposal s a = proposal_decoder (the (node_data s a))"
    by (cases "node_data s a") (auto simp: node_proposal_def decodable_def)
  with t' \<open>t \<le> t'\<close> show ?thesis by (auto simp: aged_def due_at_def)
qed

context voting_service
begin

text \<open>
  It is enough that the proposals that may be executed can be: those of the two queues, those to be
  checked out and those under way.
\<close>

lemma make_progress_runs:
  assumes rep: "mm_rep m xs ys" and vm: "mm_vm m = vmgr" and vok: "vok (mm_vs m)" and em: "mm_em m = Some e"
    and runs: "\<And>bs. mset bs \<subseteq># mset (node_bufs (mm_store m) (xs @ ys)) + backlog (mm_vs m) + incoming (mm_vs m)
      \<Longrightarrow> execute_in_order e bs (mm_app m) \<noteq> None"
  obtains m' kept ds v m2 where "MM_make_progress m = Some m'" and "mm_rep m' kept []" and "mm_const m' = mm_const m"
    and "vok (mm_vs m')" and "backlog (mm_vs m') = {#}" and "sorted (map buf_key ds)"
    and "execute_in_order e ds (mm_app m) = Some (mm_app m')"
    and "mset (node_bufs (mm_store m') kept) + mset ds + incoming (mm_vs m')
      = mset (node_bufs (mm_store m) (xs @ ys)) + backlog (mm_vs m) + incoming (mm_vs m)"
    and "mm_ticks m \<le> mm_ticks m'"
    and "\<forall>b\<in>set (node_bufs (mm_store m') kept). \<exists>t\<ge>mm_ticks m. \<not> due_at (mm_clock m) (time_window_size m) t b"
    and "mm_voting_make_progress m = Some (m\<lparr>mm_vs := v\<rparr>)" and "vok v"
    and "checkout_proposal_make_progress (m\<lparr>mm_vs := v\<rparr>) = Some m2" and "mm_vs m' = mm_vs m2"
proof -
  obtain v' where v': "mm_voting_make_progress m = Some (m\<lparr>mm_vs := v'\<rparr>)" "vok v'"
    "backlog v' + incoming v' = backlog (mm_vs m) + incoming (mm_vs m)"
    using progress_obtain [OF vok vm] by blast
  let ?m1 = "m\<lparr>mm_vs := v'\<rparr>"
  obtain m2 new where m2: "checkout_proposal_make_progress ?m1 = Some m2" "mm_rep m2 (xs @ new) ys"
    "mset (node_bufs (mm_store m2) new) = backlog v'" "vok (mm_vs m2)" "backlog (mm_vs m2) = {#}"
    "incoming (mm_vs m2) = incoming v'" "\<forall>x\<in>set (xs @ ys). qs_data (mm_store m2) x = qs_data (mm_store m) x"
    "mm_const m2 = mm_const m" "mm_app m2 = mm_app m" "mm_ticks m2 = mm_ticks m"
    using checkout_takes_all [of ?m1 xs ys] rep vm v'(2) by auto
  obtain e2 where e2: "mm_em m2 = Some e2" "execute_cb e2 = execute_cb e" "em_app_ctx e2 = em_app_ctx e"
    using m2(2,8) em by (auto simp: mm_const_def mm_rep_def)
  have clk: "mm_clock m2 = mm_clock m" "time_window_size m2 = time_window_size m"
    using m2(8) by (simp_all add: mm_const_def)
  define K where "K = kept_nodes (mm_clock m2) (time_window_size m2) (mm_store m2) (mm_ticks m2) (xs @ new)"
  define A where "A = aged_nodes (mm_clock m2) (time_window_size m2) (mm_store m2) (mm_ticks m2) (xs @ new)"
  define order where "order = sort_key (record_key (mm_store m2)) (ys @ A)"
  define bufs where "bufs = node_bufs (mm_store m2) order"
  have KA: "mset K + mset A = mset (xs @ new)" by (simp add: K_def A_def kept_aged_mset)
  then have setKA: "set K \<union> set A = set (xs @ new)" by (metis set_mset_mset set_mset_union)
  have dec: "decodable (mm_store m2) (xs @ new @ ys)" using m2(2) by (auto simp: mm_rep_def)
  then have decA: "decodable (mm_store m2) (ys @ A)" and decX: "decodable (mm_store m2) (xs @ new)"
    using setKA unfolding decodable_def by auto
  have "mset (node_bufs (mm_store m2) K) + mset bufs = mset (node_bufs (mm_store m2) (xs @ new @ ys))"
  proof -
    have "mset K + mset order = mset xs + mset new + mset ys" using KA by (simp add: order_def ac_simps)
    from arg_cong [OF this, of "image_mset (\<lambda>a. the (node_data (mm_store m2) a))"]
    show ?thesis by (simp add: bufs_def mset_node_bufs)
  qed
  also have "\<dots> = mset (node_bufs (mm_store m) (xs @ ys)) + backlog v'"
    using m2(3) mset_node_bufs_cong [of "xs @ ys" "mm_store m2" "mm_store m"] m2(7)
    by (simp add: mset_node_bufs ac_simps)
  finally have bufs: "mset (node_bufs (mm_store m2) K) + mset bufs + incoming v'
      = mset (node_bufs (mm_store m) (xs @ ys)) + backlog (mm_vs m) + incoming (mm_vs m)"
    using v'(3) by (simp add: ac_simps)
  have "mset bufs \<subseteq># mset (node_bufs (mm_store m) (xs @ ys)) + backlog (mm_vs m) + incoming (mm_vs m)"
    unfolding bufs [symmetric] by (simp add: subset_eq_diff_conv)
  then obtain w' where w': "execute_in_order e bufs (mm_app m) = Some w'" using runs by blast
  then have "execute_in_order e2 (node_bufs (mm_store m2) (sort_key (record_key (mm_store m2)) (ys @ A))) (mm_app m2) = Some w'"
    using execute_in_order_cong [OF e2(2,3)] m2(9) by (simp add: bufs_def order_def)
  from MM_make_progress_rep [OF v'(1) m2(1,2) e2(1) A_def [THEN arg_cong, of "\<lambda>a. ys @ a"] this]
  obtain m' where m': "MM_make_progress m = Some m'" "mm_app m' = w'" "mm_const m' = mm_const m2"
    "mm_rep m' K []" "mm_vs m' = mm_vs m2" "mm_ticks m2 \<le> mm_ticks m'"
    "\<And>x. x \<notin> set (ys @ A) \<Longrightarrow> qs_data (mm_store m') x = qs_data (mm_store m2) x"
    by (auto simp: K_def)
  have dist: "distinct (xs @ new @ ys)" using mm_rep_distinct [OF m2(2)] by simp
  have "distinct (K @ A)"
  proof -
    have "mset (K @ A) = mset (xs @ new)" using KA by simp
    then show ?thesis using dist mset_eq_imp_distinct_iff by fastforce
  qed
  then have "set K \<inter> set (ys @ A) = {}" using setKA dist by auto
  then have K: "node_bufs (mm_store m') K = node_bufs (mm_store m2) K"
    unfolding node_bufs_def by (intro map_cong refl arg_cong [of _ _ the] node_data_cong m'(7)) auto
  have "mset (node_bufs (mm_store m') K) + mset bufs + incoming (mm_vs m')
      = mset (node_bufs (mm_store m) (xs @ ys)) + backlog (mm_vs m) + incoming (mm_vs m)"
    using bufs K m'(5) m2(6) by simp
  moreover have "sorted (map buf_key bufs)" unfolding bufs_def order_def by (rule sorted_node_bufs [OF decA])
  moreover have "\<forall>b\<in>set (node_bufs (mm_store m') K). \<exists>t\<ge>mm_ticks m. \<not> due_at (mm_clock m) (time_window_size m) t b"
    unfolding K unfolding K_def clk m2(10) node_bufs_def using kept_not_due [OF _ decX] by auto
  ultimately show thesis
    using that [of m' K bufs v' m2] m' m2 w' v'(1,2) by simp
qed

lemma make_progress_conserves:
  assumes rep: "mm_rep m xs ys" and vm: "mm_vm m = vmgr" and vok: "vok (mm_vs m)"
    and em: "mm_em m = Some e" and total: "total_execute e"
  shows "\<exists>m' kept done. MM_make_progress m = Some m' \<and> mm_rep m' kept [] \<and> mm_const m' = mm_const m
    \<and> vok (mm_vs m') \<and> backlog (mm_vs m') = {#}
    \<and> sorted (map buf_key done) \<and> execute_in_order e done (mm_app m) = Some (mm_app m')
    \<and> mset (node_bufs (mm_store m') kept) + mset done + incoming (mm_vs m')
      = mset (node_bufs (mm_store m) (xs @ ys)) + backlog (mm_vs m) + incoming (mm_vs m)"
proof -
  have "execute_in_order e bs (mm_app m) \<noteq> None" for bs
    using total_execute_in_order [OF total, of bs "mm_app m"] by blast
  then show ?thesis by (rule_tac make_progress_runs [OF rep vm vok em]) blast+
qed

end


section \<open>A new engine, a new helper\<close>

lemma bcomm_init_msg_size:
  assumes "bcomm_init ws r = Some b"
  shows "msg_size_max b = RLO_MSG_SIZE_MAX"
proof -
  have nz: "\<not> ws < 2" using assms by (auto simp: bcomm_init_def)
  obtain level p2 where lp: "get_level ws r = Some level" "is_powerof2 ws = Some p2"
    using assms nz by (cases "get_level ws r"; cases "is_powerof2 ws") (auto simp: bcomm_init_def)
  show ?thesis using assms nz lp by (simp add: bcomm_init_def Let_def case_prod_unfold) (elim subst, simp)
qed

lemma comm_ok_init:
  assumes "2 \<le> ws" and "ws \<le> 2 ^ 30" and "0 \<le> r" and "r < ws"
  obtains b where "bcomm_init ws r = Some b" and "comm_ok b" and "my_rank b = r"
proof -
  obtain b k where b: "bcomm_init ws r = Some b" "ring_links ws r k b" using bcomm_init_links [OF assms] .
  have "msg_size_max b = RLO_MSG_SIZE_MAX"
    by (rule bcomm_init_msg_size [OF b(1)])
  with b assms show ?thesis by (intro that [of b]) (auto simp: comm_ok_def ring_links_simps)
qed

definition env_ok :: "comm_env \<Rightarrow> bool" where
  "env_ok env \<longleftrightarrow> 2 \<le> ce_size env \<and> ce_size env \<le> 2 ^ 30 \<and> 0 \<le> ce_rank env \<and> ce_rank env < ce_size env"

definition env_arriving :: "comm_env \<Rightarrow> byte list multiset" where
  "env_arriving env = sum_list (map arrival_payload (ce_arrivals env))"

lemma new_engine_ok:
  assumes env: "env_ok env" and arr: "\<forall>a\<in>set (ce_arrivals env). good_arrival D a"
    and P: "active_engines P = None \<or> process_ok D P" and new: "e \<notin> set (case active_engines P of None \<Rightarrow> [] | Some es \<Rightarrow> es)"
  shows "\<exists>P' eng. RLO_progress_engine_new env cb ctx act e P = Some P' \<and> process_ok D P'
    \<and> active_engines P' = Some ((case active_engines P of None \<Rightarrow> [] | Some es \<Rightarrow> es) @ [e])
    \<and> engines P' e = Some eng \<and> eng_ok D eng \<and> eng_backlog eng = {#} \<and> eng_arriving eng = env_arriving env"
proof -
  obtain b where b: "bcomm_init (ce_size env) (ce_rank env) = Some b" "comm_ok b"
    using comm_ok_init env by (metis env_ok_def)
  let ?es = "case active_engines P of None \<Rightarrow> [] | Some es \<Rightarrow> es"
  define x where "x = \<lparr>m_buf = RLO_msg_new_generic_buf (word_of_int (my_rank b)),
             u_type = - 1, u_pid = - 1, u_vote = - 1, u_time_stamp = 0, u_data_len = 0,
             send_type = 0, stat_source = 0, stat_tag = 0,
             isend_reqs = replicate (nat (send_list_len b)) Req_zero,
             prop_state = None, send_cnt = 0, pickup_done = 0, fwd_done = 0, bc_init = 0\<rparr>"
  obtain P' eng where P': "RLO_progress_engine_new env cb ctx act e P = Some P'"
    "active_engines P' = Some (?es @ [e])" "engines P' = (engines P)(e \<mapsto> eng)"
    "my_bcomm eng = b" "queue_recv eng = [0]" "queue_wait eng = []" "queue_pickup eng = []"
    "queue_wait_and_pickup eng = []" "queue_iar_pending eng = []" "my_own_proposal eng = proposal_state_init None"
    "msgs eng = [0 \<mapsto> x]" "next_msg eng = 1" "arrivals eng = ce_arrivals env"
    using b(1) by (simp add: RLO_progress_engine_new_def RLO_msg_new_generic_def Let_def set_eng_def x_def)
  have "recv_msg (nat (send_list_len b)) x"
    by (simp add: recv_msg_def x_def RLO_msg_new_generic_buf_def)
  then have ok: "eng_ok D eng"
    using b(2) arr P' by (simp add: eng_ok_def roles_def proposal_state_init_def)
  have "process_ok D P'"
    using P P'(2,3) ok new by (auto simp: process_ok_def split: option.splits)
  moreover have "eng_backlog eng = {#}" "eng_arriving eng = env_arriving env"
    using P' by (simp_all add: eng_backlog_def eng_arriving_def env_arriving_def)
  ultimately show ?thesis using P' ok by (intro exI [of _ P'] exI [of _ eng]) simp
qed

lemma rlo_helper_init:
  assumes "env_ok env" and "\<forall>a\<in>set (ce_arrivals env). good_arrival encoded_proposal a"
    and "active_engines (rlo_process v) = None" and "\<forall>a\<in>dom (qs_links s). a < qs_fresh s"
  shows "\<exists>m :: ('o, _, _, _, _, _) metadata_manager.
      MM_metadata_update_helper_init md ws window judgement ctx (rlo_plugin (env, e)) cb_execute s v w clk n = Some m
    \<and> mm_rep m [] [] \<and> mm_vm m = rlo_mgr (env, e) e \<and> rlo_ok e (mm_vs m)
    \<and> rlo_backlog e (mm_vs m) = {#} \<and> rlo_incoming e (mm_vs m) = env_arriving env
    \<and> mm_app m = w \<and> mm_mode m = md \<and> time_window_size m = window
    \<and> (\<exists>em. mm_em m = Some em \<and> execute_cb em = cb_execute \<and> em_app_ctx em = ctx)"
proof -
  obtain P' eng where P': "RLO_progress_engine_new env (fst judgement) (snd judgement) None e (rlo_process v) = Some P'"
    "process_ok encoded_proposal P'" "active_engines P' = Some [e]" "engines P' e = Some eng"
    "eng_backlog eng = {#}" "eng_arriving eng = env_arriving env"
    using new_engine_ok [OF assms(1,2), of "rlo_process v" e "fst judgement" "snd judgement" None] assms(3) by auto
  let ?v = "v\<lparr>rlo_process := P'\<rparr>"
  have ok: "rlo_ok e ?v" "rlo_backlog e ?v = {#}" "rlo_incoming e ?v = env_arriving env"
    using P' by (simp_all add: rlo_ok_def rlo_backlog_def rlo_incoming_def)
  let ?mgr = "rlo_mgr (env, e) e :: ('o, _, _, _) voting_mgr"
  have vm: "VM_voting_manager_init (rlo_plugin (env, e)) judgement v = Some (?mgr, ?v)"
    using P'(1) by (simp add: VM_voting_manager_init_def rlo_plugin_def vp_init_RLO_def lift_process_def rlo_mgr_def)
  obtain v2 where v2: "VM_checkout_proposal ?mgr ?v = Some (0, None, v2)" "rlo_ok e v2"
    "rlo_backlog e v2 = {#}" "rlo_incoming e v2 = env_arriving env"
    using rlo_checkout_none [OF ok(1,2)] ok(3) by metis
  have "mm_rep \<lparr>mm_mode = md, mm_world_size = ws, time_window_size = window, mm_app_ctx = ctx,
       mm_vm = ?mgr, mm_lm = Some LM_ledger_manager_init,
       mm_em = Some (EM_execution_manager_init cb_execute ctx), mm_store = s, mm_vs = v2, mm_app = w,
       mm_clock = clk, mm_ticks = n\<rparr> [] []"
    using assms(4)
    by (auto simp: mm_rep_def LM_ledger_manager_init_def EM_execution_manager_init_def
        gen_queue_init_def zero_queue_def Q_ACTIVE_def gq_rep_def dlist_empty)
  then show ?thesis
    using vm v2
    by (simp add: MM_metadata_update_helper_init_def EM_execution_manager_init_def
        checkout_proposal_make_progress.simps)
qed

end
