(* ===== verification/Ring_Properties.thy ===== *)
theory Ring_Properties
  imports IAR_Decision Progress_Fuel Helper_Service
begin

text \<open>
  The properties of the engine's components: the ring, the vote, the progress engine, the pool of
  proposals and the packages they travel in, each with an instance at a concrete input.
\<close>

section \<open>The ring\<close>

text \<open>
  C1: a broadcast from any rank of a communicator of 2 to \<open>2 ^ 30\<close> ranks, forwarded by every rank along
  the skip ring as \<open>_bc_forward\<close> does, reaches every other rank exactly once.
\<close>

theorem broadcast_exactly_once:
  assumes "ring_ok ws origin"
  shows "mset (broadcast (ring_fuel ws) ws origin) = mset_set ({0..<ws} - {origin})"
  by (rule broadcast_mset [OF assms]) (simp add: ring_fuel_def)

theorem broadcast_exactly_once_witness:
  "mset (broadcast (ring_fuel 6) 6 2) = mset_set ({0..<6} - {2})"
  by (rule broadcast_exactly_once) (simp add: ring_ok_def)

text \<open>
  C2: in whatever order the messages of a broadcast arrive, no rank is reached twice, at most
  \<open>ws - 1\<close> messages are delivered, every message under way can be delivered, and when none is under
  way every rank but the origin has been reached.
\<close>

theorem broadcast_any_order:
  assumes ok: "ring_ok ws origin" and b: "bcomm_init ws origin = Some b" and run: "bc_run ws origin b n (fl, dl)"
  shows "dl \<subseteq># mset_set ({0..<ws} - {origin}) \<and> int n \<le> ws - 1
    \<and> (fl \<noteq> {#} \<longrightarrow> (\<exists>c. bc_step ws origin (fl, dl) c))
    \<and> (fl = {#} \<longrightarrow> dl = mset_set ({0..<ws} - {origin}))"
proof -
  let ?all = "mset_set ({0..<ws} - {origin})"
  have range: "0 \<le> snd m \<and> snd m < ws" if "m \<in># fl" for m
    using bc_run_inv [OF ok b run] that by (auto simp: bc_inv_def)
  have sum: "dl + (\<Sum>m\<in>#fl. below ws origin (ring_fuel ws) m) = ?all" and "size dl = n"
    using bc_run_inv [OF ok b run] by (auto simp: bc_inv_def)
  then have sub: "dl \<subseteq># ?all" by (metis mset_subset_eq_add_left)
  have "size ?all = nat (ws - 1)" using ok by (simp add: ring_ok_def)
  with size_mset_mono [OF sub] \<open>size dl = n\<close> have "n \<le> nat (ws - 1)" by argo
  then have "int n \<le> ws - 1" using ok unfolding ring_ok_def by linarith
  moreover have "\<exists>c. bc_step ws origin (fl, dl) c" if ne: "fl \<noteq> {#}"
  proof -
    obtain src r where m: "(src, r) \<in># fl" using ne by (metis multiset_nonemptyE surj_pair)
    then obtain b' where "bcomm_init ws r = Some b'"
      using range [OF m] ok bcomm_init_links [of ws r] by (auto simp: ring_ok_def)
    with m show ?thesis by (blast intro: bc_step.deliver)
  qed
  ultimately show ?thesis using sub sum by auto
qed

theorem broadcast_any_order_witness:
  "\<exists>b c. bcomm_init 4 0 = Some b \<and> bc_run 4 0 b 0 c \<and> (\<exists>c'. bc_step 4 0 c c')"
proof -
  obtain b k where b: "bcomm_init 4 0 = Some b" "ring_links 4 0 k b" using bcomm_init_links [of 4 0] by auto
  have "fst (bc_start 0 b) \<noteq> {#}"
    using ring_links_bcast_dests [OF b(2)] ring_links_send_list [OF b(2)] by (simp add: bc_start_def)
  moreover have "bc_run 4 0 b 0 (bc_start 0 b)" by (rule bc_run.start)
  ultimately have "\<exists>c. bc_step 4 0 (bc_start 0 b) c"
    using broadcast_any_order [of 4 0 b 0 "fst (bc_start 0 b)" "snd (bc_start 0 b)"] b(1)
    by (simp add: ring_ok_def)
  then show ?thesis using b(1) bc_run.start by metis
qed

text \<open>
  \<open>is_powerof2\<close> decides whether its argument is a power of two, for every argument but 0, on which
  its loop does not end.
\<close>

theorem is_powerof2_decides:
  "is_powerof2 (int n) = (if n = 0 then None else Some (if \<exists>k. n = 2 ^ k then 1 else 0))"
proof (cases "n = 0")
  case True
  then show ?thesis by (simp add: is_powerof2_def powerof2_loop_zero)
next
  case False
  have "(\<exists>k. int n = 2 ^ k) \<longleftrightarrow> (\<exists>k. n = 2 ^ k)"
    by (metis of_nat_eq_iff of_nat_numeral of_nat_power)
  with False show ?thesis by (simp add: is_powerof2_eq)
qed




section \<open>The vote at a rank\<close>

text \<open>
  For the instances: rank 2 of 4, which has rank 3 below it, about to receive message 0 from rank 0.
\<close>

definition rank2_comm :: bcomm where
  "rank2_comm = \<lparr>my_rank = 2, world_size = 4, msg_size_max = 32768, my_level = 1, bc_last_wall = 0,
     world_is_power_of_2 = 1, send_channel_cnt = 1, send_list_len = 2, send_list = [3, 0],
     bcast_send_cnt = 0, my_bcast_cnt = 0, bcast_recv_cnt = 0\<rparr>"

definition package :: "c_int \<Rightarrow> c_int \<Rightarrow> byte list" where
  "package k v = put_int 0 @ put_ulong 33 @ put_ulong 33 @ put_int k @ put_int v @ put_ulong 0 @ put_ulong 1 @ [9]"

definition package_msg :: "int \<Rightarrow> byte list \<Rightarrow> RLO_msg" where
  "package_msg tag b = \<lparr>m_buf = b, u_type = 0, u_pid = 0, u_vote = 0, u_time_stamp = 0, u_data_len = 0,
     send_type = 0, stat_source = 0, stat_tag = tag, isend_reqs = [Req_zero, Req_zero], prop_state = None,
     send_cnt = 0, pickup_done = 0, fwd_done = 0, bc_init = 0\<rparr>"

definition rank2 :: "(nat \<rightharpoonup> RLO_msg) \<Rightarrow> unit engine" where
  "rank2 ms = \<lparr>my_bcomm = rank2_comm, engine_id = 1, queue_recv = [], queue_wait = [], queue_pickup = [],
     queue_wait_and_pickup = [], queue_iar_pending = [], recved_bcast_cnt = 0, sent_bcast_cnt = 0,
     my_own_proposal = proposal_state_init None, proposal_state_pool = [], my_proposal = None,
     prop_judgement_cb = (\<lambda>b a. Some (1, a)), proposal_action = None, app_ctx = (), fwd_queued = 0,
     msgs = ms, next_msg = 2, arrivals = [], sent = [], send_complete = (\<lambda>i t. True), mpi_tick = 0\<rparr>"

lemma package_read:
  "get_origin (package k v) = Some 0"
  "pbuf_deserialize (drop 8 (data_buf (package k v))) =
     Some (1, \<lparr>pb_pid = k, pb_vote = v, pb_time_stamp = 0, pb_data_len = 1, pb_data = Some [9]\<rparr>)"
proof -
  show "get_origin (package k v) = Some 0" by (simp add: get_origin_def package_def codec_simps)
  have "drop 8 (data_buf (package k v)) = put_ulong 33 @ put_int k @ put_int v @ put_ulong 0 @ put_ulong 1 @ [9]"
    by (simp add: data_buf_def package_def)
  then show "pbuf_deserialize (drop 8 (data_buf (package k v))) =
     Some (1, \<lparr>pb_pid = k, pb_vote = v, pb_time_stamp = 0, pb_data_len = 1, pb_data = Some [9]\<rparr>)"
    by (simp add: pbuf_deserialize_image memcpy_from_def)
qed

lemma rank2_dests: "bc_forward_dests rank2_comm 0 0 = [3]"
  by (simp add: bc_forward_dests_def rank2_comm_def check_passed_origin_def)


text \<open>
  C19: forwarding a message starts exactly one send to each rank the ring model names, in its order and
  with the message's tag, and returns their number.
\<close>

theorem forward_along_ring:
  assumes "bc_forward eng m = Some (n, eng')" and "msgs eng m = Some x" and "get_origin (m_buf x) = Some origin"
  shows "\<exists>k. sent eng' = sent eng @ map (\<lambda>d. (d, stat_tag x, take k (m_buf x)))
      (bc_forward_dests (my_bcomm eng) (sint origin) (stat_source x))
    \<and> n = int (length (bc_forward_dests (my_bcomm eng) (sint origin) (stat_source x)))"
  by (rule bc_forward_sends [OF assms])

lemma rank2_simps:
  "my_bcomm (rank2 ms) = rank2_comm" "msgs (rank2 ms) = ms" "ps_pid (my_own_proposal (rank2 ms)) = - 1"
  "prop_judgement_cb (rank2 ms) b () = Some (1, ())" "sent (rank2 ms) = []" "(rank2 ms)\<lparr>app_ctx := a\<rparr> = rank2 ms"
  "(rank2 ms)\<lparr>msgs := ms'\<rparr> = rank2 ms'"
  by (simp_all add: rank2_def proposal_state_init_def)

lemma rank2_forwards:
  assumes "m_buf x = package k v" and "stat_source x = 0" and "isend_reqs x = [Req_zero, Req_zero]"
  shows "\<exists>eng'. bc_forward (rank2 [0 \<mapsto> x]) 0 = Some (1, eng')"
  using assms
  by (simp add: bc_forward_def rank2_def rank2_comm_def upd_msg_def package_read
      check_passed_origin_def isend_def Let_def)

theorem forward_along_ring_witness:
  "\<exists>eng'. bc_forward (rank2 [0 \<mapsto> package_msg RLO_BCAST (package 7 1)]) 0 = Some (1, eng')
    \<and> map fst (sent eng') = [3]"
proof -
  let ?x = "package_msg RLO_BCAST (package 7 1)"
  have x: "m_buf ?x = package 7 1" "stat_source ?x = 0" "isend_reqs ?x = [Req_zero, Req_zero]"
    by (simp_all add: package_msg_def)
  obtain eng' where f: "bc_forward (rank2 [0 \<mapsto> ?x]) 0 = Some (1, eng')" using rank2_forwards [OF x] by blast
  have "msgs (rank2 [0 \<mapsto> ?x]) 0 = Some ?x" by (simp add: rank2_simps)
  from forward_along_ring [OF f this, of 0] obtain k where
    "sent eng' = sent (rank2 [0 \<mapsto> ?x]) @ map (\<lambda>d. (d, stat_tag ?x, take k (m_buf ?x))) [3]"
    by (auto simp: x(1,2) package_read rank2_simps rank2_dests)
  with f show ?thesis by (auto simp: rank2_simps)
qed

text \<open>
  C11: a rank that is asked about another rank's proposal votes no at once and sends nothing on when it
  disagrees; when it agrees it votes yes at once if no rank is below it, and otherwise sends the
  proposal on and keeps it as pending for as many votes as it has sent messages.
\<close>

theorem proposal_answered:
  assumes "iar_proposal_handler eng m = Some (r, eng')"
    and "msgs eng m = Some x" and "stat_tag x = RLO_IAR_PROPOSAL" and "get_origin (m_buf x) = Some origin"
    and "pbuf_deserialize (drop 8 (data_buf (m_buf x))) = Some (l, pbuf)"
    and "pb_pid pbuf \<noteq> ps_pid (my_own_proposal eng)"
    and "prop_judgement_cb eng (pb_data pbuf) (app_ctx eng) = Some (j, a)"
    and "dests = bc_forward_dests (my_bcomm eng) (sint origin) (stat_source x)"
  shows "(j = 0 \<longrightarrow> sent eng' = sent eng @ [vote_msg eng (stat_source x) (pb_pid pbuf) 0]
      \<and> queue_iar_pending eng' = queue_iar_pending eng)
    \<and> (j = 1 \<longrightarrow> (\<exists>k. sent eng' = sent eng @
        (if dests = [] then [vote_msg eng (stat_source x) (pb_pid pbuf) 1]
         else map (\<lambda>d. (d, RLO_IAR_PROPOSAL, take k (m_buf x))) dests))
      \<and> (\<exists>ps. pending_as eng' m ps \<and> ps_pid ps = pb_pid pbuf \<and> recv_proposal_from ps = stat_source x
          \<and> votes_needed ps = int (length dests) \<and> votes_recved ps = 0 \<and> ps_vote ps = 1))"
  by (rule proposal_handled [OF assms(1-7) assms(8)])

lemma rank2_handles:
  "\<exists>eng'. iar_proposal_handler (rank2 [0 \<mapsto> package_msg RLO_IAR_PROPOSAL (package 7 1)]) 0 = Some (0, eng')"
proof -
  define ps where "ps = (proposal_state_init (Some 0))\<lparr>ps_pid := 7, recv_proposal_from := 0,
     ps_state := RLO_IN_PROGRESS, votes_needed := 1\<rparr>"
  let ?x = "package_msg RLO_IAR_PROPOSAL (package 7 1)"
  have x: "m_buf ?x = package 7 1" "stat_source ?x = 0" "isend_reqs ?x = [Req_zero, Req_zero]" by (simp_all add: package_msg_def)
  obtain eng' where "bc_forward (rank2 [0 \<mapsto> ?x\<lparr>prop_state := Some ps\<rparr>]) 0 = Some (1, eng')"
    using rank2_forwards [of "?x\<lparr>prop_state := Some ps\<rparr>"] x by auto
  then show ?thesis
    by (simp add: iar_proposal_handler_def rank2_simps x package_read upd_msg_def fwd_send_cnt_length rank2_dests
        ps_def proposal_state_init_def Let_def)
qed

theorem proposal_answered_witness:
  "\<exists>eng' ps. iar_proposal_handler (rank2 [0 \<mapsto> package_msg RLO_IAR_PROPOSAL (package 7 1)]) 0 = Some (0, eng')
    \<and> map fst (sent eng') = [3] \<and> pending_as eng' 0 ps \<and> ps_pid ps = 7 \<and> votes_needed ps = 1"
proof -
  let ?x = "package_msg RLO_IAR_PROPOSAL (package 7 1)"
  let ?eng = "rank2 [0 \<mapsto> ?x]"
  obtain eng' where f: "iar_proposal_handler ?eng 0 = Some (0, eng')" using rank2_handles by blast
  have x: "msgs ?eng 0 = Some ?x" "stat_tag ?x = RLO_IAR_PROPOSAL" "get_origin (m_buf ?x) = Some 0"
    "pbuf_deserialize (drop 8 (data_buf (m_buf ?x)))
      = Some (1, \<lparr>pb_pid = 7, pb_vote = 1, pb_time_stamp = 0, pb_data_len = 1, pb_data = Some [9]\<rparr>)"
    by (simp_all add: rank2_def package_msg_def package_read)
  have d: "[3] = bc_forward_dests (my_bcomm ?eng) (sint (0 :: c_int)) (stat_source ?x)"
    by (simp add: rank2_def package_msg_def rank2_dests)
  from proposal_answered [OF f x, of 1 "()", OF _ _ d] obtain k ps where
    "sent eng' = sent ?eng @ map (\<lambda>d. (d, RLO_IAR_PROPOSAL, take k (m_buf ?x))) [3]"
    "pending_as eng' 0 ps" "ps_pid ps = 7" "votes_needed ps = 1"
    by (auto simp: rank2_def proposal_state_init_def)
  with f show ?thesis by (intro exI [of _ eng'] exI [of _ ps]) (simp add: rank2_def)
qed

text \<open>
  C12: the votes that come back for a pending proposal are merged with \<open>AND\<close>: nothing is sent before the
  last of the expected votes, and with it exactly one vote, the merged one, goes to the rank the
  proposal came from.
\<close>

theorem votes_merged_once:
  assumes "find_proposal_msg eng k = Some (Some m)" and "pending_as eng m ps" and "\<forall>b\<in>set bs. pb_pid b = k"
    and "votes_recved ps + int (length bs) \<le> votes_needed ps"
  shows "\<exists>eng'. collect_votes eng bs = Some eng'
    \<and> sent eng' = sent eng @ (if bs \<noteq> [] \<and> votes_recved ps + int (length bs) = votes_needed ps
        then [vote_msg eng (recv_proposal_from ps) (ps_pid ps) (foldl (AND) (ps_vote ps) (map pb_vote bs))] else [])"
  by (rule collect_votes_sent [OF assms])

definition asked :: "Proposal_state" where
  "asked = (proposal_state_init (Some 0))\<lparr>ps_pid := 7, recv_proposal_from := 0, votes_needed := 2,
     ps_state := RLO_IN_PROGRESS\<rparr>"

definition rank2_asked :: "unit engine" where
  "rank2_asked = (rank2 [0 \<mapsto> (package_msg RLO_IAR_PROPOSAL (package 7 1))\<lparr>prop_state := Some asked\<rparr>,
     1 \<mapsto> package_msg RLO_IAR_DECISION (package 7 1)])\<lparr>queue_iar_pending := [0]\<rparr>"

lemma rank2_asked_find:
  "find_proposal_msg rank2_asked 7 = Some (Some 0)" "pending_as rank2_asked 0 asked"
  "msgs rank2_asked 1 = Some (package_msg RLO_IAR_DECISION (package 7 1))" "find_proposal_msg rank2_asked 8 = Some None"
  by (simp_all add: find_proposal_msg_def pending_as_def rank2_asked_def rank2_def asked_def package_msg_def)

abbreviation a_vote :: "c_int \<Rightarrow> PBuf" where
  "a_vote v \<equiv> \<lparr>pb_pid = 7, pb_vote = v, pb_time_stamp = 0, pb_data_len = 0, pb_data = None\<rparr>"

theorem votes_merged_once_witness:
  "\<exists>e1 e2. collect_votes rank2_asked [a_vote 1] = Some e1 \<and> sent e1 = []
    \<and> collect_votes rank2_asked [a_vote 1, a_vote 0] = Some e2 \<and> sent e2 = [vote_msg rank2_asked 0 7 0]"
  using votes_merged_once [OF rank2_asked_find(1,2), of "[a_vote 1]"]
    votes_merged_once [OF rank2_asked_find(1,2), of "[a_vote 1, a_vote 0]"]
  by (simp add: asked_def proposal_state_init_def rank2_asked_def rank2_def)

end
