(* ===== verification/Engine_Properties.thy ===== *)
theory Engine_Properties
  imports Ring_Properties
begin

text \<open>
  The properties of decisions, of the progress of the engines of a process, of the pool of proposals
  and of the packages that travel between ranks, each with an instance at a concrete input.
\<close>

section \<open>Decisions\<close>

text \<open>
  C13: a decision about a pending proposal takes it off the pending queue; when it is a no the proposal
  is freed and nothing else happens, when it is a yes the action runs once, on the proposal's
  package, and the proposal is handed to the user as completed.
\<close>

theorem decision_settles_proposal:
  assumes "msgs eng m = Some x" and "pbuf_deserialize (drop 8 (data_buf (m_buf x))) = Some (l, d)"
    and "find_proposal_msg eng (pb_pid d) = Some (Some pm)" and "msgs eng pm = Some px"
    and "(case proposal_action eng of None \<Rightarrow> Some (app_ctx eng) | Some act \<Rightarrow> act (data_buf (m_buf px)) (app_ctx eng)) = Some a"
  shows "\<exists>eng'. iar_decision_handler eng m = Some (0, eng')
    \<and> queue_iar_pending eng' = remove1 pm (queue_iar_pending eng)
    \<and> (if pb_vote d = 0
       then app_ctx eng' = app_ctx eng \<and> queue_pickup eng' = queue_pickup eng \<and> msgs eng' = (msgs eng)(pm := None)
       else app_ctx eng' = a \<and> queue_pickup eng' = queue_pickup eng @ [pm]
         \<and> (\<exists>px'. msgs eng' = (msgs eng)(pm \<mapsto> px') \<and> m_buf px' = m_buf px \<and> pickup_done px' = 0
             \<and> map_option ps_state (prop_state px') = Some RLO_COMPLETED))"
proof (cases "pb_vote d = 0")
  case True
  then show ?thesis using decision_denied [OF assms(1-3)] by auto
next
  case False
  then show ?thesis using decision_approved [OF assms(1-3) _ assms(4,5)] by auto
qed

theorem decision_settles_proposal_witness:
  "\<exists>eng'. iar_decision_handler rank2_asked 1 = Some (0, eng') \<and> queue_iar_pending eng' = [] \<and> queue_pickup eng' = [0]"
proof -
  let ?x = "package_msg RLO_IAR_DECISION (package 7 1)"
  let ?p = "\<lparr>pb_pid = 7, pb_vote = 1, pb_time_stamp = 0, pb_data_len = 1, pb_data = Some [9]\<rparr>"
  have x: "pbuf_deserialize (drop 8 (data_buf (m_buf ?x))) = Some (1, ?p)" by (simp add: package_msg_def package_read)
  have f: "find_proposal_msg rank2_asked (pb_pid ?p) = Some (Some 0)" by (simp add: rank2_asked_find)
  have p: "msgs rank2_asked 0 = Some ((package_msg RLO_IAR_PROPOSAL (package 7 1))\<lparr>prop_state := Some asked\<rparr>)"
    "proposal_action rank2_asked = None" "queue_iar_pending rank2_asked = [0]" "queue_pickup rank2_asked = []"
    by (simp_all add: rank2_asked_def rank2_def)
  from decision_settles_proposal [OF rank2_asked_find(3) x f p(1), of "()"] p(2-4) show ?thesis by auto
qed

lemma decision_text_no_proposal: "proposal_decoder decision_data = (None :: unit proposal option)"
  by (simp add: proposal_decoder_def decision_data_def get_int_def get_ulong_def get_bytes_def)

text \<open>
  C39: on a rank that has no such proposal (it voted no), the decision itself is queued for pick-up, and
  the next checkout hands out the fixed text of the decision, which is no encoded proposal.
\<close>

theorem stray_decision_checked_out:
  assumes "msgs eng m = Some x" and "stat_tag x = RLO_IAR_DECISION" and "pickup_done x = 0"
    and "pbuf_deserialize (drop 8 (data_buf (m_buf x))) = Some (l, d)" and "pb_data d = Some decision_data"
    and "find_proposal_msg eng (pb_pid d) = Some None"
    and "queue_wait_and_pickup eng = []" and "queue_pickup eng = []"
  shows "\<exists>e1 e2. iar_decision_handler eng m = Some (- 1, e1) \<and> checkout_engine e1 = Some (1, Some decision_data, e2)
    \<and> proposal_decoder decision_data = (None :: unit proposal option)"
proof -
  have "iar_decision_handler eng m = Some (- 1, eng\<lparr>queue_pickup := [m]\<rparr>)"
    using decision_stray [OF assms(1,4,6)] assms(8) by simp
  moreover have "\<exists>e2. checkout_engine (eng\<lparr>queue_pickup := [m]\<rparr>) = Some (1, Some decision_data, e2)"
    using assms(1-5,7)
    by (simp add: checkout_engine_def RLO_user_pickup_next_def lq_remove_def user_msg_mock_def upd_msg_def
        RLO_user_msg_recycle_def RLO_msg_free_def)
  ultimately show ?thesis using decision_text_no_proposal by auto
qed

definition decision_package :: "byte list" where
  "decision_package = put_int 0 @ put_ulong 40 @ put_ulong 40 @ put_int 8 @ put_int 1 @ put_ulong 0 @ put_ulong 8 @ decision_data"

lemma decision_package_read:
  "pbuf_deserialize (drop 8 (data_buf decision_package)) =
     Some (8, \<lparr>pb_pid = 8, pb_vote = 1, pb_time_stamp = 0, pb_data_len = 8, pb_data = Some decision_data\<rparr>)"
proof -
  have "drop 8 (data_buf decision_package) = put_ulong 40 @ put_int 8 @ put_int 1 @ put_ulong 0 @ put_ulong 8 @ decision_data"
    by (simp add: data_buf_def decision_package_def)
  then show ?thesis by (simp add: pbuf_deserialize_image memcpy_from_def decision_data_def)
qed

theorem stray_decision_checked_out_witness:
  "\<exists>e1 e2. iar_decision_handler (rank2 [1 \<mapsto> package_msg RLO_IAR_DECISION decision_package]) 1 = Some (- 1, e1)
    \<and> checkout_engine e1 = Some (1, Some decision_data, e2)"
proof -
  let ?x = "package_msg RLO_IAR_DECISION decision_package"
  let ?p = "\<lparr>pb_pid = 8, pb_vote = 1, pb_time_stamp = 0, pb_data_len = 8, pb_data = Some decision_data\<rparr>"
  have x: "msgs (rank2 [1 \<mapsto> ?x]) 1 = Some ?x" "stat_tag ?x = RLO_IAR_DECISION" "pickup_done ?x = 0"
    "pbuf_deserialize (drop 8 (data_buf (m_buf ?x))) = Some (8, ?p)"
    by (simp_all add: rank2_simps package_msg_def decision_package_read)
  have f: "find_proposal_msg (rank2 [1 \<mapsto> ?x]) (pb_pid ?p) = Some None" "pb_data ?p = Some decision_data"
    "queue_wait_and_pickup (rank2 [1 \<mapsto> ?x]) = []" "queue_pickup (rank2 [1 \<mapsto> ?x]) = []"
    by (simp_all add: find_proposal_msg_def rank2_def)
  from stray_decision_checked_out [OF x f(2,1,3,4)] show ?thesis by blast
qed

text \<open>
  C40: once the sends of a decision are complete, the proposal of the rank counts as completed whatever
  was decided, and the plugin reports it as approved, with the deciding vote still at hand.
\<close>

theorem decided_reported_approved:
  assumes "own_proposal_update eng = Some eng'" and "decision_msg (my_own_proposal eng) = Some d"
    and "ps_state (my_own_proposal eng) = RLO_IN_PROGRESS" and "RLO_msg_test_isends eng d = Some (True, e1)"
  shows "proposal_state_of_req (ps_state (my_own_proposal eng')) = ps_code PS_APPROVED
    \<and> ps_vote (my_own_proposal eng') = ps_vote (my_own_proposal eng)"
  using own_decided_completed [OF assms] by (simp add: proposal_state_of_req_def req_stat_defs)

theorem decided_reported_approved_witness:
  "\<exists>eng :: unit engine. \<exists>eng'. own_proposal_update eng = Some eng' \<and> ps_vote (my_own_proposal eng) = 0
    \<and> proposal_state_of_req (ps_state (my_own_proposal eng')) = ps_code PS_APPROVED"
proof -
  let ?own = "(proposal_state_init None)\<lparr>ps_pid := 5, ps_vote := 0, ps_state := RLO_IN_PROGRESS, decision_msg := Some 0\<rparr>"
  define eng where "eng = (rank2 [0 \<mapsto> package_msg RLO_IAR_DECISION []])\<lparr>my_own_proposal := ?own\<rparr>"
  have own: "my_own_proposal eng = ?own" by (simp add: eng_def)
  have t: "RLO_msg_test_isends eng 0 = Some (True, eng\<lparr>mpi_tick := mpi_tick eng + 1\<rparr>)"
    by (simp add: eng_def RLO_msg_test_isends_def rank2_simps package_msg_def)
  have m: "msgs eng 0 \<noteq> None" by (simp add: eng_def rank2_simps)
  have "\<exists>eng'. own_proposal_update eng = Some eng'"
    using t m by (auto simp: own_proposal_update_def own req_stat_defs Let_def RLO_msg_free_def bind_eq_Some_conv
        proposal_state_init_def)
  then obtain eng' where u: "own_proposal_update eng = Some eng'" by blast
  have "decision_msg (my_own_proposal eng) = Some 0" "ps_state (my_own_proposal eng) = RLO_IN_PROGRESS"
    "ps_vote (my_own_proposal eng) = 0"
    by (simp_all add: own)
  with decided_reported_approved [OF u _ _ t] u show ?thesis by blast
qed


section \<open>Progress\<close>

text \<open>
  C25: creating an engine in a communicator of at least two ranks succeeds; the new engine is the last
  of the active ones, sound, with nothing to pick up, and the engines there were stay sound.
\<close>

theorem new_engine_ready:
  assumes "env_ok env" and "\<forall>a\<in>set (ce_arrivals env). good_arrival D a"
    and "active_engines P = None \<or> process_ok D P" and "e \<notin> set (case active_engines P of None \<Rightarrow> [] | Some es \<Rightarrow> es)"
  shows "\<exists>P' eng. RLO_progress_engine_new env cb ctx act e P = Some P' \<and> process_ok D P'
    \<and> active_engines P' = Some ((case active_engines P of None \<Rightarrow> [] | Some es \<Rightarrow> es) @ [e])
    \<and> engines P' e = Some eng \<and> eng_ok D eng \<and> eng_backlog eng = {#} \<and> eng_arriving eng = env_arriving env"
  by (rule new_engine_ok [OF assms])

definition no_engines :: "unit process" where
  "no_engines = \<lparr>engines = Map.empty, active_engines = None, ever_created = 0\<rparr>"

definition env2 :: comm_env where
  "env2 = \<lparr>ce_size = 2, ce_rank = 1, ce_arrivals = [None, Some (0, RLO_BCAST, package 7 1)],
     ce_complete = (\<lambda>i t. True)\<rparr>"

lemma package_payload: "payload (package 7 1) = Some [9]"
  by (simp add: payload_def package_read)

lemma env2_ok:
  "env_ok env2" "\<forall>a\<in>set (ce_arrivals env2). good_arrival (\<lambda>b. b = [9]) a" "env_arriving env2 = {#[9]#}"
proof -
  show "env_ok env2" by (simp add: env_ok_def env2_def)
  have "length (package 7 1) \<le> 4 + msg_data_max" by (simp add: package_def)
  then show "\<forall>a\<in>set (ce_arrivals env2). good_arrival (\<lambda>b. b = [9]) a"
    by (simp add: env2_def good_arrival_def package_payload del: msg_max_simps)
  show "env_arriving env2 = {#[9]#}" by (simp add: env_arriving_def env2_def package_payload)
qed

theorem new_engine_ready_witness:
  "\<exists>P' eng. RLO_progress_engine_new env2 (\<lambda>b a. Some (1, a)) () None 0 no_engines = Some P'
    \<and> process_ok (\<lambda>b. b = [9]) P' \<and> active_engines P' = Some [0] \<and> engines P' 0 = Some eng
    \<and> eng_ok (\<lambda>b. b = [9]) eng \<and> eng_backlog eng = {#} \<and> eng_arriving eng = {#[9]#}"
  using new_engine_ready [OF env2_ok(1,2), of no_engines 0 "\<lambda>b a. Some (1, a)" "()" None]
  by (simp add: no_engines_def env2_ok)

lemma env2_process:
  obtains P eng where "process_ok (\<lambda>b. b = [9]) (P :: unit process)" and "active_engines P = Some [0]"
    and "engines P 0 = Some eng" and "eng_ok (\<lambda>b. b = [9]) eng" and "eng_backlog eng = {#}"
    and "eng_arriving eng = {#[9]#}"
  using new_engine_ok [OF env2_ok(1,2), of no_engines 0 "\<lambda>b a. Some (1, a)" "()" None] that
  by (auto simp: no_engines_def env2_ok)





text \<open>
  C26: a checkout takes exactly one package out of what an engine has to pick up, and reports that there
  is nothing exactly when there is nothing.
\<close>

theorem checkout_takes_one:
  assumes "eng_ok D eng"
  shows "if eng_backlog eng = {#} then checkout_engine eng = Some (0, None, eng)
    else (\<exists>b eng'. checkout_engine eng = Some (1, Some b, eng') \<and> eng_ok D eng' \<and> D b
      \<and> eng_backlog eng = add_mset b (eng_backlog eng') \<and> arrivals eng' = arrivals eng)"
  by (rule checkout_engine_ok [OF assms])

theorem checkout_takes_one_witness:
  "\<exists>eng :: unit engine. eng_ok (\<lambda>b. b = [9]) eng \<and> checkout_engine eng = Some (0, None, eng)"
proof -
  obtain P eng where e: "engines (P :: unit process) 0 = Some eng" "eng_ok (\<lambda>b. b = [9]) eng" "eng_backlog eng = {#}"
    by (rule env2_process)
  from checkout_takes_one [OF e(2)] e(2,3) show ?thesis by auto
qed

section \<open>The pool of proposals\<close>

text \<open>
  C35: the pool is a finite map from proposal ids to states: adding a state is an update, when it
  succeeds, and removing an id is a deletion.
\<close>

theorem pool_add_updates:
  assumes "pool_ok pools" and "ps_pid p \<noteq> - 1" and "proposalPool_proposal_add pools p = (r, pools')" and "0 \<le> r"
  shows "pool_ok pools' \<and> pool_map pools' = (pool_map pools)(ps_pid p \<mapsto> p)"
  by (rule pool_add_map [OF assms])

definition new_pool :: "Proposal_state list" where
  "new_pool = proposalPools_reset (replicate PROPOSAL_POOL_SIZE zero_proposal_state)"

lemma new_pool_ok: "pool_ok new_pool" "pool_map new_pool = Map.empty"
  by (simp_all add: new_pool_def pool_reset_ok pool_reset_map)

lemma new_pool_add: "fst (proposalPool_proposal_add new_pool asked) = 0"
  by (simp add: new_pool_def proposalPool_proposal_add_def proposalPools_reset_def PROPOSAL_POOL_SIZE_def
      numeral_eq_Suc asked_def)

theorem pool_add_updates_witness:
  "\<exists>r pools'. proposalPool_proposal_add new_pool asked = (r, pools') \<and> pool_map pools' 7 = Some asked"
proof -
  obtain pools' where a: "proposalPool_proposal_add new_pool asked = (0, pools')"
    using new_pool_add by (cases "proposalPool_proposal_add new_pool asked") simp
  have pid: "ps_pid asked = 7" by (simp add: asked_def)
  from pool_add_updates [OF new_pool_ok(1) _ a] show ?thesis using a by (simp add: pid)
qed

text \<open>
  C36: the same for removal, which reports \<open>- 1\<close> exactly when the id is not in the pool.
\<close>

theorem pool_rm_deletes:
  assumes "pool_ok pools" and "k \<noteq> - 1" and "proposalPool_rm pools k = (r, pools')"
  shows "pool_ok pools' \<and> pool_map pools' = (pool_map pools)(k := None)
    \<and> r = (if pool_map pools k = None then - 1 else 0)"
  by (rule pool_rm_map [OF assms])

theorem pool_rm_deletes_witness:
  "fst (proposalPool_rm new_pool 7) = - 1"
  using pool_rm_deletes [OF new_pool_ok(1), of 7 "fst (proposalPool_rm new_pool 7)" "snd (proposalPool_rm new_pool 7)"]
  by (simp add: new_pool_ok(2))

text \<open>
  Adding to a pool whose slots are all taken by other proposals changes nothing and returns \<open>- 2\<close>;
  the \<open>- 1\<close> the code keeps for a full pool is never returned.
\<close>

theorem pool_add_full:
  "fst (proposalPool_proposal_add pools p) \<noteq> - 1
   \<and> (if pool_find pools (ps_pid p) = None \<and> pool_find pools (- 1) = None
      then proposalPool_proposal_add pools p = (- 2, pools) else fst (proposalPool_proposal_add pools p) \<ge> 0)"
  by (auto simp: proposalPool_proposal_add_def PROPOSAL_POOL_SIZE_def split: option.splits)

end
