(* ===== verification/Helper_Properties.thy ===== *)
theory Helper_Properties
  imports Engine_Properties
begin

text \<open>
  The properties of packages and proposals, of the queues, and of the metadata update helper with its
  ledger and its execution queue, each with an instance at a concrete input.
\<close>

section \<open>Packages and proposals\<close>

text \<open>
  C29: a package of at least one byte of data is read back from its serialised form, whatever follows it
  in the receive buffer.
\<close>

theorem package_round_trip:
  assumes "dat \<noteq> []" and "length dat < 2 ^ 63"
  shows "\<exists>buf. pbuf_serialize k vote ts (of_nat (length dat)) (Some dat) = Some (Inr buf)
    \<and> length buf = 32 + length dat
    \<and> pbuf_deserialize (buf @ rest) = Some (of_nat (length dat), \<lparr>pb_pid = k, pb_vote = vote, pb_time_stamp = ts,
        pb_data_len = of_nat (length dat), pb_data = Some dat\<rparr>)"
proof -
  let ?len = "of_nat (length dat) :: c_ulong"
  let ?buf = "put_ulong (32 + ?len) @ put_int k @ put_int vote @ put_ulong ts @ put_ulong ?len @ dat"
  have len: "unat ?len = length dat" using assms(2) by (simp add: unat_of_nat take_bit_nat_eq_self)
  then have nz: "?len \<noteq> 0" using assms(1) by auto
  have "pbuf_serialize k vote ts ?len (Some dat) = Some (Inr ?buf)"
    using pbuf_serialize_ok [OF assms len, of k vote ts "[]"] by simp
  moreover have "(ucast ?len :: c_int) = of_nat (length dat)" using assms(2) by (simp add: unsigned_of_nat take_bit_nat_eq_self)
  moreover have "pbuf_deserialize (?buf @ rest) = Some (ucast ?len, \<lparr>pb_pid = k, pb_vote = vote, pb_time_stamp = ts,
        pb_data_len = ?len, pb_data = Some dat\<rparr>)"
    using nz len by (simp add: pbuf_deserialize_image memcpy_from_def)
  ultimately show ?thesis by (intro exI [of _ ?buf]) simp
qed

theorem package_round_trip_witness:
  "\<exists>buf. pbuf_serialize 7 1 42 3 (Some [1, 2, 3]) = Some (Inr buf)
    \<and> pbuf_deserialize (buf @ [0, 0]) = Some (3, \<lparr>pb_pid = 7, pb_vote = 1, pb_time_stamp = 42, pb_data_len = 3,
        pb_data = Some [1, 2, 3]\<rparr>)"
  using package_round_trip [of "[1, 2, 3]" 7 1 42 "[0, 0]"] by auto

text \<open>
  C30: a vote arrives as it was sent: the receive buffer of a vote message gives back the proposal's id
  and the vote.
\<close>

theorem vote_round_trip:
  "pbuf_deserialize (data_buf (transmit (length (pbuf_vote_serialize rank k vote)) (pbuf_vote_serialize rank k vote)))
   = Some (0, \<lparr>pb_pid = k, pb_vote = vote, pb_time_stamp = 0, pb_data_len = 0, pb_data = None\<rparr>)"
  by (rule vote_deserialize)

text \<open>
  C31: a broadcast message holds a payload of at most 32760 bytes, and beyond that the copy runs past the
  buffer; of those, payloads up to 32756 bytes arrive whole.
\<close>

theorem broadcast_payload_bounds:
  assumes "length dat < 2 ^ 31"
  shows "(RLO_msg_new_bc_buf rank dat (of_nat (length dat)) = None \<longleftrightarrow> 32760 < length dat)
    \<and> (length dat \<le> 32756 \<longrightarrow> (\<exists>buf. RLO_msg_new_bc_buf rank dat (of_nat (length dat)) = Some buf
        \<and> get_origin (transmit msg_data_max buf) = Some rank
        \<and> get_ulong (data_buf (transmit msg_data_max buf))
            = Some (of_nat (length dat), dat @ replicate (32760 - length dat) 0)))"
proof -
  have eq: "RLO_msg_new_bc_buf rank dat (of_nat (length dat)) = None \<longleftrightarrow> 32760 < length dat"
    by (simp add: RLO_msg_new_bc_buf_eq [OF assms])
  moreover have "\<exists>buf. RLO_msg_new_bc_buf rank dat (of_nat (length dat)) = Some buf
        \<and> get_origin (transmit msg_data_max buf) = Some rank
        \<and> get_ulong (data_buf (transmit msg_data_max buf))
            = Some (of_nat (length dat), dat @ replicate (32760 - length dat) 0)"
    if l: "length dat \<le> 32756"
  proof -
    from eq l obtain buf where b: "RLO_msg_new_bc_buf rank dat (of_nat (length dat)) = Some buf" by fastforce
    from b bcast_payload_arrives [OF l b] show ?thesis by blast
  qed
  ultimately show ?thesis by blast
qed

theorem broadcast_payload_bounds_witness:
  "RLO_msg_new_bc_buf 0 (replicate 32761 0) (of_nat (length (replicate 32761 (0 :: 8 word)))) = None"
  using broadcast_payload_bounds [of "replicate 32761 0" 0] by (simp only: length_replicate) simp

text \<open>
  C28: a proposal is read back from its encoding, all but the pointer to the local result, whatever
  follows in the buffer; and the time can be read off the encoding without decoding it.
\<close>

theorem proposal_round_trip:
  assumes "wf_proposal p"
  shows "\<exists>n img. proposal_encoder p = Some (n, img) \<and> unat n = length img
    \<and> proposal_decoder (img @ rest) = Some (p\<lparr>result_obj_local := None\<rparr>) \<and> cast_time (img @ rest) = Some (time p)"
proof -
  have "unat (32 + p_data_len p) = 32 + unat (p_data_len p)"
    using assms by (intro size_no_wrap) (auto simp: wf_proposal_def)
  then show ?thesis
    using proposal_encoder_image [OF assms] length_proposal_image [OF assms] proposal_decoder_image [OF assms, of rest]
      cast_time_image [of p rest]
    by (intro exI [of _ "32 + p_data_len p"] exI [of _ "proposal_image p"]) simp
qed

definition proposal_at :: "c_int \<Rightarrow> c_ulong \<Rightarrow> unit proposal" where
  "proposal_at i t = \<lparr>pid = i, state = 1, time = t, isLocal = 0, op_type = 0, p_data_len = 0,
     proposal_data = None, result_obj_local = None\<rparr>"

lemma proposal_at_wf: "wf_proposal (proposal_at i t)"
  by (simp add: wf_proposal_def proposal_at_def)

theorem proposal_round_trip_witness:
  "\<exists>n img. proposal_encoder (proposal_at 7 42) = Some (n, img) \<and> proposal_decoder (img @ [1]) = Some (proposal_at 7 42)
    \<and> cast_time (img @ [1]) = Some 42"
  using proposal_round_trip [OF proposal_at_wf [of 7 42], of "[1]"] by (auto simp: proposal_at_def)


section \<open>Queues\<close>

text \<open>
  C34: appending to a queue of \<open>util_queue.c\<close> appends to the list it stands for, and removing a member
  takes just that member out of it; both keep the counter at the length.
\<close>

theorem queue_append_then_remove:
  assumes "gq_rep s q (as @ bs)" and "a \<notin> set (as @ bs)" and "a \<in> dom (qs_links s)"
  shows "\<exists>s' q'. gen_queue_append s q a = Some (s', q') \<and> gq_rep s' q' (as @ bs @ [a])
    \<and> node_cnt q' = int (length (as @ bs)) + 1
    \<and> (\<forall>b cs. bs = b # cs \<longrightarrow> (\<exists>s2 q2. gen_queue_remove s' q' b free = Some (1, s2, q2)
        \<and> gq_rep s2 q2 (as @ cs @ [a]) \<and> node_cnt q2 = int (length (as @ bs))))"
proof -
  obtain s' q' where q': "gen_queue_append s q a = Some (s', q')" "gq_rep s' q' ((as @ bs) @ [a])"
    using gen_queue_append_rep [OF assms] by metis
  have "\<exists>s2 q2. gen_queue_remove s' q' b free = Some (1, s2, q2)
        \<and> gq_rep s2 q2 (as @ cs @ [a]) \<and> node_cnt q2 = int (length (as @ bs))" if bs: "bs = b # cs" for b cs
  proof -
    have "gq_rep s' q' (as @ b # (cs @ [a]))" using q'(2) bs by simp
    then obtain s2 q2 where "gen_queue_remove s' q' b free = Some (1, s2, q2)" "gq_rep s2 q2 (as @ cs @ [a])"
      using gen_queue_remove_rep [where free = free] by metis
    then show ?thesis using bs gq_rep_D(2) by fastforce
  qed
  then show ?thesis using q' gq_rep_D(2) [OF q'(2)] by (intro exI [of _ s'] exI [of _ q']) simp
qed

definition empty_store :: "byte list qstore" where
  "empty_store = \<lparr>qs_links = Map.empty, qs_data = Map.empty, qs_num = Map.empty, qs_fresh = 0\<rparr>"

definition one_node :: "byte list qstore" where
  "one_node = snd (gen_queue_node_new empty_store (Some (proposal_image (proposal_at 7 42))))"

lemma one_node_rep: "gq_rep one_node zero_queue []" "0 \<in> dom (qs_links one_node)"
  by (simp_all add: gq_rep_def zero_queue_def dlist_empty one_node_def gen_queue_node_new_def empty_store_def)

theorem queue_append_then_remove_witness:
  "\<exists>s q. gen_queue_append one_node zero_queue 0 = Some (s, q) \<and> gq_rep s q [0] \<and> node_cnt q = 1"
  using queue_append_then_remove [of one_node zero_queue "[]" "[]" 0] one_node_rep by auto

text \<open>
  Concatenating a queue that is not empty moves its nodes to the end of the first, leaves it empty
  and inactive, and returns \<open>- 1\<close>.
\<close>

theorem queue_concat_moves:
  assumes "gq_rep s q1 xs" and "gq_rep s q2 (y # ys)" and "set xs \<inter> set (y # ys) = {}"
  shows "\<exists>s' q1' q2'. gen_queue_concat s q1 q2 = Some (- 1, s', q1', q2') \<and> gq_rep s' q1' (xs @ y # ys)
    \<and> gq_rep s' q2' [] \<and> q_state q1' = Q_ACTIVE \<and> q_state q2' = Q_NON_ACTIVE"
  using gen_queue_concat_rep [OF assms] by metis

lemma one_queue:
  obtains s q where "gen_queue_append one_node zero_queue 0 = Some (s, q)" and "gq_rep s q [0]"
    and "node_data s 0 = Some (proposal_image (proposal_at 7 42))" and "q_state q = Q_ACTIVE"
proof -
  obtain s q where q: "gen_queue_append one_node zero_queue 0 = Some (s, q)" "gq_rep s q ([] @ [0])"
    "qs_data s = qs_data one_node" "q_state q = q_state zero_queue"
    using gen_queue_append_rep [OF one_node_rep(1) _ one_node_rep(2)] by (metis empty_iff empty_set)
  have "node_data one_node 0 = Some (proposal_image (proposal_at 7 42))"
    by (simp add: node_data_def one_node_def gen_queue_node_new_def empty_store_def)
  then have "node_data s 0 = Some (proposal_image (proposal_at 7 42))" using q(3) by (simp add: node_data_def)
  with q show ?thesis by (intro that [of s q]) (simp_all add: zero_queue_def Q_ACTIVE_def)
qed

theorem queue_concat_moves_witness:
  "\<exists>s q s' q1' q2'. gq_rep (s :: byte list qstore) q [0] \<and> gen_queue_concat s zero_queue q = Some (- 1, s', q1', q2') \<and> gq_rep s' q1' [0]"
proof -
  obtain s q where q: "gq_rep (s :: byte list qstore) q [0]" using one_queue by metis
  have "gq_rep s zero_queue []" by (simp add: gq_rep_def zero_queue_def dlist_empty)
  from queue_concat_moves [OF this q] q show ?thesis by (simp, blast)
qed

text \<open>
  Two operations of the queue do not check what they are given: on an empty queue the insertion at
  the head follows a null pointer, and removing a node that is not the one node of the queue
  empties the queue and reports success.
\<close>

theorem queue_unchecked:
  assumes "gq_rep s q0 []" and "gq_rep s q [b]" and "a \<noteq> b" and "a \<in> dom (qs_links s)"
  shows "gen_queue_insert_head s q0 a = None
    \<and> (\<exists>s' q'. gen_queue_remove s q a False = Some (1, s', q') \<and> gq_rep s' q' [])"
proof -
  have d: "dlist (qs_links s) q [b]" "node_cnt q = 1" using assms(2) by (simp_all add: gq_rep_def)
  obtain h' q' where r: "dl_remove (qs_links s) q a = Some (1, h', q')" "dlist h' q' []" "dq.more q' = dq.more q"
    using assms(3,4) d(1)
    by (auto simp: dl_remove_def dlist_def dlist_empty hd_or_def last_or_def set_prev_def set_next_def)
  have "gq_rep (s\<lparr>qs_links := h'\<rparr>) (q'\<lparr>node_cnt := node_cnt q' - 1\<rparr>) []"
    using r(2) more_node_cnt [OF r(3)] d(2) by (simp add: gq_rep_def)
  then show ?thesis
    using r(1) gen_queue_insert_head_empty [OF assms(1), of a] by (auto simp: gen_queue_remove_def)
qed

theorem queue_unchecked_witness:
  "\<exists>s q s' q'. gq_rep (s :: byte list qstore) q [0] \<and> gen_queue_remove s q 1 False = Some (1, s', q') \<and> gq_rep s' q' []"
proof -
  obtain s q where q: "gq_rep (s :: byte list qstore) q [0]" using one_queue by metis
  let ?s = "s\<lparr>qs_links := (qs_links s)(1 \<mapsto> \<lparr>d_prev = None, d_next = None\<rparr>)\<rparr>"
  have "gq_rep ?s q [0]" using q by (simp add: gq_rep_def dlist_def)
  moreover have "gq_rep ?s zero_queue []" by (simp add: gq_rep_def zero_queue_def dlist_empty)
  ultimately show ?thesis using queue_unchecked [of ?s zero_queue q 0 1] by (metis domI fun_upd_same qstore.select_convs(1) qstore.update_convs(1) qstore.surjective zero_neq_one)
qed


section \<open>The ledger and the execution queue\<close>

text \<open>
  The search for the oldest record finds the first record with the least time stamp, and among those
  with the same time stamp the least proposal id.
\<close>

theorem oldest_record_is_least:
  assumes "gq_rep s q xs" and "decodable s xs" and "xs \<noteq> []" and "q_state q = Q_ACTIVE"
  shows "\<exists>m p. oldest_record s q = Some (Some (m, time p)) \<and> node_proposal s m = Some p \<and> first_min (record_key s) xs m"
  using oldest_record_min [OF assms] by metis

lemma proposal_at_decodes: "proposal_decoder (proposal_image (proposal_at i t)) = Some (proposal_at i t)"
  using proposal_decoder_image [OF proposal_at_wf [of i t], of "[]"] by (simp add: proposal_at_def)

theorem oldest_record_is_least_witness:
  "\<exists>s q. gen_queue_append one_node zero_queue 0 = Some (s, q) \<and> oldest_record s q = Some (Some (0, 42))"
proof -
  obtain s q where q: "gen_queue_append one_node zero_queue 0 = Some (s, q)" "gq_rep s q [0]"
    "node_data s 0 = Some (proposal_image (proposal_at 7 42))" "q_state q = Q_ACTIVE" using one_queue by metis
  then have p: "node_proposal s 0 = Some (proposal_at 7 42)" by (simp add: node_proposal_def proposal_at_decodes)
  then have "decodable s [0]" by simp
  from oldest_record_is_least [OF q(2) this _ q(4)] p have "oldest_record s q = Some (Some (0, 42))"
    by (auto simp: first_min_def append_eq_Cons_conv Cons_eq_append_conv proposal_at_def)
  with q(1) show ?thesis by blast
qed

text \<open>
  C9: executing the queue runs the callback on every record once, in the order of time stamp and id, and
  leaves the queue empty with the records freed.
\<close>

theorem execution_in_time_order:
  assumes "gq_rep s (execution_q em) xs" and "decodable s xs" and "q_state (execution_q em) = Q_ACTIVE"
    and "execute_in_order em (node_bufs s (sort_key (record_key s) xs)) w = Some w'"
  shows "\<exists>s' em'. EM_execute_all s em w = Some (s', em', w') \<and> gq_rep s' (execution_q em') []
    \<and> dom (qs_links s') = dom (qs_links s) - set xs \<and> sorted (map (record_key s) (sort_key (record_key s) xs))"
  using EM_execute_loop_sorted [OF assms] by (auto simp: EM_execute_all_def sorted_sort_key)

definition collecting :: "gen_queue \<Rightarrow> (unit, byte list list) execution_mgr" where
  "collecting q = \<lparr>execution_q = q, em_app_ctx = (), execute_cb = (\<lambda>c b w. Some (0, w @ [b]))\<rparr>"

theorem execution_in_time_order_witness:
  "\<exists>s q s' em'. gen_queue_append one_node zero_queue 0 = Some (s, q)
    \<and> EM_execute_all s (collecting q) [] = Some (s', em', [proposal_image (proposal_at 7 42)])"
proof -
  obtain s q where q: "gen_queue_append one_node zero_queue 0 = Some (s, q)" "gq_rep s q [0]"
    "node_data s 0 = Some (proposal_image (proposal_at 7 42))" "q_state q = Q_ACTIVE" using one_queue by metis
  have "decodable s [0]" using q(3) by (simp add: node_proposal_def proposal_at_decodes)
  moreover have "gq_rep s (execution_q (collecting q)) [0]"
    using q(2) by (simp add: collecting_def)
  moreover have "q_state (execution_q (collecting q)) = Q_ACTIVE"
    using q(4) by (simp add: collecting_def)
  moreover have "execute_in_order (collecting q) (node_bufs s (sort_key (record_key s) [0])) []
      = Some [proposal_image (proposal_at 7 42)]"
    using q(3) by (simp add: node_bufs_def EM_execute_def collecting_def)
  ultimately show ?thesis using execution_in_time_order [of s "collecting q" "[0]" "[]"] q(1) by meson
qed

section \<open>The metadata update helper\<close>

text \<open>
  C23: initialising the helper over the voting plugin, in a process without engines and in a communicator
  of at least two ranks, succeeds with an empty ledger, an empty execution queue and a sound engine.
\<close>

theorem helper_initialised:
  assumes "env_ok env" and "\<forall>a\<in>set (ce_arrivals env). good_arrival encoded_proposal a"
    and "active_engines (rlo_process v) = None" and "\<forall>a\<in>dom (qs_links s). a < qs_fresh s"
  shows "\<exists>m :: ('o, _, _, _, _, _) metadata_manager.
      MM_metadata_update_helper_init md ws window judgement ctx (rlo_plugin (env, e)) cb_execute s v w clk n = Some m
    \<and> mm_rep m [] [] \<and> mm_vm m = rlo_mgr (env, e) e \<and> rlo_ok e (mm_vs m)
    \<and> rlo_backlog e (mm_vs m) = {#} \<and> rlo_incoming e (mm_vs m) = env_arriving env
    \<and> mm_app m = w \<and> mm_mode m = md \<and> time_window_size m = window
    \<and> (\<exists>em. mm_em m = Some em \<and> execute_cb em = cb_execute \<and> em_app_ctx em = ctx)"
  by (rule rlo_helper_init [OF assms])

text \<open>For the instances: one proposal under way to rank 1 of 2, and a callback that collects.\<close>

definition sent_package :: "byte list" where
  "sent_package = put_int 0 @ put_ulong 64 @ put_ulong 64 @ put_int 7 @ put_int 1 @ put_ulong 0 @ put_ulong 32
     @ proposal_image (proposal_at 7 42)"

definition env_prop :: comm_env where
  "env_prop = \<lparr>ce_size = 2, ce_rank = 1, ce_arrivals = [Some (0, RLO_BCAST, sent_package)], ce_complete = (\<lambda>i t. True)\<rparr>"

lemma sent_package_payload: "payload sent_package = Some (proposal_image (proposal_at 7 42))"
proof -
  have l: "length (proposal_image (proposal_at 7 42)) = 32"
    using length_proposal_image [OF proposal_at_wf [of 7 42]] by (simp add: proposal_at_def)
  have "drop 8 (data_buf sent_package) = put_ulong 64 @ put_int 7 @ put_int 1 @ put_ulong 0 @ put_ulong 32
     @ proposal_image (proposal_at 7 42)"
    by (simp add: data_buf_def sent_package_def)
  then show ?thesis by (simp add: payload_def pbuf_deserialize_image memcpy_from_def l)
qed

lemma env_prop_ok:
  "env_ok env_prop" "\<forall>a\<in>set (ce_arrivals env_prop). good_arrival encoded_proposal a"
  "env_arriving env_prop = {#proposal_image (proposal_at 7 42)#}"
proof -
  show "env_ok env_prop" by (simp add: env_ok_def env_prop_def)
  have "length (proposal_image (proposal_at 7 42)) = 32"
    using length_proposal_image [OF proposal_at_wf [of 7 42]] by (simp add: proposal_at_def)
  then have "length sent_package \<le> 4 + msg_data_max" by (simp add: sent_package_def)
  then show "\<forall>a\<in>set (ce_arrivals env_prop). good_arrival encoded_proposal a"
    by (simp add: env_prop_def good_arrival_def sent_package_payload encoded_proposal_def proposal_at_decodes
        del: msg_max_simps)
  show "env_arriving env_prop = {#proposal_image (proposal_at 7 42)#}"
    by (simp add: env_arriving_def env_prop_def sent_package_payload)
qed

abbreviation idle_plugin :: "unit rlo_state" where
  "idle_plugin \<equiv> \<lparr>rlo_process = no_engines, rlo_clock = (\<lambda>i. 0), rlo_ticks = 0, cleanup_tests = 0, cleanup_total = 0\<rparr>"

abbreviation collect_cb :: "unit \<Rightarrow> byte list \<Rightarrow> byte list list \<Rightarrow> (int \<times> byte list list) option" where
  "collect_cb \<equiv> \<lambda>c b w. Some (0, w @ [b])"

theorem helper_initialised_witness:
  "\<exists>m :: (unit, _, _, _, _, _) metadata_manager.
     MM_metadata_update_helper_init 2 2 1000 (\<lambda>b a. Some (1, a), ()) () (rlo_plugin (env_prop, 0)) collect_cb
       empty_store idle_plugin [] (\<lambda>i. 0) 0 = Some m \<and> mm_rep m [] []"
  using helper_initialised [OF env_prop_ok(1,2), of idle_plugin empty_store 2 2 1000 "(\<lambda>b a. Some (1, a), ())" "()" 0
      collect_cb "[]" "\<lambda>i. 0" 0, where 'o = unit]
  by (auto simp: no_engines_def empty_store_def)



type_synonym demo_helper =
  "(unit, (byte list option \<Rightarrow> unit \<Rightarrow> (c_int \<times> unit) option) \<times> unit, comm_env \<times> nat, unit rlo_state,
    unit, byte list list) metadata_manager"

lemma demo_helper:
  obtains m :: demo_helper and em where "mm_rep m [] []" and "mm_vm m = rlo_mgr (env_prop, 0) 0" and "rlo_ok 0 (mm_vs m)"
    and "rlo_backlog 0 (mm_vs m) = {#}" and "rlo_incoming 0 (mm_vs m) = {#proposal_image (proposal_at 7 42)#}"
    and "mm_em m = Some em" and "total_execute em" and "mm_app m = []" and "EM_execute em = (\<lambda>b w. Some (0, w @ [b]))"
proof -
  obtain m :: demo_helper and em where m: "mm_rep m [] []" "mm_vm m = rlo_mgr (env_prop, 0) 0" "rlo_ok 0 (mm_vs m)"
    "rlo_backlog 0 (mm_vs m) = {#}" "rlo_incoming 0 (mm_vs m) = env_arriving env_prop"
    "mm_em m = Some em" "execute_cb em = collect_cb" "mm_app m = []"
    using rlo_helper_init [OF env_prop_ok(1,2), of idle_plugin empty_store 2 2 1000 "(\<lambda>b a. Some (1, a), ())" "()" 0
      collect_cb "[]" "\<lambda>i. 0" 0, where 'o = unit]
    by (auto simp: no_engines_def empty_store_def)
  have "EM_execute em = (\<lambda>b w. Some (0, w @ [b]))" by (simp add: EM_execute_def m(7) fun_eq_iff)
  with m show ?thesis by (intro that [of m em]) (simp_all add: total_execute_def env_prop_ok(3))
qed


text \<open>
  C22: emptying the ledger at the end moves every record to the execution queue, oldest first, whatever
  its age, and terminates.
\<close>

theorem ledger_emptied_in_order:
  assumes "mm_rep m xs ys" and "mm_vm m = rlo_mgr info e" and "rlo_ok e (mm_vs m)"
  shows "\<exists>m'. MM_move_all_ledger m = Some m' \<and> mm_rep m' [] (ys @ sort_key (record_key (mm_store m)) xs)
    \<and> rlo_ok e (mm_vs m') \<and> qs_data (mm_store m') = qs_data (mm_store m) \<and> mm_const m' = mm_const m"
  using rlo.move_all [OF assms] mm_rep_ledger_cnt [OF assms(1)] by (simp add: MM_move_all_ledger_def)

lemma demo_helper_one:
  obtains m :: demo_helper and a where "mm_rep m [a] []" and "mm_vm m = rlo_mgr (env_prop, 0) 0" and "rlo_ok 0 (mm_vs m)"
    and "node_data (mm_store m) a = Some (proposal_image (proposal_at 7 42))"
proof -
  obtain m :: demo_helper and em where m: "mm_rep m [] []" "mm_vm m = rlo_mgr (env_prop, 0) 0" "rlo_ok 0 (mm_vs m)"
    and "rlo_backlog 0 (mm_vs m) = {#}" "rlo_incoming 0 (mm_vs m) = {#proposal_image (proposal_at 7 42)#}"
    "mm_em m = Some em" "total_execute em" "mm_app m = []" "EM_execute em = (\<lambda>b w. Some (0, w @ [b]))"
    by (rule demo_helper)
  obtain a m1 m2 where m2: "mm_new_node m (proposal_image (proposal_at 7 42)) = (a, m1)" "mm_add_ledger m1 a = Some m2"
    "mm_rep m2 ([] @ [a]) []" "node_data (mm_store m2) a = Some (proposal_image (proposal_at 7 42))" "a \<notin> set ([] @ [])"
    "\<forall>x\<in>set ([] @ []). qs_data (mm_store m2) x = qs_data (mm_store m) x"
    "m2 = m\<lparr>mm_store := mm_store m2, mm_lm := mm_lm m2\<rparr>"
    by (rule mm_new_node_add [OF m(1) proposal_at_decodes [of 7 42]])
  have "mm_vm m2 = mm_vm m" using arg_cong [OF m2(7), of mm_vm] by simp
  moreover have "mm_vs m2 = mm_vs m" using arg_cong [OF m2(7), of mm_vs] by simp
  ultimately show ?thesis using m(2,3) m2(3,4) that [of m2 a] by simp
qed

theorem ledger_emptied_in_order_witness:
  "\<exists>(m :: demo_helper) a m'. mm_rep m [a] [] \<and> MM_move_all_ledger m = Some m' \<and> mm_rep m' [] [a]"
proof -
  obtain m :: demo_helper and a where m: "mm_rep m [a] []" "mm_vm m = rlo_mgr (env_prop, 0) 0" "rlo_ok 0 (mm_vs m)"
    using demo_helper_one by metis
  from ledger_emptied_in_order [OF m] m(1) show ?thesis by auto
qed

end
