(* ===== verification/H5_Codec.thy ===== *)
theory H5_Codec
  imports Bytes
begin

text \<open>
  The encoders and decoders of \<^verbatim>\<open>H5VL_rlo.c\<close>: the parameters of a metadata operation as the data of
  a proposal. HDF5 itself is a parameter: what \<^verbatim>\<open>H5Tencode\<close>, \<^verbatim>\<open>H5Sencode\<close> and \<^verbatim>\<open>H5Pencode\<close> make of
  an identifier, what the three decoders make of a buffer, and the numbers of its location types.
  The state \<open>'l\<close> is the library's; decoding registers a new identifier in it.
\<close>

type_synonym hid_t = c_ulong
type_synonym haddr_t = c_ulong
type_synonym hsize_t = c_ulong

section \<open>The library as the codecs use it\<close>

datatype h5_kind = H5T | H5S | H5P
datatype loc_kind = LOC_SELF | LOC_NAME | LOC_IDX | LOC_TOKEN

record 'l hdf5 =
  h5_encode :: "h5_kind \<Rightarrow> 'l \<Rightarrow> hid_t \<Rightarrow> byte list option"
  h5_decode :: "h5_kind \<Rightarrow> byte list \<Rightarrow> 'l \<Rightarrow> hid_t \<times> 'l"
  h5_loc_type :: "loc_kind \<Rightarrow> c_int"
  h5_token_size :: nat

text \<open>
  What the documentation of HDF5 says of them: the location types are different numbers, decoding
  an encoded identifier gives an identifier of the same object in whatever process does it, and the
  identifiers registered before keep their meaning.
\<close>

definition h5_extends :: "('l, 'z) hdf5_scheme \<Rightarrow> 'l \<Rightarrow> 'l \<Rightarrow> bool" where
  "h5_extends h l l' \<longleftrightarrow> (\<forall>k i b. h5_encode h k l i = Some b \<longrightarrow> h5_encode h k l' i = Some b)"

definition hdf5_laws :: "('l, 'z) hdf5_scheme \<Rightarrow> bool" where
  "hdf5_laws h \<longleftrightarrow> inj (h5_loc_type h)
   \<and> (\<forall>k l i b l2 rest. h5_encode h k l i = Some b \<longrightarrow>
        (case h5_decode h k (b @ rest) l2 of (j, l3) \<Rightarrow> h5_encode h k l3 j = Some b \<and> h5_extends h l2 l3))"

text \<open>The size query of a failing encoder leaves the size at 0, and the buffer is empty.\<close>

definition t_encode :: "('l, 'z) hdf5_scheme \<Rightarrow> 'l \<Rightarrow> hid_t \<Rightarrow> byte list" where
  "t_encode h l type_id = (case h5_encode h H5T l type_id of None \<Rightarrow> [] | Some b \<Rightarrow> b)"

definition s_encode :: "('l, 'z) hdf5_scheme \<Rightarrow> 'l \<Rightarrow> hid_t \<Rightarrow> byte list" where
  "s_encode h l space_id = (case h5_encode h H5S l space_id of None \<Rightarrow> [] | Some b \<Rightarrow> b)"

definition p_encode :: "('l, 'z) hdf5_scheme \<Rightarrow> 'l \<Rightarrow> hid_t \<Rightarrow> byte list" where
  "p_encode h l pl_id = (case h5_encode h H5P l pl_id of None \<Rightarrow> [] | Some b \<Rightarrow> b)"

section \<open>Writing and reading\<close>

text \<open>
  A buffer from \<^verbatim>\<open>calloc\<close> and a write pointer that each write advances. A write past the end of the
  buffer is undefined.
\<close>

definition write_at :: "nat \<Rightarrow> byte list \<Rightarrow> byte list \<Rightarrow> byte list option" where
  "write_at off bs buf =
     (if off + length bs \<le> length buf then Some (take off buf @ bs @ drop (off + length bs) buf) else None)"

fun write_seq :: "nat \<Rightarrow> byte list list \<Rightarrow> byte list \<Rightarrow> byte list option" where
  "write_seq cur [] buf = Some buf"
| "write_seq cur (bs # chunks) buf = do {
     buf \<leftarrow> write_at cur bs buf;
     write_seq (cur + length bs) chunks buf }"

definition calloc_buf :: "c_ulong \<Rightarrow> byte list" where
  "calloc_buf n = replicate (unat n) 0"

abbreviation size_of :: "byte list \<Rightarrow> c_ulong" where
  "size_of b \<equiv> of_nat (length b)"

text \<open>\<^verbatim>\<open>strlen\<close>: a character array without a final zero is read past its end.\<close>

definition strlen :: "byte list \<Rightarrow> nat option" where
  "strlen s = (if 0 \<in> set s then Some (length (takeWhile (\<lambda>c. c \<noteq> 0) s)) else None)"

text \<open>A size, the identifier decoded from what follows it, and the pointer advanced by the size.\<close>

definition get_id :: "('l, 'z) hdf5_scheme \<Rightarrow> h5_kind \<Rightarrow> byte list \<Rightarrow> 'l \<Rightarrow> (hid_t \<times> byte list \<times> 'l) option" where
  "get_id h k buf l = do {
     (n, buf) \<leftarrow> get_ulong buf;
     (case h5_decode h k buf l of (i, l) \<Rightarrow> Some (i, drop (unat n) buf, l)) }"

section \<open>Location parameters\<close>

text \<open>The union of \<^verbatim>\<open>H5VL_loc_params_t\<close>. Reading a member that was not stored is undefined.\<close>

datatype loc_union =
  Loc_none
| Loc_by_name (loc_name: "byte list") (loc_lapl_id: hid_t)
| Loc_by_idx "byte list" c_int c_int hsize_t hid_t
| Loc_by_token "byte list"

record loc_params =
  lp_obj_type :: c_int
  lp_type :: c_int
  loc_data :: loc_union

text \<open>
  In the case \<^verbatim>\<open>H5VL_OBJECT_BY_IDX\<close> the pointer is not advanced past the size of the name, so the
  name overwrites it.
\<close>

definition loc_union_encoder :: "('l, 'z) hdf5_scheme \<Rightarrow> 'l \<Rightarrow> loc_params \<Rightarrow> (c_ulong \<times> byte list) option" where
  "loc_union_encoder h l p =
     (if lp_type p = h5_loc_type h LOC_SELF then Some (0, [])
      else if lp_type p = h5_loc_type h LOC_IDX then
        (case loc_data p of
           Loc_by_idx name idx_type order n lapl_id \<Rightarrow>
             (let pl = p_encode h l lapl_id in do {
                len \<leftarrow> strlen name;
                name_size \<leftarrow> Some (of_nat len + 1 :: c_ulong);
                nm \<leftarrow> memcpy_from name (unat name_size);
                (let union_size = 8 + name_size + 4 + 4 + 8 + 8 + size_of pl in do {
                   buf \<leftarrow> write_at 0 (put_ulong name_size) (calloc_buf union_size);
                   buf \<leftarrow> write_seq 0 [nm, put_int idx_type, put_int order, put_ulong n, put_ulong (size_of pl), pl] buf;
                   Some (union_size, buf) }) })
         | _ \<Rightarrow> None)
      else if lp_type p = h5_loc_type h LOC_TOKEN then
        (case loc_data p of
           Loc_by_token token \<Rightarrow> do {
             tok \<leftarrow> memcpy_from token (h5_token_size h);
             Some (of_nat (h5_token_size h), tok) }
         | _ \<Rightarrow> None)
      else if lp_type p = h5_loc_type h LOC_NAME then
        (case loc_data p of
           Loc_by_name name lapl_id \<Rightarrow>
             (let pl = p_encode h l lapl_id in do {
                len \<leftarrow> strlen name;
                name_size \<leftarrow> Some (of_nat len + 1 :: c_ulong);
                nm \<leftarrow> memcpy_from name (unat name_size);
                (let union_size = 8 + size_of pl + 8 + name_size in do {
                   buf \<leftarrow> write_seq 0 [put_ulong (size_of pl), pl, put_ulong name_size, nm] (calloc_buf union_size);
                   Some (union_size, buf) }) })
         | _ \<Rightarrow> None)
      else None)"

definition loc_params_encoder :: "('l, 'z) hdf5_scheme \<Rightarrow> 'l \<Rightarrow> loc_params \<Rightarrow> (c_int \<times> byte list) option" where
  "loc_params_encoder h l p = do {
     (union_size, buf_union) \<leftarrow> loc_union_encoder h l p;
     (let total_size = 4 + 4 + union_size in do {
        buf \<leftarrow> write_seq 0 [put_int (lp_obj_type p), put_int (lp_type p), buf_union] (calloc_buf total_size);
        Some (ucast total_size, buf) }) }"

definition loc_union_decoder ::
  "('l, 'z) hdf5_scheme \<Rightarrow> c_int \<Rightarrow> byte list \<Rightarrow> 'l \<Rightarrow> (loc_union \<times> 'l) option" where
  "loc_union_decoder h t buf l =
     (if t = h5_loc_type h LOC_SELF then Some (Loc_none, l)
      else if t = h5_loc_type h LOC_IDX then do {
        (name_size, buf) \<leftarrow> get_ulong buf;
        (name, buf) \<leftarrow> get_bytes (unat name_size) buf;
        (idx_type, buf) \<leftarrow> get_int buf;
        (order, buf) \<leftarrow> get_int buf;
        (n, buf) \<leftarrow> get_ulong buf;
        (case h5_decode h H5P buf l of (lapl_id, l) \<Rightarrow> Some (Loc_by_idx name idx_type order n lapl_id, l)) }
      else if t = h5_loc_type h LOC_TOKEN then do {
        (tok, buf) \<leftarrow> get_bytes (h5_token_size h) buf;
        Some (Loc_by_token tok, l) }
      else if t = h5_loc_type h LOC_NAME then do {
        (lapl_id, buf, l) \<leftarrow> get_id h H5P buf l;
        (name_size, buf) \<leftarrow> get_ulong buf;
        (name, buf) \<leftarrow> get_bytes (unat name_size) buf;
        Some (Loc_by_name name lapl_id, l) }
      else None)"

definition loc_params_decoder ::
  "('l, 'z) hdf5_scheme \<Rightarrow> byte list \<Rightarrow> 'l \<Rightarrow> (loc_params \<times> 'l) option" where
  "loc_params_decoder h buf l = do {
     (obj_type, buf) \<leftarrow> get_int buf;
     (t, buf) \<leftarrow> get_int buf;
     (u, l) \<leftarrow> loc_union_decoder h t buf l;
     Some (\<lparr>lp_obj_type = obj_type, lp_type = t, loc_data = u\<rparr>, l) }"

section \<open>The parameter records\<close>

text \<open>\<open>rlo_obj_type_t\<close>, stored as an \<^verbatim>\<open>int\<close>.\<close>

datatype rlo_obj_type =
  VL_FILE | VL_GROUP | VL_DATASET | VL_ATTRIBUTES | VL_NAMED_DATATYPE | VL_INVALID

fun vl_code :: "rlo_obj_type \<Rightarrow> c_int" where
  "vl_code VL_FILE = 0"
| "vl_code VL_GROUP = 1"
| "vl_code VL_DATASET = 2"
| "vl_code VL_ATTRIBUTES = 3"
| "vl_code VL_NAMED_DATATYPE = 4"
| "vl_code VL_INVALID = 5"

text \<open>The fields that the four records of creating operations have in common, and those records.\<close>

record param_create =
  parent_type :: c_int
  parent_obj_addr :: haddr_t
  loc_param_size :: c_ulong
  prm_loc_params :: loc_params
  name_size :: c_ulong
  prm_name :: "byte list"

record param_ds_create = param_create +
  ds_type_id :: hid_t
  ds_space_id :: hid_t
  ds_lcpl_id :: hid_t
  ds_dcpl_id :: hid_t
  ds_dapl_id :: hid_t
  ds_dxpl_id :: hid_t

record param_dt_commit = param_create +
  dt_type_id :: hid_t
  dt_lcpl_id :: hid_t
  dt_tcpl_id :: hid_t
  dt_tapl_id :: hid_t
  dt_dxpl_id :: hid_t

record param_group = param_create +
  gr_lcpl_id :: hid_t
  gr_gcpl_id :: hid_t
  gr_gapl_id :: hid_t
  gr_dxpl_id :: hid_t

record param_attr = param_create +
  at_type_id :: hid_t
  at_space_id :: hid_t
  at_acpl_id :: hid_t
  at_aapl_id :: hid_t
  at_dxpl_id :: hid_t

record param_ds_extend =
  dset_addr :: haddr_t
  ext_rank :: c_int
  new_size :: "hsize_t list"

record param_attr_wr =
  aw_mem_type_id :: hid_t
  aw_dxpl_id :: hid_t
  aw_parent_type :: c_int
  aw_parent_obj_addr :: haddr_t
  aw_attr_name_size :: c_ulong
  aw_attr_name :: "byte list"
  aw_buf_size :: c_ulong
  aw_buf :: "byte list"

section \<open>Encoders and decoders of the creating operations\<close>

text \<open>
  An encoded identifier with its size, and the fields in common, which all four encoders write
  last and all four decoders read last. A null \<^verbatim>\<open>*proposal_data_out\<close>, which every caller passes, makes
  the encoder allocate the buffer.
\<close>

definition id_chunks :: "byte list \<Rightarrow> byte list list" where
  "id_chunks b = [put_ulong (size_of b), b]"

definition create_chunks :: "'z param_create_scheme \<Rightarrow> byte list \<Rightarrow> byte list \<Rightarrow> byte list list" where
  "create_chunks p name pack =
     [put_int (parent_type p), put_ulong (parent_obj_addr p), put_ulong (name_size p), name,
      put_ulong (loc_param_size p), pack]"

definition get_create :: "('l, 'z) hdf5_scheme \<Rightarrow> byte list \<Rightarrow> 'l \<Rightarrow> (param_create \<times> 'l) option" where
  "get_create h buf l = do {
     (pt, buf) \<leftarrow> get_int buf;
     (addr, buf) \<leftarrow> get_ulong buf;
     (ns, buf) \<leftarrow> get_ulong buf;
     (nm, buf) \<leftarrow> get_bytes (unat ns) buf;
     (ls, buf) \<leftarrow> get_ulong buf;
     (lp, l) \<leftarrow> loc_params_decoder h buf l;
     Some (\<lparr>parent_type = pt, parent_obj_addr = addr, loc_param_size = ls, prm_loc_params = lp,
            name_size = ns, prm_name = nm\<rparr>, l) }"

definition ds_create_encoder ::
  "('l, 'z) hdf5_scheme \<Rightarrow> 'l \<Rightarrow> param_ds_create \<Rightarrow> (param_ds_create \<times> c_int \<times> byte list) option" where
  "ds_create_encoder h l param_in = do {
     (size, param_pack) \<leftarrow> loc_params_encoder h l (prm_loc_params param_in);
     (let param_in = param_in\<lparr>loc_param_size := scast size\<rparr>;
          tid_buf = t_encode h l (ds_type_id param_in);
          sid_buf = s_encode h l (ds_space_id param_in);
          lcpl_buf = p_encode h l (ds_lcpl_id param_in);
          dcpl_buf = p_encode h l (ds_dcpl_id param_in);
          dapl_buf = p_encode h l (ds_dapl_id param_in);
          dxpl_buf = p_encode h l (ds_dxpl_id param_in);
          total_size = size_of tid_buf + size_of sid_buf + size_of lcpl_buf + size_of dcpl_buf
            + size_of dapl_buf + size_of dxpl_buf + 6 * 8 + 4 + 8 + loc_param_size param_in
            + name_size param_in + 2 * 8 in do {
        name \<leftarrow> memcpy_from (prm_name param_in) (unat (name_size param_in));
        pack \<leftarrow> memcpy_from param_pack (unat (loc_param_size param_in));
        buf \<leftarrow> write_seq 0
          (id_chunks tid_buf @ id_chunks sid_buf @ id_chunks lcpl_buf @ id_chunks dcpl_buf
           @ id_chunks dapl_buf @ id_chunks dxpl_buf @ create_chunks param_in name pack)
          (calloc_buf total_size);
        Some (param_in, ucast total_size, buf) }) }"

definition ds_create_decoder ::
  "('l, 'z) hdf5_scheme \<Rightarrow> byte list \<Rightarrow> 'l \<Rightarrow> (param_ds_create \<times> 'l) option" where
  "ds_create_decoder h buf l = do {
     (type_id, buf, l) \<leftarrow> get_id h H5T buf l;
     (space_id, buf, l) \<leftarrow> get_id h H5S buf l;
     (lcpl_id, buf, l) \<leftarrow> get_id h H5P buf l;
     (dcpl_id, buf, l) \<leftarrow> get_id h H5P buf l;
     (dapl_id, buf, l) \<leftarrow> get_id h H5P buf l;
     (dxpl_id, buf, l) \<leftarrow> get_id h H5P buf l;
     (c, l) \<leftarrow> get_create h buf l;
     Some (param_create.extend c (param_ds_create.fields type_id space_id lcpl_id dcpl_id dapl_id dxpl_id), l) }"

definition dt_commit_encoder ::
  "('l, 'z) hdf5_scheme \<Rightarrow> 'l \<Rightarrow> param_dt_commit \<Rightarrow> (param_dt_commit \<times> c_ulong \<times> byte list) option" where
  "dt_commit_encoder h l param_in = do {
     (size, param_pack) \<leftarrow> loc_params_encoder h l (prm_loc_params param_in);
     (let param_in = param_in\<lparr>loc_param_size := scast size\<rparr>;
          tid_buf = t_encode h l (dt_type_id param_in);
          lcpl_buf = p_encode h l (dt_lcpl_id param_in);
          tcpl_buf = p_encode h l (dt_tcpl_id param_in);
          tapl_buf = p_encode h l (dt_tapl_id param_in);
          dxpl_buf = p_encode h l (dt_dxpl_id param_in);
          total_size = 8 + size_of tid_buf + 8 + size_of lcpl_buf + 8 + size_of tcpl_buf + 8 + size_of tapl_buf
            + 8 + size_of dxpl_buf + 4 + 8 + 8 + loc_param_size param_in + 8 + name_size param_in in do {
        name \<leftarrow> memcpy_from (prm_name param_in) (unat (name_size param_in));
        pack \<leftarrow> memcpy_from param_pack (unat (loc_param_size param_in));
        buf \<leftarrow> write_seq 0
          (id_chunks tid_buf @ id_chunks lcpl_buf @ id_chunks tcpl_buf @ id_chunks tapl_buf
           @ id_chunks dxpl_buf @ create_chunks param_in name pack)
          (calloc_buf total_size);
        Some (param_in, total_size, buf) }) }"

definition dt_commit_decoder ::
  "('l, 'z) hdf5_scheme \<Rightarrow> byte list \<Rightarrow> 'l \<Rightarrow> (param_dt_commit \<times> 'l) option" where
  "dt_commit_decoder h buf l = do {
     (type_id, buf, l) \<leftarrow> get_id h H5T buf l;
     (lcpl_id, buf, l) \<leftarrow> get_id h H5P buf l;
     (tcpl_id, buf, l) \<leftarrow> get_id h H5P buf l;
     (tapl_id, buf, l) \<leftarrow> get_id h H5P buf l;
     (dxpl_id, buf, l) \<leftarrow> get_id h H5P buf l;
     (c, l) \<leftarrow> get_create h buf l;
     Some (param_create.extend c (param_dt_commit.fields type_id lcpl_id tcpl_id tapl_id dxpl_id), l) }"

text \<open>The encoder of groups computes the size of the name itself.\<close>

definition group_create_encoder ::
  "('l, 'z) hdf5_scheme \<Rightarrow> 'l \<Rightarrow> param_group \<Rightarrow> (param_group \<times> c_int \<times> byte list) option" where
  "group_create_encoder h l param_in = do {
     (size, param_pack) \<leftarrow> loc_params_encoder h l (prm_loc_params param_in);
     len \<leftarrow> strlen (prm_name param_in);
     (let param_in = param_in\<lparr>loc_param_size := scast size, name_size := of_nat len + 1\<rparr>;
          lcpl_buf = p_encode h l (gr_lcpl_id param_in);
          gcpl_buf = p_encode h l (gr_gcpl_id param_in);
          gapl_buf = p_encode h l (gr_gapl_id param_in);
          dxpl_buf = p_encode h l (gr_dxpl_id param_in);
          total_size = size_of lcpl_buf + size_of gcpl_buf + size_of gapl_buf + size_of dxpl_buf + 4 * 8
            + 4 + 8 + loc_param_size param_in + name_size param_in + 2 * 8 in do {
        name \<leftarrow> memcpy_from (prm_name param_in) (unat (name_size param_in));
        pack \<leftarrow> memcpy_from param_pack (unat (loc_param_size param_in));
        buf \<leftarrow> write_seq 0
          (id_chunks lcpl_buf @ id_chunks gcpl_buf @ id_chunks gapl_buf @ id_chunks dxpl_buf
           @ create_chunks param_in name pack)
          (calloc_buf total_size);
        Some (param_in, ucast total_size, buf) }) }"

definition group_create_decoder ::
  "('l, 'z) hdf5_scheme \<Rightarrow> byte list \<Rightarrow> 'l \<Rightarrow> (param_group \<times> 'l) option" where
  "group_create_decoder h buf l = do {
     (lcpl_id, buf, l) \<leftarrow> get_id h H5P buf l;
     (gcpl_id, buf, l) \<leftarrow> get_id h H5P buf l;
     (gapl_id, buf, l) \<leftarrow> get_id h H5P buf l;
     (dxpl_id, buf, l) \<leftarrow> get_id h H5P buf l;
     (c, l) \<leftarrow> get_create h buf l;
     Some (param_create.extend c (param_group.fields lcpl_id gcpl_id gapl_id dxpl_id), l) }"

definition attr_create_encoder ::
  "('l, 'z) hdf5_scheme \<Rightarrow> 'l \<Rightarrow> param_attr \<Rightarrow> (param_attr \<times> c_int \<times> byte list) option" where
  "attr_create_encoder h l param_in = do {
     (size, param_pack) \<leftarrow> loc_params_encoder h l (prm_loc_params param_in);
     (let param_in = param_in\<lparr>loc_param_size := scast size\<rparr>;
          tid_buf = t_encode h l (at_type_id param_in);
          sid_buf = s_encode h l (at_space_id param_in);
          acpl_buf = p_encode h l (at_acpl_id param_in);
          aapl_buf = p_encode h l (at_aapl_id param_in);
          dxpl_buf = p_encode h l (at_dxpl_id param_in);
          total_size = size_of tid_buf + size_of sid_buf + size_of acpl_buf + size_of aapl_buf + size_of dxpl_buf
            + 5 * 8 + 4 + 8 + loc_param_size param_in + name_size param_in + 2 * 8 in do {
        name \<leftarrow> memcpy_from (prm_name param_in) (unat (name_size param_in));
        pack \<leftarrow> memcpy_from param_pack (unat (loc_param_size param_in));
        buf \<leftarrow> write_seq 0
          (id_chunks tid_buf @ id_chunks sid_buf @ id_chunks acpl_buf @ id_chunks aapl_buf
           @ id_chunks dxpl_buf @ create_chunks param_in name pack)
          (calloc_buf total_size);
        Some (param_in, ucast total_size, buf) }) }"

definition attr_create_decoder ::
  "('l, 'z) hdf5_scheme \<Rightarrow> byte list \<Rightarrow> 'l \<Rightarrow> (param_attr \<times> 'l) option" where
  "attr_create_decoder h buf l = do {
     (type_id, buf, l) \<leftarrow> get_id h H5T buf l;
     (space_id, buf, l) \<leftarrow> get_id h H5S buf l;
     (acpl_id, buf, l) \<leftarrow> get_id h H5P buf l;
     (aapl_id, buf, l) \<leftarrow> get_id h H5P buf l;
     (dxpl_id, buf, l) \<leftarrow> get_id h H5P buf l;
     (c, l) \<leftarrow> get_create h buf l;
     Some (param_create.extend c (param_attr.fields type_id space_id acpl_id aapl_id dxpl_id), l) }"

section \<open>Writing an attribute, extending a dataset\<close>

definition attr_write_encoder ::
  "('l, 'z) hdf5_scheme \<Rightarrow> 'l \<Rightarrow> param_attr_wr \<Rightarrow> (c_int \<times> byte list) option" where
  "attr_write_encoder h l param_in =
     (let tid_buf = t_encode h l (aw_mem_type_id param_in);
          dxpl_buf = p_encode h l (aw_dxpl_id param_in);
          total_size = 8 + size_of tid_buf + 8 + size_of dxpl_buf + 4 + 8 + 8 + aw_attr_name_size param_in
            + 8 + aw_buf_size param_in in do {
        name \<leftarrow> memcpy_from (aw_attr_name param_in) (unat (aw_attr_name_size param_in));
        dat \<leftarrow> (if aw_buf_size param_in > 0 then memcpy_from (aw_buf param_in) (unat (aw_buf_size param_in))
                else Some []);
        buf \<leftarrow> write_seq 0
          (id_chunks tid_buf @ id_chunks dxpl_buf
           @ [put_int (aw_parent_type param_in), put_ulong (aw_parent_obj_addr param_in),
              put_ulong (aw_attr_name_size param_in), name, put_ulong (aw_buf_size param_in), dat])
          (calloc_buf total_size);
        Some (ucast total_size, buf) })"

definition attr_write_decoder ::
  "('l, 'z) hdf5_scheme \<Rightarrow> byte list \<Rightarrow> 'l \<Rightarrow> (param_attr_wr \<times> 'l) option" where
  "attr_write_decoder h buf l = do {
     (type_id, buf, l) \<leftarrow> get_id h H5T buf l;
     (dxpl_id, buf, l) \<leftarrow> get_id h H5P buf l;
     (pt, buf) \<leftarrow> get_int buf;
     (addr, buf) \<leftarrow> get_ulong buf;
     (ns, buf) \<leftarrow> get_ulong buf;
     (nm, buf) \<leftarrow> get_bytes (unat ns) buf;
     (bs, buf) \<leftarrow> get_ulong buf;
     (dat, buf) \<leftarrow> get_bytes (unat bs) buf;
     Some (\<lparr>aw_mem_type_id = type_id, aw_dxpl_id = dxpl_id, aw_parent_type = pt, aw_parent_obj_addr = addr,
            aw_attr_name_size = ns, aw_attr_name = nm, aw_buf_size = bs, aw_buf = dat\<rparr>, l) }"

text \<open>
  The address of the dataset and its rank are asked of the library before this point. The number of
  bytes copied is \<^verbatim>\<open>ds_rank * sizeof(hsize_t)\<close>, of which a negative rank would make a huge size.
\<close>

definition ds_extend_encoder :: "haddr_t \<Rightarrow> c_int \<Rightarrow> hsize_t list \<Rightarrow> (c_ulong \<times> byte list) option" where
  "ds_extend_encoder addr ds_rank sizes =
     (let dims_size = scast ds_rank * 8 :: c_ulong; data_size = 8 + 4 + dims_size in do {
        dims \<leftarrow> memcpy_from (concat (map put_ulong sizes)) (unat dims_size);
        buf \<leftarrow> write_seq 0 [put_ulong addr, put_int ds_rank, dims] (calloc_buf data_size);
        Some (data_size, buf) })"

fun get_ulongs :: "nat \<Rightarrow> byte list \<Rightarrow> (c_ulong list \<times> byte list) option" where
  "get_ulongs 0 buf = Some ([], buf)"
| "get_ulongs (Suc n) buf = do {
     (x, buf) \<leftarrow> get_ulong buf;
     (xs, buf) \<leftarrow> get_ulongs n buf;
     Some (x # xs, buf) }"

definition ds_extend_decoder :: "byte list \<Rightarrow> param_ds_extend option" where
  "ds_extend_decoder buf = do {
     (addr, buf) \<leftarrow> get_ulong buf;
     (rank, buf) \<leftarrow> get_int buf;
     (dims, buf) \<leftarrow> get_ulongs (unat (scast rank * 8 :: c_ulong) div 8) buf;
     Some \<lparr>dset_addr = addr, ext_rank = rank, new_size = dims\<rparr> }"

end
