(* ===== verification/H5_Codec_Facts.thy ===== *)
theory H5_Codec_Facts
  imports H5_Codec PBuf Proposal
begin

text \<open>
  What an encoder of \<open>H5_Codec\<close> writes is what the decoder reads, up to the identifiers, for which the
  decoding process registers identifiers of equal objects. The interface \<open>operation_codec\<close> is what
  the path of a proposal needs of a codec; every operation provides it.
\<close>

section \<open>Buffers\<close>

lemma write_seq_over:
  assumes "length (concat chunks) \<le> length buf"
  shows "write_seq (length pre) chunks (pre @ buf)
    = Some (pre @ concat chunks @ drop (length (concat chunks)) buf)"
  using assms
proof (induction chunks arbitrary: pre buf)
  case (Cons c chunks)
  have w: "write_at (length pre) c (pre @ buf) = Some ((pre @ c) @ drop (length c) buf)"
    using Cons.prems by (simp add: write_at_def)
  show ?case using Cons.IH [of "drop (length c) buf" "pre @ c"] Cons.prems by (simp add: w add.commute)
qed simp

declare write_seq.simps [simp del]

lemma write_calloc:
  assumes "unat n = length (concat chunks)"
  shows "write_seq 0 chunks (calloc_buf n) = Some (concat chunks)"
  using write_seq_over [of chunks "calloc_buf n" "[]"] assms by (simp add: calloc_buf_def)

lemma size_of_unat: "length b < 2 ^ 64 \<Longrightarrow> unat (size_of b) = length b"
  by (simp add: unat_of_nat)

lemma write_image:
  assumes "concat chunks = img" and "length img < 2 ^ 64"
  shows "write_seq 0 chunks (calloc_buf (size_of img)) = Some img"
  using write_calloc [of "size_of img" chunks] assms size_of_unat by simp

lemma int_of_size:
  assumes "n < 2 ^ 31"
  shows "scast (ucast (of_nat n :: c_ulong) :: c_int) = (of_nat n :: c_ulong)"
    and "sint (ucast (of_nat n :: c_ulong) :: c_int) = int n"
proof -
  have u: "(ucast (of_nat n :: c_ulong) :: c_int) = of_nat n" using assms by (simp add: unsigned_of_nat take_bit_nat_eq_self)
  show "scast (ucast (of_nat n :: c_ulong) :: c_int) = (of_nat n :: c_ulong)"
    using scast_of_nat_small(2) [OF assms] u by simp
  show "sint (ucast (of_nat n :: c_ulong) :: c_int) = int n"
    using sint_word_of_int_small [of "int n"] assms u by (simp add: of_nat_inverse)
qed

section \<open>Identifiers\<close>

definition codable :: "('l, 'z) hdf5_scheme \<Rightarrow> h5_kind \<Rightarrow> 'l \<Rightarrow> hid_t \<Rightarrow> bool" where
  "codable h k l i \<longleftrightarrow> (\<exists>b. h5_encode h k l i = Some b \<and> length b < 2 ^ 24)"

definition id_image :: "('l, 'z) hdf5_scheme \<Rightarrow> h5_kind \<Rightarrow> 'l \<Rightarrow> hid_t \<Rightarrow> byte list" where
  "id_image h k l i = (case h5_encode h k l i of None \<Rightarrow> [] | Some b \<Rightarrow> b)"

text \<open>An identifier of one process and one of another, of equal objects.\<close>

definition alike :: "('l, 'z) hdf5_scheme \<Rightarrow> h5_kind \<Rightarrow> 'l \<Rightarrow> hid_t \<Rightarrow> 'l \<Rightarrow> hid_t \<Rightarrow> bool" where
  "alike h k l i l' j \<longleftrightarrow> h5_encode h k l i \<noteq> None \<and> h5_encode h k l' j = h5_encode h k l i"

lemma encode_image:
  "t_encode h l i = id_image h H5T l i" "s_encode h l i = id_image h H5S l i" "p_encode h l i = id_image h H5P l i"
  by (simp_all add: id_image_def t_encode_def s_encode_def p_encode_def)

lemma id_image_length: "codable h k l i \<Longrightarrow> length (id_image h k l i) < 2 ^ 24"
  by (auto simp: codable_def id_image_def)

lemma h5_extends_refl: "h5_extends h l l"
  by (simp add: h5_extends_def)

lemma h5_extends_trans [trans]: "h5_extends h l l' \<Longrightarrow> h5_extends h l' l'' \<Longrightarrow> h5_extends h l l''"
  by (auto simp: h5_extends_def)

lemma alike_extends: "alike h k l i l' j \<Longrightarrow> h5_extends h l' l'' \<Longrightarrow> alike h k l i l'' j"
  by (auto simp: alike_def h5_extends_def)

lemma h5_decode_image:
  assumes "hdf5_laws h" and "codable h k l i"
  obtains j l' where "h5_decode h k (id_image h k l i @ rest) l2 = (j, l')" and "alike h k l i l' j"
    and "h5_extends h l2 l'"
proof -
  obtain b where b: "h5_encode h k l i = Some b" using assms(2) by (auto simp: codable_def)
  then have "case h5_decode h k (b @ rest) l2 of (j, l3) \<Rightarrow> h5_encode h k l3 j = Some b \<and> h5_extends h l2 l3"
    using assms(1) by (simp add: hdf5_laws_def)
  then show thesis using that b by (auto simp: id_image_def alike_def)
qed

lemma get_id_image:
  assumes "hdf5_laws h" and "codable h k l i"
  obtains j l' where "\<forall>rest'. rest' = rest \<longrightarrow> get_id h k (concat (id_chunks (id_image h k l i)) @ rest') l2 = Some (j, rest', l')"
    and "alike h k l i l' j" and "h5_extends h l2 l'"
proof -
  obtain j l' where "h5_decode h k (id_image h k l i @ rest) l2 = (j, l')" and "alike h k l i l' j"
    and "h5_extends h l2 l'"
    by (rule h5_decode_image [OF assms])
  moreover have "unat (size_of (id_image h k l i)) = length (id_image h k l i)"
    using id_image_length [OF assms(2)] by (simp add: size_of_unat)
  ultimately show thesis using that by (simp add: get_id_def id_chunks_def codec_simps)
qed

section \<open>Location parameters\<close>

text \<open>The locations the codec can carry; a location by index is not among them.\<close>

definition wf_loc :: "('l, 'z) hdf5_scheme \<Rightarrow> 'l \<Rightarrow> loc_params \<Rightarrow> bool" where
  "wf_loc h l p \<longleftrightarrow>
     (case loc_data p of
        Loc_none \<Rightarrow> lp_type p = h5_loc_type h LOC_SELF
      | Loc_by_token t \<Rightarrow> lp_type p = h5_loc_type h LOC_TOKEN \<and> length t = h5_token_size h \<and> length t < 2 ^ 24
      | Loc_by_name nm i \<Rightarrow> lp_type p = h5_loc_type h LOC_NAME \<and> codable h H5P l i
          \<and> nm \<noteq> [] \<and> last nm = 0 \<and> 0 \<notin> set (butlast nm) \<and> length nm < 2 ^ 24
      | Loc_by_idx _ _ _ _ _ \<Rightarrow> False)"

definition loc_union_image :: "('l, 'z) hdf5_scheme \<Rightarrow> 'l \<Rightarrow> loc_union \<Rightarrow> byte list" where
  "loc_union_image h l u =
     (case u of
        Loc_by_name nm i \<Rightarrow> concat (id_chunks (id_image h H5P l i)) @ put_ulong (size_of nm) @ nm
      | Loc_by_token t \<Rightarrow> t
      | _ \<Rightarrow> [])"

definition loc_image :: "('l, 'z) hdf5_scheme \<Rightarrow> 'l \<Rightarrow> loc_params \<Rightarrow> byte list" where
  "loc_image h l p = put_int (lp_obj_type p) @ put_int (lp_type p) @ loc_union_image h l (loc_data p)"

definition loc_union_alike :: "('l, 'z) hdf5_scheme \<Rightarrow> 'l \<Rightarrow> loc_union \<Rightarrow> 'l \<Rightarrow> loc_union \<Rightarrow> bool" where
  "loc_union_alike h l u l' v \<longleftrightarrow>
     (case u of
        Loc_by_name nm i \<Rightarrow> (\<exists>j. v = Loc_by_name nm j \<and> alike h H5P l i l' j)
      | _ \<Rightarrow> v = u)"

definition loc_alike :: "('l, 'z) hdf5_scheme \<Rightarrow> 'l \<Rightarrow> loc_params \<Rightarrow> 'l \<Rightarrow> loc_params \<Rightarrow> bool" where
  "loc_alike h l p l' q \<longleftrightarrow> lp_obj_type q = lp_obj_type p \<and> lp_type q = lp_type p
     \<and> loc_union_alike h l (loc_data p) l' (loc_data q)"

lemma strlen_c_string:
  assumes "nm \<noteq> []" and "last nm = 0" and "0 \<notin> set (butlast nm)"
  obtains k where "strlen nm = Some k" and "(of_nat k + 1 :: c_ulong) = size_of nm" and "Suc k = length nm"
proof -
  have nm: "nm = butlast nm @ [0]" using assms by (metis append_butlast_last_id)
  moreover have "takeWhile (\<lambda>c. c \<noteq> 0) (butlast nm @ [0]) = butlast nm"
    using assms(3) by (subst takeWhile_append2) auto
  ultimately have "strlen nm = Some (length (butlast nm))"
    by (metis in_set_conv_decomp strlen_def)
  moreover have len: "Suc (length (butlast nm)) = length nm" using assms(1) by (cases nm) simp_all
  moreover have "(of_nat (length (butlast nm)) + 1 :: c_ulong) = size_of nm"
    unfolding len [symmetric] by simp
  ultimately show thesis using that by blast
qed

lemma loc_kinds_differ:
  assumes "hdf5_laws h"
  shows "h5_loc_type h a = h5_loc_type h b \<longleftrightarrow> a = b"
  using assms by (auto simp: hdf5_laws_def inj_eq)

lemma loc_union_image_length:
  assumes "wf_loc h l p"
  shows "length (loc_union_image h l (loc_data p)) < 2 ^ 26"
  using assms id_image_length
  by (fastforce simp: wf_loc_def loc_union_image_def id_chunks_def split: loc_union.splits)

lemma loc_union_encoder_image:
  assumes "hdf5_laws h" and "wf_loc h l p"
  shows "loc_union_encoder h l p
    = Some (size_of (loc_union_image h l (loc_data p)), loc_union_image h l (loc_data p))"
proof (cases "loc_data p")
  case (Loc_by_name nm i)
  let ?pl = "id_image h H5P l i"
  have w: "nm \<noteq> []" "last nm = 0" "0 \<notin> set (butlast nm)" "length nm < 2 ^ 24" "codable h H5P l i"
    using assms(2) Loc_by_name by (auto simp: wf_loc_def)
  obtain k where k: "strlen nm = Some k" "(of_nat k + 1 :: c_ulong) = size_of nm" "Suc k = length nm"
    by (rule strlen_c_string [OF w(1-3)])
  have n: "16 + size_of ?pl + size_of nm = size_of (loc_union_image h l (loc_data p))"
    by (simp add: Loc_by_name loc_union_image_def id_chunks_def)
  then have n': "17 + (size_of ?pl + of_nat k) = size_of (loc_union_image h l (loc_data p))"
    by (simp add: k(2) [symmetric] algebra_simps)
  have "write_seq 0 [put_ulong (size_of ?pl), ?pl, put_ulong (size_of nm), nm]
      (calloc_buf (size_of (loc_union_image h l (loc_data p)))) = Some (loc_union_image h l (loc_data p))"
    by (rule write_image)
      (use loc_union_image_length [OF assms(2)] in \<open>simp_all add: Loc_by_name loc_union_image_def id_chunks_def\<close>)
  then show ?thesis
    using assms(2) w k(1,2) size_of_unat [of nm] n'
    by (simp add: Loc_by_name loc_union_encoder_def wf_loc_def loc_kinds_differ [OF assms(1)]
        encode_image memcpy_from_exact Let_def)
qed (use assms(2) in \<open>auto simp: wf_loc_def loc_union_encoder_def loc_union_image_def
    loc_kinds_differ [OF assms(1)] memcpy_from_exact\<close>)

lemma loc_image_length: "wf_loc h l p \<Longrightarrow> length (loc_image h l p) < 2 ^ 27"
  using loc_union_image_length by (fastforce simp: loc_image_def)

lemma loc_params_encoder_image:
  assumes "hdf5_laws h" and "wf_loc h l p"
  shows "loc_params_encoder h l p = Some (ucast (size_of (loc_image h l p)), loc_image h l p)"
proof -
  have n: "8 + size_of (loc_union_image h l (loc_data p)) = size_of (loc_image h l p)"
    by (simp add: loc_image_def)
  have "write_seq 0 [put_int (lp_obj_type p), put_int (lp_type p), loc_union_image h l (loc_data p)]
      (calloc_buf (size_of (loc_image h l p))) = Some (loc_image h l p)"
    by (rule write_image) (use loc_image_length [OF assms(2)] in \<open>simp_all add: loc_image_def\<close>)
  then show ?thesis
    by (simp add: loc_params_encoder_def loc_union_encoder_image [OF assms] n Let_def)
qed

lemma loc_union_decoder_image:
  assumes "hdf5_laws h" and "wf_loc h l p"
  shows "\<exists>v l'. loc_union_decoder h (lp_type p) (loc_union_image h l (loc_data p) @ rest) l2 = Some (v, l')
    \<and> loc_union_alike h l (loc_data p) l' v \<and> h5_extends h l2 l'"
proof (cases "loc_data p")
  case (Loc_by_name nm i)
  have w: "nm \<noteq> []" "length nm < 2 ^ 24" "codable h H5P l i" "lp_type p = h5_loc_type h LOC_NAME"
    using assms(2) Loc_by_name by (auto simp: wf_loc_def)
  obtain j l' where j: "\<forall>rest'. rest' = put_ulong (size_of nm) @ nm @ rest \<longrightarrow>
      get_id h H5P (concat (id_chunks (id_image h H5P l i)) @ rest') l2 = Some (j, rest', l')"
    and a: "alike h H5P l i l' j" "h5_extends h l2 l'"
    by (rule get_id_image [OF assms(1) w(3)])
  show ?thesis using j a size_of_unat [of nm] w(2)
    by (simp add: Loc_by_name loc_union_decoder_def loc_union_image_def loc_kinds_differ [OF assms(1)] w(4)
        codec_simps loc_union_alike_def)
qed (use assms(2) in \<open>auto simp: wf_loc_def loc_union_decoder_def loc_union_image_def loc_union_alike_def
    loc_kinds_differ [OF assms(1)] codec_simps h5_extends_refl\<close>)

lemma loc_params_decoder_image:
  assumes "hdf5_laws h" and "wf_loc h l p"
  obtains q l' where "loc_params_decoder h (loc_image h l p @ rest) l2 = Some (q, l')"
    and "loc_alike h l p l' q" and "h5_extends h l2 l'"
proof -
  obtain v l' where "loc_union_decoder h (lp_type p) (loc_union_image h l (loc_data p) @ rest) l2 = Some (v, l')"
    and "loc_union_alike h l (loc_data p) l' v" and "h5_extends h l2 l'"
    using loc_union_decoder_image [OF assms] by blast
  then show thesis
    using that by (simp add: loc_params_decoder_def loc_image_def codec_simps loc_alike_def)
qed

section \<open>The fields in common\<close>

definition wf_create :: "('l, 'z) hdf5_scheme \<Rightarrow> 'l \<Rightarrow> 'y param_create_scheme \<Rightarrow> bool" where
  "wf_create h l p \<longleftrightarrow> wf_loc h l (prm_loc_params p) \<and> length (prm_name p) < 2 ^ 24
     \<and> name_size p = size_of (prm_name p)"

definition create_image :: "('l, 'z) hdf5_scheme \<Rightarrow> 'l \<Rightarrow> 'y param_create_scheme \<Rightarrow> byte list" where
  "create_image h l p = concat (create_chunks (p\<lparr>loc_param_size := size_of (loc_image h l (prm_loc_params p))\<rparr>)
     (prm_name p) (loc_image h l (prm_loc_params p)))"

definition create_alike ::
  "('l, 'z) hdf5_scheme \<Rightarrow> 'l \<Rightarrow> 'y param_create_scheme \<Rightarrow> 'l \<Rightarrow> 'x param_create_scheme \<Rightarrow> bool" where
  "create_alike h l p l' q \<longleftrightarrow> parent_type q = parent_type p \<and> parent_obj_addr q = parent_obj_addr p
     \<and> name_size q = name_size p \<and> prm_name q = prm_name p
     \<and> loc_param_size q = size_of (loc_image h l (prm_loc_params p))
     \<and> loc_alike h l (prm_loc_params p) l' (prm_loc_params q)"

lemma create_image_length:
  assumes "wf_create h l p"
  shows "length (create_image h l p) < 2 ^ 28"
  using assms loc_image_length [of h l "prm_loc_params p"]
  by (simp add: wf_create_def create_image_def create_chunks_def)

text \<open>What every encoder finds before it writes: the size of the packed location and the two copies.\<close>

lemma create_encoder_prep:
  assumes "hdf5_laws h" and "wf_create h l p"
  shows "loc_params_encoder h l (prm_loc_params p)
      = Some (ucast (size_of (loc_image h l (prm_loc_params p))), loc_image h l (prm_loc_params p))"
    and "(scast (ucast (size_of (loc_image h l (prm_loc_params p))) :: c_int) :: c_ulong)
      = size_of (loc_image h l (prm_loc_params p))"
    and "memcpy_from (prm_name p) (unat (name_size p)) = Some (prm_name p)"
    and "memcpy_from (loc_image h l (prm_loc_params p)) (unat (size_of (loc_image h l (prm_loc_params p))))
      = Some (loc_image h l (prm_loc_params p))"
proof -
  have w: "wf_loc h l (prm_loc_params p)" "length (prm_name p) < 2 ^ 24" "name_size p = size_of (prm_name p)"
    using assms(2) by (auto simp: wf_create_def)
  have len: "length (loc_image h l (prm_loc_params p)) < 2 ^ 27" by (rule loc_image_length [OF w(1)])
  show "loc_params_encoder h l (prm_loc_params p)
      = Some (ucast (size_of (loc_image h l (prm_loc_params p))), loc_image h l (prm_loc_params p))"
    by (rule loc_params_encoder_image [OF assms(1) w(1)])
  show "(scast (ucast (size_of (loc_image h l (prm_loc_params p))) :: c_int) :: c_ulong)
      = size_of (loc_image h l (prm_loc_params p))"
    using len by (simp add: int_of_size(1))
  show "memcpy_from (prm_name p) (unat (name_size p)) = Some (prm_name p)"
    using w(2,3) by (simp add: memcpy_from_exact size_of_unat)
  show "memcpy_from (loc_image h l (prm_loc_params p)) (unat (size_of (loc_image h l (prm_loc_params p))))
      = Some (loc_image h l (prm_loc_params p))"
    using len by (simp add: memcpy_from_exact size_of_unat)
qed

lemma get_create_image:
  assumes "hdf5_laws h" and "wf_create h l p"
  obtains q l' where "get_create h (create_image h l p @ rest) l2 = Some (q, l')"
    and "create_alike h l p l' q" and "h5_extends h l2 l'"
proof -
  have w: "wf_loc h l (prm_loc_params p)" "length (prm_name p) < 2 ^ 24" "name_size p = size_of (prm_name p)"
    using assms(2) by (auto simp: wf_create_def)
  obtain q l' where "loc_params_decoder h (loc_image h l (prm_loc_params p) @ rest) l2 = Some (q, l')"
    and "loc_alike h l (prm_loc_params p) l' q" and "h5_extends h l2 l'"
    by (rule loc_params_decoder_image [OF assms(1) w(1)])
  then show thesis
    using that w(2) size_of_unat [of "prm_name p"]
    by (simp add: get_create_def create_image_def create_chunks_def codec_simps create_alike_def w(3))
qed

end
