(* ===== verification/H5_Roundtrip.thy ===== *)
theory H5_Roundtrip
  imports H5_Codec_Facts
begin

text \<open>
  The round trip of each operation's parameters, stated once as an interface: a codec whose image
  is decoded by any process to equal parameters. The client of the interface is the path of a
  proposal: encoded, composed, encoded as a proposal, decoded at another rank, decoded there.
\<close>

lemma put_ulong_nonempty [simp]: "put_ulong w \<noteq> []"
  by (metis length_put_ulong list.size(3) zero_neq_numeral)

section \<open>The interface\<close>

locale operation_codec =
  fixes enc :: "'l \<Rightarrow> 'p \<Rightarrow> (c_ulong \<times> byte list) option"
    and dec :: "byte list \<Rightarrow> 'l \<Rightarrow> ('p \<times> 'l) option"
    and wf :: "'l \<Rightarrow> 'p \<Rightarrow> bool"
    and same :: "'l \<Rightarrow> 'p \<Rightarrow> 'l \<Rightarrow> 'p \<Rightarrow> bool"
  assumes codec_law: "wf l p \<Longrightarrow> \<exists>b. enc l p = Some (size_of b, b) \<and> b \<noteq> [] \<and> length b < 2 ^ 31
      \<and> (\<forall>l2 rest. \<exists>q l'. dec (b @ rest) l2 = Some (q, l') \<and> same l p l' q)"
begin

lemma through_proposal:
  assumes "wf l p"
  shows "\<exists>n b. enc l p = Some (n, b) \<and> unat n = length b
    \<and> (\<exists>m img. proposal_encoder (compose_proposal tv i op (Some b) n :: 'o proposal) = Some (m, img)
       \<and> unat m = length img
       \<and> (\<forall>rest l2. \<exists>r d q l'. proposal_decoder (img @ rest) = Some (r :: 'o proposal) \<and> proposal_data r = Some d
            \<and> op_type r = op \<and> dec d l2 = Some (q, l') \<and> same l p l' q))"
proof -
  obtain b where b: "enc l p = Some (size_of b, b)" "b \<noteq> []" "length b < 2 ^ 31"
    and d: "\<forall>l2 rest. \<exists>q l'. dec (b @ rest) l2 = Some (q, l') \<and> same l p l' q"
    using codec_law [OF assms] by blast
  let ?p = "compose_proposal tv i op (Some b) (size_of b) :: 'o proposal"
  have n: "unat (size_of b) = length b" using b(3) by (simp add: size_of_unat)
  then have pos: "size_of b > 0" using b(2) by (metis length_0_conv unat_eq_zero word_gt_0)
  have wfp: "wf_proposal ?p" using n pos b(3) by (simp add: wf_proposal_def compose_proposal_def)
  have dp: "proposal_decoder (proposal_image ?p @ rest) = Some ?p" for rest
    by (simp add: proposal_decoder_image [OF wfp]) (simp add: compose_proposal_def)
  have "\<exists>r d q l'. proposal_decoder (proposal_image ?p @ rest) = Some (r :: 'o proposal) \<and> proposal_data r = Some d
      \<and> op_type r = op \<and> dec d l2 = Some (q, l') \<and> same l p l' q" for rest l2
    using d [rule_format, of "[]" l2] by (simp add: dp) (simp add: compose_proposal_def)
  moreover have "unat (32 + p_data_len ?p) = length (proposal_image ?p)"
    using size_no_wrap [of "size_of b"] n b(3) length_proposal_image [OF wfp]
    by (simp add: compose_proposal_def)
  ultimately show ?thesis using b(1) n proposal_encoder_image [OF wfp] by blast
qed

end

section \<open>Creating a dataset\<close>

definition wf_ds :: "('l, 'z) hdf5_scheme \<Rightarrow> 'l \<Rightarrow> param_ds_create \<Rightarrow> bool" where
  "wf_ds h l p \<longleftrightarrow> hdf5_laws h \<and> wf_create h l p
     \<and> codable h H5T l (ds_type_id p)
     \<and> codable h H5S l (ds_space_id p)
     \<and> codable h H5P l (ds_lcpl_id p)
     \<and> codable h H5P l (ds_dcpl_id p)
     \<and> codable h H5P l (ds_dapl_id p)
     \<and> codable h H5P l (ds_dxpl_id p)"

definition ds_image :: "('l, 'z) hdf5_scheme \<Rightarrow> 'l \<Rightarrow> param_ds_create \<Rightarrow> byte list" where
  "ds_image h l p =
     concat (id_chunks (id_image h H5T l (ds_type_id p)))
     @ concat (id_chunks (id_image h H5S l (ds_space_id p)))
     @ concat (id_chunks (id_image h H5P l (ds_lcpl_id p)))
     @ concat (id_chunks (id_image h H5P l (ds_dcpl_id p)))
     @ concat (id_chunks (id_image h H5P l (ds_dapl_id p)))
     @ concat (id_chunks (id_image h H5P l (ds_dxpl_id p)))
     @ create_image h l p"

definition ds_alike :: "('l, 'z) hdf5_scheme \<Rightarrow> 'l \<Rightarrow> param_ds_create \<Rightarrow> 'l \<Rightarrow> param_ds_create \<Rightarrow> bool" where
  "ds_alike h l p l' q \<longleftrightarrow> create_alike h l p l' q
     \<and> alike h H5T l (ds_type_id p) l' (ds_type_id q)
     \<and> alike h H5S l (ds_space_id p) l' (ds_space_id q)
     \<and> alike h H5P l (ds_lcpl_id p) l' (ds_lcpl_id q)
     \<and> alike h H5P l (ds_dcpl_id p) l' (ds_dcpl_id q)
     \<and> alike h H5P l (ds_dapl_id p) l' (ds_dapl_id q)
     \<and> alike h H5P l (ds_dxpl_id p) l' (ds_dxpl_id q)"

lemma ds_image_length:
  assumes "wf_ds h l p"
  shows "length (ds_image h l p) < 2 ^ 29"
  using assms create_image_length [of h l p]
  by (auto simp: wf_ds_def ds_image_def id_chunks_def dest!: id_image_length)

lemma ds_create_encoder_image:
  assumes "wf_ds h l p"
  shows "ds_create_encoder h l p =
    Some (p\<lparr>loc_param_size := size_of (loc_image h l (prm_loc_params p))\<rparr>, ucast (size_of (ds_image h l p)), ds_image h l p)"
proof -
  let ?p = "p\<lparr>loc_param_size := size_of (loc_image h l (prm_loc_params p))\<rparr>"
  have w: "hdf5_laws h" "wf_create h l p" using assms by (simp_all add: wf_ds_def)
  have "write_seq 0
      (id_chunks (id_image h H5T l (ds_type_id p)) @ id_chunks (id_image h H5S l (ds_space_id p)) @ id_chunks (id_image h H5P l (ds_lcpl_id p)) @ id_chunks (id_image h H5P l (ds_dcpl_id p)) @ id_chunks (id_image h H5P l (ds_dapl_id p)) @ id_chunks (id_image h H5P l (ds_dxpl_id p))
       @ create_chunks ?p (prm_name p) (loc_image h l (prm_loc_params p)))
      (calloc_buf (size_of (ds_image h l p))) = Some (ds_image h l p)"
    by (rule write_image) (use ds_image_length [OF assms] in \<open>simp_all add: ds_image_def create_image_def create_chunks_def\<close>)
  moreover have "76 + (size_of (id_image h H5T l (ds_type_id p)) + (size_of (id_image h H5S l (ds_space_id p)) + (size_of (id_image h H5P l (ds_lcpl_id p)) + (size_of (id_image h H5P l (ds_dcpl_id p)) + (size_of (id_image h H5P l (ds_dapl_id p)) + (size_of (id_image h H5P l (ds_dxpl_id p)) + (size_of (loc_image h l (prm_loc_params p)) + name_size p))))))) = size_of (ds_image h l p)"
    using w(2) by (simp add: ds_image_def id_chunks_def create_image_def create_chunks_def wf_create_def)
  ultimately show ?thesis
    by (simp add: ds_create_encoder_def create_encoder_prep [OF w] encode_image Let_def)
qed

lemma ds_create_decoder_image:
  assumes "wf_ds h l p"
  shows "\<exists>q l'. ds_create_decoder h (ds_image h l p @ rest) l0 = Some (q, l') \<and> ds_alike h l p l' q"
proof -
  have law: "hdf5_laws h" and c: "codable h H5T l (ds_type_id p)" "codable h H5S l (ds_space_id p)" "codable h H5P l (ds_lcpl_id p)" "codable h H5P l (ds_dcpl_id p)" "codable h H5P l (ds_dapl_id p)" "codable h H5P l (ds_dxpl_id p)"
    and w: "wf_create h l p"
    using assms by (simp_all add: wf_ds_def)
  obtain j0 l1 where g0: "\<forall>r. r = concat (id_chunks (id_image h H5S l (ds_space_id p))) @ concat (id_chunks (id_image h H5P l (ds_lcpl_id p))) @ concat (id_chunks (id_image h H5P l (ds_dcpl_id p))) @ concat (id_chunks (id_image h H5P l (ds_dapl_id p))) @ concat (id_chunks (id_image h H5P l (ds_dxpl_id p))) @ create_image h l p @ rest \<longrightarrow>
      get_id h H5T (concat (id_chunks (id_image h H5T l (ds_type_id p))) @ r) l0 = Some (j0, r, l1)"
    and a0: "alike h H5T l (ds_type_id p) l1 j0" and e0: "h5_extends h l0 l1"
    by (rule get_id_image [OF law c(1)])
  obtain j1 l2 where g1: "\<forall>r. r = concat (id_chunks (id_image h H5P l (ds_lcpl_id p))) @ concat (id_chunks (id_image h H5P l (ds_dcpl_id p))) @ concat (id_chunks (id_image h H5P l (ds_dapl_id p))) @ concat (id_chunks (id_image h H5P l (ds_dxpl_id p))) @ create_image h l p @ rest \<longrightarrow>
      get_id h H5S (concat (id_chunks (id_image h H5S l (ds_space_id p))) @ r) l1 = Some (j1, r, l2)"
    and a1: "alike h H5S l (ds_space_id p) l2 j1" and e1: "h5_extends h l1 l2"
    by (rule get_id_image [OF law c(2)])
  obtain j2 l3 where g2: "\<forall>r. r = concat (id_chunks (id_image h H5P l (ds_dcpl_id p))) @ concat (id_chunks (id_image h H5P l (ds_dapl_id p))) @ concat (id_chunks (id_image h H5P l (ds_dxpl_id p))) @ create_image h l p @ rest \<longrightarrow>
      get_id h H5P (concat (id_chunks (id_image h H5P l (ds_lcpl_id p))) @ r) l2 = Some (j2, r, l3)"
    and a2: "alike h H5P l (ds_lcpl_id p) l3 j2" and e2: "h5_extends h l2 l3"
    by (rule get_id_image [OF law c(3)])
  obtain j3 l4 where g3: "\<forall>r. r = concat (id_chunks (id_image h H5P l (ds_dapl_id p))) @ concat (id_chunks (id_image h H5P l (ds_dxpl_id p))) @ create_image h l p @ rest \<longrightarrow>
      get_id h H5P (concat (id_chunks (id_image h H5P l (ds_dcpl_id p))) @ r) l3 = Some (j3, r, l4)"
    and a3: "alike h H5P l (ds_dcpl_id p) l4 j3" and e3: "h5_extends h l3 l4"
    by (rule get_id_image [OF law c(4)])
  obtain j4 l5 where g4: "\<forall>r. r = concat (id_chunks (id_image h H5P l (ds_dxpl_id p))) @ create_image h l p @ rest \<longrightarrow>
      get_id h H5P (concat (id_chunks (id_image h H5P l (ds_dapl_id p))) @ r) l4 = Some (j4, r, l5)"
    and a4: "alike h H5P l (ds_dapl_id p) l5 j4" and e4: "h5_extends h l4 l5"
    by (rule get_id_image [OF law c(5)])
  obtain j5 l6 where g5: "\<forall>r. r = create_image h l p @ rest \<longrightarrow>
      get_id h H5P (concat (id_chunks (id_image h H5P l (ds_dxpl_id p))) @ r) l5 = Some (j5, r, l6)"
    and a5: "alike h H5P l (ds_dxpl_id p) l6 j5" and e5: "h5_extends h l5 l6"
    by (rule get_id_image [OF law c(6)])
  obtain s l' where gc: "get_create h (create_image h l p @ rest) l6 = Some (s, l')"
    and ac: "create_alike h l p l' s" and e6: "h5_extends h l6 l'"
    by (rule get_create_image [OF law w])
  have ex6: "h5_extends h l6 l'" by (rule e6)
  have ex5: "h5_extends h l5 l'" using e5 ex6 by (rule h5_extends_trans)
  have ex4: "h5_extends h l4 l'" using e4 ex5 by (rule h5_extends_trans)
  have ex3: "h5_extends h l3 l'" using e3 ex4 by (rule h5_extends_trans)
  have ex2: "h5_extends h l2 l'" using e2 ex3 by (rule h5_extends_trans)
  have ex1: "h5_extends h l1 l'" using e1 ex2 by (rule h5_extends_trans)
  show ?thesis
    using ac alike_extends [OF a0 ex1] alike_extends [OF a1 ex2] alike_extends [OF a2 ex3] alike_extends [OF a3 ex4] alike_extends [OF a4 ex5] alike_extends [OF a5 ex6]
    by (simp add: ds_create_decoder_def ds_image_def g0 [rule_format, OF refl] g1 [rule_format, OF refl] g2 [rule_format, OF refl] g3 [rule_format, OF refl] g4 [rule_format, OF refl] g5 [rule_format, OF refl] gc
        ds_alike_def create_alike_def param_create.defs param_ds_create.defs)
qed

definition ds_create_data :: "('l, 'z) hdf5_scheme \<Rightarrow> 'l \<Rightarrow> param_ds_create \<Rightarrow> (c_ulong \<times> byte list) option" where
  "ds_create_data h l param_in = do {
     (param_in, p_data_size, proposal_data) \<leftarrow> ds_create_encoder h l param_in;
     Some (scast p_data_size, proposal_data) }"

interpretation ds: operation_codec "ds_create_data h" "ds_create_decoder h" "wf_ds h" "ds_alike h"
  for h :: "('l, 'z) hdf5_scheme"
proof
  fix l p assume w: "wf_ds h l p"
  have len: "length (ds_image h l p) < 2 ^ 31" using ds_image_length [OF w] by simp
  moreover have "ds_image h l p \<noteq> []" by (simp add: ds_image_def id_chunks_def)
  moreover have "ds_create_data h l p = Some (size_of (ds_image h l p), ds_image h l p)"
    using len by (simp add: ds_create_data_def ds_create_encoder_image [OF w] int_of_size(1))
  ultimately show "\<exists>b. ds_create_data h l p = Some (size_of b, b) \<and> b \<noteq> [] \<and> length b < 2 ^ 31
      \<and> (\<forall>l2 rest. \<exists>q l'. ds_create_decoder h (b @ rest) l2 = Some (q, l') \<and> ds_alike h l p l' q)"
    using ds_create_decoder_image [OF w] by blast
qed

section \<open>Committing a datatype\<close>

definition wf_dt :: "('l, 'z) hdf5_scheme \<Rightarrow> 'l \<Rightarrow> param_dt_commit \<Rightarrow> bool" where
  "wf_dt h l p \<longleftrightarrow> hdf5_laws h \<and> wf_create h l p
     \<and> codable h H5T l (dt_type_id p)
     \<and> codable h H5P l (dt_lcpl_id p)
     \<and> codable h H5P l (dt_tcpl_id p)
     \<and> codable h H5P l (dt_tapl_id p)
     \<and> codable h H5P l (dt_dxpl_id p)"

definition dt_image :: "('l, 'z) hdf5_scheme \<Rightarrow> 'l \<Rightarrow> param_dt_commit \<Rightarrow> byte list" where
  "dt_image h l p =
     concat (id_chunks (id_image h H5T l (dt_type_id p)))
     @ concat (id_chunks (id_image h H5P l (dt_lcpl_id p)))
     @ concat (id_chunks (id_image h H5P l (dt_tcpl_id p)))
     @ concat (id_chunks (id_image h H5P l (dt_tapl_id p)))
     @ concat (id_chunks (id_image h H5P l (dt_dxpl_id p)))
     @ create_image h l p"

definition dt_alike :: "('l, 'z) hdf5_scheme \<Rightarrow> 'l \<Rightarrow> param_dt_commit \<Rightarrow> 'l \<Rightarrow> param_dt_commit \<Rightarrow> bool" where
  "dt_alike h l p l' q \<longleftrightarrow> create_alike h l p l' q
     \<and> alike h H5T l (dt_type_id p) l' (dt_type_id q)
     \<and> alike h H5P l (dt_lcpl_id p) l' (dt_lcpl_id q)
     \<and> alike h H5P l (dt_tcpl_id p) l' (dt_tcpl_id q)
     \<and> alike h H5P l (dt_tapl_id p) l' (dt_tapl_id q)
     \<and> alike h H5P l (dt_dxpl_id p) l' (dt_dxpl_id q)"

lemma dt_image_length:
  assumes "wf_dt h l p"
  shows "length (dt_image h l p) < 2 ^ 29"
  using assms create_image_length [of h l p]
  by (auto simp: wf_dt_def dt_image_def id_chunks_def dest!: id_image_length)

lemma dt_commit_encoder_image:
  assumes "wf_dt h l p"
  shows "dt_commit_encoder h l p =
    Some (p\<lparr>loc_param_size := size_of (loc_image h l (prm_loc_params p))\<rparr>, size_of (dt_image h l p), dt_image h l p)"
proof -
  let ?p = "p\<lparr>loc_param_size := size_of (loc_image h l (prm_loc_params p))\<rparr>"
  have w: "hdf5_laws h" "wf_create h l p" using assms by (simp_all add: wf_dt_def)
  have "write_seq 0
      (id_chunks (id_image h H5T l (dt_type_id p)) @ id_chunks (id_image h H5P l (dt_lcpl_id p)) @ id_chunks (id_image h H5P l (dt_tcpl_id p)) @ id_chunks (id_image h H5P l (dt_tapl_id p)) @ id_chunks (id_image h H5P l (dt_dxpl_id p))
       @ create_chunks ?p (prm_name p) (loc_image h l (prm_loc_params p)))
      (calloc_buf (size_of (dt_image h l p))) = Some (dt_image h l p)"
    by (rule write_image) (use dt_image_length [OF assms] in \<open>simp_all add: dt_image_def create_image_def create_chunks_def\<close>)
  moreover have "68 + (size_of (id_image h H5T l (dt_type_id p)) + (size_of (id_image h H5P l (dt_lcpl_id p)) + (size_of (id_image h H5P l (dt_tcpl_id p)) + (size_of (id_image h H5P l (dt_tapl_id p)) + (size_of (id_image h H5P l (dt_dxpl_id p)) + (size_of (loc_image h l (prm_loc_params p)) + name_size p)))))) = size_of (dt_image h l p)"
    using w(2) by (simp add: dt_image_def id_chunks_def create_image_def create_chunks_def wf_create_def)
  ultimately show ?thesis
    by (simp add: dt_commit_encoder_def create_encoder_prep [OF w] encode_image Let_def add.assoc)
qed

lemma dt_commit_decoder_image:
  assumes "wf_dt h l p"
  shows "\<exists>q l'. dt_commit_decoder h (dt_image h l p @ rest) l0 = Some (q, l') \<and> dt_alike h l p l' q"
proof -
  have law: "hdf5_laws h" and c: "codable h H5T l (dt_type_id p)" "codable h H5P l (dt_lcpl_id p)" "codable h H5P l (dt_tcpl_id p)" "codable h H5P l (dt_tapl_id p)" "codable h H5P l (dt_dxpl_id p)"
    and w: "wf_create h l p"
    using assms by (simp_all add: wf_dt_def)
  obtain j0 l1 where g0: "\<forall>r. r = concat (id_chunks (id_image h H5P l (dt_lcpl_id p))) @ concat (id_chunks (id_image h H5P l (dt_tcpl_id p))) @ concat (id_chunks (id_image h H5P l (dt_tapl_id p))) @ concat (id_chunks (id_image h H5P l (dt_dxpl_id p))) @ create_image h l p @ rest \<longrightarrow>
      get_id h H5T (concat (id_chunks (id_image h H5T l (dt_type_id p))) @ r) l0 = Some (j0, r, l1)"
    and a0: "alike h H5T l (dt_type_id p) l1 j0" and e0: "h5_extends h l0 l1"
    by (rule get_id_image [OF law c(1)])
  obtain j1 l2 where g1: "\<forall>r. r = concat (id_chunks (id_image h H5P l (dt_tcpl_id p))) @ concat (id_chunks (id_image h H5P l (dt_tapl_id p))) @ concat (id_chunks (id_image h H5P l (dt_dxpl_id p))) @ create_image h l p @ rest \<longrightarrow>
      get_id h H5P (concat (id_chunks (id_image h H5P l (dt_lcpl_id p))) @ r) l1 = Some (j1, r, l2)"
    and a1: "alike h H5P l (dt_lcpl_id p) l2 j1" and e1: "h5_extends h l1 l2"
    by (rule get_id_image [OF law c(2)])
  obtain j2 l3 where g2: "\<forall>r. r = concat (id_chunks (id_image h H5P l (dt_tapl_id p))) @ concat (id_chunks (id_image h H5P l (dt_dxpl_id p))) @ create_image h l p @ rest \<longrightarrow>
      get_id h H5P (concat (id_chunks (id_image h H5P l (dt_tcpl_id p))) @ r) l2 = Some (j2, r, l3)"
    and a2: "alike h H5P l (dt_tcpl_id p) l3 j2" and e2: "h5_extends h l2 l3"
    by (rule get_id_image [OF law c(3)])
  obtain j3 l4 where g3: "\<forall>r. r = concat (id_chunks (id_image h H5P l (dt_dxpl_id p))) @ create_image h l p @ rest \<longrightarrow>
      get_id h H5P (concat (id_chunks (id_image h H5P l (dt_tapl_id p))) @ r) l3 = Some (j3, r, l4)"
    and a3: "alike h H5P l (dt_tapl_id p) l4 j3" and e3: "h5_extends h l3 l4"
    by (rule get_id_image [OF law c(4)])
  obtain j4 l5 where g4: "\<forall>r. r = create_image h l p @ rest \<longrightarrow>
      get_id h H5P (concat (id_chunks (id_image h H5P l (dt_dxpl_id p))) @ r) l4 = Some (j4, r, l5)"
    and a4: "alike h H5P l (dt_dxpl_id p) l5 j4" and e4: "h5_extends h l4 l5"
    by (rule get_id_image [OF law c(5)])
  obtain s l' where gc: "get_create h (create_image h l p @ rest) l5 = Some (s, l')"
    and ac: "create_alike h l p l' s" and e5: "h5_extends h l5 l'"
    by (rule get_create_image [OF law w])
  have ex5: "h5_extends h l5 l'" by (rule e5)
  have ex4: "h5_extends h l4 l'" using e4 ex5 by (rule h5_extends_trans)
  have ex3: "h5_extends h l3 l'" using e3 ex4 by (rule h5_extends_trans)
  have ex2: "h5_extends h l2 l'" using e2 ex3 by (rule h5_extends_trans)
  have ex1: "h5_extends h l1 l'" using e1 ex2 by (rule h5_extends_trans)
  show ?thesis
    using ac alike_extends [OF a0 ex1] alike_extends [OF a1 ex2] alike_extends [OF a2 ex3] alike_extends [OF a3 ex4] alike_extends [OF a4 ex5]
    by (simp add: dt_commit_decoder_def dt_image_def g0 [rule_format, OF refl] g1 [rule_format, OF refl] g2 [rule_format, OF refl] g3 [rule_format, OF refl] g4 [rule_format, OF refl] gc
        dt_alike_def create_alike_def param_create.defs param_dt_commit.defs)
qed

definition dt_commit_data :: "('l, 'z) hdf5_scheme \<Rightarrow> 'l \<Rightarrow> param_dt_commit \<Rightarrow> (c_ulong \<times> byte list) option" where
  "dt_commit_data h l param_in = do {
     (param_in, p_data_size, proposal_data) \<leftarrow> dt_commit_encoder h l param_in;
     Some (p_data_size, proposal_data) }"

interpretation dt: operation_codec "dt_commit_data h" "dt_commit_decoder h" "wf_dt h" "dt_alike h"
  for h :: "('l, 'z) hdf5_scheme"
proof
  fix l p assume w: "wf_dt h l p"
  have len: "length (dt_image h l p) < 2 ^ 31" using dt_image_length [OF w] by simp
  moreover have "dt_image h l p \<noteq> []" by (simp add: dt_image_def id_chunks_def)
  moreover have "dt_commit_data h l p = Some (size_of (dt_image h l p), dt_image h l p)"
    using len by (simp add: dt_commit_data_def dt_commit_encoder_image [OF w] int_of_size(1))
  ultimately show "\<exists>b. dt_commit_data h l p = Some (size_of b, b) \<and> b \<noteq> [] \<and> length b < 2 ^ 31
      \<and> (\<forall>l2 rest. \<exists>q l'. dt_commit_decoder h (b @ rest) l2 = Some (q, l') \<and> dt_alike h l p l' q)"
    using dt_commit_decoder_image [OF w] by blast
qed

section \<open>Creating a group\<close>

definition wf_gr :: "('l, 'z) hdf5_scheme \<Rightarrow> 'l \<Rightarrow> param_group \<Rightarrow> bool" where
  "wf_gr h l p \<longleftrightarrow> hdf5_laws h \<and> wf_create h l p \<and> prm_name p \<noteq> [] \<and> last (prm_name p) = 0 \<and> 0 \<notin> set (butlast (prm_name p))
     \<and> codable h H5P l (gr_lcpl_id p)
     \<and> codable h H5P l (gr_gcpl_id p)
     \<and> codable h H5P l (gr_gapl_id p)
     \<and> codable h H5P l (gr_dxpl_id p)"

definition gr_image :: "('l, 'z) hdf5_scheme \<Rightarrow> 'l \<Rightarrow> param_group \<Rightarrow> byte list" where
  "gr_image h l p =
     concat (id_chunks (id_image h H5P l (gr_lcpl_id p)))
     @ concat (id_chunks (id_image h H5P l (gr_gcpl_id p)))
     @ concat (id_chunks (id_image h H5P l (gr_gapl_id p)))
     @ concat (id_chunks (id_image h H5P l (gr_dxpl_id p)))
     @ create_image h l p"

definition gr_alike :: "('l, 'z) hdf5_scheme \<Rightarrow> 'l \<Rightarrow> param_group \<Rightarrow> 'l \<Rightarrow> param_group \<Rightarrow> bool" where
  "gr_alike h l p l' q \<longleftrightarrow> create_alike h l p l' q
     \<and> alike h H5P l (gr_lcpl_id p) l' (gr_lcpl_id q)
     \<and> alike h H5P l (gr_gcpl_id p) l' (gr_gcpl_id q)
     \<and> alike h H5P l (gr_gapl_id p) l' (gr_gapl_id q)
     \<and> alike h H5P l (gr_dxpl_id p) l' (gr_dxpl_id q)"

lemma gr_image_length:
  assumes "wf_gr h l p"
  shows "length (gr_image h l p) < 2 ^ 29"
  using assms create_image_length [of h l p]
  by (auto simp: wf_gr_def gr_image_def id_chunks_def dest!: id_image_length)

lemma group_create_encoder_image:
  assumes "wf_gr h l p"
  shows "group_create_encoder h l p =
    Some (p\<lparr>loc_param_size := size_of (loc_image h l (prm_loc_params p)), name_size := size_of (prm_name p)\<rparr>, ucast (size_of (gr_image h l p)), gr_image h l p)"
proof -
  let ?p = "p\<lparr>loc_param_size := size_of (loc_image h l (prm_loc_params p)), name_size := size_of (prm_name p)\<rparr>"
  have w: "hdf5_laws h" "wf_create h l p" using assms by (simp_all add: wf_gr_def)
  obtain k where k: "strlen (prm_name p) = Some k" "(of_nat k + 1 :: c_ulong) = size_of (prm_name p)"
    using assms by (auto simp: wf_gr_def elim: strlen_c_string)
  have ns: "name_size p = size_of (prm_name p)" using w(2) by (simp add: wf_create_def)
  have "write_seq 0
      (id_chunks (id_image h H5P l (gr_lcpl_id p)) @ id_chunks (id_image h H5P l (gr_gcpl_id p)) @ id_chunks (id_image h H5P l (gr_gapl_id p)) @ id_chunks (id_image h H5P l (gr_dxpl_id p))
       @ create_chunks ?p (prm_name p) (loc_image h l (prm_loc_params p)))
      (calloc_buf (size_of (gr_image h l p))) = Some (gr_image h l p)"
    by (rule write_image) (use gr_image_length [OF assms] in \<open>simp_all add: gr_image_def create_image_def create_chunks_def ns\<close>)
  moreover have "61 + (size_of (id_image h H5P l (gr_lcpl_id p)) + (size_of (id_image h H5P l (gr_gcpl_id p))
      + (size_of (id_image h H5P l (gr_gapl_id p)) + (size_of (id_image h H5P l (gr_dxpl_id p))
      + (size_of (loc_image h l (prm_loc_params p)) + of_nat k))))) = size_of (gr_image h l p)"
    by (simp add: gr_image_def id_chunks_def create_image_def create_chunks_def k(2) [symmetric] algebra_simps)
  moreover have "memcpy_from (prm_name p) (unat (size_of (prm_name p))) = Some (prm_name p)"
    using create_encoder_prep(3) [OF w] ns by simp
  ultimately show ?thesis
    by (simp add: group_create_encoder_def create_encoder_prep [OF w] encode_image Let_def k)
qed

lemma group_create_decoder_image:
  assumes "wf_gr h l p"
  shows "\<exists>q l'. group_create_decoder h (gr_image h l p @ rest) l0 = Some (q, l') \<and> gr_alike h l p l' q"
proof -
  have law: "hdf5_laws h" and c: "codable h H5P l (gr_lcpl_id p)" "codable h H5P l (gr_gcpl_id p)" "codable h H5P l (gr_gapl_id p)" "codable h H5P l (gr_dxpl_id p)"
    and w: "wf_create h l p"
    using assms by (simp_all add: wf_gr_def)
  obtain j0 l1 where g0: "\<forall>r. r = concat (id_chunks (id_image h H5P l (gr_gcpl_id p))) @ concat (id_chunks (id_image h H5P l (gr_gapl_id p))) @ concat (id_chunks (id_image h H5P l (gr_dxpl_id p))) @ create_image h l p @ rest \<longrightarrow>
      get_id h H5P (concat (id_chunks (id_image h H5P l (gr_lcpl_id p))) @ r) l0 = Some (j0, r, l1)"
    and a0: "alike h H5P l (gr_lcpl_id p) l1 j0" and e0: "h5_extends h l0 l1"
    by (rule get_id_image [OF law c(1)])
  obtain j1 l2 where g1: "\<forall>r. r = concat (id_chunks (id_image h H5P l (gr_gapl_id p))) @ concat (id_chunks (id_image h H5P l (gr_dxpl_id p))) @ create_image h l p @ rest \<longrightarrow>
      get_id h H5P (concat (id_chunks (id_image h H5P l (gr_gcpl_id p))) @ r) l1 = Some (j1, r, l2)"
    and a1: "alike h H5P l (gr_gcpl_id p) l2 j1" and e1: "h5_extends h l1 l2"
    by (rule get_id_image [OF law c(2)])
  obtain j2 l3 where g2: "\<forall>r. r = concat (id_chunks (id_image h H5P l (gr_dxpl_id p))) @ create_image h l p @ rest \<longrightarrow>
      get_id h H5P (concat (id_chunks (id_image h H5P l (gr_gapl_id p))) @ r) l2 = Some (j2, r, l3)"
    and a2: "alike h H5P l (gr_gapl_id p) l3 j2" and e2: "h5_extends h l2 l3"
    by (rule get_id_image [OF law c(3)])
  obtain j3 l4 where g3: "\<forall>r. r = create_image h l p @ rest \<longrightarrow>
      get_id h H5P (concat (id_chunks (id_image h H5P l (gr_dxpl_id p))) @ r) l3 = Some (j3, r, l4)"
    and a3: "alike h H5P l (gr_dxpl_id p) l4 j3" and e3: "h5_extends h l3 l4"
    by (rule get_id_image [OF law c(4)])
  obtain s l' where gc: "get_create h (create_image h l p @ rest) l4 = Some (s, l')"
    and ac: "create_alike h l p l' s" and e4: "h5_extends h l4 l'"
    by (rule get_create_image [OF law w])
  have ex4: "h5_extends h l4 l'" by (rule e4)
  have ex3: "h5_extends h l3 l'" using e3 ex4 by (rule h5_extends_trans)
  have ex2: "h5_extends h l2 l'" using e2 ex3 by (rule h5_extends_trans)
  have ex1: "h5_extends h l1 l'" using e1 ex2 by (rule h5_extends_trans)
  show ?thesis
    using ac alike_extends [OF a0 ex1] alike_extends [OF a1 ex2] alike_extends [OF a2 ex3] alike_extends [OF a3 ex4]
    by (simp add: group_create_decoder_def gr_image_def g0 [rule_format, OF refl] g1 [rule_format, OF refl] g2 [rule_format, OF refl] g3 [rule_format, OF refl] gc
        gr_alike_def create_alike_def param_create.defs param_group.defs)
qed

definition group_create_data :: "('l, 'z) hdf5_scheme \<Rightarrow> 'l \<Rightarrow> param_group \<Rightarrow> (c_ulong \<times> byte list) option" where
  "group_create_data h l param_in = do {
     (param_in, p_data_size, proposal_data) \<leftarrow> group_create_encoder h l param_in;
     Some (scast p_data_size, proposal_data) }"

interpretation gr: operation_codec "group_create_data h" "group_create_decoder h" "wf_gr h" "gr_alike h"
  for h :: "('l, 'z) hdf5_scheme"
proof
  fix l p assume w: "wf_gr h l p"
  have len: "length (gr_image h l p) < 2 ^ 31" using gr_image_length [OF w] by simp
  moreover have "gr_image h l p \<noteq> []" by (simp add: gr_image_def id_chunks_def)
  moreover have "group_create_data h l p = Some (size_of (gr_image h l p), gr_image h l p)"
    using len by (simp add: group_create_data_def group_create_encoder_image [OF w] int_of_size(1))
  ultimately show "\<exists>b. group_create_data h l p = Some (size_of b, b) \<and> b \<noteq> [] \<and> length b < 2 ^ 31
      \<and> (\<forall>l2 rest. \<exists>q l'. group_create_decoder h (b @ rest) l2 = Some (q, l') \<and> gr_alike h l p l' q)"
    using group_create_decoder_image [OF w] by blast
qed

section \<open>Creating an attribute\<close>

definition wf_at :: "('l, 'z) hdf5_scheme \<Rightarrow> 'l \<Rightarrow> param_attr \<Rightarrow> bool" where
  "wf_at h l p \<longleftrightarrow> hdf5_laws h \<and> wf_create h l p
     \<and> codable h H5T l (at_type_id p)
     \<and> codable h H5S l (at_space_id p)
     \<and> codable h H5P l (at_acpl_id p)
     \<and> codable h H5P l (at_aapl_id p)
     \<and> codable h H5P l (at_dxpl_id p)"

definition at_image :: "('l, 'z) hdf5_scheme \<Rightarrow> 'l \<Rightarrow> param_attr \<Rightarrow> byte list" where
  "at_image h l p =
     concat (id_chunks (id_image h H5T l (at_type_id p)))
     @ concat (id_chunks (id_image h H5S l (at_space_id p)))
     @ concat (id_chunks (id_image h H5P l (at_acpl_id p)))
     @ concat (id_chunks (id_image h H5P l (at_aapl_id p)))
     @ concat (id_chunks (id_image h H5P l (at_dxpl_id p)))
     @ create_image h l p"

definition at_alike :: "('l, 'z) hdf5_scheme \<Rightarrow> 'l \<Rightarrow> param_attr \<Rightarrow> 'l \<Rightarrow> param_attr \<Rightarrow> bool" where
  "at_alike h l p l' q \<longleftrightarrow> create_alike h l p l' q
     \<and> alike h H5T l (at_type_id p) l' (at_type_id q)
     \<and> alike h H5S l (at_space_id p) l' (at_space_id q)
     \<and> alike h H5P l (at_acpl_id p) l' (at_acpl_id q)
     \<and> alike h H5P l (at_aapl_id p) l' (at_aapl_id q)
     \<and> alike h H5P l (at_dxpl_id p) l' (at_dxpl_id q)"

lemma at_image_length:
  assumes "wf_at h l p"
  shows "length (at_image h l p) < 2 ^ 29"
  using assms create_image_length [of h l p]
  by (auto simp: wf_at_def at_image_def id_chunks_def dest!: id_image_length)

lemma attr_create_encoder_image:
  assumes "wf_at h l p"
  shows "attr_create_encoder h l p =
    Some (p\<lparr>loc_param_size := size_of (loc_image h l (prm_loc_params p))\<rparr>, ucast (size_of (at_image h l p)), at_image h l p)"
proof -
  let ?p = "p\<lparr>loc_param_size := size_of (loc_image h l (prm_loc_params p))\<rparr>"
  have w: "hdf5_laws h" "wf_create h l p" using assms by (simp_all add: wf_at_def)
  have "write_seq 0
      (id_chunks (id_image h H5T l (at_type_id p)) @ id_chunks (id_image h H5S l (at_space_id p)) @ id_chunks (id_image h H5P l (at_acpl_id p)) @ id_chunks (id_image h H5P l (at_aapl_id p)) @ id_chunks (id_image h H5P l (at_dxpl_id p))
       @ create_chunks ?p (prm_name p) (loc_image h l (prm_loc_params p)))
      (calloc_buf (size_of (at_image h l p))) = Some (at_image h l p)"
    by (rule write_image) (use at_image_length [OF assms] in \<open>simp_all add: at_image_def create_image_def create_chunks_def\<close>)
  moreover have "68 + (size_of (id_image h H5T l (at_type_id p)) + (size_of (id_image h H5S l (at_space_id p)) + (size_of (id_image h H5P l (at_acpl_id p)) + (size_of (id_image h H5P l (at_aapl_id p)) + (size_of (id_image h H5P l (at_dxpl_id p)) + (size_of (loc_image h l (prm_loc_params p)) + name_size p)))))) = size_of (at_image h l p)"
    using w(2) by (simp add: at_image_def id_chunks_def create_image_def create_chunks_def wf_create_def)
  ultimately show ?thesis
    by (simp add: attr_create_encoder_def create_encoder_prep [OF w] encode_image Let_def)
qed

lemma attr_create_decoder_image:
  assumes "wf_at h l p"
  shows "\<exists>q l'. attr_create_decoder h (at_image h l p @ rest) l0 = Some (q, l') \<and> at_alike h l p l' q"
proof -
  have law: "hdf5_laws h" and c: "codable h H5T l (at_type_id p)" "codable h H5S l (at_space_id p)" "codable h H5P l (at_acpl_id p)" "codable h H5P l (at_aapl_id p)" "codable h H5P l (at_dxpl_id p)"
    and w: "wf_create h l p"
    using assms by (simp_all add: wf_at_def)
  obtain j0 l1 where g0: "\<forall>r. r = concat (id_chunks (id_image h H5S l (at_space_id p))) @ concat (id_chunks (id_image h H5P l (at_acpl_id p))) @ concat (id_chunks (id_image h H5P l (at_aapl_id p))) @ concat (id_chunks (id_image h H5P l (at_dxpl_id p))) @ create_image h l p @ rest \<longrightarrow>
      get_id h H5T (concat (id_chunks (id_image h H5T l (at_type_id p))) @ r) l0 = Some (j0, r, l1)"
    and a0: "alike h H5T l (at_type_id p) l1 j0" and e0: "h5_extends h l0 l1"
    by (rule get_id_image [OF law c(1)])
  obtain j1 l2 where g1: "\<forall>r. r = concat (id_chunks (id_image h H5P l (at_acpl_id p))) @ concat (id_chunks (id_image h H5P l (at_aapl_id p))) @ concat (id_chunks (id_image h H5P l (at_dxpl_id p))) @ create_image h l p @ rest \<longrightarrow>
      get_id h H5S (concat (id_chunks (id_image h H5S l (at_space_id p))) @ r) l1 = Some (j1, r, l2)"
    and a1: "alike h H5S l (at_space_id p) l2 j1" and e1: "h5_extends h l1 l2"
    by (rule get_id_image [OF law c(2)])
  obtain j2 l3 where g2: "\<forall>r. r = concat (id_chunks (id_image h H5P l (at_aapl_id p))) @ concat (id_chunks (id_image h H5P l (at_dxpl_id p))) @ create_image h l p @ rest \<longrightarrow>
      get_id h H5P (concat (id_chunks (id_image h H5P l (at_acpl_id p))) @ r) l2 = Some (j2, r, l3)"
    and a2: "alike h H5P l (at_acpl_id p) l3 j2" and e2: "h5_extends h l2 l3"
    by (rule get_id_image [OF law c(3)])
  obtain j3 l4 where g3: "\<forall>r. r = concat (id_chunks (id_image h H5P l (at_dxpl_id p))) @ create_image h l p @ rest \<longrightarrow>
      get_id h H5P (concat (id_chunks (id_image h H5P l (at_aapl_id p))) @ r) l3 = Some (j3, r, l4)"
    and a3: "alike h H5P l (at_aapl_id p) l4 j3" and e3: "h5_extends h l3 l4"
    by (rule get_id_image [OF law c(4)])
  obtain j4 l5 where g4: "\<forall>r. r = create_image h l p @ rest \<longrightarrow>
      get_id h H5P (concat (id_chunks (id_image h H5P l (at_dxpl_id p))) @ r) l4 = Some (j4, r, l5)"
    and a4: "alike h H5P l (at_dxpl_id p) l5 j4" and e4: "h5_extends h l4 l5"
    by (rule get_id_image [OF law c(5)])
  obtain s l' where gc: "get_create h (create_image h l p @ rest) l5 = Some (s, l')"
    and ac: "create_alike h l p l' s" and e5: "h5_extends h l5 l'"
    by (rule get_create_image [OF law w])
  have ex5: "h5_extends h l5 l'" by (rule e5)
  have ex4: "h5_extends h l4 l'" using e4 ex5 by (rule h5_extends_trans)
  have ex3: "h5_extends h l3 l'" using e3 ex4 by (rule h5_extends_trans)
  have ex2: "h5_extends h l2 l'" using e2 ex3 by (rule h5_extends_trans)
  have ex1: "h5_extends h l1 l'" using e1 ex2 by (rule h5_extends_trans)
  show ?thesis
    using ac alike_extends [OF a0 ex1] alike_extends [OF a1 ex2] alike_extends [OF a2 ex3] alike_extends [OF a3 ex4] alike_extends [OF a4 ex5]
    by (simp add: attr_create_decoder_def at_image_def g0 [rule_format, OF refl] g1 [rule_format, OF refl] g2 [rule_format, OF refl] g3 [rule_format, OF refl] g4 [rule_format, OF refl] gc
        at_alike_def create_alike_def param_create.defs param_attr.defs)
qed

definition attr_create_data :: "('l, 'z) hdf5_scheme \<Rightarrow> 'l \<Rightarrow> param_attr \<Rightarrow> (c_ulong \<times> byte list) option" where
  "attr_create_data h l param_in = do {
     (param_in, p_data_size, proposal_data) \<leftarrow> attr_create_encoder h l param_in;
     Some (scast p_data_size, proposal_data) }"

interpretation at: operation_codec "attr_create_data h" "attr_create_decoder h" "wf_at h" "at_alike h"
  for h :: "('l, 'z) hdf5_scheme"
proof
  fix l p assume w: "wf_at h l p"
  have len: "length (at_image h l p) < 2 ^ 31" using at_image_length [OF w] by simp
  moreover have "at_image h l p \<noteq> []" by (simp add: at_image_def id_chunks_def)
  moreover have "attr_create_data h l p = Some (size_of (at_image h l p), at_image h l p)"
    using len by (simp add: attr_create_data_def attr_create_encoder_image [OF w] int_of_size(1))
  ultimately show "\<exists>b. attr_create_data h l p = Some (size_of b, b) \<and> b \<noteq> [] \<and> length b < 2 ^ 31
      \<and> (\<forall>l2 rest. \<exists>q l'. attr_create_decoder h (b @ rest) l2 = Some (q, l') \<and> at_alike h l p l' q)"
    using attr_create_decoder_image [OF w] by blast
qed

end
