(* ===== verification/H5_Roundtrip_More.thy ===== *)
theory H5_Roundtrip_More
  imports H5_Roundtrip
begin

text \<open>
  The two codecs without common fields, and the location the codec cannot carry: by index.
\<close>

section \<open>Writing an attribute\<close>

definition wf_aw :: "('l, 'z) hdf5_scheme \<Rightarrow> 'l \<Rightarrow> param_attr_wr \<Rightarrow> bool" where
  "wf_aw h l p \<longleftrightarrow> hdf5_laws h \<and> codable h H5T l (aw_mem_type_id p) \<and> codable h H5P l (aw_dxpl_id p)
     \<and> aw_attr_name_size p = size_of (aw_attr_name p) \<and> length (aw_attr_name p) < 2 ^ 24
     \<and> aw_buf_size p = size_of (aw_buf p) \<and> length (aw_buf p) < 2 ^ 24"

definition aw_image :: "('l, 'z) hdf5_scheme \<Rightarrow> 'l \<Rightarrow> param_attr_wr \<Rightarrow> byte list" where
  "aw_image h l p = concat (id_chunks (id_image h H5T l (aw_mem_type_id p)))
     @ concat (id_chunks (id_image h H5P l (aw_dxpl_id p)))
     @ put_int (aw_parent_type p) @ put_ulong (aw_parent_obj_addr p)
     @ put_ulong (size_of (aw_attr_name p)) @ aw_attr_name p @ put_ulong (size_of (aw_buf p)) @ aw_buf p"

definition aw_alike :: "('l, 'z) hdf5_scheme \<Rightarrow> 'l \<Rightarrow> param_attr_wr \<Rightarrow> 'l \<Rightarrow> param_attr_wr \<Rightarrow> bool" where
  "aw_alike h l p l' q \<longleftrightarrow> alike h H5T l (aw_mem_type_id p) l' (aw_mem_type_id q)
     \<and> alike h H5P l (aw_dxpl_id p) l' (aw_dxpl_id q)
     \<and> q\<lparr>aw_mem_type_id := aw_mem_type_id p, aw_dxpl_id := aw_dxpl_id p\<rparr> = p"

lemma aw_image_length:
  assumes "wf_aw h l p"
  shows "length (aw_image h l p) < 2 ^ 29"
  using assms by (auto simp: wf_aw_def aw_image_def id_chunks_def dest!: id_image_length)

lemma attr_write_encoder_image:
  assumes "wf_aw h l p"
  shows "attr_write_encoder h l p = Some (ucast (size_of (aw_image h l p)), aw_image h l p)"
proof -
  have w: "aw_attr_name_size p = size_of (aw_attr_name p)" "unat (size_of (aw_attr_name p)) = length (aw_attr_name p)"
    "aw_buf_size p = size_of (aw_buf p)" "unat (size_of (aw_buf p)) = length (aw_buf p)"
    using assms by (simp_all add: wf_aw_def size_of_unat)
  have b: "(if size_of (aw_buf p) > 0 then memcpy_from (aw_buf p) (unat (aw_buf_size p)) else Some []) = Some (aw_buf p)"
    using w(3,4) by (auto simp: memcpy_from_def word_gt_0)
  have "write_seq 0 (id_chunks (id_image h H5T l (aw_mem_type_id p)) @ id_chunks (id_image h H5P l (aw_dxpl_id p))
      @ [put_int (aw_parent_type p), put_ulong (aw_parent_obj_addr p), put_ulong (size_of (aw_attr_name p)),
         aw_attr_name p, put_ulong (size_of (aw_buf p)), aw_buf p]) (calloc_buf (size_of (aw_image h l p)))
      = Some (aw_image h l p)"
    by (rule write_image) (use aw_image_length [OF assms] in \<open>simp_all add: aw_image_def\<close>)
  moreover have "44 + (size_of (id_image h H5T l (aw_mem_type_id p)) + (size_of (id_image h H5P l (aw_dxpl_id p))
      + (size_of (aw_attr_name p) + size_of (aw_buf p)))) = size_of (aw_image h l p)"
    by (simp add: aw_image_def id_chunks_def)
  ultimately show ?thesis
    using b by (simp add: attr_write_encoder_def encode_image Let_def w(1,3) add.assoc w(2) memcpy_from_exact
        split del: if_split)
qed

lemma attr_write_decoder_image:
  assumes "wf_aw h l p"
  shows "\<exists>q l'. attr_write_decoder h (aw_image h l p @ rest) l0 = Some (q, l') \<and> aw_alike h l p l' q"
proof -
  have law: "hdf5_laws h" and c: "codable h H5T l (aw_mem_type_id p)" "codable h H5P l (aw_dxpl_id p)"
    and w: "aw_attr_name_size p = size_of (aw_attr_name p)" "unat (size_of (aw_attr_name p)) = length (aw_attr_name p)"
      "aw_buf_size p = size_of (aw_buf p)" "unat (size_of (aw_buf p)) = length (aw_buf p)"
    using assms by (simp_all add: wf_aw_def size_of_unat)
  let ?t = "put_int (aw_parent_type p) @ put_ulong (aw_parent_obj_addr p)
     @ put_ulong (size_of (aw_attr_name p)) @ aw_attr_name p @ put_ulong (size_of (aw_buf p)) @ aw_buf p @ rest"
  obtain j0 l1 where g0: "\<forall>r. r = concat (id_chunks (id_image h H5P l (aw_dxpl_id p))) @ ?t \<longrightarrow>
      get_id h H5T (concat (id_chunks (id_image h H5T l (aw_mem_type_id p))) @ r) l0 = Some (j0, r, l1)"
    and a0: "alike h H5T l (aw_mem_type_id p) l1 j0" "h5_extends h l0 l1"
    by (rule get_id_image [OF law c(1)])
  obtain j1 l2 where g1: "\<forall>r. r = ?t \<longrightarrow>
      get_id h H5P (concat (id_chunks (id_image h H5P l (aw_dxpl_id p))) @ r) l1 = Some (j1, r, l2)"
    and a1: "alike h H5P l (aw_dxpl_id p) l2 j1" and e1: "h5_extends h l1 l2"
    by (rule get_id_image [OF law c(2)])
  show ?thesis
    using alike_extends [OF a0(1) e1] a1
    by (simp add: attr_write_decoder_def aw_image_def g0 [rule_format, OF refl] g1 [rule_format, OF refl]
        codec_simps w aw_alike_def)
qed

definition attr_write_data :: "('l, 'z) hdf5_scheme \<Rightarrow> 'l \<Rightarrow> param_attr_wr \<Rightarrow> (c_ulong \<times> byte list) option" where
  "attr_write_data h l param_in = do {
     (proposal_size, attr_param_data) \<leftarrow> attr_write_encoder h l param_in;
     Some (scast proposal_size, attr_param_data) }"

interpretation aw: operation_codec "attr_write_data h" "attr_write_decoder h" "wf_aw h" "aw_alike h"
  for h :: "('l, 'z) hdf5_scheme"
proof
  fix l p assume w: "wf_aw h l p"
  have len: "length (aw_image h l p) < 2 ^ 31" using aw_image_length [OF w] by simp
  moreover have "aw_image h l p \<noteq> []" by (simp add: aw_image_def id_chunks_def)
  moreover have "attr_write_data h l p = Some (size_of (aw_image h l p), aw_image h l p)"
    using len by (simp add: attr_write_data_def attr_write_encoder_image [OF w] int_of_size(1))
  ultimately show "\<exists>b. attr_write_data h l p = Some (size_of b, b) \<and> b \<noteq> [] \<and> length b < 2 ^ 31
      \<and> (\<forall>l2 rest. \<exists>q l'. attr_write_decoder h (b @ rest) l2 = Some (q, l') \<and> aw_alike h l p l' q)"
    using attr_write_decoder_image [OF w] by blast
qed

section \<open>Extending a dataset\<close>

definition wf_ext :: "param_ds_extend \<Rightarrow> bool" where
  "wf_ext p \<longleftrightarrow> ext_rank p = of_nat (length (new_size p)) \<and> length (new_size p) < 2 ^ 20"

definition ext_image :: "param_ds_extend \<Rightarrow> byte list" where
  "ext_image p = put_ulong (dset_addr p) @ put_int (ext_rank p) @ concat (map put_ulong (new_size p))"

lemma length_dims: "length (concat (map put_ulong xs)) = 8 * length xs"
  by (induction xs) simp_all

lemma get_ulongs_image: "get_ulongs (length xs) (concat (map put_ulong xs) @ rest) = Some (xs, rest)"
  by (induction xs) (simp_all add: codec_simps)

lemma dims_size:
  assumes "wf_ext p"
  shows "(scast (ext_rank p) * 8 :: c_ulong) = of_nat (8 * length (new_size p))"
    and "unat (scast (ext_rank p) * 8 :: c_ulong) = 8 * length (new_size p)"
proof -
  have w: "ext_rank p = of_nat (length (new_size p))" "length (new_size p) < 2 ^ 20"
    using assms by (auto simp: wf_ext_def)
  have "(scast (ext_rank p) :: c_ulong) = of_nat (length (new_size p))"
    unfolding w(1) by (rule scast_of_nat_small(2)) (use w(2) in simp)
  then show e: "(scast (ext_rank p) * 8 :: c_ulong) = of_nat (8 * length (new_size p))"
    by (simp add: mult.commute)
  show "unat (scast (ext_rank p) * 8 :: c_ulong) = 8 * length (new_size p)"
    unfolding e using w(2) by (simp only: unat_of_nat) simp
qed

lemma ds_extend_encoder_image:
  assumes "wf_ext p"
  shows "ds_extend_encoder (dset_addr p) (ext_rank p) (new_size p) = Some (size_of (ext_image p), ext_image p)"
proof -
  have len: "length (new_size p) < 2 ^ 20" using assms by (simp add: wf_ext_def)
  have n: "12 + (scast (ext_rank p) * 8 :: c_ulong) = size_of (ext_image p)"
    by (simp add: dims_size(1) [OF assms] ext_image_def length_dims)
  have "write_seq 0 [put_ulong (dset_addr p), put_int (ext_rank p), concat (map put_ulong (new_size p))]
      (calloc_buf (size_of (ext_image p))) = Some (ext_image p)"
    by (rule write_image) (use len in \<open>simp_all add: ext_image_def length_dims\<close>)
  moreover have "memcpy_from (concat (map put_ulong (new_size p))) (8 * length (new_size p))
      = Some (concat (map put_ulong (new_size p)))"
    by (simp add: memcpy_from_exact length_dims)
  ultimately show ?thesis
    by (simp add: ds_extend_encoder_def Let_def n dims_size(2) [OF assms])
qed

lemma ds_extend_decoder_image: "wf_ext p \<Longrightarrow> ds_extend_decoder (ext_image p @ rest) = Some p"
  by (simp add: ds_extend_decoder_def ext_image_def codec_simps dims_size(2) get_ulongs_image)

interpretation ext: operation_codec "\<lambda>l p. ds_extend_encoder (dset_addr p) (ext_rank p) (new_size p)"
  "\<lambda>b l. do { q \<leftarrow> ds_extend_decoder b; Some (q, l) }" "\<lambda>l. wf_ext" "\<lambda>l p l' q. q = p"
proof
  fix l :: 'l and p assume w: "wf_ext p"
  have "length (ext_image p) < 2 ^ 31" "ext_image p \<noteq> []"
    using w by (simp_all add: wf_ext_def ext_image_def length_dims)
  then show "\<exists>b. ds_extend_encoder (dset_addr p) (ext_rank p) (new_size p) = Some (size_of b, b) \<and> b \<noteq> []
      \<and> length b < 2 ^ 31
      \<and> (\<forall>l2 rest. \<exists>q l'. (do { q \<leftarrow> ds_extend_decoder (b @ rest); Some (q, l2) }) = Some (q, l') \<and> q = p)"
    using ds_extend_encoder_image [OF w] ds_extend_decoder_image [OF w] by auto
qed

section \<open>A location by index\<close>

lemma int_of_bytes_nonneg: "0 \<le> int_of_bytes bs"
  by (induction bs) simp_all

lemma int_of_bytes_upper: "int_of_bytes bs < 256 ^ length bs"
proof (induction bs)
  case (Cons b bs)
  have "uint b \<le> 255" using uint_lt2p [of b] by simp
  moreover have "int_of_bytes bs \<le> 256 ^ length bs - 1" using Cons by simp
  ultimately show ?case by simp
qed simp

lemma int_of_bytes_lower:
  assumes "bs \<noteq> []" and "last bs \<noteq> 0"
  shows "256 ^ (length bs - 1) \<le> int_of_bytes bs"
  using assms
proof (induction bs)
  case (Cons b bs)
  show ?case
  proof (cases "bs = []")
    case True
    have "uint b \<noteq> 0" using Cons.prems True by (simp add: uint_0_iff)
    moreover have "0 \<le> uint b" by (rule uint_ge_0)
    ultimately have "1 \<le> uint b" by linarith
    with True show ?thesis by simp
  next
    case False
    then have "256 ^ (length bs - 1) \<le> int_of_bytes bs" using Cons by simp
    moreover have "256 ^ length bs = 256 * (256 :: int) ^ (length bs - 1)"
      using False by (cases bs) simp_all
    moreover have "0 \<le> uint b" by (rule uint_ge_0)
    ultimately have "256 ^ length bs \<le> uint b + 256 * int_of_bytes bs" by linarith
    then show ?thesis by simp
  qed
qed simp

text \<open>
  The encoder writes the name over its size, so that the decoder takes the first eight characters
  for a size.
\<close>

lemma calloc_write_size:
  assumes "8 \<le> length img" and "length img < 2 ^ 64"
  shows "write_at 0 (put_ulong w) (calloc_buf (size_of img)) = Some (put_ulong w @ replicate (length img - 8) 0)"
  using assms by (simp add: write_at_def calloc_buf_def size_of_unat)

lemma loc_by_idx_image:
  assumes "hdf5_laws h" and "codable h H5P l i" and "nm \<noteq> []" and "last nm = 0" and "0 \<notin> set (butlast nm)"
    and "length nm < 2 ^ 24"
    and "lp_type p = h5_loc_type h LOC_IDX" and "loc_data p = Loc_by_idx nm idx ord n i"
  shows "\<exists>img. loc_union_encoder h l p = Some (size_of img, img) \<and> length img < 2 ^ 26
    \<and> img = nm @ put_int idx @ put_int ord @ put_ulong n @ concat (id_chunks (id_image h H5P l i)) @ replicate 8 0"
proof -
  let ?pl = "id_image h H5P l i"
  obtain img where img: "img = nm @ put_int idx @ put_int ord @ put_ulong n @ concat (id_chunks ?pl) @ replicate 8 0"
    by blast
  obtain k where k: "strlen nm = Some k" "(of_nat k + 1 :: c_ulong) = size_of nm" "Suc k = length nm"
    by (rule strlen_c_string [OF assms(3-5)])
  have len: "length img < 2 ^ 26"
    using id_image_length [OF assms(2)] assms(6) by (simp add: id_chunks_def img)
  have n: "33 + (of_nat k + size_of ?pl) = size_of img"
    by (simp add: id_chunks_def img k(2) [symmetric] algebra_simps)
  have buf: "write_at 0 (put_ulong (size_of nm)) (calloc_buf (size_of img))
      = Some (put_ulong (size_of nm) @ replicate (length img - 8) 0)"
    by (rule calloc_write_size) (use len in \<open>simp_all add: img\<close>)
  have "write_seq 0 [nm, put_int idx, put_int ord, put_ulong n, put_ulong (size_of ?pl), ?pl]
      (put_ulong (size_of nm) @ replicate (length img - 8) 0) = Some img"
    using write_seq_over [of "[nm, put_int idx, put_int ord, put_ulong n, put_ulong (size_of ?pl), ?pl]"
        "put_ulong (size_of nm) @ replicate (length img - 8) 0" "[]"]
    by (simp add: id_chunks_def img)
  with buf have "loc_union_encoder h l p = Some (size_of img, img)"
    using k assms(6) size_of_unat [of nm] n
    by (simp add: loc_union_encoder_def assms(7,8) loc_kinds_differ [OF assms(1)] encode_image
        memcpy_from_exact Let_def add.assoc)
  with len img show ?thesis by blast
qed

lemma loc_by_idx_unreadable:
  assumes "hdf5_laws h" and "codable h H5P l i" and "last nm = 0" and "0 \<notin> set (butlast nm)"
    and "8 < length nm" and "length nm < 2 ^ 24"
    and "lp_type p = h5_loc_type h LOC_IDX" and "loc_data p = Loc_by_idx nm idx ord n i"
    and "loc_params_encoder h l p = Some (sz, img)" and "length rest < 2 ^ 32"
  shows "loc_params_decoder h (img @ rest) l2 = None"
proof -
  obtain u where u: "loc_union_encoder h l p = Some (size_of u, u)" "length u < 2 ^ 26"
    and nm: "u = nm @ put_int idx @ put_int ord @ put_ulong n @ concat (id_chunks (id_image h H5P l i)) @ replicate 8 0"
    using loc_by_idx_image [OF assms(1,2) _ assms(3,4) assms(6-8)] assms(5) by fastforce
  have "write_seq 0 [put_int (lp_obj_type p), put_int (lp_type p), u]
      (calloc_buf (size_of (put_int (lp_obj_type p) @ put_int (lp_type p) @ u)))
      = Some (put_int (lp_obj_type p) @ put_int (lp_type p) @ u)"
    by (rule write_image) (use u(2) in simp_all)
  then have img: "img = put_int (lp_obj_type p) @ put_int (lp_type p) @ u"
    using assms(9) u(1) by (simp add: loc_params_encoder_def Let_def)
  have eight: "take 8 (u @ rest) = take 8 nm" "8 \<le> length (u @ rest)" using assms(5) nm by simp_all
  have "take 8 nm \<noteq> []" using assms(5) by auto
  then have "last (take 8 nm) = nm ! 7" using assms(5) last_conv_nth [of "take 8 nm"] by simp
  then have "take 8 nm \<noteq> []" "last (take 8 nm) \<noteq> 0" "length (take 8 nm) = 8"
    using assms(4,5) by (auto simp: in_set_conv_nth nth_butlast)
  then have big: "256 ^ 7 \<le> int_of_bytes (take 8 nm)" "int_of_bytes (take 8 nm) < 256 ^ 8"
    using int_of_bytes_lower [of "take 8 nm"] int_of_bytes_upper [of "take 8 nm"] by simp_all
  have "uint (word_of_int (int_of_bytes (take 8 nm)) :: c_ulong) = int_of_bytes (take 8 nm)"
    using big by (simp add: uint_word_of_int)
  then have "unat (word_of_int (int_of_bytes (take 8 nm)) :: c_ulong) = nat (int_of_bytes (take 8 nm))"
    by (metis nat_uint_eq)
  moreover have "length (drop 8 (u @ rest)) < 256 ^ 7" using u(2) assms(10) by simp
  ultimately have "length (drop 8 (u @ rest)) < unat (word_of_int (int_of_bytes (take 8 nm)) :: c_ulong)"
    using big(1) by simp
  then have short: "get_bytes (unat (word_of_int (int_of_bytes (take 8 nm)) :: c_ulong)) (drop 8 (u @ rest)) = None"
    by (rule get_bytes_short)
  show ?thesis
    using eight short
    by (simp add: loc_params_decoder_def img codec_simps loc_union_decoder_def assms(7) loc_kinds_differ [OF assms(1)]
        get_ulong_def get_bytes_def [of 8])
qed

end
