(* ===== verification/H5_Callbacks.thy ===== *)
theory H5_Callbacks
  imports H5_Codec Proposal
begin

text \<open>
  The two callbacks the connector of \<^verbatim>\<open>H5VL_rlo.c\<close> hands to the layers below: the judgement of a
  received proposal, and the execution of an approved one on this rank's copy of the file. The calls
  into the underlying VOL connector are a parameter, by the call made.
\<close>

section \<open>Operations\<close>

datatype VL_op_type =
  FILE_CLOSE | DS_CREATE | DS_OPEN | DS_EXTEND | DS_CLOSE | GROUP_CREATE | GROUP_OPEN | GROUP_CLOSE
| ATTR_CREATE | ATTR_WRITE | DT_COMMIT

fun op_code :: "VL_op_type \<Rightarrow> c_int" where
  "op_code FILE_CLOSE = 0"
| "op_code DS_CREATE = 1"
| "op_code DS_OPEN = 2"
| "op_code DS_EXTEND = 3"
| "op_code DS_CLOSE = 4"
| "op_code GROUP_CREATE = 5"
| "op_code GROUP_OPEN = 6"
| "op_code GROUP_CLOSE = 7"
| "op_code ATTR_CREATE = 8"
| "op_code ATTR_WRITE = 9"
| "op_code DT_COMMIT = 10"

lemma op_code_inject: "op_code a = op_code b \<longleftrightarrow> a = b"
  by (cases a; cases b) simp_all

section \<open>The underlying connector\<close>

text \<open>
  A call with its arguments; an object of the connector below is a pointer, a number here. Calls
  that give an object back give null (\<^const>\<open>None\<close>) when they fail, the others a status.
\<close>

datatype h5i_type = H5I_FILE | H5I_GROUP | H5I_DATASET | H5I_DATATYPE | H5I_ATTR

datatype vol_call =
  H5VLobject_open (on_object: nat) loc_params (on_vol: hid_t) hid_t
| H5VLdatatype_commit nat loc_params hid_t "byte list" hid_t hid_t hid_t hid_t hid_t
| H5VLattr_create nat loc_params hid_t "byte list" hid_t hid_t hid_t hid_t hid_t
| H5VLattr_open nat loc_params hid_t "byte list" hid_t hid_t
| H5VLdataset_create nat loc_params hid_t "byte list" hid_t hid_t hid_t hid_t hid_t hid_t
| H5VLgroup_create nat loc_params hid_t "byte list" hid_t hid_t hid_t hid_t
| H5VLattr_write nat hid_t hid_t "byte list" hid_t
| H5VLdataset_set_extent nat hid_t hid_t "hsize_t list"
| H5VLattr_close nat hid_t hid_t
| H5VLgroup_close nat hid_t hid_t
| H5VLdataset_close nat hid_t hid_t
| H5VLdatatype_close nat hid_t hid_t
| H5VLpush_lib_state
| H5VLpop_lib_state

record 'l h5_vol = "'l hdf5" +
  h5_open :: "vol_call \<Rightarrow> 'l \<Rightarrow> nat option \<times> 'l"
  h5_do :: "vol_call \<Rightarrow> 'l \<Rightarrow> c_int \<times> 'l"
  h5i_code :: "h5i_type \<Rightarrow> c_int"
  h5p_default :: hid_t

text \<open>
  The context of a file. Its pointer to the metadata manager is not a field: the manager is the
  caller. The callbacks work on the context and the state of the library.
\<close>

record prop_ctx =
  ref_count :: c_int
  under_file :: nat
  under_vol_id :: hid_t
  comm_size :: c_int
  ctx_my_rank :: c_int
  close_count :: c_int
  is_collective :: bool
  under_obj :: "nat option"
  resulting_obj_out :: "nat option"

record 'l vol_app =
  va_ctx :: prop_ctx
  va_lib :: 'l

definition vol_open :: "('l, 'z) h5_vol_scheme \<Rightarrow> vol_call \<Rightarrow> 'l vol_app \<Rightarrow> (nat \<times> 'l vol_app) option" where
  "vol_open h c a =
     (case h5_open h c (va_lib a) of (r, l) \<Rightarrow> do { obj \<leftarrow> r; Some (obj, a\<lparr>va_lib := l\<rparr>) })"

definition vol_do :: "('l, 'z) h5_vol_scheme \<Rightarrow> vol_call \<Rightarrow> 'l vol_app \<Rightarrow> c_int \<times> 'l vol_app" where
  "vol_do h c a = (case h5_do h c (va_lib a) of (r, l) \<Rightarrow> (r, a\<lparr>va_lib := l\<rparr>))"

text \<open>Every object opened or created is asserted not to be null (\<^const>\<open>vol_open\<close> is \<^const>\<open>None\<close> then).\<close>

section \<open>The judgement\<close>

text \<open>
  The window is reached through the context's pointer to the manager, which is null
  (\<^const>\<open>None\<close>) until the manager's initialisation has returned.
\<close>

record judge_ctx =
  jc_window :: "c_ulong option"
  jc_clock :: "nat \<Rightarrow> c_ulong"
  jc_ticks :: nat

definition h5_judgement :: "byte list option \<Rightarrow> judge_ctx \<Rightarrow> (c_int \<times> judge_ctx) option" where
  "h5_judgement proposal_buf ctx = do {
     buf \<leftarrow> proposal_buf;
     prop \<leftarrow> (proposal_decoder buf :: unit proposal option);
     (let now = jc_clock ctx (jc_ticks ctx); ctx = ctx\<lparr>jc_ticks := jc_ticks ctx + 1\<rparr> in do {
        window \<leftarrow> jc_window ctx;
        Some (if now - time prop > window then 0 else 1, ctx) }) }"

section \<open>Executing an approved proposal\<close>

definition token_loc :: "('l, 'z) h5_vol_scheme \<Rightarrow> haddr_t \<Rightarrow> loc_params" where
  "token_loc h addr = \<lparr>lp_obj_type = h5i_code h H5I_FILE, lp_type = h5_loc_type h LOC_TOKEN,
     loc_data = Loc_by_token (put_ulong addr)\<rparr>"

definition self_loc :: "('l, 'z) h5_vol_scheme \<Rightarrow> h5i_type \<Rightarrow> loc_params" where
  "self_loc h t = \<lparr>lp_obj_type = h5i_code h t, lp_type = h5_loc_type h LOC_SELF, loc_data = Loc_none\<rparr>"

text \<open>The object with the given address in the file of the context.\<close>

definition open_by_addr ::
  "('l, 'z) h5_vol_scheme \<Rightarrow> haddr_t \<Rightarrow> hid_t \<Rightarrow> 'l vol_app \<Rightarrow> (nat \<times> 'l vol_app) option" where
  "open_by_addr h addr dxpl a =
     vol_open h (H5VLobject_open (under_file (va_ctx a)) (token_loc h addr) (under_vol_id (va_ctx a)) dxpl) a"

definition set_result :: "nat \<Rightarrow> 'l vol_app \<Rightarrow> 'l vol_app" where
  "set_result obj a = a\<lparr>va_ctx := (va_ctx a)\<lparr>resulting_obj_out := Some obj\<rparr>\<rparr>"

text \<open>
  The parent of a dataset, a datatype or a group: a group of the file, opened by its address and
  closed at the end, or else the file itself.
\<close>

definition open_parent ::
  "('l, 'z) h5_vol_scheme \<Rightarrow> c_int \<Rightarrow> haddr_t \<Rightarrow> hid_t \<Rightarrow> 'l vol_app \<Rightarrow> (nat \<times> 'l vol_app) option" where
  "open_parent h pt addr dxpl a =
     (if pt = vl_code VL_GROUP then open_by_addr h addr dxpl a else Some (under_file (va_ctx a), a))"

definition close_parent ::
  "('l, 'z) h5_vol_scheme \<Rightarrow> c_int \<Rightarrow> nat \<Rightarrow> hid_t \<Rightarrow> 'l vol_app \<Rightarrow> 'l vol_app" where
  "close_parent h pt obj dxpl a =
     (if pt = vl_code VL_GROUP then snd (vol_do h (H5VLgroup_close obj (under_vol_id (va_ctx a)) dxpl) a) else a)"

text \<open>The object that carries an attribute is closed as what it is; other parents fail an assertion.\<close>

definition close_attr_parent ::
  "('l, 'z) h5_vol_scheme \<Rightarrow> c_int \<Rightarrow> nat \<Rightarrow> hid_t \<Rightarrow> 'l vol_app \<Rightarrow> 'l vol_app option" where
  "close_attr_parent h pt obj dxpl a =
     (let vol = under_vol_id (va_ctx a) in
      if pt = vl_code VL_GROUP then Some (snd (vol_do h (H5VLgroup_close obj vol dxpl) a))
      else if pt = vl_code VL_DATASET then Some (snd (vol_do h (H5VLdataset_close obj vol dxpl) a))
      else if pt = vl_code VL_NAMED_DATATYPE then Some (snd (vol_do h (H5VLdatatype_close obj vol dxpl) a))
      else None)"

definition file_close_cb_sub :: "'l vol_app \<Rightarrow> c_int \<times> 'l vol_app" where
  "file_close_cb_sub a = (0, a\<lparr>va_ctx := (va_ctx a)\<lparr>close_count := close_count (va_ctx a) + 1\<rparr>\<rparr>)"

definition attr_write_cb_sub ::
  "('l, 'z) h5_vol_scheme \<Rightarrow> unit proposal \<Rightarrow> 'l vol_app \<Rightarrow> (c_int \<times> 'l vol_app) option" where
  "attr_write_cb_sub h prop a = do {
     dat \<leftarrow> proposal_data prop;
     (param, l) \<leftarrow> attr_write_decoder h dat (va_lib a);
     a \<leftarrow> Some (a\<lparr>va_lib := l\<rparr>);
     (let vol = under_vol_id (va_ctx a); dxpl = aw_dxpl_id param; pt = aw_parent_type param in do {
        (obj, a) \<leftarrow> open_by_addr h (aw_parent_obj_addr param) dxpl a;
        loc \<leftarrow> (if pt = vl_code VL_GROUP then Some (self_loc h H5I_GROUP)
                else if pt = vl_code VL_DATASET then Some (self_loc h H5I_DATASET)
                else if pt = vl_code VL_NAMED_DATATYPE then Some (self_loc h H5I_DATATYPE)
                else None);
        (attr, a) \<leftarrow> vol_open h (H5VLattr_open obj loc vol (aw_attr_name param) (h5p_default h) dxpl) a;
        (case vol_do h (H5VLattr_write attr vol (aw_mem_type_id param) (aw_buf param) dxpl) a of
           (ret_value, a) \<Rightarrow> do {
             a \<leftarrow> Some (snd (vol_do h (H5VLattr_close attr vol dxpl) a));
             a \<leftarrow> close_attr_parent h pt obj dxpl a;
             Some (if isLocal prop \<noteq> 0 then ret_value else 0, a) }) }) }"

definition dt_commit_cb_sub ::
  "('l, 'z) h5_vol_scheme \<Rightarrow> unit proposal \<Rightarrow> 'l vol_app \<Rightarrow> (c_int \<times> 'l vol_app) option" where
  "dt_commit_cb_sub h prop a = do {
     dat \<leftarrow> proposal_data prop;
     (param, l) \<leftarrow> dt_commit_decoder h dat (va_lib a);
     a \<leftarrow> Some (a\<lparr>va_lib := l\<rparr>);
     (let vol = under_vol_id (va_ctx a); dxpl = dt_dxpl_id param; pt = parent_type param in do {
        (obj, a) \<leftarrow> open_parent h pt (parent_obj_addr param) dxpl a;
        (dt, a) \<leftarrow> vol_open h (H5VLdatatype_commit obj (prm_loc_params param) vol (prm_name param)
          (dt_type_id param) (dt_lcpl_id param) (dt_tcpl_id param) (dt_tapl_id param) dxpl) a;
        a \<leftarrow> Some (if isLocal prop \<noteq> 0 then set_result dt a
                   else snd (vol_do h (H5VLdatatype_close dt vol dxpl) a));
        Some (0, close_parent h pt obj dxpl a) }) }"

definition attr_create_cb_sub ::
  "('l, 'z) h5_vol_scheme \<Rightarrow> unit proposal \<Rightarrow> 'l vol_app \<Rightarrow> (c_int \<times> 'l vol_app) option" where
  "attr_create_cb_sub h prop a = do {
     dat \<leftarrow> proposal_data prop;
     (param, l) \<leftarrow> attr_create_decoder h dat (va_lib a);
     a \<leftarrow> Some (a\<lparr>va_lib := l\<rparr>);
     (let vol = under_vol_id (va_ctx a); dxpl = at_dxpl_id param; pt = parent_type param in do {
        (obj, a) \<leftarrow> open_by_addr h (parent_obj_addr param) dxpl a;
        (attr, a) \<leftarrow> vol_open h (H5VLattr_create obj (prm_loc_params param) vol (prm_name param)
          (at_type_id param) (at_space_id param) (at_acpl_id param) (at_aapl_id param) dxpl) a;
        a \<leftarrow> Some (if isLocal prop \<noteq> 0 then set_result attr a
                   else snd (vol_do h (H5VLattr_close attr vol dxpl) a));
        a \<leftarrow> close_attr_parent h pt obj dxpl a;
        Some (0, a) }) }"

definition ds_create_cb_sub ::
  "('l, 'z) h5_vol_scheme \<Rightarrow> unit proposal \<Rightarrow> 'l vol_app \<Rightarrow> (c_int \<times> 'l vol_app) option" where
  "ds_create_cb_sub h prop a = do {
     dat \<leftarrow> proposal_data prop;
     (param, l) \<leftarrow> ds_create_decoder h dat (va_lib a);
     a \<leftarrow> Some (a\<lparr>va_lib := l\<rparr>);
     (let vol = under_vol_id (va_ctx a); dxpl = ds_dxpl_id param; pt = parent_type param in do {
        (obj, a) \<leftarrow> open_parent h pt (parent_obj_addr param) dxpl a;
        (dset, a) \<leftarrow> vol_open h (H5VLdataset_create obj (prm_loc_params param) vol (prm_name param)
          (ds_lcpl_id param) (ds_type_id param) (ds_space_id param) (ds_dcpl_id param) (ds_dapl_id param) dxpl) a;
        a \<leftarrow> Some (if isLocal prop \<noteq> 0 then set_result dset a
                   else snd (vol_do h (H5VLdataset_close dset vol dxpl) a));
        Some (0, close_parent h pt obj dxpl a) }) }"

text \<open>A local extension works on the dataset the caller left in the context.\<close>

definition ds_extend_cb_sub ::
  "('l, 'z) h5_vol_scheme \<Rightarrow> unit proposal \<Rightarrow> 'l vol_app \<Rightarrow> (c_int \<times> 'l vol_app) option" where
  "ds_extend_cb_sub h prop a = do {
     dat \<leftarrow> proposal_data prop;
     param \<leftarrow> ds_extend_decoder dat;
     (let vol = under_vol_id (va_ctx a) in do {
        (obj, a) \<leftarrow>
          (if isLocal prop = 0 then do {
             a \<leftarrow> Some (snd (vol_do h H5VLpush_lib_state a));
             (obj, a) \<leftarrow> open_by_addr h (dset_addr param) (h5p_default h) a;
             Some (obj, snd (vol_do h H5VLpop_lib_state a)) }
           else do { obj \<leftarrow> under_obj (va_ctx a); Some (obj, a) });
        (case vol_do h (H5VLdataset_set_extent obj vol (h5p_default h) (new_size param)) a of
           (ret_value, a) \<Rightarrow>
             Some (if isLocal prop = 0
                   then (0, snd (vol_do h (H5VLdataset_close obj vol (h5p_default h)) a))
                   else (ret_value, a))) }) }"

definition group_create_cb_sub ::
  "('l, 'z) h5_vol_scheme \<Rightarrow> unit proposal \<Rightarrow> 'l vol_app \<Rightarrow> (c_int \<times> 'l vol_app) option" where
  "group_create_cb_sub h prop a = do {
     dat \<leftarrow> proposal_data prop;
     (param, l) \<leftarrow> group_create_decoder h dat (va_lib a);
     a \<leftarrow> Some (a\<lparr>va_lib := l\<rparr>);
     (let vol = under_vol_id (va_ctx a); dxpl = gr_dxpl_id param; pt = parent_type param in do {
        (obj, a) \<leftarrow> open_parent h pt (parent_obj_addr param) dxpl a;
        (grp, a) \<leftarrow> vol_open h (H5VLgroup_create obj (prm_loc_params param) vol (prm_name param)
          (gr_lcpl_id param) (gr_gcpl_id param) (gr_gapl_id param) dxpl) a;
        a \<leftarrow> Some (if isLocal prop \<noteq> 0 then set_result grp a
                   else snd (vol_do h (H5VLgroup_close grp vol dxpl) a));
        Some (0, close_parent h pt obj dxpl a) }) }"

text \<open>
  The status of the operation is dropped: \<^verbatim>\<open>cb_execute_H5VL_RLO\<close> always returns \<^term>\<open>- 1 :: int\<close>. The
  context pointer leads to the context in the state.
\<close>

definition cb_execute_H5VL_RLO ::
  "('l, 'z) h5_vol_scheme \<Rightarrow> nat \<Rightarrow> byte list \<Rightarrow> 'l vol_app \<Rightarrow> (int \<times> 'l vol_app) option" where
  "cb_execute_H5VL_RLO h h5_ctx proposal_buf a = do {
     prop \<leftarrow> proposal_decoder proposal_buf;
     (ret, a) \<leftarrow>
       (if op_type prop = op_code FILE_CLOSE then Some (file_close_cb_sub a)
        else if op_type prop = op_code DS_CREATE then ds_create_cb_sub h prop a
        else if op_type prop = op_code DS_EXTEND then ds_extend_cb_sub h prop a
        else if op_type prop = op_code GROUP_CREATE then group_create_cb_sub h prop a
        else if op_type prop = op_code ATTR_CREATE then attr_create_cb_sub h prop a
        else if op_type prop = op_code ATTR_WRITE then attr_write_cb_sub h prop a
        else if op_type prop = op_code DT_COMMIT then dt_commit_cb_sub h prop a
        else None);
     Some (- 1, a) }"

end
