(* ===== verification/H5_Callback_Facts.thy ===== *)
theory H5_Callback_Facts
  imports H5_Callbacks
begin

text \<open>
  What executing a proposal opens, it closes: a library that records the calls made to it is put
  under the callback, and the objects opened are compared with the objects closed.
\<close>

section \<open>A recording library\<close>

type_synonym vol_log = "(vol_call \<times> nat option) list"

definition logged :: "'l h5_vol \<Rightarrow> (vol_log \<times> 'l) h5_vol" where
  "logged h = \<lparr>h5_encode = (\<lambda>k s. h5_encode h k (snd s)),
     h5_decode = (\<lambda>k b s. case h5_decode h k b (snd s) of (i, l) \<Rightarrow> (i, (fst s, l))),
     h5_loc_type = h5_loc_type h, h5_token_size = h5_token_size h,
     h5_open = (\<lambda>c s. case h5_open h c (snd s) of (r, l) \<Rightarrow> (r, (fst s @ [(c, r)], l))),
     h5_do = (\<lambda>c s. case h5_do h c (snd s) of (r, l) \<Rightarrow> (r, (fst s @ [(c, None)], l))),
     h5i_code = h5i_code h, h5p_default = h5p_default h\<rparr>"

fun closes :: "vol_call \<Rightarrow> nat option" where
  "closes (H5VLattr_close x v d) = Some x"
| "closes (H5VLgroup_close x v d) = Some x"
| "closes (H5VLdataset_close x v d) = Some x"
| "closes (H5VLdatatype_close x v d) = Some x"
| "closes _ = None"

fun opened :: "vol_log \<Rightarrow> nat multiset" where
  "opened [] = {#}"
| "opened ((c, r) # lg) = (case r of None \<Rightarrow> {#} | Some x \<Rightarrow> {#x#}) + opened lg"

fun closed_objs :: "vol_log \<Rightarrow> nat multiset" where
  "closed_objs [] = {#}"
| "closed_objs ((c, r) # lg) = (case closes c of None \<Rightarrow> {#} | Some x \<Rightarrow> {#x#}) + closed_objs lg"

lemma opened_append [simp]: "opened (xs @ ys) = opened xs + opened ys"
  by (induction xs rule: opened.induct) (auto simp: ac_simps)

lemma closed_append [simp]: "closed_objs (xs @ ys) = closed_objs xs + closed_objs ys"
  by (induction xs rule: closed_objs.induct) (auto simp: ac_simps)

definition app_log :: "(vol_log \<times> 'l) vol_app \<Rightarrow> vol_log" where
  "app_log a = fst (va_lib a)"

named_theorems log_simps \<open>the log after an operation\<close>

lemma vol_open_log [log_simps]:
  "vol_open (logged h) c a = Some (x, a') \<Longrightarrow> app_log a' = app_log a @ [(c, Some x)] \<and> va_ctx a' = va_ctx a"
  by (auto simp: vol_open_def logged_def app_log_def bind_eq_Some_conv split: prod.splits)

lemma vol_do_log [log_simps]:
  "vol_do (logged h) c a = (r, a') \<Longrightarrow> app_log a' = app_log a @ [(c, None)] \<and> va_ctx a' = va_ctx a"
  by (auto simp: vol_do_def logged_def app_log_def split: prod.splits)

lemma vol_do_snd_log [log_simps]:
  "app_log (snd (vol_do (logged h) c a)) = app_log a @ [(c, None)]"
  "va_ctx (snd (vol_do (logged h) c a)) = va_ctx a"
  by (simp_all add: vol_do_def logged_def app_log_def split: prod.split)

lemma get_id_log: "get_id (logged h) k b s = Some (i, b', s') \<Longrightarrow> fst s' = fst s"
  by (auto simp: get_id_def logged_def bind_eq_Some_conv split: prod.splits)

lemma loc_params_decoder_log: "loc_params_decoder (logged h) b s = Some (p, s') \<Longrightarrow> fst s' = fst s"
  by (auto simp: loc_params_decoder_def loc_union_decoder_def bind_eq_Some_conv dest!: get_id_log
      split: prod.splits if_splits) (auto simp: logged_def split: prod.splits)

lemma get_create_log: "get_create (logged h) b s = Some (p, s') \<Longrightarrow> fst s' = fst s"
  by (auto simp: get_create_def bind_eq_Some_conv dest!: loc_params_decoder_log)

lemma decoders_log:
  "ds_create_decoder (logged h) b s = Some (p1, s') \<Longrightarrow> fst s' = fst s"
  "dt_commit_decoder (logged h) b s = Some (p2, s') \<Longrightarrow> fst s' = fst s"
  "group_create_decoder (logged h) b s = Some (p3, s') \<Longrightarrow> fst s' = fst s"
  "attr_create_decoder (logged h) b s = Some (p4, s') \<Longrightarrow> fst s' = fst s"
  "attr_write_decoder (logged h) b s = Some (p5, s') \<Longrightarrow> fst s' = fst s"
  by (auto simp: ds_create_decoder_def dt_commit_decoder_def group_create_decoder_def attr_create_decoder_def
      attr_write_decoder_def bind_eq_Some_conv dest!: get_id_log get_create_log)

lemma app_log_simps [simp]:
  "app_log (a\<lparr>va_lib := s\<rparr>) = fst s" "app_log (set_result x a) = app_log a"
  "resulting_obj_out (va_ctx (set_result x a)) = Some x"
  "app_log (a\<lparr>va_ctx := c\<rparr>) = app_log a"
  by (simp_all add: app_log_def set_result_def)

section \<open>Nothing is left open\<close>

text \<open>
  The calls since log \<open>log\<close> have opened what they closed, and the objects of \<open>kept\<close> on top.
\<close>

definition balanced :: "vol_log \<Rightarrow> vol_log \<Rightarrow> nat multiset \<Rightarrow> bool" where
  "balanced lg lg' kept \<longleftrightarrow>
     (\<exists>calls. lg' = lg @ calls \<and> opened calls = closed_objs calls + kept)"

definition kept_result :: "unit proposal \<Rightarrow> 'l vol_app \<Rightarrow> nat multiset" where
  "kept_result prop a =
     (if isLocal prop = 0 then {#} else (case resulting_obj_out (va_ctx a) of None \<Rightarrow> {#} | Some x \<Rightarrow> {#x#}))"

lemma parent_log:
  assumes "open_parent (logged h) pt addr dxpl a = Some (x, a')"
  shows "if pt = vl_code VL_GROUP
    then app_log a' = app_log a @ [(H5VLobject_open (under_file (va_ctx a)) (token_loc (logged h) addr)
           (under_vol_id (va_ctx a)) dxpl, Some x)] \<and> va_ctx a' = va_ctx a
    else a' = a"
  using assms by (auto simp: open_parent_def open_by_addr_def dest!: vol_open_log split: if_splits)

lemma close_parent_log:
  "app_log (close_parent (logged h) pt x dxpl a) =
     app_log a @ (if pt = vl_code VL_GROUP then [(H5VLgroup_close x (under_vol_id (va_ctx a)) dxpl, None)] else [])"
  "va_ctx (close_parent (logged h) pt x dxpl a) = va_ctx a"
  by (simp_all add: close_parent_def log_simps)

lemma close_attr_parent_log:
  assumes "close_attr_parent (logged h) pt x dxpl a = Some a'"
  shows "\<exists>c. closes c = Some x \<and> app_log a' = app_log a @ [(c, None)] \<and> va_ctx a' = va_ctx a"
  using assms by (auto simp: close_attr_parent_def Let_def log_simps split: if_splits)

lemma open_by_addr_log:
  assumes "open_by_addr (logged h) addr dxpl a = Some (x, a')"
  shows "\<exists>c. closes c = None \<and> app_log a' = app_log a @ [(c, Some x)] \<and> va_ctx a' = va_ctx a"
  using vol_open_log [OF assms [unfolded open_by_addr_def]] by auto

lemma balancedI: "lg' = lg @ calls \<Longrightarrow> opened calls = closed_objs calls + kept \<Longrightarrow> balanced lg lg' kept"
  by (auto simp: balanced_def)


lemma app_log_fold: "fst (va_lib a) = app_log a"
  by (simp add: app_log_def)

lemmas callback_log = bind_eq_Some_conv Let_def balanced_def kept_result_def log_simps close_parent_log app_log_fold

lemma ds_create_balanced:
  assumes "ds_create_cb_sub (logged h) prop a = Some (r, a')"
  shows "balanced (app_log a) (app_log a') (kept_result prop a')"
  using assms
  by (cases "isLocal prop = 0") (auto simp: ds_create_cb_sub_def callback_log dest!: decoders_log parent_log vol_open_log split: if_splits)

lemma dt_commit_balanced:
  assumes "dt_commit_cb_sub (logged h) prop a = Some (r, a')"
  shows "balanced (app_log a) (app_log a') (kept_result prop a')"
  using assms
  by (cases "isLocal prop = 0") (auto simp: dt_commit_cb_sub_def callback_log dest!: decoders_log parent_log vol_open_log split: if_splits)

lemma group_create_balanced:
  assumes "group_create_cb_sub (logged h) prop a = Some (r, a')"
  shows "balanced (app_log a) (app_log a') (kept_result prop a')"
  using assms
  by (cases "isLocal prop = 0") (auto simp: group_create_cb_sub_def callback_log dest!: decoders_log parent_log vol_open_log split: if_splits)

lemma attr_create_balanced:
  assumes "attr_create_cb_sub (logged h) prop a = Some (r, a')"
  shows "balanced (app_log a) (app_log a') (kept_result prop a')"
  using assms
  by (cases "isLocal prop = 0") (auto simp: attr_create_cb_sub_def callback_log
      dest!: decoders_log open_by_addr_log close_attr_parent_log vol_open_log split: if_splits)

lemma attr_write_balanced:
  assumes "attr_write_cb_sub (logged h) prop a = Some (r, a')"
  shows "balanced (app_log a) (app_log a') {#}"
  using assms
  by (auto simp: attr_write_cb_sub_def callback_log case_prod_unfold
      dest!: decoders_log open_by_addr_log close_attr_parent_log vol_open_log split: if_splits)

lemma ds_extend_balanced:
  assumes "ds_extend_cb_sub (logged h) prop a = Some (r, a')"
  shows "balanced (app_log a) (app_log a') {#}"
  using assms
  by (cases "isLocal prop = 0") (auto simp: ds_extend_cb_sub_def callback_log case_prod_unfold
      dest!: open_by_addr_log vol_open_log split: if_splits)

text \<open>
  Of the operations, the four that create an object leave it to the local caller, the others leave
  nothing.
\<close>

definition kept_by :: "unit proposal \<Rightarrow> 'l vol_app \<Rightarrow> nat multiset" where
  "kept_by prop a =
     (if op_type prop \<in> op_code ` {DS_CREATE, GROUP_CREATE, ATTR_CREATE, DT_COMMIT} then kept_result prop a else {#})"

lemma file_close_balanced: "balanced (app_log a) (app_log (snd (file_close_cb_sub a))) {#}"
  by (simp add: balanced_def file_close_cb_sub_def)

lemmas callbacks_balanced = ds_create_balanced dt_commit_balanced group_create_balanced attr_create_balanced
  attr_write_balanced ds_extend_balanced

lemma cb_execute_balanced:
  assumes "proposal_decoder buf = Some prop" "cb_execute_H5VL_RLO (logged h) ctx buf a = Some (r, a')"
  shows "r = - 1 \<and> balanced (app_log a) (app_log a') (kept_by prop a')"
proof -
  from assms have "r = - 1" by (auto simp: cb_execute_H5VL_RLO_def bind_eq_Some_conv)
  moreover from assms have "balanced (app_log a) (app_log a') (kept_by prop a')"
    using file_close_balanced [of a]
    by (auto simp: cb_execute_H5VL_RLO_def kept_by_def bind_eq_Some_conv dest: callbacks_balanced split: if_splits)
  ultimately show ?thesis by blast
qed

end
