(* ===== verification/H5_Properties.thy ===== *)
theory H5_Properties
  imports H5_Roundtrip_More H5_Callback_Facts Helper_Properties
begin

text \<open>
  The properties of the connector: its codecs, its judgement and the execution of approved proposals,
  each with an instance at a concrete input. \<open>plain_lib\<close> is the library of the instances, one that
  encodes every identifier by its number.
\<close>

fun plain_loc :: "loc_kind \<Rightarrow> c_int" where
  "plain_loc LOC_SELF = 0"
| "plain_loc LOC_NAME = 1"
| "plain_loc LOC_IDX = 2"
| "plain_loc LOC_TOKEN = 3"

definition plain_lib :: "unit hdf5" where
  "plain_lib = \<lparr>h5_encode = (\<lambda>k l i. Some (put_ulong i)),
     h5_decode = (\<lambda>k b l. (case get_ulong b of None \<Rightarrow> 0 | Some (i, r) \<Rightarrow> i, l)),
     h5_loc_type = plain_loc, h5_token_size = 16\<rparr>"

lemma plain_lib_laws: "hdf5_laws plain_lib"
proof -
  have "inj plain_loc"
  proof (rule injI)
    fix a b assume "plain_loc a = plain_loc b"
    then show "a = b" by (cases a; cases b) simp_all
  qed
  then show ?thesis by (simp add: hdf5_laws_def plain_lib_def h5_extends_def codec_simps)
qed

lemma plain_lib_codable: "codable plain_lib k l i"
  by (simp add: codable_def plain_lib_def)

definition here :: loc_params where
  "here = \<lparr>lp_obj_type = 2, lp_type = 0, loc_data = Loc_none\<rparr>"

lemma here_wf: "wf_loc plain_lib l here"
  by (simp add: wf_loc_def here_def plain_lib_def)

section \<open>Operations as proposals\<close>

text \<open>
  What the creation of a dataset encodes travels through a proposal: the data goes into one, the
  encoded proposal is decoded at the receiver, whatever follows it in the buffer, and its data
  decodes to the same parameters with identifiers of equal objects.
\<close>

theorem dataset_create_through_proposal:
  assumes "wf_ds h l p"
  shows "\<exists>n b. ds_create_data h l p = Some (n, b) \<and> unat n = length b
    \<and> (\<exists>m img. proposal_encoder (compose_proposal tv i op (Some b) n :: 'o proposal) = Some (m, img)
       \<and> unat m = length img
       \<and> (\<forall>rest l2. \<exists>r d q l'. proposal_decoder (img @ rest) = Some (r :: 'o proposal) \<and> proposal_data r = Some d
            \<and> op_type r = op \<and> ds_create_decoder h d l2 = Some (q, l') \<and> ds_alike h l p l' q))"
  by (rule ds.through_proposal [OF assms])

definition dset :: param_ds_create where
  "dset = \<lparr>parent_type = 0, parent_obj_addr = 96, loc_param_size = 0, prm_loc_params = here, name_size = 3,
     prm_name = [100, 49, 0], ds_type_id = 11, ds_space_id = 12, ds_lcpl_id = 13, ds_dcpl_id = 14,
     ds_dapl_id = 15, ds_dxpl_id = 16\<rparr>"

theorem dataset_create_through_proposal_witness:
  "\<exists>n b m img. ds_create_data plain_lib () dset = Some (n, b)
    \<and> proposal_encoder (compose_proposal \<lparr>tv_sec = 1, tv_usec = 2\<rparr> 7 1 (Some b) n :: unit proposal) = Some (m, img)"
proof -
  have "wf_ds plain_lib () dset"
    by (simp add: wf_ds_def plain_lib_laws plain_lib_codable wf_create_def here_wf dset_def)
  from dataset_create_through_proposal [OF this, of "\<lparr>tv_sec = 1, tv_usec = 2\<rparr>" 7 1, where 'o = unit]
  show ?thesis by blast
qed

text \<open>The same for the creation of a group, whose name size the encoder works out itself.\<close>

theorem group_create_through_proposal:
  assumes "wf_gr h l p"
  shows "\<exists>n b. group_create_data h l p = Some (n, b) \<and> unat n = length b
    \<and> (\<exists>m img. proposal_encoder (compose_proposal tv i op (Some b) n :: 'o proposal) = Some (m, img)
       \<and> unat m = length img
       \<and> (\<forall>rest l2. \<exists>r d q l'. proposal_decoder (img @ rest) = Some (r :: 'o proposal) \<and> proposal_data r = Some d
            \<and> op_type r = op \<and> group_create_decoder h d l2 = Some (q, l') \<and> gr_alike h l p l' q))"
  by (rule gr.through_proposal [OF assms])

definition grp :: param_group where
  "grp = \<lparr>parent_type = 1, parent_obj_addr = 96, loc_param_size = 0, prm_loc_params = here, name_size = 3,
     prm_name = [103, 49, 0], gr_lcpl_id = 13, gr_gcpl_id = 14, gr_gapl_id = 15, gr_dxpl_id = 16\<rparr>"

theorem group_create_through_proposal_witness:
  "\<exists>n b m img. group_create_data plain_lib () grp = Some (n, b)
    \<and> proposal_encoder (compose_proposal \<lparr>tv_sec = 1, tv_usec = 2\<rparr> 7 5 (Some b) n :: unit proposal) = Some (m, img)"
proof -
  have "wf_gr plain_lib () grp"
    by (simp add: wf_gr_def plain_lib_laws plain_lib_codable wf_create_def here_wf grp_def)
  from group_create_through_proposal [OF this, of "\<lparr>tv_sec = 1, tv_usec = 2\<rparr>" 7 5, where 'o = unit]
  show ?thesis by blast
qed

text \<open>The same for writing an attribute, with the bytes written.\<close>

theorem attr_write_through_proposal:
  assumes "wf_aw h l p"
  shows "\<exists>n b. attr_write_data h l p = Some (n, b) \<and> unat n = length b
    \<and> (\<exists>m img. proposal_encoder (compose_proposal tv i op (Some b) n :: 'o proposal) = Some (m, img)
       \<and> unat m = length img
       \<and> (\<forall>rest l2. \<exists>r d q l'. proposal_decoder (img @ rest) = Some (r :: 'o proposal) \<and> proposal_data r = Some d
            \<and> op_type r = op \<and> attr_write_decoder h d l2 = Some (q, l') \<and> aw_alike h l p l' q))"
  by (rule aw.through_proposal [OF assms])

definition attr_wr :: param_attr_wr where
  "attr_wr = \<lparr>aw_mem_type_id = 11, aw_dxpl_id = 16, aw_parent_type = 2, aw_parent_obj_addr = 96, aw_attr_name_size = 2,
     aw_attr_name = [97, 0], aw_buf_size = 4, aw_buf = [1, 2, 3, 4]\<rparr>"

theorem attr_write_through_proposal_witness:
  "\<exists>n b m img. attr_write_data plain_lib () attr_wr = Some (n, b)
    \<and> proposal_encoder (compose_proposal \<lparr>tv_sec = 1, tv_usec = 2\<rparr> 7 9 (Some b) n :: unit proposal) = Some (m, img)"
proof -
  have "wf_aw plain_lib () attr_wr"
    by (simp add: wf_aw_def plain_lib_laws plain_lib_codable attr_wr_def)
  from attr_write_through_proposal [OF this, of "\<lparr>tv_sec = 1, tv_usec = 2\<rparr>" 7 9, where 'o = unit]
  show ?thesis by blast
qed

text \<open>
  The extension of a dataset is read back from its encoding, address, rank and dimensions, whatever
  follows in the buffer.
\<close>

theorem ds_extend_round_trip:
  assumes "wf_ext p"
  shows "\<exists>n b. ds_extend_encoder (dset_addr p) (ext_rank p) (new_size p) = Some (n, b) \<and> n = of_nat (length b)
    \<and> ds_extend_decoder (b @ rest) = Some p"
  using ds_extend_encoder_image [OF assms] ds_extend_decoder_image [OF assms, of rest] by auto

theorem ds_extend_round_trip_witness:
  "\<exists>n b. ds_extend_encoder 96 2 [10, 20] = Some (n, b)
    \<and> ds_extend_decoder (b @ [0]) = Some \<lparr>dset_addr = 96, ext_rank = 2, new_size = [10, 20]\<rparr>"
  using ds_extend_round_trip [of "\<lparr>dset_addr = 96, ext_rank = 2, new_size = [10, 20]\<rparr>" "[0]"]
  by (auto simp: wf_ext_def)

text \<open>
  C37: a location given by index with a name of eight or more characters is encoded, but what the encoder
  makes of it is never decoded: the name overwrites its own size, and the size read back runs past
  the buffer.
\<close>

theorem location_by_index_unreadable:
  assumes "hdf5_laws h" and "codable h H5P l i" and "last nm = 0" and "0 \<notin> set (butlast nm)"
    and "8 < length nm" and "length nm < 2 ^ 24"
    and "lp_type p = h5_loc_type h LOC_IDX" and "loc_data p = Loc_by_idx nm idx ord n i"
    and "loc_params_encoder h l p = Some (sz, img)" and "length rest < 2 ^ 32"
  shows "loc_params_decoder h (img @ rest) l2 = None"
  by (rule loc_by_idx_unreadable [OF assms])

theorem location_by_index_unreadable_witness:
  "\<exists>sz img. loc_params_encoder plain_lib ()
      \<lparr>lp_obj_type = 2, lp_type = 2, loc_data = Loc_by_idx [97, 98, 99, 100, 101, 102, 103, 104, 0] 0 0 1 5\<rparr> = Some (sz, img)
    \<and> loc_params_decoder plain_lib img () = None"
proof -
  let ?nm = "[97, 98, 99, 100, 101, 102, 103, 104, 0] :: byte list"
  let ?p = "\<lparr>lp_obj_type = 2, lp_type = 2, loc_data = Loc_by_idx ?nm 0 0 1 5\<rparr>"
  have t: "lp_type ?p = h5_loc_type plain_lib LOC_IDX" "loc_data ?p = Loc_by_idx ?nm 0 0 1 5"
    by (simp_all add: plain_lib_def)
  obtain img where img: "loc_union_encoder plain_lib () ?p = Some (size_of img, img)" "length img < 2 ^ 26"
    using loc_by_idx_image [OF plain_lib_laws plain_lib_codable _ _ _ _ t] by auto
  have n: "(4 + 4 + size_of img :: c_ulong) = of_nat (8 + length img)" by simp
  have "unat (of_nat (8 + length img) :: c_ulong) = 8 + length img"
    using img(2) by (simp only: unat_of_nat) (simp add: take_bit_nat_eq_self)
  then have "unat (4 + 4 + size_of img :: c_ulong) = length (concat [put_int 2, put_int 2, img])"
    unfolding n by simp
  from write_calloc [OF this] img(1) have "\<exists>sz img. loc_params_encoder plain_lib () ?p = Some (sz, img)"
    by (simp add: loc_params_encoder_def Let_def del: write_seq.simps)
  then obtain sz img where e: "loc_params_encoder plain_lib () ?p = Some (sz, img)" by blast
  from location_by_index_unreadable [OF plain_lib_laws plain_lib_codable _ _ _ _ t e, of "[]" "()"] e
  show ?thesis by auto
qed


section \<open>The callbacks\<close>

lemma unat_diff_wrap: "unat (a - b :: c_ulong) = (if unat b \<le> unat a then unat a - unat b else unat a + 2 ^ 64 - unat b)"
  unfolding unat_sub_if' by simp

text \<open>
  C27: the judgement of a proposal agrees as long as its age is within the window, and it computes the age
  modulo \<open>2 ^ 64\<close>: a proposal stamped by a clock that is ahead is refused unless the window is
  almost the whole range.
\<close>

theorem judgement_by_age:
  assumes "wf_proposal (p :: unit proposal)" and "jc_window ctx = Some window"
  shows "h5_judgement (Some (proposal_image p @ rest)) ctx =
    Some (if (if unat (time p) \<le> unat (jc_clock ctx (jc_ticks ctx))
              then unat (jc_clock ctx (jc_ticks ctx)) - unat (time p)
              else unat (jc_clock ctx (jc_ticks ctx)) + 2 ^ 64 - unat (time p)) \<le> unat window then 1 else 0,
      ctx\<lparr>jc_ticks := jc_ticks ctx + 1\<rparr>)"
  using assms
  by (simp add: h5_judgement_def proposal_decoder_image Let_def word_less_nat_alt unat_diff_wrap not_less)

definition clock_at :: "c_ulong \<Rightarrow> judge_ctx" where
  "clock_at t = \<lparr>jc_window = Some 1000, jc_clock = (\<lambda>i. t), jc_ticks = 0\<rparr>"

theorem judgement_by_age_witness:
  "\<exists>c1 c2. h5_judgement (Some (proposal_image (proposal_at 7 42) @ [])) (clock_at 50) = Some (1, c1)
    \<and> h5_judgement (Some (proposal_image (proposal_at 7 42) @ [])) (clock_at 41) = Some (0, c2)"
  using judgement_by_age [OF proposal_at_wf [of 7 42], of "clock_at 50" 1000 "[]"]
    judgement_by_age [OF proposal_at_wf [of 7 42], of "clock_at 41" 1000 "[]"]
  by (simp add: clock_at_def proposal_at_def)

text \<open>
  C16: executing an approved proposal closes every object it opens at the connector below, once, except
  for the object that a creating operation hands to the local caller; the status is always \<open>- 1\<close>.
\<close>

theorem execution_closes_what_it_opens:
  assumes "proposal_decoder buf = Some prop" and "cb_execute_H5VL_RLO (logged h) ctx buf a = Some (r, a')"
  shows "r = - 1 \<and> balanced (app_log a) (app_log a') (kept_by prop a')"
  by (rule cb_execute_balanced [OF assms])

definition plain_vol :: "unit h5_vol" where
  "plain_vol = hdf5.extend plain_lib
     \<lparr>h5_open = (\<lambda>c s. (Some 5, s)), h5_do = (\<lambda>c s. (0, s)), h5i_code = (\<lambda>t. 1), h5p_default = 0\<rparr>"

definition file_ctx :: prop_ctx where
  "file_ctx = \<lparr>ref_count = 1, under_file = 1, under_vol_id = 2, comm_size = 2, ctx_my_rank = 1, close_count = 0,
     is_collective = False, under_obj = None, resulting_obj_out = None\<rparr>"

definition start_app :: "(vol_log \<times> unit) vol_app" where
  "start_app = \<lparr>va_ctx = file_ctx, va_lib = ([], ())\<rparr>"

definition create_proposal :: "unit proposal" where
  "create_proposal = \<lparr>pid = 7, state = 1, time = 42, isLocal = 0, op_type = op_code DS_CREATE,
     p_data_len = size_of (ds_image (logged plain_vol) ([], ()) dset),
     proposal_data = Some (ds_image (logged plain_vol) ([], ()) dset), result_obj_local = None\<rparr>"

lemma logged_plain:
  "h5_encode (logged plain_vol) k l i = Some (put_ulong i)" "h5_loc_type (logged plain_vol) = plain_loc"
  "h5_decode (logged plain_vol) k b l = (case get_ulong b of None \<Rightarrow> 0 | Some (i, r) \<Rightarrow> i, l)"
  "h5_open (logged plain_vol) c l = (Some 5, (fst l @ [(c, Some 5)], snd l))"
  "h5_do (logged plain_vol) c l = (0, (fst l @ [(c, None)], snd l))"
  by (simp_all add: logged_def plain_vol_def plain_lib_def hdf5.defs prod_eq_iff)

lemma logged_plain_wf: "wf_ds (logged plain_vol) ([], ()) dset"
proof -
  have "inj plain_loc" using plain_lib_laws by (simp add: hdf5_laws_def plain_lib_def)
  then have "hdf5_laws (logged plain_vol)"
    by (simp add: hdf5_laws_def logged_plain h5_extends_def codec_simps)
  then show ?thesis
    by (simp add: wf_ds_def codable_def logged_plain wf_create_def wf_loc_def here_def dset_def)
qed

lemma create_proposal_decoded: "proposal_decoder (proposal_image create_proposal) = Some create_proposal"
proof -
  have "ds_image (logged plain_vol) ([], ()) dset \<noteq> []" by (simp add: ds_image_def id_chunks_def)
  then have l: "0 < length (ds_image (logged plain_vol) ([], ()) dset)" "length (ds_image (logged plain_vol) ([], ()) dset) < 2 ^ 29"
    using ds_image_length [OF logged_plain_wf] by simp_all
  then have "unat (size_of (ds_image (logged plain_vol) ([], ()) dset)) = length (ds_image (logged plain_vol) ([], ()) dset)"
    by (simp add: size_of_unat)
  with l have "wf_proposal create_proposal"
    by (simp add: wf_proposal_def create_proposal_def word_greater_zero_iff unat_gt_0 [symmetric] del: unat_gt_0)
  from proposal_decoder_image [OF this, of "[]"] show ?thesis by (simp add: create_proposal_def)
qed

lemma create_proposal_executed:
  "\<exists>r a'. cb_execute_H5VL_RLO (logged plain_vol) 0 (proposal_image create_proposal) start_app = Some (r, a')
    \<and> length (app_log a') = 2"
proof -
  obtain q l' where q: "ds_create_decoder (logged plain_vol) (ds_image (logged plain_vol) ([], ()) dset) ([], ()) = Some (q, l')"
    "ds_alike (logged plain_vol) ([], ()) dset l' q"
    using ds_create_decoder_image [OF logged_plain_wf, of "[]" "([], ())"] by auto
  have pt: "parent_type q = 0" using q(2) by (simp add: ds_alike_def create_alike_def dset_def)
  have log: "fst l' = []" using decoders_log(1) [OF q(1)] by simp
  have p: "op_type create_proposal = 1" "isLocal create_proposal = 0"
    "proposal_data create_proposal = Some (ds_image (logged plain_vol) ([], ()) dset)"
    by (simp_all add: create_proposal_def)
  show ?thesis using q(1) pt log
    by (simp add: cb_execute_H5VL_RLO_def create_proposal_decoded p ds_create_cb_sub_def start_app_def
        open_parent_def close_parent_def vol_open_def vol_do_def logged_plain file_ctx_def app_log_def Let_def)
qed

theorem execution_closes_what_it_opens_witness:
  "\<exists>r a'. cb_execute_H5VL_RLO (logged plain_vol) 0 (proposal_image create_proposal) start_app = Some (r, a')
    \<and> length (app_log a') = 2 \<and> balanced [] (app_log a') {#}"
proof -
  obtain r a' where e: "cb_execute_H5VL_RLO (logged plain_vol) 0 (proposal_image create_proposal) start_app = Some (r, a')"
    "length (app_log a') = 2" using create_proposal_executed by blast
  have "app_log start_app = []" "kept_by create_proposal a' = {#}"
    by (simp_all add: app_log_def start_app_def kept_by_def kept_result_def create_proposal_def)
  with execution_closes_what_it_opens [OF create_proposal_decoded e(1)] e show ?thesis by auto
qed

end
