(* ===== verification/Submission.thy ===== *)
theory Submission
  imports Helper_Service
begin

text \<open>
  Submitting a proposal in broadcast mode: what the rank sends along the ring, that its engine stays
  sound, and that the local copy of the proposal joins the proposals the helper accounts for. What is
  sent is a message the invariant of the receiving engines allows.
\<close>

section \<open>The message\<close>

text \<open>The package of a proposal, and the bytes of the buffer that travel.\<close>

definition bcast_package :: "'o proposal \<Rightarrow> byte list" where
  "bcast_package p = put_ulong (32 + (32 + p_data_len p)) @ put_int (pid p) @ put_int 1 @ put_ulong 0
     @ put_ulong (32 + p_data_len p) @ proposal_image p"

definition bcast_frame :: "int \<Rightarrow> 'o proposal \<Rightarrow> byte list" where
  "bcast_frame rank p = put_int (word_of_int rank) @ put_ulong (of_nat (length (bcast_package p)))
     @ bcast_package p @ replicate (32756 - length (bcast_package p)) 0"

text \<open>A proposal that fits into a message, with the headers of the package and of the message.\<close>

definition fits_message :: "'o proposal \<Rightarrow> bool" where
  "fits_message p \<longleftrightarrow> wf_proposal p \<and> unat (p_data_len p) \<le> 32692"

lemma fits_message_keep [simp]:
  "fits_message (p\<lparr>isLocal := l\<rparr>) = fits_message p" "fits_message (p\<lparr>state := s\<rparr>) = fits_message p"
  by (simp_all add: fits_message_def wf_proposal_def split: option.split)

lemma header_size: "unat (n :: c_ulong) \<le> 32692 \<Longrightarrow> unat (32 + n) = 32 + unat n"
  by (rule size_no_wrap) simp

lemma package_size:
  assumes "fits_message p"
  shows "length (bcast_package p) = 64 + unat (p_data_len p)" and "length (proposal_image p) = 32 + unat (p_data_len p)"
    and "unat (32 + p_data_len p) = length (proposal_image p)"
  using assms length_proposal_image [of p] header_size [of "p_data_len p"]
  by (simp_all add: bcast_package_def fits_message_def)

lemma package_serialized:
  assumes "fits_message p"
  shows "pbuf_serialize (pid p) 1 0 (32 + p_data_len p) (Some (proposal_image p)) = Some (Inr (bcast_package p))"
proof -
  have "proposal_image p \<noteq> []" using package_size(2) [OF assms] by auto
  then show ?thesis
    using pbuf_serialize_ok [of "proposal_image p" "32 + p_data_len p" "pid p" 1 0 "[]"] package_size [OF assms] assms
    by (simp add: bcast_package_def fits_message_def)
qed

lemma image_decodes:
  assumes "wf_proposal (p :: 'o proposal)"
  shows "proposal_decoder (proposal_image p) \<noteq> (None :: 'b proposal option)"
proof -
  obtain q :: "'b proposal" where "proposal_decoder (proposal_image p @ []) = Some q"
    by (rule proposal_decoder_any [OF assms, where rest = "[]" and 'b = 'b])
  then show ?thesis by simp
qed

lemma frame_length: "fits_message p \<Longrightarrow> length (bcast_frame r p) = msg_data_max"
  using package_size(1) [of p] by (simp add: bcast_frame_def fits_message_def)

lemma frame_payload:
  assumes "fits_message p"
  shows "payload (bcast_frame r p) = Some (proposal_image p)"
proof -
  let ?rest = "replicate (32756 - length (bcast_package p)) (0 :: byte)"
  have "drop 8 (data_buf (bcast_frame r p)) = put_ulong (32 + (32 + p_data_len p)) @ put_int (pid p) @ put_int 1
      @ put_ulong 0 @ put_ulong (32 + p_data_len p) @ (proposal_image p @ ?rest)"
    by (simp add: data_buf_def bcast_frame_def bcast_package_def)
  moreover have "memcpy_from (proposal_image p @ ?rest) (unat (32 + p_data_len p)) = Some (proposal_image p)"
    unfolding package_size(3) [OF assms] by (simp add: memcpy_from_def)
  moreover have "unat (32 + p_data_len p) \<noteq> 0"
    using package_size(2,3) [OF assms] by simp
  then have "32 + p_data_len p \<noteq> 0" by (metis unat_0)
  ultimately show ?thesis by (simp add: payload_def pbuf_deserialize_image)
qed

lemma frame_good_arrival:
  assumes "fits_message p"
  shows "good_arrival encoded_proposal (Some (src, RLO_BCAST, bcast_frame r p))"
proof -
  have "wf_proposal p" using assms by (simp add: fits_message_def)
  then have "proposal_decoder (proposal_image p) \<noteq> (None :: unit proposal option)"
    by (rule image_decodes)
  then show ?thesis
    using frame_payload [OF assms] frame_length [OF assms] by (simp add: good_arrival_def encoded_proposal_def)
qed

section \<open>Posting it\<close>

lemma bcast_buf:
  assumes "fits_message p"
  obtains b where "RLO_msg_new_bc_buf (word_of_int r) (bcast_package p) (of_nat (length (bcast_package p))) = Some b"
    and "take msg_data_max b = bcast_frame r p"
proof -
  define n where "n = length (bcast_package p)"
  have n: "n \<le> 32756" using package_size(1) [OF assms] assms by (simp add: fits_message_def n_def)
  define b where "b = put_int (word_of_int r) @ put_ulong (of_nat n) @ bcast_package p @ replicate (32760 - n) (0 :: byte)"
  have "RLO_msg_new_bc_buf (word_of_int r) (bcast_package p) (of_nat n) = Some b"
    using RLO_msg_new_bc_buf_eq [of "bcast_package p" "word_of_int r"] n by (simp add: n_def [symmetric] b_def)
  moreover have "take 32768 b = bcast_frame r p"
    using n by (simp add: b_def bcast_frame_def n_def [symmetric] min_def)
  ultimately show thesis using that by (simp add: n_def)
qed

text \<open>The new message is in none of the queues yet, and joins those that wait for their sends.\<close>

lemma bcast_posted:
  assumes "eng_ok D eng" and "fits_message p"
  obtains m e1 e2 where "RLO_msg_new_bc eng (bcast_package p) (of_nat (length (bcast_package p))) = Some (m, e1)"
    and "bcast_post e1 m RLO_BCAST = Some e2" and "eng_ok D e2" and "eng_backlog e2 = eng_backlog eng"
    and "arrivals e2 = arrivals eng"
    and "sent e2 = sent eng @ map (\<lambda>d. (d, RLO_BCAST, bcast_frame (my_rank (my_bcomm eng)) p)) (bcast_dests (my_bcomm eng))"
proof -
  note ok = eng_okD [OF assms(1)] and sl = comm_ok_send_list [OF eng_okD(1) [OF assms(1)]]
  define n where "n = nat (send_list_len (my_bcomm eng))"
  obtain b where b: "RLO_msg_new_bc_buf (word_of_int (my_rank (my_bcomm eng))) (bcast_package p)
      (of_nat (length (bcast_package p))) = Some b" "take msg_data_max b = bcast_frame (my_rank (my_bcomm eng)) p"
    by (rule bcast_buf [OF assms(2)])
  obtain m e0 where new: "RLO_msg_new_generic eng = (m, e0)" by (cases "RLO_msg_new_generic eng")
  obtain x where x: "m = next_msg eng" "e0 = eng\<lparr>msgs := (msgs eng)(m \<mapsto> x), next_msg := next_msg eng + 1\<rparr>" "recv_msg n x"
    using new_generic_recv_msg [OF new] by (auto simp: n_def)
  define x1 where "x1 = x\<lparr>m_buf := b, bc_init := 1, u_data_len := scast (of_nat (length (bcast_package p)) :: c_int)\<rparr>"
  define e1 where "e1 = e0\<lparr>msgs := (msgs e0)(m \<mapsto> x1)\<rparr>"
  have 1: "RLO_msg_new_bc eng (bcast_package p) (of_nat (length (bcast_package p))) = Some (m, e1)"
    using new b(1) by (simp add: RLO_msg_new_bc_def x(2) upd_msg_def e1_def x1_def)
  define x2 where "x2 = x1\<lparr>bc_init := 1, pickup_done := 1\<rparr>"
  define e2 where "e2 = e1\<lparr>msgs := (msgs e1)(m \<mapsto> x2)\<rparr>"
  have m2: "msgs e2 m = Some x2" "my_bcomm e2 = my_bcomm eng" by (simp_all add: e2_def e1_def x(2))
  have "j < length (send_list (my_bcomm e2)) \<and> j < length (isend_reqs x2)" if "j \<in> set (rev [0..<n])" for j
    using that sl(1) x(3) by (simp add: m2(2) n_def x2_def x1_def recv_msg_def)
  then obtain rs where rs: "isend_list e2 m msg_data_max RLO_BCAST (rev [0..<n]) =
       Some (e2\<lparr>sent := sent e2 @ map (\<lambda>j. (send_list (my_bcomm e2) ! j, RLO_BCAST, take msg_data_max (m_buf x2))) (rev [0..<n]),
                msgs := (msgs e2)(m \<mapsto> x2\<lparr>isend_reqs := rs, send_cnt := send_cnt x2 + int (length (rev [0..<n]))\<rparr>)\<rparr>)"
    "length rs = length (isend_reqs x2)"
    "\<And>j. j < length rs \<Longrightarrow> (if j \<in> set (rev [0..<n]) then rs ! j \<noteq> Req_zero else rs ! j = isend_reqs x2 ! j)"
    using isend_list_eq [OF m2(1)] by metis
  define x3 where "x3 = x2\<lparr>isend_reqs := rs, send_cnt := int n, send_type := RLO_BCAST\<rparr>"
  define e3 where "e3 = e2\<lparr>sent := sent eng @ map (\<lambda>d. (d, RLO_BCAST, bcast_frame (my_rank (my_bcomm eng)) p)) (bcast_dests (my_bcomm eng)),
     msgs := (msgs e2)(m \<mapsto> x3), queue_wait := queue_wait eng @ [m], sent_bcast_cnt := sent_bcast_cnt eng + 1,
     my_bcomm := (my_bcomm eng)\<lparr>bcast_send_cnt := send_list_len (my_bcomm eng), my_bcast_cnt := my_bcast_cnt (my_bcomm eng) + 1\<rparr>\<rparr>"
  have frame: "take msg_data_max (m_buf x2) = bcast_frame (my_rank (my_bcomm eng)) p" using b(2) by (simp add: x2_def x1_def)
  have len: "nat (msg_size_max (my_bcomm e2)) = msg_data_max" using sl(4) by (simp add: m2(2))
  have x2c: "send_cnt x2 = 0" using x(3) by (simp add: x2_def x1_def recv_msg_def)
  have 2: "bcast_post e1 m RLO_BCAST = Some e3"
  proof -
    have u: "upd_msg e1 m (\<lambda>x. x\<lparr>bc_init := 1, pickup_done := 1\<rparr>) = Some e2"
      by (simp add: upd_msg_def e2_def e1_def x2_def)
    have l: "isend_list e2 m (nat (msg_size_max (my_bcomm e2))) RLO_BCAST (rev [0..<nat (send_list_len (my_bcomm e2))])
      = Some (e2\<lparr>sent := sent e3, msgs := (msgs e2)(m \<mapsto> x2\<lparr>isend_reqs := rs, send_cnt := int n\<rparr>)\<rparr>)"
      unfolding len using rs(1) frame x2c
      by (simp add: m2(2) n_def [symmetric] e3_def bcast_dests_def comp_def) (simp add: e2_def e1_def x(2))
    show ?thesis
      unfolding bcast_post_def u Option.bind.bind_lunit l
      by (simp add: upd_msg_def tag_defs) (simp add: e3_def e2_def e1_def x(2) x3_def tag_defs)
  qed
  have rep: "Req_zero \<notin> set (take n rs)" by (rule reqs_prefix_started [OF _ rs(3)]) auto
  have "msg_ok n x3"
    using rep rs(2) x(3) by (simp add: msg_ok_def x3_def x2_def x1_def recv_msg_def)
  have fresh: "m \<notin> set (queue_recv eng @ queue_wait eng @ queue_pickup eng @ queue_wait_and_pickup eng)"
    using roles_alloc(6) [OF ok(5)] x(1) by blast
  have "roles D n (msgs eng) (next_msg eng + 1) (queue_recv eng) (queue_wait eng) (queue_pickup eng) (queue_wait_and_pickup eng)"
    using ok(5) unfolding roles_def n_def by (auto simp: less_Suc_eq)
  then have "roles D n ((msgs eng)(m \<mapsto> x3)) (next_msg eng + 1) (queue_recv eng) (queue_wait eng @ [m]) (queue_pickup eng)
      (queue_wait_and_pickup eng)"
    using roles_add(3) [OF _ fresh] \<open>msg_ok n x3\<close> x(1) by simp
  then have 3: "eng_ok D e3"
    using ok by (simp add: eng_ok_def e3_def e2_def e1_def x(2) n_def comm_ok_cong)
  have 4: "eng_backlog e3 = eng_backlog eng"
  proof (rule eng_backlog_cong)
    show "map_option m_buf (msgs e3 i) = map_option m_buf (msgs eng i) \<and> msgs eng i \<noteq> None"
      if "i \<in> set (queue_wait_and_pickup eng) \<union> set (queue_pickup eng)" for i
      using that fresh roles_alloc(3,4) [OF ok(5), of i] by (auto simp: e3_def e2_def e1_def x(2))
  qed (simp add: e3_def e2_def e1_def x(2))
  show thesis
    by (rule that [OF 1 2 3 4]) (simp_all add: e3_def e2_def e1_def x(2))
qed

section \<open>Through the plugin\<close>

text \<open>What the engine has started to send, in order.\<close>

definition rlo_sent :: "nat \<Rightarrow> 'a rlo_state \<Rightarrow> (int \<times> int \<times> byte list) list" where
  "rlo_sent e v = sent (the (engines (rlo_process v) e))"

definition rlo_bcomm :: "nat \<Rightarrow> 'a rlo_state \<Rightarrow> bcomm" where
  "rlo_bcomm e v = my_bcomm (the (engines (rlo_process v) e))"

definition posted :: "nat \<Rightarrow> 'a rlo_state \<Rightarrow> 'o proposal \<Rightarrow> (int \<times> int \<times> byte list) list" where
  "posted e v p = map (\<lambda>d. (d, RLO_BCAST, bcast_frame (my_rank (rlo_bcomm e v)) p)) (bcast_dests (rlo_bcomm e v))"

lemma rlo_submitted:
  assumes "rlo_ok e v" and "fits_message p"
  obtains v' where "vp_submit_bcast_RLO e p v = Some (0, v')" and "rlo_ok e v'"
    and "prefix (rlo_sent e v @ posted e v p) (rlo_sent e v')"
    and "rlo_backlog e v' + rlo_incoming e v' = rlo_backlog e v + rlo_incoming e v"
proof -
  obtain es eng where v: "process_ok encoded_proposal (rlo_process v)" "active_engines (rlo_process v) = Some es"
    "e \<in> set es" "engines (rlo_process v) e = Some eng" "eng_ok encoded_proposal eng"
    "rlo_backlog e v = eng_backlog eng" "rlo_incoming e v = eng_arriving eng"
    using assms(1) by (rule rlo_okE)
  obtain m e1 e2 where post: "RLO_msg_new_bc eng (bcast_package p) (of_nat (length (bcast_package p))) = Some (m, e1)"
    "bcast_post e1 m RLO_BCAST = Some e2" "eng_ok encoded_proposal e2" "eng_backlog e2 = eng_backlog eng"
    "arrivals e2 = arrivals eng"
    "sent e2 = sent eng @ map (\<lambda>d. (d, RLO_BCAST, bcast_frame (my_rank (my_bcomm eng)) p)) (bcast_dests (my_bcomm eng))"
    by (rule bcast_posted [OF v(5) assms(2)])
  let ?P = "set_eng (rlo_process v) e e2"
  have ok: "process_ok encoded_proposal ?P" by (rule process_ok_set_eng [OF v(1) post(3)])
  have P: "engines ?P e = Some e2" "active_engines ?P = Some es" using v(2) by simp_all
  obtain P' eng' where P': "progress_all ?P = Some P'" "process_ok encoded_proposal P'" "active_engines P' = active_engines ?P"
    "engines P' e = Some eng'" "eng_backlog eng' + eng_arriving eng' = eng_backlog e2 + eng_arriving e2"
    "prefix (sent e2) (sent eng')"
    using progress_all_ok [OF ok P v(3)] by blast
  have wf: "wf_proposal p" using assms(2) by (simp add: fits_message_def)
  let ?v = "v\<lparr>rlo_process := P'\<rparr>"
  have sub: "vp_submit_bcast_RLO e p v = Some (0, ?v)"
    using v(4) post(1,2) P'(1)
    by (simp add: vp_submit_bcast_RLO_def proposal_encoder_image [OF wf] package_serialized [OF assms(2)]
        lift_process_def RLO_bcast_gen_def)
  have ok': "rlo_ok e ?v" using P' P(2) v(3) by (simp add: rlo_ok_def)
  have pre: "prefix (rlo_sent e v @ posted e v p) (rlo_sent e ?v)"
    using P'(4,6) post(6) v(4) by (simp add: rlo_sent_def posted_def rlo_bcomm_def)
  have "rlo_backlog e ?v + rlo_incoming e ?v = rlo_backlog e v + rlo_incoming e v"
    using P'(4,5) post(4,5) v(6,7) by (simp add: rlo_backlog_def rlo_incoming_def eng_arriving_def)
  then show thesis by (rule that [OF sub ok' pre])
qed

section \<open>Through the helper\<close>

text \<open>The copy that is broadcast, and the copy the rank executes itself.\<close>

definition remote_copy :: "'o proposal \<Rightarrow> 'o proposal" where
  "remote_copy p = p\<lparr>isLocal := 0, state := ps_code PS_APPROVED\<rparr>"

definition local_copy :: "'o proposal \<Rightarrow> 'o proposal" where
  "local_copy p = (remote_copy p)\<lparr>isLocal := 1\<rparr>"

lemma copies_fit: "fits_message p \<Longrightarrow> fits_message (local_copy p) \<and> fits_message (remote_copy p)"
  by (simp add: local_copy_def remote_copy_def)

lemma own_added:
  assumes "mm_rep m xs ys" and "wf_proposal p"
  obtains a m2 where "mm_add_own m p = Some m2" and "mm_rep m2 (xs @ [a]) ys"
    and "mset (node_bufs (mm_store m2) ((xs @ [a]) @ ys)) = add_mset (proposal_image p) (mset (node_bufs (mm_store m) (xs @ ys)))"
    and "m2 = m\<lparr>mm_store := mm_store m2, mm_lm := mm_lm m2\<rparr>"
proof -
  obtain q where "proposal_decoder (proposal_image p) = Some (q :: unit proposal)" using image_decodes [OF assms(2)] by blast
  from mm_new_node_add [OF assms(1) this] obtain a m1 m2 where
    n: "mm_new_node m (proposal_image p) = (a, m1)" "mm_add_ledger m1 a = Some m2" "mm_rep m2 (xs @ [a]) ys"
    "node_data (mm_store m2) a = Some (proposal_image p)"
    "\<forall>x\<in>set (xs @ ys). qs_data (mm_store m2) x = qs_data (mm_store m) x"
    "m2 = m\<lparr>mm_store := mm_store m2, mm_lm := mm_lm m2\<rparr>" by metis
  have "mset (node_bufs (mm_store m2) (xs @ ys)) = mset (node_bufs (mm_store m) (xs @ ys))"
    by (rule mset_node_bufs_cong) (use n(5) in blast)
  then have "mset (node_bufs (mm_store m2) ((xs @ [a]) @ ys))
      = add_mset (proposal_image p) (mset (node_bufs (mm_store m) (xs @ ys)))"
    using n(4) by (simp add: node_bufs_def)
  then show thesis
    using that [of m2 a] n by (simp add: mm_add_own_def proposal_encoder_image [OF assms(2)])
qed

lemma submitted_broadcast:
  fixes m :: "('o, _, _, _, _, _) metadata_manager"
  assumes rep: "mm_rep m xs ys" and vm: "mm_vm m = rlo_mgr info e" and vok: "rlo_ok e (mm_vs m)"
    and em: "mm_em m = Some em" and md: "mm_mode m = 2" and fits: "fits_message p"
    and everything: "everything = add_mset (proposal_image (local_copy p)) (mset (node_bufs (mm_store m) (xs @ ys)))
        + rlo_backlog e (mm_vs m) + rlo_incoming e (mm_vs m)"
    and runs: "\<And>bs. mset bs \<subseteq># everything \<Longrightarrow> execute_in_order em bs (mm_app m) \<noteq> None"
  obtains v m' kept ds where "VM_submit_bcast (mm_vm m) (p\<lparr>isLocal := 0\<rparr>) (mm_vs m) = Some (0, remote_copy p, v)"
    and "prefix (rlo_sent e (mm_vs m) @ posted e (mm_vs m) (remote_copy p)) (rlo_sent e v)"
    and "MM_submit_proposal m p = Some (1, local_copy p, m')" and "mm_rep m' kept []" and "mm_const m' = mm_const m"
    and "rlo_ok e (mm_vs m')" and "sorted (map buf_key ds)"
    and "execute_in_order em ds (mm_app m) = Some (mm_app m')"
    and "mset (node_bufs (mm_store m') kept) + mset ds + rlo_incoming e (mm_vs m') = everything"
proof -
  let ?v = "mm_vs m"
  obtain v1 where s: "vp_submit_bcast_RLO e (remote_copy p) ?v = Some (0, v1)" "rlo_ok e v1"
    "prefix (rlo_sent e ?v @ posted e ?v (remote_copy p)) (rlo_sent e v1)"
    "rlo_backlog e v1 + rlo_incoming e v1 = rlo_backlog e ?v + rlo_incoming e ?v"
    by (rule rlo_submitted [OF vok]) (use copies_fit [OF fits] in blast)+
  have sub: "VM_submit_bcast (mm_vm m) (p\<lparr>isLocal := 0\<rparr>) ?v = Some (0, remote_copy p, v1)"
    using s(1) unfolding vm by (simp add: VM_submit_bcast_def rlo_mgr_def rlo_plugin_def remote_copy_def)
  have "rlo_ok e (mm_vs (m\<lparr>mm_vs := v1\<rparr>))" "mm_vm (m\<lparr>mm_vs := v1\<rparr>) = rlo_mgr info e"
    using s(2) vm by simp_all
  from rlo.progress_obtain [OF this] obtain v2 where
    v2: "mm_voting_make_progress (m\<lparr>mm_vs := v1\<rparr>) = Some (m\<lparr>mm_vs := v2\<rparr>)" "rlo_ok e v2"
    "rlo_backlog e v2 + rlo_incoming e v2 = rlo_backlog e v1 + rlo_incoming e v1" by auto
  have wf: "wf_proposal (local_copy p)" using copies_fit [OF fits] by (simp add: fits_message_def)
  have rep2: "mm_rep (m\<lparr>mm_vs := v2\<rparr>) xs ys" using rep by simp
  obtain a m2 where m2: "mm_add_own (m\<lparr>mm_vs := v2\<rparr>) (local_copy p) = Some m2" "mm_rep m2 (xs @ [a]) ys"
    "mset (node_bufs (mm_store m2) ((xs @ [a]) @ ys))
      = add_mset (proposal_image (local_copy p)) (mset (node_bufs (mm_store (m\<lparr>mm_vs := v2\<rparr>)) (xs @ ys)))"
    "m2 = (m\<lparr>mm_vs := v2\<rparr>)\<lparr>mm_store := mm_store m2, mm_lm := mm_lm m2\<rparr>"
    by (rule own_added [OF rep2 wf])
  have m2': "mm_vm m2 = rlo_mgr info e" "mm_vs m2 = v2" "mm_em m2 = Some em" "mm_app m2 = mm_app m" "mm_const m2 = mm_const m"
    using vm em by (subst m2(4), simp)+
  have ok2: "rlo_ok e (mm_vs m2)" using v2(2) m2'(2) by simp
  have all: "mset (node_bufs (mm_store m2) ((xs @ [a]) @ ys)) + rlo_backlog e (mm_vs m2) + rlo_incoming e (mm_vs m2) = everything"
    using m2(3) m2'(2) v2(3) s(4) by (simp add: everything add.assoc)
  have runs2: "execute_in_order em bs (mm_app m2) \<noteq> None"
    if "mset bs \<subseteq># mset (node_bufs (mm_store m2) ((xs @ [a]) @ ys)) + rlo_backlog e (mm_vs m2) + rlo_incoming e (mm_vs m2)" for bs
    unfolding m2'(4) by (rule runs) (use that in \<open>simp only: all\<close>)
  obtain m' kept ds where
    m': "MM_make_progress m2 = Some m'" "mm_rep m' kept []" "mm_const m' = mm_const m2" "rlo_ok e (mm_vs m')"
    "sorted (map buf_key ds)" "execute_in_order em ds (mm_app m2) = Some (mm_app m')"
    "mset (node_bufs (mm_store m') kept) + mset ds + rlo_incoming e (mm_vs m')
      = mset (node_bufs (mm_store m2) ((xs @ [a]) @ ys)) + rlo_backlog e (mm_vs m2) + rlo_incoming e (mm_vs m2)"
    by (rule rlo.make_progress_runs [OF m2(2) m2'(1) ok2 m2'(3) runs2])
  have "MM_submit_proposal m p = Some (1, local_copy p, m')"
    using md sub v2(1) m2(1) m'(1) by (simp add: MM_submit_proposal_def Let_def local_copy_def)
  then show thesis
    using that [OF sub s(3)] m' m2'(4,5) all by simp
qed

end
