(* ===== verification/H5_Remote.thy ===== *)
theory H5_Remote
  imports H5_Roundtrip_More H5_Callback_Facts
begin

text \<open>
  What a proposal does at the ranks that receive it: the data of an operation goes into a proposal, the
  proposal is decoded at the receiver and executed there, and the calls made to the connector below
  are those the caller asked for, on the receiver's identifiers of equal objects. The interface
  \<open>remote_operation\<close> adds the execution to the codec of an operation.
\<close>

section \<open>The interface\<close>

text \<open>A connector below that opens and creates whatever it is asked to.\<close>

definition opens_all :: "('l, 'z) h5_vol_scheme \<Rightarrow> bool" where
  "opens_all h \<longleftrightarrow> (\<forall>c s. fst (h5_open h c s) \<noteq> None)"

locale remote_operation = operation_codec enc dec wf same
  for enc :: "'s \<Rightarrow> 'p \<Rightarrow> (c_ulong \<times> byte list) option"
    and dec :: "byte list \<Rightarrow> 's \<Rightarrow> ('p \<times> 's) option"
    and wf :: "'s \<Rightarrow> 'p \<Rightarrow> bool"
    and same :: "'s \<Rightarrow> 'p \<Rightarrow> 's \<Rightarrow> 'p \<Rightarrow> bool" +
  fixes h :: "'s h5_vol" and op :: VL_op_type and effect :: "'p \<Rightarrow> 's vol_app \<Rightarrow> 's vol_app \<Rightarrow> bool"
  assumes executed: "opens_all h \<Longrightarrow> wf l p \<Longrightarrow> same l p l' q \<Longrightarrow> proposal_decoder buf = Some (prop :: unit proposal)
    \<Longrightarrow> op_type prop = op_code op \<Longrightarrow> isLocal prop = 0 \<Longrightarrow> proposal_data prop = Some d
    \<Longrightarrow> dec d (va_lib a) = Some (q, l') \<Longrightarrow> \<exists>a'. cb_execute_H5VL_RLO h ctx buf a = Some (- 1, a') \<and> effect q a a'"
begin

text \<open>
  The data is encoded once; every proposal that carries it, as the sender composes it and whatever state
  it is in, is executed by every receiver.
\<close>

lemma reaches:
  assumes "wf l p" and "opens_all h"
  obtains n b where "enc l p = Some (n, b)" and "unat n = length b" and "0 < length b"
    and "\<And>(pr :: 'o proposal) rest ctx a. p_data_len pr = n \<Longrightarrow> proposal_data pr = Some b \<Longrightarrow> op_type pr = op_code op
      \<Longrightarrow> isLocal pr = 0 \<Longrightarrow> \<exists>a' q l'. cb_execute_H5VL_RLO h ctx (proposal_image pr @ rest) a = Some (- 1, a')
         \<and> same l p l' q \<and> effect q a a'"
proof -
  obtain b where b: "enc l p = Some (size_of b, b)" "b \<noteq> []" "length b < 2 ^ 31"
    and d: "\<forall>l2 rest. \<exists>q l'. dec (b @ rest) l2 = Some (q, l') \<and> same l p l' q"
    using codec_law [OF assms(1)] by blast
  have n: "unat (size_of b) = length b" using b(3) by (simp add: size_of_unat)
  then have pos: "size_of b > 0" using b(2) by (metis length_0_conv unat_eq_zero word_gt_0)
  have ex: "\<exists>a' q l'. cb_execute_H5VL_RLO h ctx (proposal_image pr @ rest) a = Some (- 1, a')
      \<and> same l p l' q \<and> effect q a a'"
    if pr: "p_data_len pr = size_of b" "proposal_data pr = Some b" "op_type pr = op_code op" "isLocal pr = 0"
    for pr :: "'o proposal" and rest ctx a
  proof -
    have "wf_proposal pr" using pr n pos b(3) by (simp add: wf_proposal_def)
    then obtain r :: "unit proposal" where r: "proposal_decoder (proposal_image pr @ rest) = Some r"
      "isLocal r = 0" "op_type r = op_code op" "proposal_data r = Some b"
      using pr by (metis proposal_decoder_any)
    obtain q l' where q: "dec b (va_lib a) = Some (q, l')" "same l p l' q" using d by (metis append_Nil2)
    have "\<exists>a'. cb_execute_H5VL_RLO h ctx (proposal_image pr @ rest) a = Some (- 1, a') \<and> effect q a a'"
      by (rule executed [OF assms(2,1) q(2) r(1) r(3,2,4) q(1)])
    with q show ?thesis by blast
  qed
  show thesis by (rule that [OF b(1) n _ ex]) (use b(2) in simp)
qed

text \<open>The round trip of one proposal, as its sender encodes it.\<close>

lemma reaches_composed:
  assumes "wf l p" and "opens_all h"
  shows "\<exists>n b m img. enc l p = Some (n, b) \<and> unat n = length b
    \<and> proposal_encoder (compose_proposal tv i (op_code op) (Some b) n :: 'o proposal) = Some (m, img)
    \<and> unat m = length img
    \<and> (\<forall>rest ctx a. \<exists>a' q l'. cb_execute_H5VL_RLO h ctx (img @ rest) a = Some (- 1, a')
         \<and> same l p l' q \<and> effect q a a')"
proof -
  obtain n b where e: "enc l p = Some (n, b)" "unat n = length b" "0 < length b"
    and x: "\<And>(pr :: 'o proposal) rest ctx a. p_data_len pr = n \<Longrightarrow> proposal_data pr = Some b \<Longrightarrow> op_type pr = op_code op
      \<Longrightarrow> isLocal pr = 0 \<Longrightarrow> \<exists>a' q l'. cb_execute_H5VL_RLO h ctx (proposal_image pr @ rest) a = Some (- 1, a')
         \<and> same l p l' q \<and> effect q a a'"
    by (rule reaches [OF assms, where 'o = 'o]) blast
  obtain b' where "enc l p = Some (size_of b', b')" "length b' < 2 ^ 31" using codec_law [OF assms(1)] by blast
  then have len: "length b < 2 ^ 31" using e(1) by simp
  let ?p = "compose_proposal tv i (op_code op) (Some b) n :: 'o proposal"
  have "n > 0" using e(2,3) by (metis less_irrefl unat_0 word_gt_0)
  then have wfp: "wf_proposal ?p" using e(2) len by (simp add: wf_proposal_def compose_proposal_def)
  have "unat (32 + p_data_len ?p) = length (proposal_image ?p)"
    using size_no_wrap [of n] e(2) len length_proposal_image [OF wfp] by (simp add: compose_proposal_def)
  moreover have "\<forall>rest ctx a. \<exists>a' q l'. cb_execute_H5VL_RLO h ctx (proposal_image ?p @ rest) a = Some (- 1, a')
      \<and> same l p l' q \<and> effect q a a'"
    using x [of ?p] by (simp add: compose_proposal_def)
  ultimately show ?thesis using e(1,2) proposal_encoder_image [OF wfp] by blast
qed

end

section \<open>Creating an object\<close>

text \<open>
  The calls of a creation, with what they return: a parent that is a group is opened by its address and
  closed at the end, and the object is created there, or else in the file, and closed.
\<close>

definition creation_calls ::
  "('l, 'z) h5_vol_scheme \<Rightarrow> prop_ctx \<Rightarrow> c_int \<Rightarrow> haddr_t \<Rightarrow> hid_t \<Rightarrow> (nat \<Rightarrow> vol_call)
   \<Rightarrow> (nat \<Rightarrow> vol_call) \<Rightarrow> vol_log \<Rightarrow> bool" where
  "creation_calls h ctx pt addr dxpl create close calls \<longleftrightarrow>
     (\<exists>x y. calls = (if pt = vl_code VL_GROUP
        then [(H5VLobject_open (under_file ctx) (token_loc h addr) (under_vol_id ctx) dxpl, Some x),
              (create x, Some y), (close y, None), (H5VLgroup_close x (under_vol_id ctx) dxpl, None)]
        else [(create (under_file ctx), Some y), (close y, None)]))"

definition calls_since :: "(vol_log \<Rightarrow> bool) \<Rightarrow> (vol_log \<times> 'l) vol_app \<Rightarrow> (vol_log \<times> 'l) vol_app \<Rightarrow> bool" where
  "calls_since P a a' \<longleftrightarrow> va_ctx a' = va_ctx a \<and> (\<exists>calls. app_log a' = app_log a @ calls \<and> P calls)"

lemma vol_open_all:
  assumes "opens_all (logged h)"
  obtains x a' where "vol_open (logged h) c a = Some (x, a')"
proof -
  have "fst (h5_open (logged h) c (va_lib a)) \<noteq> None" using assms unfolding opens_all_def by blast
  then show thesis using that by (auto simp: vol_open_def case_prod_unfold)
qed

lemma open_parent_all:
  assumes "opens_all (logged h)"
  obtains x a' where "open_parent (logged h) pt addr dxpl a = Some (x, a')"
  using assms that vol_open_all [OF assms]
  by (metis open_by_addr_def open_parent_def)

text \<open>The common body of the three creations below a file or a group.\<close>

lemma creation_effect:
  assumes "opens_all (logged h)" and "fst l' = fst (va_lib a)"
  obtains x a1 y a2 where
    "open_parent (logged h) pt addr dxpl (a\<lparr>va_lib := l'\<rparr>) = Some (x, a1)"
    and "vol_open (logged h) (create x) a1 = Some (y, a2)"
    and "calls_since (creation_calls (logged h) (va_ctx a) pt addr dxpl create close) a
      (close_parent (logged h) pt x dxpl (snd (vol_do (logged h) (close y) a2)))"
proof -
  obtain x a1 where p: "open_parent (logged h) pt addr dxpl (a\<lparr>va_lib := l'\<rparr>) = Some (x, a1)"
    by (rule open_parent_all [OF assms(1)])
  obtain y a2 where c: "vol_open (logged h) (create x) a1 = Some (y, a2)"
    by (rule vol_open_all [OF assms(1)])
  have "calls_since (creation_calls (logged h) (va_ctx a) pt addr dxpl create close) a
      (close_parent (logged h) pt x dxpl (snd (vol_do (logged h) (close y) a2)))"
    using parent_log [OF p] vol_open_log [OF c] assms(2) p
    by (auto simp: calls_since_def creation_calls_def close_parent_log vol_do_snd_log app_log_fold open_parent_def
        split: if_splits)
  with p c show thesis by (rule that)
qed


section \<open>Datasets\<close>

definition ds_effect :: "('l, 'z) h5_vol_scheme \<Rightarrow> param_ds_create \<Rightarrow> (vol_log \<times> 'm) vol_app
    \<Rightarrow> (vol_log \<times> 'm) vol_app \<Rightarrow> bool" where
  "ds_effect h q a = (let vol = under_vol_id (va_ctx a) in
     calls_since (creation_calls h (va_ctx a) (parent_type q) (parent_obj_addr q) (ds_dxpl_id q)
       (\<lambda>obj. H5VLdataset_create obj (prm_loc_params q) vol (prm_name q) (ds_lcpl_id q) (ds_type_id q) (ds_space_id q) (ds_dcpl_id q) (ds_dapl_id q) (ds_dxpl_id q))
       (\<lambda>y. H5VLdataset_close y vol (ds_dxpl_id q))) a)"

interpretation ds_remote: remote_operation "ds_create_data (logged h)" "ds_create_decoder (logged h)"
    "wf_ds (logged h)" "ds_alike (logged h)" "logged h" "DS_CREATE" "ds_effect (logged h)"
  for h :: "'l h5_vol"
proof
  fix l l' :: "vol_log \<times> 'l" and p q buf d ctx
    and pr :: "unit proposal" and a :: "(vol_log \<times> 'l) vol_app"
  assume o: "opens_all (logged h)"
    and p: "proposal_decoder buf = Some pr" "op_type pr = op_code DS_CREATE" "isLocal pr = 0" "proposal_data pr = Some d"
    and d: "ds_create_decoder (logged h) d (va_lib a) = Some (q, l')"
  let ?vol = "under_vol_id (va_ctx a)"
  obtain x a1 y a2 where e:
    "open_parent (logged h) (parent_type q) (parent_obj_addr q) (ds_dxpl_id q) (a\<lparr>va_lib := l'\<rparr>) = Some (x, a1)"
    "vol_open (logged h) (H5VLdataset_create x (prm_loc_params q) ?vol (prm_name q) (ds_lcpl_id q) (ds_type_id q) (ds_space_id q) (ds_dcpl_id q) (ds_dapl_id q) (ds_dxpl_id q)) a1 = Some (y, a2)"
    "calls_since (creation_calls (logged h) (va_ctx a) (parent_type q) (parent_obj_addr q) (ds_dxpl_id q)
       (\<lambda>obj. H5VLdataset_create obj (prm_loc_params q) ?vol (prm_name q) (ds_lcpl_id q) (ds_type_id q) (ds_space_id q) (ds_dcpl_id q) (ds_dapl_id q) (ds_dxpl_id q))
       (\<lambda>y. H5VLdataset_close y ?vol (ds_dxpl_id q))) a
      (close_parent (logged h) (parent_type q) x (ds_dxpl_id q)
        (snd (vol_do (logged h) (H5VLdataset_close y ?vol (ds_dxpl_id q)) a2)))"
    by (rule creation_effect [OF o decoders_log(1) [OF d]])
  show "\<exists>a'. cb_execute_H5VL_RLO (logged h) ctx buf a = Some (- 1, a') \<and> ds_effect (logged h) q a a'"
    using e by (simp add: cb_execute_H5VL_RLO_def p(1,2) op_code_inject ds_create_cb_sub_def p(3,4) d Let_def ds_effect_def)
qed

section \<open>Groups\<close>

definition gr_effect :: "('l, 'z) h5_vol_scheme \<Rightarrow> param_group \<Rightarrow> (vol_log \<times> 'm) vol_app
    \<Rightarrow> (vol_log \<times> 'm) vol_app \<Rightarrow> bool" where
  "gr_effect h q a = (let vol = under_vol_id (va_ctx a) in
     calls_since (creation_calls h (va_ctx a) (parent_type q) (parent_obj_addr q) (gr_dxpl_id q)
       (\<lambda>obj. H5VLgroup_create obj (prm_loc_params q) vol (prm_name q) (gr_lcpl_id q) (gr_gcpl_id q) (gr_gapl_id q) (gr_dxpl_id q))
       (\<lambda>y. H5VLgroup_close y vol (gr_dxpl_id q))) a)"

interpretation gr_remote: remote_operation "group_create_data (logged h)" "group_create_decoder (logged h)"
    "wf_gr (logged h)" "gr_alike (logged h)" "logged h" "GROUP_CREATE" "gr_effect (logged h)"
  for h :: "'l h5_vol"
proof
  fix l l' :: "vol_log \<times> 'l" and p q buf d ctx
    and pr :: "unit proposal" and a :: "(vol_log \<times> 'l) vol_app"
  assume o: "opens_all (logged h)"
    and p: "proposal_decoder buf = Some pr" "op_type pr = op_code GROUP_CREATE" "isLocal pr = 0" "proposal_data pr = Some d"
    and d: "group_create_decoder (logged h) d (va_lib a) = Some (q, l')"
  let ?vol = "under_vol_id (va_ctx a)"
  obtain x a1 y a2 where e:
    "open_parent (logged h) (parent_type q) (parent_obj_addr q) (gr_dxpl_id q) (a\<lparr>va_lib := l'\<rparr>) = Some (x, a1)"
    "vol_open (logged h) (H5VLgroup_create x (prm_loc_params q) ?vol (prm_name q) (gr_lcpl_id q) (gr_gcpl_id q) (gr_gapl_id q) (gr_dxpl_id q)) a1 = Some (y, a2)"
    "calls_since (creation_calls (logged h) (va_ctx a) (parent_type q) (parent_obj_addr q) (gr_dxpl_id q)
       (\<lambda>obj. H5VLgroup_create obj (prm_loc_params q) ?vol (prm_name q) (gr_lcpl_id q) (gr_gcpl_id q) (gr_gapl_id q) (gr_dxpl_id q))
       (\<lambda>y. H5VLgroup_close y ?vol (gr_dxpl_id q))) a
      (close_parent (logged h) (parent_type q) x (gr_dxpl_id q)
        (snd (vol_do (logged h) (H5VLgroup_close y ?vol (gr_dxpl_id q)) a2)))"
    by (rule creation_effect [OF o decoders_log(3) [OF d]])
  show "\<exists>a'. cb_execute_H5VL_RLO (logged h) ctx buf a = Some (- 1, a') \<and> gr_effect (logged h) q a a'"
    using e by (simp add: cb_execute_H5VL_RLO_def p(1,2) op_code_inject group_create_cb_sub_def p(3,4) d Let_def gr_effect_def)
qed

section \<open>Named datatypes\<close>

definition dt_effect :: "('l, 'z) h5_vol_scheme \<Rightarrow> param_dt_commit \<Rightarrow> (vol_log \<times> 'm) vol_app
    \<Rightarrow> (vol_log \<times> 'm) vol_app \<Rightarrow> bool" where
  "dt_effect h q a = (let vol = under_vol_id (va_ctx a) in
     calls_since (creation_calls h (va_ctx a) (parent_type q) (parent_obj_addr q) (dt_dxpl_id q)
       (\<lambda>obj. H5VLdatatype_commit obj (prm_loc_params q) vol (prm_name q) (dt_type_id q) (dt_lcpl_id q) (dt_tcpl_id q) (dt_tapl_id q) (dt_dxpl_id q))
       (\<lambda>y. H5VLdatatype_close y vol (dt_dxpl_id q))) a)"

interpretation dt_remote: remote_operation "dt_commit_data (logged h)" "dt_commit_decoder (logged h)"
    "wf_dt (logged h)" "dt_alike (logged h)" "logged h" "DT_COMMIT" "dt_effect (logged h)"
  for h :: "'l h5_vol"
proof
  fix l l' :: "vol_log \<times> 'l" and p q buf d ctx
    and pr :: "unit proposal" and a :: "(vol_log \<times> 'l) vol_app"
  assume o: "opens_all (logged h)"
    and p: "proposal_decoder buf = Some pr" "op_type pr = op_code DT_COMMIT" "isLocal pr = 0" "proposal_data pr = Some d"
    and d: "dt_commit_decoder (logged h) d (va_lib a) = Some (q, l')"
  let ?vol = "under_vol_id (va_ctx a)"
  obtain x a1 y a2 where e:
    "open_parent (logged h) (parent_type q) (parent_obj_addr q) (dt_dxpl_id q) (a\<lparr>va_lib := l'\<rparr>) = Some (x, a1)"
    "vol_open (logged h) (H5VLdatatype_commit x (prm_loc_params q) ?vol (prm_name q) (dt_type_id q) (dt_lcpl_id q) (dt_tcpl_id q) (dt_tapl_id q) (dt_dxpl_id q)) a1 = Some (y, a2)"
    "calls_since (creation_calls (logged h) (va_ctx a) (parent_type q) (parent_obj_addr q) (dt_dxpl_id q)
       (\<lambda>obj. H5VLdatatype_commit obj (prm_loc_params q) ?vol (prm_name q) (dt_type_id q) (dt_lcpl_id q) (dt_tcpl_id q) (dt_tapl_id q) (dt_dxpl_id q))
       (\<lambda>y. H5VLdatatype_close y ?vol (dt_dxpl_id q))) a
      (close_parent (logged h) (parent_type q) x (dt_dxpl_id q)
        (snd (vol_do (logged h) (H5VLdatatype_close y ?vol (dt_dxpl_id q)) a2)))"
    by (rule creation_effect [OF o decoders_log(2) [OF d]])
  show "\<exists>a'. cb_execute_H5VL_RLO (logged h) ctx buf a = Some (- 1, a') \<and> dt_effect (logged h) q a a'"
    using e by (simp add: cb_execute_H5VL_RLO_def p(1,2) op_code_inject dt_commit_cb_sub_def p(3,4) d Let_def dt_effect_def)
qed


section \<open>Attributes\<close>

text \<open>
  The object that carries an attribute is opened by its address, the attribute created or opened there
  and closed, and the object closed as what it is; \<open>between\<close> is what is done with the attribute.
\<close>

definition parent_close :: "c_int \<Rightarrow> hid_t \<Rightarrow> hid_t \<Rightarrow> nat \<Rightarrow> vol_call" where
  "parent_close pt vol dxpl x =
     (if pt = vl_code VL_GROUP then H5VLgroup_close x vol dxpl
      else if pt = vl_code VL_DATASET then H5VLdataset_close x vol dxpl
      else H5VLdatatype_close x vol dxpl)"

definition carries_attr :: "c_int \<Rightarrow> bool" where
  "carries_attr pt \<longleftrightarrow> pt = vl_code VL_GROUP \<or> pt = vl_code VL_DATASET \<or> pt = vl_code VL_NAMED_DATATYPE"

definition attr_calls ::
  "('l, 'z) h5_vol_scheme \<Rightarrow> prop_ctx \<Rightarrow> c_int \<Rightarrow> haddr_t \<Rightarrow> hid_t \<Rightarrow> (nat \<Rightarrow> vol_call)
   \<Rightarrow> (nat \<Rightarrow> vol_log) \<Rightarrow> vol_log \<Rightarrow> bool" where
  "attr_calls h ctx pt addr dxpl get between calls \<longleftrightarrow>
     (\<exists>x y. calls = [(H5VLobject_open (under_file ctx) (token_loc h addr) (under_vol_id ctx) dxpl, Some x), (get x, Some y)]
        @ between y @ [(H5VLattr_close y (under_vol_id ctx) dxpl, None), (parent_close pt (under_vol_id ctx) dxpl x, None)])"

lemma close_attr_parent_carries:
  "carries_attr pt \<Longrightarrow>
     close_attr_parent h pt x dxpl a = Some (snd (vol_do h (parent_close pt (under_vol_id (va_ctx a)) dxpl x) a))"
  by (auto simp: carries_attr_def close_attr_parent_def parent_close_def Let_def)

lemma attr_opened:
  assumes "opens_all (logged h)" and "fst l' = fst (va_lib a)"
  obtains x a1 y a2 where
    "open_by_addr (logged h) addr dxpl (a\<lparr>va_lib := l'\<rparr>) = Some (x, a1)"
    and "vol_open (logged h) (get x) a1 = Some (y, a2)"
    and "app_log a2 = app_log a @ [(H5VLobject_open (under_file (va_ctx a)) (token_loc (logged h) addr)
        (under_vol_id (va_ctx a)) dxpl, Some x), (get x, Some y)]"
    and "va_ctx a2 = va_ctx a"
proof -
  obtain x a1 where p: "open_by_addr (logged h) addr dxpl (a\<lparr>va_lib := l'\<rparr>) = Some (x, a1)"
    unfolding open_by_addr_def by (rule vol_open_all [OF assms(1)])
  obtain y a2 where c: "vol_open (logged h) (get x) a1 = Some (y, a2)"
    by (rule vol_open_all [OF assms(1)])
  show thesis
    using that [OF p c] vol_open_log [OF p [unfolded open_by_addr_def]] vol_open_log [OF c] assms(2)
    by (simp add: app_log_def)
qed

lemma attr_calls_since:
  assumes "va_ctx a' = va_ctx a"
    and "app_log a' = app_log a @ [(H5VLobject_open (under_file (va_ctx a)) (token_loc h addr) (under_vol_id (va_ctx a)) dxpl, Some x),
          (get x, Some y)] @ between y @ [(H5VLattr_close y (under_vol_id (va_ctx a)) dxpl, None),
          (parent_close pt (under_vol_id (va_ctx a)) dxpl x, None)]"
  shows "calls_since (attr_calls h (va_ctx a) pt addr dxpl get between) a a'"
  using assms unfolding calls_since_def attr_calls_def by blast

definition at_effect :: "('l, 'z) h5_vol_scheme \<Rightarrow> param_attr \<Rightarrow> (vol_log \<times> 'm) vol_app
    \<Rightarrow> (vol_log \<times> 'm) vol_app \<Rightarrow> bool" where
  "at_effect h q a = (let vol = under_vol_id (va_ctx a) in
     calls_since (attr_calls h (va_ctx a) (parent_type q) (parent_obj_addr q) (at_dxpl_id q)
       (\<lambda>obj. H5VLattr_create obj (prm_loc_params q) vol (prm_name q) (at_type_id q) (at_space_id q) (at_acpl_id q)
          (at_aapl_id q) (at_dxpl_id q)) (\<lambda>y. [])) a)"

interpretation at_remote: remote_operation "attr_create_data (logged h)" "attr_create_decoder (logged h)"
    "\<lambda>l p. wf_at (logged h) l p \<and> carries_attr (parent_type p)" "at_alike (logged h)" "logged h" "ATTR_CREATE"
    "at_effect (logged h)"
  for h :: "'l h5_vol"
proof
  fix l p assume "wf_at (logged h) l p \<and> carries_attr (parent_type p)"
  then show "\<exists>b. attr_create_data (logged h) l p = Some (size_of b, b) \<and> b \<noteq> [] \<and> length b < 2 ^ 31
      \<and> (\<forall>l2 rest. \<exists>q l'. attr_create_decoder (logged h) (b @ rest) l2 = Some (q, l') \<and> at_alike (logged h) l p l' q)"
    by (intro at.codec_law) (rule conjunct1)
next
  fix l l' :: "vol_log \<times> 'l" and p q buf d ctx
    and pr :: "unit proposal" and a :: "(vol_log \<times> 'l) vol_app"
  assume o: "opens_all (logged h)" and w: "wf_at (logged h) l p \<and> carries_attr (parent_type p)" "at_alike (logged h) l p l' q"
    and p: "proposal_decoder buf = Some pr" "op_type pr = op_code ATTR_CREATE" "isLocal pr = 0" "proposal_data pr = Some d"
    and d: "attr_create_decoder (logged h) d (va_lib a) = Some (q, l')"
  have c: "carries_attr (parent_type q)" using w by (simp add: at_alike_def create_alike_def)
  obtain x a1 y a2 where e:
    "open_by_addr (logged h) (parent_obj_addr q) (at_dxpl_id q) (a\<lparr>va_lib := l'\<rparr>) = Some (x, a1)"
    "vol_open (logged h) (H5VLattr_create x (prm_loc_params q) (under_vol_id (va_ctx a)) (prm_name q) (at_type_id q)
       (at_space_id q) (at_acpl_id q) (at_aapl_id q) (at_dxpl_id q)) a1 = Some (y, a2)"
    and l: "app_log a2 = app_log a @ [(H5VLobject_open (under_file (va_ctx a)) (token_loc (logged h) (parent_obj_addr q))
        (under_vol_id (va_ctx a)) (at_dxpl_id q), Some x), (H5VLattr_create x (prm_loc_params q) (under_vol_id (va_ctx a))
        (prm_name q) (at_type_id q) (at_space_id q) (at_acpl_id q) (at_aapl_id q) (at_dxpl_id q), Some y)]" "va_ctx a2 = va_ctx a"
    by (rule attr_opened [OF o decoders_log(4) [OF d]])
  let ?a' = "snd (vol_do (logged h) (parent_close (parent_type q) (under_vol_id (va_ctx a)) (at_dxpl_id q) x)
      (snd (vol_do (logged h) (H5VLattr_close y (under_vol_id (va_ctx a)) (at_dxpl_id q)) a2)))"
  have "attr_create_cb_sub (logged h) pr a = Some (0, ?a')"
    by (simp add: attr_create_cb_sub_def p(3,4) d Let_def e close_attr_parent_carries [OF c] vol_do_snd_log(2) l(2))
  then have "cb_execute_H5VL_RLO (logged h) ctx buf a = Some (- 1, ?a')"
    by (simp add: cb_execute_H5VL_RLO_def p(1,2) op_code_inject)
  moreover have "at_effect (logged h) q a ?a'"
    unfolding at_effect_def Let_def by (rule attr_calls_since [where x = x and y = y]) (simp_all add: vol_do_snd_log l)
  ultimately show "\<exists>a'. cb_execute_H5VL_RLO (logged h) ctx buf a = Some (- 1, a') \<and> at_effect (logged h) q a a'" by blast
qed

text \<open>A write opens the attribute, and writes to it the bytes of the parameters.\<close>

definition carrier_loc :: "('l, 'z) h5_vol_scheme \<Rightarrow> c_int \<Rightarrow> loc_params" where
  "carrier_loc h pt = self_loc h (if pt = vl_code VL_GROUP then H5I_GROUP
     else if pt = vl_code VL_DATASET then H5I_DATASET else H5I_DATATYPE)"

definition aw_effect :: "('l, 'z) h5_vol_scheme \<Rightarrow> param_attr_wr \<Rightarrow> (vol_log \<times> 'm) vol_app
    \<Rightarrow> (vol_log \<times> 'm) vol_app \<Rightarrow> bool" where
  "aw_effect h q a = (let vol = under_vol_id (va_ctx a); dxpl = aw_dxpl_id q; pt = aw_parent_type q in
     calls_since (attr_calls h (va_ctx a) pt (aw_parent_obj_addr q) dxpl
       (\<lambda>obj. H5VLattr_open obj (carrier_loc h pt) vol (aw_attr_name q) (h5p_default h) dxpl)
       (\<lambda>y. [(H5VLattr_write y vol (aw_mem_type_id q) (aw_buf q) dxpl, None)])) a)"

interpretation aw_remote: remote_operation "attr_write_data (logged h)" "attr_write_decoder (logged h)"
    "\<lambda>l p. wf_aw (logged h) l p \<and> carries_attr (aw_parent_type p)" "aw_alike (logged h)" "logged h" "ATTR_WRITE"
    "aw_effect (logged h)"
  for h :: "'l h5_vol"
proof
  fix l p assume "wf_aw (logged h) l p \<and> carries_attr (aw_parent_type p)"
  then show "\<exists>b. attr_write_data (logged h) l p = Some (size_of b, b) \<and> b \<noteq> [] \<and> length b < 2 ^ 31
      \<and> (\<forall>l2 rest. \<exists>q l'. attr_write_decoder (logged h) (b @ rest) l2 = Some (q, l') \<and> aw_alike (logged h) l p l' q)"
    by (intro aw.codec_law) (rule conjunct1)
next
  fix l l' :: "vol_log \<times> 'l" and p q buf d ctx
    and pr :: "unit proposal" and a :: "(vol_log \<times> 'l) vol_app"
  assume o: "opens_all (logged h)" and w: "wf_aw (logged h) l p \<and> carries_attr (aw_parent_type p)" "aw_alike (logged h) l p l' q"
    and p: "proposal_decoder buf = Some pr" "op_type pr = op_code ATTR_WRITE" "isLocal pr = 0" "proposal_data pr = Some d"
    and d: "attr_write_decoder (logged h) d (va_lib a) = Some (q, l')"
  let ?vol = "under_vol_id (va_ctx a)" and ?pt = "aw_parent_type q" and ?dxpl = "aw_dxpl_id q"
  have "?pt = aw_parent_type p" using w(2) by (cases p; cases q) (simp add: aw_alike_def)
  then have c: "carries_attr ?pt" using w(1) by simp
  have loc: "(if ?pt = vl_code VL_GROUP then Some (self_loc (logged h) H5I_GROUP)
      else if ?pt = vl_code VL_DATASET then Some (self_loc (logged h) H5I_DATASET)
      else if ?pt = vl_code VL_NAMED_DATATYPE then Some (self_loc (logged h) H5I_DATATYPE) else None)
      = Some (carrier_loc (logged h) ?pt)"
    using c by (auto simp: carries_attr_def carrier_loc_def)
  obtain x a1 y a2 where e:
    "open_by_addr (logged h) (aw_parent_obj_addr q) ?dxpl (a\<lparr>va_lib := l'\<rparr>) = Some (x, a1)"
    "vol_open (logged h) (H5VLattr_open x (carrier_loc (logged h) ?pt) ?vol (aw_attr_name q) (h5p_default (logged h)) ?dxpl) a1
       = Some (y, a2)"
    and l: "app_log a2 = app_log a @ [(H5VLobject_open (under_file (va_ctx a)) (token_loc (logged h) (aw_parent_obj_addr q))
        ?vol ?dxpl, Some x),
        (H5VLattr_open x (carrier_loc (logged h) ?pt) ?vol (aw_attr_name q) (h5p_default (logged h)) ?dxpl, Some y)]"
      "va_ctx a2 = va_ctx a"
    by (rule attr_opened [OF o decoders_log(5) [OF d]])
  let ?a' = "snd (vol_do (logged h) (parent_close ?pt ?vol ?dxpl x)
      (snd (vol_do (logged h) (H5VLattr_close y ?vol ?dxpl)
        (snd (vol_do (logged h) (H5VLattr_write y ?vol (aw_mem_type_id q) (aw_buf q) ?dxpl) a2)))))"
  have "cb_execute_H5VL_RLO (logged h) ctx buf a = Some (- 1, ?a')"
    by (simp add: cb_execute_H5VL_RLO_def p(1,2) op_code_inject attr_write_cb_sub_def p(3,4) d Let_def e loc case_prod_unfold
        close_attr_parent_carries [OF c] vol_do_snd_log(2) l(2) del: vl_code.simps cong: if_cong split del: if_split)
  moreover have "aw_effect (logged h) q a ?a'"
    unfolding aw_effect_def Let_def by (rule attr_calls_since [where x = x and y = y]) (simp_all add: vol_do_snd_log l)
  ultimately show "\<exists>a'. cb_execute_H5VL_RLO (logged h) ctx buf a = Some (- 1, a') \<and> aw_effect (logged h) q a a'" by blast
qed

end
