(* ===== verification/Remote_Properties.thy ===== *)
theory Remote_Properties
  imports Submission H5_Remote H5_Properties
begin

text \<open>
  What an operation of one rank does at the others: its submission in broadcast mode, the message that
  leaves the rank, and the execution of what the message carries wherever it arrives.
\<close>

section \<open>Submitting\<close>

text \<open>
  C6: submitting a proposal in broadcast mode always returns 1. One message with the proposal is started
  to every destination of the ring, in its order, and it is a message that the receiving engines can
  deal with; the local copy of the proposal joins those the helper accounts for, so that nothing
  is lost: every proposal known before, and the new one, is in the ledger, under way or has been executed.
\<close>

theorem submission_broadcast:
  fixes m :: "('o, _, _, _, _, _) metadata_manager"
  assumes "mm_rep m xs ys" and "mm_vm m = rlo_mgr info e" and "rlo_ok e (mm_vs m)"
    and "mm_em m = Some em" and "mm_mode m = 2" and "fits_message p"
    and "everything = add_mset (proposal_image (local_copy p)) (mset (node_bufs (mm_store m) (xs @ ys)))
        + rlo_backlog e (mm_vs m) + rlo_incoming e (mm_vs m)"
    and "\<And>bs. mset bs \<subseteq># everything \<Longrightarrow> execute_in_order em bs (mm_app m) \<noteq> None"
  shows "\<exists>v m' kept executed.
      VM_submit_bcast (mm_vm m) (p\<lparr>isLocal := 0\<rparr>) (mm_vs m) = Some (0, remote_copy p, v)
    \<and> prefix (rlo_sent e (mm_vs m) @ map (\<lambda>d. (d, RLO_BCAST, bcast_frame (my_rank (rlo_bcomm e (mm_vs m))) (remote_copy p)))
        (bcast_dests (rlo_bcomm e (mm_vs m)))) (rlo_sent e v)
    \<and> good_arrival encoded_proposal (Some (src, RLO_BCAST, bcast_frame (my_rank (rlo_bcomm e (mm_vs m))) (remote_copy p)))
    \<and> payload (bcast_frame (my_rank (rlo_bcomm e (mm_vs m))) (remote_copy p)) = Some (proposal_image (remote_copy p))
    \<and> MM_submit_proposal m p = Some (1, local_copy p, m') \<and> mm_rep m' kept [] \<and> rlo_ok e (mm_vs m')
    \<and> sorted (map buf_key executed) \<and> execute_in_order em executed (mm_app m) = Some (mm_app m')
    \<and> mset (node_bufs (mm_store m') kept) + mset executed + rlo_incoming e (mm_vs m') = everything"
proof -
  have fits: "fits_message (remote_copy p)" using copies_fit [OF assms(6)] by simp
  obtain v m' kept ds where r: "VM_submit_bcast (mm_vm m) (p\<lparr>isLocal := 0\<rparr>) (mm_vs m) = Some (0, remote_copy p, v)"
    "prefix (rlo_sent e (mm_vs m) @ posted e (mm_vs m) (remote_copy p)) (rlo_sent e v)"
    "MM_submit_proposal m p = Some (1, local_copy p, m')" "mm_rep m' kept []"
    "rlo_ok e (mm_vs m')" "sorted (map buf_key ds)" "execute_in_order em ds (mm_app m) = Some (mm_app m')"
    "mset (node_bufs (mm_store m') kept) + mset ds + rlo_incoming e (mm_vs m') = everything"
    by (rule submitted_broadcast [OF assms])
  show ?thesis
    by (intro exI conjI) (rule r [unfolded posted_def] frame_good_arrival [OF fits] frame_payload [OF fits])+
qed

lemma demo_helper_bcast:
  obtains m :: demo_helper and em where "mm_rep m [] []" and "mm_vm m = rlo_mgr (env_prop, 0) 0" and "rlo_ok 0 (mm_vs m)"
    and "rlo_backlog 0 (mm_vs m) = {#}" and "rlo_incoming 0 (mm_vs m) = {#proposal_image (proposal_at 7 42)#}"
    and "mm_em m = Some em" and "mm_mode m = 2" and "\<And>bs. execute_in_order em bs (mm_app m) \<noteq> None"
proof -
  obtain m :: demo_helper and em where m: "mm_rep m [] []" "mm_vm m = rlo_mgr (env_prop, 0) 0" "rlo_ok 0 (mm_vs m)"
    "rlo_backlog 0 (mm_vs m) = {#}" "rlo_incoming 0 (mm_vs m) = env_arriving env_prop"
    "mm_em m = Some em" "execute_cb em = collect_cb" "mm_mode m = 2"
    using rlo_helper_init [OF env_prop_ok(1,2), of idle_plugin empty_store 2 2 1000 "(\<lambda>b a. Some (1, a), ())" "()" 0
      collect_cb "[]" "\<lambda>i. 0" 0, where 'o = unit]
    by (auto simp: no_engines_def empty_store_def)
  have "EM_execute em = (\<lambda>b w. Some (0, w @ [b]))" by (simp add: EM_execute_def m(7) fun_eq_iff)
  then have "execute_in_order em bs w \<noteq> None" for bs w by (induction bs arbitrary: w) auto
  with m show ?thesis by (intro that [of m em]) (simp_all add: env_prop_ok(3))
qed

theorem submission_broadcast_witness:
  "\<exists>(m :: demo_helper) m' kept executed. MM_submit_proposal m (proposal_at 8 50) = Some (1, local_copy (proposal_at 8 50), m')
    \<and> mset (node_bufs (mm_store m') kept) + mset executed + rlo_incoming 0 (mm_vs m')
      = {#proposal_image (local_copy (proposal_at 8 50)), proposal_image (proposal_at 7 42)#}"
proof -
  obtain m :: demo_helper and em where m: "mm_rep m [] []" "mm_vm m = rlo_mgr (env_prop, 0) 0" "rlo_ok 0 (mm_vs m)"
    and b: "rlo_backlog 0 (mm_vs m) = {#}" "rlo_incoming 0 (mm_vs m) = {#proposal_image (proposal_at 7 42)#}"
    and e: "mm_em m = Some em" "mm_mode m = 2" and runs: "\<And>bs. execute_in_order em bs (mm_app m) \<noteq> None"
    by (rule demo_helper_bcast) blast
  have fits: "fits_message (proposal_at 8 50)"
    using proposal_at_wf [of 8 50] by (simp add: fits_message_def proposal_at_def)
  have "\<exists>m' kept executed. MM_submit_proposal m (proposal_at 8 50) = Some (1, local_copy (proposal_at 8 50), m')
    \<and> mset (node_bufs (mm_store m') kept) + mset executed + rlo_incoming 0 (mm_vs m')
      = add_mset (proposal_image (local_copy (proposal_at 8 50))) (mset (node_bufs (mm_store m) ([] @ [])))
        + rlo_backlog 0 (mm_vs m) + rlo_incoming 0 (mm_vs m)"
    using submission_broadcast [OF m e fits refl runs, of 0] by (elim exE conjE) blast
  moreover have "add_mset y (mset (node_bufs (mm_store m) ([] @ []))) + {#} + {#x#} = {#y, x#}" for x y :: "byte list"
    by (simp add: node_bufs_def)
  ultimately show ?thesis unfolding b by metis
qed

section \<open>Executing at the receiver\<close>

text \<open>
  For every operation: the data that is submitted in broadcast mode leaves in one message to every
  destination of the ring, and whoever receives the message executes it.
\<close>

context remote_operation
begin

lemma submitted_everywhere:
  fixes m :: "('o, _, _, _, _, _) metadata_manager"
  assumes "mm_rep m xs ys" and "mm_vm m = rlo_mgr info e" and "rlo_ok e (mm_vs m)"
    and "mm_em m = Some em" and "mm_mode m = 2"
    and "everything = add_mset (proposal_image (local_copy p)) (mset (node_bufs (mm_store m) (xs @ ys)))
        + rlo_backlog e (mm_vs m) + rlo_incoming e (mm_vs m)"
    and "\<And>bs. mset bs \<subseteq># everything \<Longrightarrow> execute_in_order em bs (mm_app m) \<noteq> None"
    and "wf l par" and "opens_all h"
    and "enc l par = Some (n, b)" and "length b \<le> 32692"
    and "p = compose_proposal tv i (op_code op) (Some b) n"
  shows "\<exists>v m' frame img.
      VM_submit_bcast (mm_vm m) (p\<lparr>isLocal := 0\<rparr>) (mm_vs m) = Some (0, remote_copy p, v)
    \<and> prefix (rlo_sent e (mm_vs m) @ map (\<lambda>d. (d, RLO_BCAST, frame)) (bcast_dests (rlo_bcomm e (mm_vs m)))) (rlo_sent e v)
    \<and> MM_submit_proposal m p = Some (1, local_copy p, m')
    \<and> payload frame = Some img
    \<and> (\<forall>ctx a. \<exists>a' q l'. cb_execute_H5VL_RLO h ctx img a = Some (- 1, a')
         \<and> same l par l' q \<and> effect q a a')"
proof -
  obtain n' b' where e: "enc l par = Some (n', b')" "unat n' = length b'" "0 < length b'"
    and x: "\<And>(pr :: 'o proposal) rest ctx a. p_data_len pr = n' \<Longrightarrow> proposal_data pr = Some b' \<Longrightarrow> op_type pr = op_code op
      \<Longrightarrow> isLocal pr = 0 \<Longrightarrow> \<exists>a' q l'. cb_execute_H5VL_RLO h ctx (proposal_image pr @ rest) a = Some (- 1, a')
         \<and> same l par l' q \<and> effect q a a'"
    by (rule reaches [OF assms(8,9), where 'o = 'o]) blast
  have nb: "n' = n" "b' = b" using e(1) assms(10) by simp_all
  have "n > 0" using e(2,3) nb by (metis less_irrefl unat_0 word_gt_0)
  then have fits: "fits_message p"
    using assms(11,12) e(2) nb by (simp add: fits_message_def wf_proposal_def compose_proposal_def)
  then have rfits: "fits_message (remote_copy p)" using copies_fit by blast
  have run: "\<forall>ctx a. \<exists>a' q l'. cb_execute_H5VL_RLO h ctx (proposal_image (remote_copy p)) a = Some (- 1, a')
         \<and> same l par l' q \<and> effect q a a'"
    using x [of "remote_copy p" _ "[]"] nb by (simp add: assms(12) remote_copy_def compose_proposal_def)
  obtain v m' kept ds where r: "VM_submit_bcast (mm_vm m) (p\<lparr>isLocal := 0\<rparr>) (mm_vs m) = Some (0, remote_copy p, v)"
    "prefix (rlo_sent e (mm_vs m) @ posted e (mm_vs m) (remote_copy p)) (rlo_sent e v)"
    "MM_submit_proposal m p = Some (1, local_copy p, m')"
    by (rule submitted_broadcast [OF assms(1-5) fits assms(6,7)])
  show ?thesis
    by (intro exI [of _ v] exI [of _ m'] exI conjI) (rule r [unfolded posted_def] frame_payload [OF rfits] run)+
qed

end

text \<open>The helper and the connector of the instances.\<close>

lemma logged_plain_laws: "hdf5_laws (logged plain_vol)"
  using logged_plain_wf by (simp add: wf_ds_def)

lemma logged_plain_wf_more:
  "wf_gr (logged plain_vol) ([], ()) grp"
  "wf_aw (logged plain_vol) ([], ()) attr_wr \<and> carries_attr (aw_parent_type attr_wr)"
  using logged_plain_laws
  by (simp_all add: wf_gr_def wf_aw_def carries_attr_def codable_def logged_plain wf_create_def wf_loc_def here_def
      grp_def attr_wr_def)

lemma plain_opens_all: "opens_all (logged plain_vol)"
  by (simp add: opens_all_def logged_plain)

lemma plain_images:
  "length (ds_image (logged plain_vol) l dset) \<le> 32692" "length (gr_image (logged plain_vol) l grp) \<le> 32692"
  "length (aw_image (logged plain_vol) l attr_wr) \<le> 32692"
  by (simp_all add: ds_image_def gr_image_def aw_image_def create_image_def create_chunks_def id_chunks_def id_image_def
      loc_image_def loc_union_image_def logged_plain dset_def grp_def attr_wr_def here_def)

lemma plain_data:
  "ds_create_data (logged plain_vol) ([], ()) dset
     = Some (size_of (ds_image (logged plain_vol) ([], ()) dset), ds_image (logged plain_vol) ([], ()) dset)"
  "group_create_data (logged plain_vol) ([], ()) grp
     = Some (size_of (gr_image (logged plain_vol) ([], ()) grp), gr_image (logged plain_vol) ([], ()) grp)"
  "attr_write_data (logged plain_vol) ([], ()) attr_wr
     = Some (size_of (aw_image (logged plain_vol) ([], ()) attr_wr), aw_image (logged plain_vol) ([], ()) attr_wr)"
proof -
  have "length (ds_image (logged plain_vol) ([], ()) dset) < 2 ^ 31" "length (gr_image (logged plain_vol) ([], ()) grp) < 2 ^ 31"
    "length (aw_image (logged plain_vol) ([], ()) attr_wr) < 2 ^ 31"
    by (rule le_less_trans [OF plain_images(1)], simp, rule le_less_trans [OF plain_images(2)], simp,
        rule le_less_trans [OF plain_images(3)], simp)
  then show
    "ds_create_data (logged plain_vol) ([], ()) dset
       = Some (size_of (ds_image (logged plain_vol) ([], ()) dset), ds_image (logged plain_vol) ([], ()) dset)"
    "group_create_data (logged plain_vol) ([], ()) grp
       = Some (size_of (gr_image (logged plain_vol) ([], ()) grp), gr_image (logged plain_vol) ([], ()) grp)"
    "attr_write_data (logged plain_vol) ([], ()) attr_wr
       = Some (size_of (aw_image (logged plain_vol) ([], ()) attr_wr), aw_image (logged plain_vol) ([], ()) attr_wr)"
    using logged_plain_wf logged_plain_wf_more
    by (simp_all add: ds_create_data_def ds_create_encoder_image group_create_data_def group_create_encoder_image
        attr_write_data_def attr_write_encoder_image int_of_size(1))
qed

text \<open>
  C5: creating a dataset in broadcast mode: the submission succeeds and one message leaves for every
  destination of the ring, and wherever it arrives, its execution makes the calls of the creation at
  the connector there, with the name, the location and identifiers of equal objects, and closes what
  it opened.
\<close>

theorem dataset_created_everywhere:
  fixes m :: "('o, _, _, _, _, _) metadata_manager" and h :: "'l h5_vol"
  assumes "mm_rep m xs ys" and "mm_vm m = rlo_mgr info e" and "rlo_ok e (mm_vs m)"
    and "mm_em m = Some em" and "mm_mode m = 2"
    and "everything = add_mset (proposal_image (local_copy p)) (mset (node_bufs (mm_store m) (xs @ ys)))
        + rlo_backlog e (mm_vs m) + rlo_incoming e (mm_vs m)"
    and "\<And>bs. mset bs \<subseteq># everything \<Longrightarrow> execute_in_order em bs (mm_app m) \<noteq> None"
    and "wf_ds (logged h) l par" and "opens_all (logged h)"
    and "ds_create_data (logged h) l par = Some (n, b)" and "length b \<le> 32692"
    and "p = compose_proposal tv i (op_code DS_CREATE) (Some b) n"
  shows "\<exists>v m' frame img.
      VM_submit_bcast (mm_vm m) (p\<lparr>isLocal := 0\<rparr>) (mm_vs m) = Some (0, remote_copy p, v)
    \<and> prefix (rlo_sent e (mm_vs m) @ map (\<lambda>d. (d, RLO_BCAST, frame)) (bcast_dests (rlo_bcomm e (mm_vs m)))) (rlo_sent e v)
    \<and> MM_submit_proposal m p = Some (1, local_copy p, m')
    \<and> payload frame = Some img
    \<and> (\<forall>ctx a. \<exists>a' q l'. cb_execute_H5VL_RLO (logged h) ctx img a = Some (- 1, a')
         \<and> ds_alike (logged h) l par l' q \<and> ds_effect (logged h) q a a')"
  by (rule ds_remote.submitted_everywhere [OF assms])

theorem dataset_created_everywhere_witness:
  "\<exists>(m :: demo_helper) p m' frame img. MM_submit_proposal m p = Some (1, local_copy p, m') \<and> payload frame = Some img
    \<and> (\<forall>ctx. \<exists>a' q. cb_execute_H5VL_RLO (logged plain_vol) ctx img start_app = Some (- 1, a')
         \<and> ds_effect (logged plain_vol) q start_app a')"
proof -
  obtain m :: demo_helper and em where m: "mm_rep m [] []" "mm_vm m = rlo_mgr (env_prop, 0) 0" "rlo_ok 0 (mm_vs m)"
    and b: "rlo_backlog 0 (mm_vs m) = {#}" "rlo_incoming 0 (mm_vs m) = {#proposal_image (proposal_at 7 42)#}"
    and e: "mm_em m = Some em" "mm_mode m = 2" and runs: "\<And>bs. execute_in_order em bs (mm_app m) \<noteq> None"
    by (rule demo_helper_bcast) blast
  show ?thesis
    using dataset_created_everywhere [OF m e refl runs logged_plain_wf plain_opens_all plain_data(1) plain_images(1) refl,
        of "\<lparr>tv_sec = 1, tv_usec = 2\<rparr>" 8]
    by blast
qed

text \<open>
  C32: the same for a group, which is created in the file or below the group opened by its address.
\<close>

theorem group_created_everywhere:
  fixes m :: "('o, _, _, _, _, _) metadata_manager" and h :: "'l h5_vol"
  assumes "mm_rep m xs ys" and "mm_vm m = rlo_mgr info e" and "rlo_ok e (mm_vs m)"
    and "mm_em m = Some em" and "mm_mode m = 2"
    and "everything = add_mset (proposal_image (local_copy p)) (mset (node_bufs (mm_store m) (xs @ ys)))
        + rlo_backlog e (mm_vs m) + rlo_incoming e (mm_vs m)"
    and "\<And>bs. mset bs \<subseteq># everything \<Longrightarrow> execute_in_order em bs (mm_app m) \<noteq> None"
    and "wf_gr (logged h) l par" and "opens_all (logged h)"
    and "group_create_data (logged h) l par = Some (n, b)" and "length b \<le> 32692"
    and "p = compose_proposal tv i (op_code GROUP_CREATE) (Some b) n"
  shows "\<exists>v m' frame img.
      VM_submit_bcast (mm_vm m) (p\<lparr>isLocal := 0\<rparr>) (mm_vs m) = Some (0, remote_copy p, v)
    \<and> prefix (rlo_sent e (mm_vs m) @ map (\<lambda>d. (d, RLO_BCAST, frame)) (bcast_dests (rlo_bcomm e (mm_vs m)))) (rlo_sent e v)
    \<and> MM_submit_proposal m p = Some (1, local_copy p, m')
    \<and> payload frame = Some img
    \<and> (\<forall>ctx a. \<exists>a' q l'. cb_execute_H5VL_RLO (logged h) ctx img a = Some (- 1, a')
         \<and> gr_alike (logged h) l par l' q \<and> gr_effect (logged h) q a a')"
  by (rule gr_remote.submitted_everywhere [OF assms])

theorem group_created_everywhere_witness:
  "\<exists>(m :: demo_helper) p m' frame img. MM_submit_proposal m p = Some (1, local_copy p, m') \<and> payload frame = Some img
    \<and> (\<forall>ctx. \<exists>a' q. cb_execute_H5VL_RLO (logged plain_vol) ctx img start_app = Some (- 1, a')
         \<and> gr_effect (logged plain_vol) q start_app a')"
proof -
  obtain m :: demo_helper and em where m: "mm_rep m [] []" "mm_vm m = rlo_mgr (env_prop, 0) 0" "rlo_ok 0 (mm_vs m)"
    and b: "rlo_backlog 0 (mm_vs m) = {#}" "rlo_incoming 0 (mm_vs m) = {#proposal_image (proposal_at 7 42)#}"
    and e: "mm_em m = Some em" "mm_mode m = 2" and runs: "\<And>bs. execute_in_order em bs (mm_app m) \<noteq> None"
    by (rule demo_helper_bcast) blast
  show ?thesis
    using group_created_everywhere [OF m e refl runs logged_plain_wf_more(1) plain_opens_all plain_data(2) plain_images(2) refl,
        of "\<lparr>tv_sec = 1, tv_usec = 2\<rparr>" 8]
    by blast
qed

text \<open>
  C33: writing an attribute in broadcast mode: every receiver opens the object that carries the attribute by its
  address, opens the attribute there by its name, writes the very bytes the caller wrote, and closes both.
\<close>

theorem attribute_written_everywhere:
  fixes m :: "('o, _, _, _, _, _) metadata_manager" and h :: "'l h5_vol"
  assumes "mm_rep m xs ys" and "mm_vm m = rlo_mgr info e" and "rlo_ok e (mm_vs m)"
    and "mm_em m = Some em" and "mm_mode m = 2"
    and "everything = add_mset (proposal_image (local_copy p)) (mset (node_bufs (mm_store m) (xs @ ys)))
        + rlo_backlog e (mm_vs m) + rlo_incoming e (mm_vs m)"
    and "\<And>bs. mset bs \<subseteq># everything \<Longrightarrow> execute_in_order em bs (mm_app m) \<noteq> None"
    and "wf_aw (logged h) l par \<and> carries_attr (aw_parent_type par)" and "opens_all (logged h)"
    and "attr_write_data (logged h) l par = Some (n, b)" and "length b \<le> 32692"
    and "p = compose_proposal tv i (op_code ATTR_WRITE) (Some b) n"
  shows "\<exists>v m' frame img.
      VM_submit_bcast (mm_vm m) (p\<lparr>isLocal := 0\<rparr>) (mm_vs m) = Some (0, remote_copy p, v)
    \<and> prefix (rlo_sent e (mm_vs m) @ map (\<lambda>d. (d, RLO_BCAST, frame)) (bcast_dests (rlo_bcomm e (mm_vs m)))) (rlo_sent e v)
    \<and> MM_submit_proposal m p = Some (1, local_copy p, m')
    \<and> payload frame = Some img
    \<and> (\<forall>ctx a. \<exists>a' q l'. cb_execute_H5VL_RLO (logged h) ctx img a = Some (- 1, a')
         \<and> aw_alike (logged h) l par l' q \<and> aw_effect (logged h) q a a')"
  by (rule aw_remote.submitted_everywhere [OF assms])

theorem attribute_written_everywhere_witness:
  "\<exists>(m :: demo_helper) p m' frame img. MM_submit_proposal m p = Some (1, local_copy p, m') \<and> payload frame = Some img
    \<and> (\<forall>ctx. \<exists>a' q. cb_execute_H5VL_RLO (logged plain_vol) ctx img start_app = Some (- 1, a')
         \<and> aw_effect (logged plain_vol) q start_app a')"
proof -
  obtain m :: demo_helper and em where m: "mm_rep m [] []" "mm_vm m = rlo_mgr (env_prop, 0) 0" "rlo_ok 0 (mm_vs m)"
    and b: "rlo_backlog 0 (mm_vs m) = {#}" "rlo_incoming 0 (mm_vs m) = {#proposal_image (proposal_at 7 42)#}"
    and e: "mm_em m = Some em" "mm_mode m = 2" and runs: "\<And>bs. execute_in_order em bs (mm_app m) \<noteq> None"
    by (rule demo_helper_bcast) blast
  show ?thesis
    using attribute_written_everywhere [OF m e refl runs logged_plain_wf_more(2) plain_opens_all plain_data(3) plain_images(3) refl,
        of "\<lparr>tv_sec = 1, tv_usec = 2\<rparr>" 8]
    by blast
qed

end
