(* ===== verification/Network.thy ===== *)
theory Network
  imports IAR_Facts Submission
begin

text \<open>
  The ranks of a communicator, each with its progress engine, and the messages under way between them:
  a broadcast from the messages of its origin to the packages the ranks pick up. It refines the
  broadcast over the skip ring of \<open>Broadcast\<close>, in which a rank is no more than its destinations.
\<close>

section \<open>What a round of progress sends\<close>

text \<open>A communicator with the same links; only the counters have moved.\<close>

definition same_ring :: "bcomm \<Rightarrow> bcomm \<Rightarrow> bool" where
  "same_ring b b' \<longleftrightarrow> b' = b\<lparr>bcast_send_cnt := bcast_send_cnt b', my_bcast_cnt := my_bcast_cnt b', bcast_recv_cnt := bcast_recv_cnt b'\<rparr>"

lemma same_ring_refl [simp]: "same_ring b b"
  by (simp add: same_ring_def)

lemma same_ring_trans: "same_ring a b \<Longrightarrow> same_ring b c \<Longrightarrow> same_ring a c"
  by (cases a; cases b; cases c) (simp add: same_ring_def)

lemma same_ring_recv_cnt [simp]: "same_ring b (b\<lparr>bcast_recv_cnt := n\<rparr>)"
  by (cases b) (simp add: same_ring_def)

lemma same_ring_dests:
  assumes "same_ring b b'"
  shows "bc_forward_dests b' origin src = bc_forward_dests b origin src" and "bcast_dests b' = bcast_dests b"
    and "my_rank b' = my_rank b"
  using assms
  by (cases b; cases b'; simp add: same_ring_def bc_forward_dests_def bcast_dests_def check_passed_origin_def)+

named_theorems links_keep \<open>operations that keep the communicator\<close>

lemma test_isends_links [links_keep]: "RLO_msg_test_isends eng m = Some (d, eng') \<Longrightarrow> my_bcomm eng' = my_bcomm eng"
  by (auto simp: RLO_msg_test_isends_def bind_eq_Some_conv require_def split: if_splits)

lemma upd_msg_links [links_keep]: "upd_msg eng m f = Some eng' \<Longrightarrow> my_bcomm eng' = my_bcomm eng"
  by (auto simp: upd_msg_Some)

lemma msg_free_links [links_keep]: "RLO_msg_free eng m = Some eng' \<Longrightarrow> my_bcomm eng' = my_bcomm eng"
  by (auto simp: RLO_msg_free_def bind_eq_Some_conv)

lemma wait_only_step_links [links_keep]: "wait_only_step eng m = Some eng' \<Longrightarrow> my_bcomm eng' = my_bcomm eng"
  unfolding wait_only_step_def
  by (auto simp: bind_eq_Some_conv dest!: upd_msg_links msg_free_links test_isends_links split: if_splits)

lemma wait_only_loop_links [links_keep]: "wait_only_loop q eng = Some eng' \<Longrightarrow> my_bcomm eng' = my_bcomm eng"
  by (induction q arbitrary: eng) (auto simp: bind_eq_Some_conv dest!: wait_only_step_links)

lemma wait_and_pickup_step_links [links_keep]:
  "wait_and_pickup_queue_process eng m = Some eng' \<Longrightarrow> my_bcomm eng' = my_bcomm eng"
  unfolding wait_and_pickup_queue_process_def
  by (auto simp: bind_eq_Some_conv dest!: upd_msg_links test_isends_links split: if_splits)

lemma wait_and_pickup_loop_links [links_keep]:
  "wait_and_pickup_loop q eng = Some eng' \<Longrightarrow> my_bcomm eng' = my_bcomm eng"
  by (induction q arbitrary: eng) (auto simp: bind_eq_Some_conv dest!: wait_and_pickup_step_links)

lemma bc_forward_links:
  assumes "bc_forward eng m = Some (n, eng')"
  shows "same_ring (my_bcomm eng) (my_bcomm eng')"
proof -
  obtain x where x: "msgs eng m = Some x" using assms by (auto simp: bc_forward_def bind_eq_Some_conv)
  from bc_forward_cases [OF assms x] show ?thesis
  proof cases
    case (1 k js e1)
    from 1(4) have "my_bcomm eng' = my_bcomm e1"
      by (auto simp: queue_forwarded_def queue_not_forwarded_def queue_leaf_def upd_msg_Some bind_eq_Some_conv split: if_splits)
    with isend_list_rank [OF 1(1)] show ?thesis by simp
  qed
qed

text \<open>The bytes a rank passes on: those received, as many as a message has, or four more.\<close>

lemma bc_forward_frames:
  assumes fwd: "bc_forward eng m = Some (n, eng')" and x: "msgs eng m = Some x"
    and origin: "get_origin (m_buf x) = Some origin" and size: "nat (msg_size_max (my_bcomm eng)) = msg_data_max"
  obtains k where "msg_data_max \<le> k" and "k \<le> 4 + msg_data_max"
    and "sent eng' = sent eng @ map (\<lambda>d. (d, stat_tag x, take k (m_buf x)))
      (bc_forward_dests (my_bcomm eng) (sint origin) (stat_source x))"
  using bc_forward_cases [OF fwd x]
proof cases
  case (1 k js e1)
  then have s: "sent eng' = sent e1" by (auto dest: queue_not_forwarded_sent queue_leaf_sent)
  have e: "sent eng' = sent eng @ map (\<lambda>d. (d, stat_tag x, take k (m_buf x)))
      (bc_forward_dests (my_bcomm eng) (sint origin) (stat_source x))"
    using isend_list_sends [OF 1(1) fwd_start_simps(3)] 1(3) [OF origin] s by (auto simp: comp_def)
  show thesis
  proof (cases "js = []")
    case True
    then show thesis using e 1(3) [OF origin] by (intro that [of msg_data_max]) simp_all
  next
    case False
    then show thesis using 1(5) size by (intro that [OF _ _ e]) auto
  qed
qed


lemma get_origin_append: "get_origin b = Some i \<Longrightarrow> get_origin (b @ rest) = Some i"
  by (cases "get_int b") (auto simp: get_origin_def get_int_append_mono)

lemma handle_received_bcast:
  assumes "engines P e = Some eng" and "msgs eng m = Some x" and "stat_tag x = RLO_BCAST" and "m < next_msg eng"
    and "handle_received f e m P = Some P'" and "engines P' e = Some eng'"
  obtains n eng3 where "bc_forward eng3 m = Some (n, eng')" and "msgs eng3 m = Some x" and "my_bcomm eng3 = my_bcomm eng"
    and "sent eng3 = sent eng"
proof -
  obtain q where q: "lq_remove (queue_recv eng) m = Some q"
    using assms(1,2,5) by (auto simp: handle_received_def bind_eq_Some_conv)
  obtain m2 eng2 where new: "RLO_msg_new_generic (eng\<lparr>queue_recv := q\<rparr>) = (m2, eng2)" by fastforce
  let ?eng3 = "eng2\<lparr>queue_recv := queue_recv eng2 @ [m2], recved_bcast_cnt := recved_bcast_cnt eng2 + 1\<rparr>"
  obtain x2 where x2: "eng2 = eng\<lparr>queue_recv := q, msgs := (msgs eng)(next_msg eng \<mapsto> x2), next_msg := next_msg eng + 1\<rparr>"
    using new_generic_recv_msg(2) [OF new] by auto
  have "\<exists>n. bc_forward ?eng3 m = Some (n, eng')"
    using assms(1-3,5,6) q new by (auto simp: handle_received_def bind_eq_Some_conv Let_def)
  then obtain n where "bc_forward ?eng3 m = Some (n, eng')" by blast
  then show thesis by (rule that) (use assms(2,4) in \<open>simp_all add: x2\<close>)
qed

section \<open>A rank on its own\<close>

text \<open>One round of progress of a process with one engine, which has fuel for all that has arrived.\<close>

definition alone :: "'a engine \<Rightarrow> 'a process" where
  "alone eng = \<lparr>engines = [0 \<mapsto> eng], active_engines = Some [0], ever_created = 1\<rparr>"

definition net_round :: "'a engine \<Rightarrow> 'a engine option" where
  "net_round eng = do { P \<leftarrow> progress_all (alone eng); engines P 0 }"

lemma alone_simps [simp]:
  "engines (alone eng) 0 = Some eng" "active_engines (alone eng) = Some [0]" "set_eng (alone eng) 0 eng' = alone eng'"
  by (simp_all add: alone_def set_eng_def)

lemma net_round_gen:
  assumes "RLO_make_progress_gen (RLO_make_progress (incoming_cnt (alone eng))) 0 (alone eng) = Some (alone eng')"
  shows "net_round eng = Some eng'"
  using assms by (simp add: net_round_def progress_all_def progress_fuel_def)

text \<open>A round in which the posted receive finds a message.\<close>

lemma net_round_found:
  assumes ok: "eng_ok D eng" and arr: "arrivals eng = []" and good: "good_arrival D (Some (src, RLO_BCAST, buf))"
    and long: "msg_data_max \<le> length buf" and origin: "get_origin buf = Some origin"
  obtains eng' k rest where "net_round (eng\<lparr>arrivals := [Some (src, RLO_BCAST, buf)]\<rparr>) = Some eng'" and "eng_ok D eng'"
    and "arrivals eng' = []" and "eng_backlog eng' = add_mset (the (payload buf)) (eng_backlog eng)"
    and "same_ring (my_bcomm eng) (my_bcomm eng')" and "msg_data_max \<le> k"
    and "sent eng' = sent eng @ map (\<lambda>d. (d, RLO_BCAST, take k (buf @ rest))) (bc_forward_dests (my_bcomm eng) (sint origin) src)"
    and "length (buf @ rest) = 4 + msg_data_max"
proof -
  let ?a = "[Some (src, RLO_BCAST, buf)]"
  define eng0 where "eng0 = eng\<lparr>arrivals := ?a\<rparr>"
  let ?f = "RLO_make_progress (incoming_cnt (alone eng0))"
  have ok0: "eng_ok D eng0" using ok good by (simp add: eng_ok_def eng0_def)
  note d = eng_okD [OF ok0]
  have old: "eng_backlog eng0 = eng_backlog eng" by (simp add: eng_backlog_def msg_payload_def [abs_def] eng0_def)
  obtain eng' where g: "RLO_make_progress_gen ?f 0 (alone eng0) = Some (alone eng')" "eng_ok D eng'"
    "eng_backlog eng' + eng_arriving eng' = eng_backlog eng0 + eng_arriving eng0" "arrivals eng' = tl (arrivals eng0)"
    using make_progress_gen_ok [of "alone eng0" 0, OF _ ok0, of ?f] by auto
  have a': "arrivals eng' = []" using g(4) by (simp add: eng0_def)
  then have b': "eng_backlog eng' = add_mset (the (payload buf)) (eng_backlog eng)"
    using g(3) old by (simp add: eng_arriving_def) (simp add: eng0_def)
  obtain m where m: "queue_recv eng0 = [m]" using d(2) by (auto simp: length_Suc_conv)
  obtain x where x: "msgs eng0 m = Some x" "length (m_buf x) = 4 + msg_data_max"
    using roles_alloc(1) [OF d(5), of m] m by (auto simp: recv_msg_def)
  have mn: "m < next_msg eng0" using roles_alloc(6) [OF d(5), of m] m by simp
  define x1 where "x1 = x\<lparr>m_buf := buf @ drop (length buf) (m_buf x), stat_source := src, stat_tag := RLO_BCAST\<rparr>"
  define eng1 where "eng1 = eng0\<lparr>arrivals := [], msgs := (msgs eng0)(m \<mapsto> x1)\<rparr>"
  have t: "test_ircecv_completed eng0 m = Some (True, eng1)"
    using good x(1) comm_ok_send_list(4) [OF d(1)]
    by (simp add: test_ircecv_completed_def upd_msg_def eng1_def x1_def good_arrival_def) (simp add: eng0_def upd_msg_def)
  have e0: "arrivals eng0 = Some (src, RLO_BCAST, buf) # []" "engines (alone eng0) 0 = Some eng0" by (simp_all add: eng0_def)
  obtain e1 where h: "handle_received ?f 0 m (alone eng1) = Some (alone e1)" "eng_ok D e1"
    using recv_completed_ok [OF e0(2) ok0 m e0(1), of ?f] t by auto
  have "\<exists>n eng3. bc_forward eng3 m = Some (n, e1) \<and> msgs eng3 m = Some x1 \<and> my_bcomm eng3 = my_bcomm eng \<and> sent eng3 = sent eng"
    by (rule handle_received_bcast [OF _ _ _ _ h(1), of eng1 x1 e1])
      (use mn in \<open>simp_all add: eng1_def x1_def, auto simp: eng0_def\<close>)
  then obtain n eng3 where f: "bc_forward eng3 m = Some (n, e1)" "msgs eng3 m = Some x1" "my_bcomm eng3 = my_bcomm eng"
    "sent eng3 = sent eng" by blast
  have o: "get_origin (m_buf x1) = Some origin"
    using origin by (simp add: x1_def get_origin_append)
  obtain k where k: "msg_data_max \<le> k" "sent e1 = sent eng @ map (\<lambda>d. (d, RLO_BCAST, take k (buf @ drop (length buf) (m_buf x))))
      (bc_forward_dests (my_bcomm eng) (sint origin) src)"
    by (rule bc_forward_frames [OF f(1,2) o]) (use f comm_ok_send_list(4) [OF d(1)] in \<open>simp_all add: x1_def eng0_def\<close>)
  have links: "same_ring (my_bcomm eng) (my_bcomm e1)" using bc_forward_links [OF f(1)] f(3) by simp
  have d1: "distinct (queue_wait_and_pickup e1)" using roles_alloc(5) [OF eng_okD(5) [OF h(2)]] by simp
  obtain e2 where e2: "wait_and_pickup_loop (queue_wait_and_pickup e1) e1 = Some e2" "eng_ok D e2" "sent e2 = sent e1"
    using wait_and_pickup_loop_ok [OF h(2) subset_refl d1] by blast
  have d2: "distinct (queue_wait e2)" using roles_alloc(5) [OF eng_okD(5) [OF e2(2)]] by simp
  obtain e3 where e3: "wait_only_loop (queue_wait e2) e2 = Some e3" "sent e3 = sent e2"
    using wait_only_loop_ok [OF e2(2) subset_refl d2] by blast
  have "recv_loop ?f 0 (Some m) (alone eng0) = Some (alone e1)"
    using t h(1) m by (subst recv_loop.simps) (simp add: recv_loop_None Let_def)
  then have "RLO_make_progress_gen ?f 0 (alone eng0) = Some (alone e3)"
    using m e2(1) e3(1) d(4)
    by (simp add: RLO_make_progress_gen_def own_proposal_update_idle wait_only_queue_cleanup_def)
  then have "alone e3 = alone eng'" using g(1) by simp
  then have e: "e3 = eng'" by (metis alone_simps(1) option.inject)
  have "same_ring (my_bcomm eng) (my_bcomm eng')"
    using links wait_and_pickup_loop_links [OF e2(1)] wait_only_loop_links [OF e3(1)] e by simp
  moreover have "length (buf @ drop (length buf) (m_buf x)) = 4 + msg_data_max"
    using x(2) good by (simp add: good_arrival_def)
  moreover have "sent eng' = sent e1" using e e2(3) e3(2) by simp
  ultimately show thesis
    using that [of eng' k "drop (length buf) (m_buf x)"] net_round_gen [OF g(1)] g(2) a' b' k by (simp add: eng0_def)
qed

text \<open>A round in which it finds nothing.\<close>

lemma net_round_idle:
  assumes ok: "eng_ok D eng" and arr: "arrivals eng = []"
  obtains eng' where "net_round eng = Some eng'" and "eng_ok D eng'" and "arrivals eng' = []"
    and "eng_backlog eng' = eng_backlog eng" and "same_ring (my_bcomm eng) (my_bcomm eng')" and "sent eng' = sent eng"
proof -
  let ?f = "RLO_make_progress (incoming_cnt (alone eng))"
  note d = eng_okD [OF ok]
  obtain eng' where g: "RLO_make_progress_gen ?f 0 (alone eng) = Some (alone eng')" "eng_ok D eng'"
    "eng_backlog eng' + eng_arriving eng' = eng_backlog eng + eng_arriving eng" "arrivals eng' = tl (arrivals eng)"
    using make_progress_gen_ok [of "alone eng" 0, OF _ ok, of ?f] by auto
  obtain m where m: "queue_recv eng = [m]" using d(2) by (auto simp: length_Suc_conv)
  have "test_ircecv_completed eng m = Some (False, eng)" using arr by (simp add: test_ircecv_completed_def)
  then have r: "recv_loop ?f 0 (Some m) (alone eng) = Some (alone eng)"
    using m by (subst recv_loop.simps) (simp add: recv_loop_None Let_def)
  have d1: "distinct (queue_wait_and_pickup eng)" using roles_alloc(5) [OF d(5)] by simp
  obtain e2 where e2: "wait_and_pickup_loop (queue_wait_and_pickup eng) eng = Some e2" "eng_ok D e2" "sent e2 = sent eng"
    using wait_and_pickup_loop_ok [OF ok subset_refl d1] by blast
  have d2: "distinct (queue_wait e2)" using roles_alloc(5) [OF eng_okD(5) [OF e2(2)]] by simp
  obtain e3 where e3: "wait_only_loop (queue_wait e2) e2 = Some e3" "sent e3 = sent e2"
    using wait_only_loop_ok [OF e2(2) subset_refl d2] by blast
  have "RLO_make_progress_gen ?f 0 (alone eng) = Some (alone e3)"
    using m e2(1) e3(1) d(4) r
    by (simp add: RLO_make_progress_gen_def own_proposal_update_idle wait_only_queue_cleanup_def)
  then have "alone e3 = alone eng'" using g(1) by simp
  then have e: "e3 = eng'" by (metis alone_simps(1) option.inject)
  show thesis
    by (rule that [OF net_round_gen [OF g(1)] g(2)])
      (use g(3,4) arr e e2(3) e3(2) wait_and_pickup_loop_links [OF e2(1)] wait_only_loop_links [OF e3(1)]
        in \<open>simp_all add: eng_arriving_def\<close>)
qed

lemma user_msg_mock_links [links_keep]: "user_msg_mock eng m = Some eng' \<Longrightarrow> my_bcomm eng' = my_bcomm eng"
  unfolding user_msg_mock_def
  by (auto simp: bind_eq_Some_conv dest!: upd_msg_links split: if_splits option.splits prod.splits)

lemma checkout_links:
  assumes "checkout_engine eng = Some (r, b, eng')"
  shows "my_bcomm eng' = my_bcomm eng"
proof -
  have pick: "my_bcomm e2 = my_bcomm e1" if "RLO_user_pickup_next e1 = Some (mo, e2)" for e1 e2 :: "'a engine" and mo
    using that unfolding RLO_user_pickup_next_def
    by (auto simp: bind_eq_Some_conv dest!: upd_msg_links user_msg_mock_links split: if_splits option.splits)
  have rec: "my_bcomm e2 = my_bcomm e1" if "RLO_user_msg_recycle e1 m = Some (r, e2)" for e1 e2 :: "'a engine" and m r
    using that unfolding RLO_user_msg_recycle_def
    by (auto simp: bind_eq_Some_conv dest!: upd_msg_links msg_free_links split: if_splits option.splits)
  show ?thesis
    using assms by (auto simp: checkout_engine_def bind_eq_Some_conv dest!: pick rec split: option.splits)
qed

section \<open>The ranks together\<close>

text \<open>
  The engines by rank; the messages under way, as sender, receiver and bytes; and what each application
  has picked up so far. In a step, the message that the network brings is found by the round of progress
  of its receiver, a rank turns its engine in vain, or an application picks up a package.
\<close>

record 'a network =
  net_eng :: "int \<Rightarrow> 'a engine"
  net_flight :: "(int \<times> int \<times> byte list) multiset"
  net_handed :: "int \<Rightarrow> byte list multiset"

definition posts :: "int \<Rightarrow> 'a engine \<Rightarrow> 'a engine \<Rightarrow> (int \<times> int \<times> byte list) multiset" where
  "posts r eng eng' = image_mset (\<lambda>(d, tag, b). (r, d, b)) (mset (drop (length (sent eng)) (sent eng')))"

inductive net_step :: "int \<Rightarrow> 'a network \<Rightarrow> 'a network \<Rightarrow> bool" for ws where
  net_deliver: "(src, r, buf) \<in># net_flight N \<Longrightarrow>
    net_round ((net_eng N r)\<lparr>arrivals := [Some (src, RLO_BCAST, buf)]\<rparr>) = Some eng' \<Longrightarrow>
    net_step ws N (N\<lparr>net_eng := (net_eng N)(r := eng'),
      net_flight := net_flight N - {#(src, r, buf)#} + posts r (net_eng N r) eng'\<rparr>)"
| net_idle: "0 \<le> r \<Longrightarrow> r < ws \<Longrightarrow> net_round (net_eng N r) = Some eng' \<Longrightarrow>
    net_step ws N (N\<lparr>net_eng := (net_eng N)(r := eng'), net_flight := net_flight N + posts r (net_eng N r) eng'\<rparr>)"
| net_pickup: "0 \<le> r \<Longrightarrow> r < ws \<Longrightarrow> checkout_engine (net_eng N r) = Some (1, Some b, eng') \<Longrightarrow>
    net_step ws N (N\<lparr>net_eng := (net_eng N)(r := eng'), net_handed := (net_handed N)(r := add_mset b (net_handed N r))\<rparr>)"

text \<open>A sound engine of the rank in a communicator, with nothing arrived that was not dealt with.\<close>

definition rank_ok :: "(byte list \<Rightarrow> bool) \<Rightarrow> int \<Rightarrow> int \<Rightarrow> 'a engine \<Rightarrow> bool" where
  "rank_ok D ws r eng \<longleftrightarrow> eng_ok D eng \<and> arrivals eng = []
     \<and> (\<exists>b. bcomm_init ws r = Some b \<and> same_ring b (my_bcomm eng))"

text \<open>The bytes of a message are those of the frame, and what the last receive buffer had after it.\<close>

definition carries :: "byte list \<Rightarrow> byte list \<Rightarrow> bool" where
  "carries frame buf \<longleftrightarrow> take msg_data_max buf = frame \<and> length buf \<le> 4 + msg_data_max"

lemma carries_split:
  assumes "carries frame buf"
  obtains rest where "buf = frame @ rest"
  using assms append_take_drop_id [of msg_data_max buf] unfolding carries_def by metis

lemma carries_facts:
  assumes "carries frame buf" and "length frame = msg_data_max" and "good_arrival D (Some (src, RLO_BCAST, frame))"
    and "get_origin frame = Some origin"
  shows "good_arrival D (Some (s, RLO_BCAST, buf))" and "payload buf = payload frame" and "get_origin buf = Some origin"
    and "msg_data_max \<le> length buf"
proof -
  obtain rest where b: "buf = frame @ rest" by (rule carries_split [OF assms(1)])
  obtain p where p: "payload frame = Some p" "D p" using assms(3) by (auto simp: good_arrival_def)
  show pay: "payload buf = payload frame" unfolding b using payload_append [OF p(1)] p(1) by simp
  show "good_arrival D (Some (s, RLO_BCAST, buf))"
    using pay p assms(1) by (simp add: good_arrival_def carries_def)
  show "get_origin buf = Some origin" unfolding b by (rule get_origin_append [OF assms(4)])
  show "msg_data_max \<le> length buf" using assms(2) b by simp
qed

lemma carries_forward:
  assumes "carries frame buf" and "msg_data_max \<le> length buf" and "msg_data_max \<le> k" and "length (buf @ rest) = 4 + msg_data_max"
  shows "carries frame (take k (buf @ rest))"
  using assms by (simp add: carries_def min_def) arith

text \<open>
  The refinement: forgetting the bytes, the messages under way are a configuration of the broadcast over
  the ring after \<open>n\<close> deliveries, to the ranks \<open>dl\<close>, and each rank has as many packages more than at the
  beginning as it has had deliveries.
\<close>

definition unframed :: "(int \<times> int \<times> byte list) multiset \<Rightarrow> (int \<times> int) multiset" where
  "unframed fl = image_mset (\<lambda>(s, d, b). (s, d)) fl"

definition net_inv :: "(byte list \<Rightarrow> bool) \<Rightarrow> int \<Rightarrow> int \<Rightarrow> bcomm \<Rightarrow> byte list \<Rightarrow> byte list \<Rightarrow> 'a network
    \<Rightarrow> nat \<Rightarrow> int multiset \<Rightarrow> 'a network \<Rightarrow> bool" where
  "net_inv D ws origin b frame p N0 n dl N \<longleftrightarrow>
     (\<forall>r\<in>{0..<ws}. rank_ok D ws r (net_eng N r))
   \<and> (\<forall>(s, d, buf)\<in>#net_flight N. carries frame buf)
   \<and> bc_run ws origin b n (unframed (net_flight N), dl)
   \<and> (\<forall>r\<in>{0..<ws}. eng_backlog (net_eng N r) + net_handed N r
        = eng_backlog (net_eng N0 r) + net_handed N0 r + replicate_mset (count dl r) p)"

lemma net_invD:
  assumes "net_inv D ws origin b frame p N0 n dl N"
  shows "\<And>r. 0 \<le> r \<Longrightarrow> r < ws \<Longrightarrow> rank_ok D ws r (net_eng N r)" and "\<forall>(s, d, x)\<in>#net_flight N. carries frame x"
    and "bc_run ws origin b n (unframed (net_flight N), dl)"
    and "\<forall>r\<in>{0..<ws}. eng_backlog (net_eng N r) + net_handed N r
        = eng_backlog (net_eng N0 r) + net_handed N0 r + replicate_mset (count dl r) p"
  using assms by (simp_all add: net_inv_def)

lemma unframed_mem: "(s, d, buf) \<in># fl \<Longrightarrow> (s, d) \<in># unframed fl"
  by (force simp: unframed_def)

lemma posts_same: "sent eng' = sent eng \<Longrightarrow> posts r eng eng' = {#}"
  by (simp add: posts_def)

lemma posts_map: "sent eng' = sent eng @ map (\<lambda>d. (d, tag, b)) ds \<Longrightarrow> posts r eng eng' = image_mset (\<lambda>d. (r, d, b)) (mset ds)"
  by (simp add: posts_def image_mset.compositionality comp_def)

lemma flight_ranks:
  assumes "ring_ok ws origin" and "bcomm_init ws origin = Some b" and "net_inv D ws origin b frame p N0 n dl N"
    and "(s, d, buf) \<in># net_flight N"
  shows "0 \<le> d \<and> d < ws"
  using bc_run_inv [OF assms(1,2) net_invD(3) [OF assms(3)]] unframed_mem [OF assms(4)] by (auto simp: bc_inv_def)

text \<open>What a round does to one rank carries over to the whole.\<close>

lemma net_inv_rank:
  assumes inv: "net_inv D ws origin b frame p N0 n dl N"
    and r: "rank_ok D ws r eng'" and fl: "\<forall>(s, d, buf)\<in>#fl. carries frame buf"
    and run': "bc_run ws origin b n' (unframed fl, dl')"
    and others: "\<And>i. i \<noteq> r \<Longrightarrow> count dl' i = count dl i \<and> hd' i = net_handed N i"
    and here: "eng_backlog eng' + hd' r + replicate_mset (count dl r) p
      = eng_backlog (net_eng N r) + net_handed N r + replicate_mset (count dl' r) p"
  shows "net_inv D ws origin b frame p N0 n' dl' (N\<lparr>net_eng := (net_eng N)(r := eng'), net_flight := fl, net_handed := hd'\<rparr>)"
proof -
  note cnt = net_invD(4) [OF inv]
  have "eng_backlog (((net_eng N)(r := eng')) i) + hd' i
      = eng_backlog (net_eng N0 i) + net_handed N0 i + replicate_mset (count dl' i) p" if "i \<in> {0..<ws}" for i
  proof (cases "i = r")
    case True
    have "eng_backlog eng' + hd' r + replicate_mset (count dl r) p
      = (eng_backlog (net_eng N0 r) + net_handed N0 r + replicate_mset (count dl' r) p) + replicate_mset (count dl r) p"
      using here bspec [OF cnt that] True by (simp add: ac_simps)
    then show ?thesis using True by simp
  qed (use bspec [OF cnt that] others [of i] in simp)
  moreover have "rank_ok D ws i (((net_eng N)(r := eng')) i)" if "i \<in> {0..<ws}" for i
    using inv r that by (simp add: net_inv_def)
  ultimately show ?thesis
    unfolding net_inv_def using fl run' by auto
qed

lemma rank_okD:
  assumes "rank_ok D ws r eng"
  obtains b where "eng_ok D eng" and "arrivals eng = []" and "bcomm_init ws r = Some b" and "same_ring b (my_bcomm eng)"
  using assms by (auto simp: rank_ok_def)

lemma rank_ok_round:
  "rank_ok D ws r eng \<Longrightarrow> eng_ok D eng' \<Longrightarrow> arrivals eng' = [] \<Longrightarrow> same_ring (my_bcomm eng) (my_bcomm eng') \<Longrightarrow> rank_ok D ws r eng'"
  by (auto simp: rank_ok_def intro: same_ring_trans)

text \<open>What is known of the broadcast throughout.\<close>

definition good_frame :: "(byte list \<Rightarrow> bool) \<Rightarrow> int \<Rightarrow> byte list \<Rightarrow> byte list \<Rightarrow> bool" where
  "good_frame D origin frame p \<longleftrightarrow> length frame = msg_data_max \<and> good_arrival D (Some (origin, RLO_BCAST, frame))
     \<and> get_origin frame = Some (word_of_int origin) \<and> payload frame = Some p"

lemma net_delivered:
  assumes ok: "ring_ok ws origin" and b: "bcomm_init ws origin = Some b" and f: "good_frame D origin frame p"
    and inv: "net_inv D ws origin b frame p N0 n dl N" and msg: "(src, r, buf) \<in># net_flight N"
  obtains eng' where "net_round ((net_eng N r)\<lparr>arrivals := [Some (src, RLO_BCAST, buf)]\<rparr>) = Some eng'"
    and "net_inv D ws origin b frame p N0 (Suc n) (add_mset r dl) (N\<lparr>net_eng := (net_eng N)(r := eng'),
      net_flight := net_flight N - {#(src, r, buf)#} + posts r (net_eng N r) eng'\<rparr>)"
proof -
  note I = net_invD [OF inv]
  have range: "0 \<le> r" "r < ws" using flight_ranks [OF ok b inv msg] by simp_all
  have c: "carries frame buf" using I(2) msg by auto
  have frame: "length frame = msg_data_max" "good_arrival D (Some (origin, RLO_BCAST, frame))"
    "get_origin frame = Some (word_of_int origin)" "payload frame = Some p" using f by (simp_all add: good_frame_def)
  note buf = carries_facts [OF c frame(1-3)]
  obtain br where eng: "rank_ok D ws r (net_eng N r)" "eng_ok D (net_eng N r)" "arrivals (net_eng N r) = []"
    "bcomm_init ws r = Some br" "same_ring br (my_bcomm (net_eng N r))" using I(1) [OF range] by (metis rank_okD)
  obtain eng' k rest where e: "net_round ((net_eng N r)\<lparr>arrivals := [Some (src, RLO_BCAST, buf)]\<rparr>) = Some eng'" "eng_ok D eng'"
    "arrivals eng' = []" "eng_backlog eng' = add_mset (the (payload buf)) (eng_backlog (net_eng N r))"
    "same_ring (my_bcomm (net_eng N r)) (my_bcomm eng')" "msg_data_max \<le> k"
    "sent eng' = sent (net_eng N r) @ map (\<lambda>d. (d, RLO_BCAST, take k (buf @ rest)))
      (bc_forward_dests (my_bcomm (net_eng N r)) (sint (word_of_int origin :: c_int)) src)"
    "length (buf @ rest) = 4 + msg_data_max"
    by (rule net_round_found [OF eng(2,3) buf(1,4,3)])
  have o: "sint (word_of_int origin :: c_int) = origin"
    using ring_okD [OF ok] by (intro sint_word_of_int_small) simp_all
  define ds where "ds = bc_forward_dests br origin src"
  have posts: "posts r (net_eng N r) eng' = image_mset (\<lambda>d. (r, d, take k (buf @ rest))) (mset ds)"
    using posts_map [OF e(7)] same_ring_dests(1) [OF eng(5)] o by (simp add: ds_def)
  let ?fl = "net_flight N - {#(src, r, buf)#} + posts r (net_eng N r) eng'"
  have fl: "\<forall>(s, d, x)\<in>#?fl. carries frame x"
    using I(2) carries_forward [OF c buf(4) e(6,8)] by (auto simp: posts dest: in_diffD)
  obtain fl0 where rest: "net_flight N = add_mset (src, r, buf) fl0" using msg by (metis mset_add)
  have "unframed ?fl = unframed (net_flight N) - {#(src, r)#} + image_mset (Pair r) (mset ds)"
    by (subst (1 2) rest) (simp add: unframed_def posts image_mset.compositionality comp_def)
  then have "bc_run ws origin b (Suc n) (unframed ?fl, add_mset r dl)"
    using bc_run.step [OF I(3) bc_step.deliver [OF unframed_mem [OF msg] eng(4)]] by (simp add: ds_def)
  from net_inv_rank [OF inv rank_ok_round [OF eng(1) e(2,3,5)] fl this, of "net_handed N"]
  have "net_inv D ws origin b frame p N0 (Suc n) (add_mset r dl)
      (N\<lparr>net_eng := (net_eng N)(r := eng'), net_flight := ?fl, net_handed := net_handed N\<rparr>)"
    using e(4) buf(2) frame(4) by simp
  then show thesis using that [OF e(1)] by simp
qed

lemma net_inv_step:
  assumes ok: "ring_ok ws origin" and b: "bcomm_init ws origin = Some b" and f: "good_frame D origin frame p"
    and inv: "net_inv D ws origin b frame p N0 n dl N" and step: "net_step ws N N'"
  shows "\<exists>n' dl'. net_inv D ws origin b frame p N0 n' dl' N'"
proof -
  note I = net_invD [OF inv]
  show ?thesis using step
  proof cases
    case (net_deliver src r buf eng')
    obtain e where e: "net_round ((net_eng N r)\<lparr>arrivals := [Some (src, RLO_BCAST, buf)]\<rparr>) = Some e"
      "net_inv D ws origin b frame p N0 (Suc n) (add_mset r dl) (N\<lparr>net_eng := (net_eng N)(r := e),
        net_flight := net_flight N - {#(src, r, buf)#} + posts r (net_eng N r) e\<rparr>)"
      by (rule net_delivered [OF ok b f inv net_deliver(2)])
    then have "e = eng'" using net_deliver(3) by simp
    then show ?thesis using e(2) net_deliver(1) by blast
  next
    case (net_idle r eng')
    note r = I(1) [OF net_idle(2,3)]
    then have "eng_ok D (net_eng N r)" "arrivals (net_eng N r) = []" by (simp_all add: rank_ok_def)
    then obtain e where e: "net_round (net_eng N r) = Some e" "eng_ok D e" "arrivals e = []"
      "eng_backlog e = eng_backlog (net_eng N r)" "same_ring (my_bcomm (net_eng N r)) (my_bcomm e)" "sent e = sent (net_eng N r)"
      by (rule net_round_idle)
    then have eq: "e = eng'" using net_idle(4) by simp
    have "net_inv D ws origin b frame p N0 n dl (N\<lparr>net_eng := (net_eng N)(r := e), net_flight := net_flight N, net_handed := net_handed N\<rparr>)"
      by (rule net_inv_rank [OF inv rank_ok_round [OF r e(2,3,5)] I(2,3)]) (simp_all add: e(4))
    then show ?thesis using e(6) net_idle(1) eq by (auto simp: posts_same)
  next
    case (net_pickup r pkg eng')
    note r = I(1) [OF net_pickup(2,3)]
    then have ro: "eng_ok D (net_eng N r)" "arrivals (net_eng N r) = []" by (simp_all add: rank_ok_def)
    have "eng_backlog (net_eng N r) \<noteq> {#}" using checkout_engine_ok [OF ro(1)] net_pickup(4) by auto
    then have e: "eng_ok D eng'" "eng_backlog (net_eng N r) = add_mset pkg (eng_backlog eng')" "arrivals eng' = []"
      using checkout_engine_ok [OF ro(1)] net_pickup(4) ro(2) by auto
    have s: "same_ring (my_bcomm (net_eng N r)) (my_bcomm eng')" using checkout_links [OF net_pickup(4)] by simp
    let ?h = "(net_handed N)(r := add_mset pkg (net_handed N r))"
    have "net_inv D ws origin b frame p N0 n dl (N\<lparr>net_eng := (net_eng N)(r := eng'), net_flight := net_flight N, net_handed := ?h\<rparr>)"
      by (rule net_inv_rank [OF inv rank_ok_round [OF r e(1,3) s] I(2,3)]) (simp_all add: e(2))
    then show ?thesis using net_pickup(1) by auto
  qed
qed

lemma net_inv_run:
  assumes "ring_ok ws origin" and "bcomm_init ws origin = Some b" and "good_frame D origin frame p"
    and "net_inv D ws origin b frame p N0 n dl N" and "(net_step ws)\<^sup>*\<^sup>* N N'"
  shows "\<exists>n' dl'. net_inv D ws origin b frame p N0 n' dl' N'"
  using assms(5)
proof induction
  case base
  then show ?case using assms(4) by blast
next
  case (step N1 N2)
  then show ?case using net_inv_step [OF assms(1-3)] by blast
qed

text \<open>No rank has had more than one delivery, the origin none, and at the end every other rank one.\<close>

lemma net_inv_counts:
  assumes ok: "ring_ok ws origin" and b: "bcomm_init ws origin = Some b" and inv: "net_inv D ws origin b frame p N0 n dl N"
    and r: "0 \<le> r" "r < ws"
  shows "count dl r \<le> 1" and "r = origin \<Longrightarrow> count dl r = 0" and "net_flight N = {#} \<Longrightarrow> r \<noteq> origin \<Longrightarrow> count dl r = 1"
    and "n < nat ws"
proof -
  let ?all = "mset_set ({0..<ws} - {origin})"
  have sum: "dl + (\<Sum>m\<in>#unframed (net_flight N). below ws origin (ring_fuel ws) m) = ?all" and size: "size dl = n"
    using bc_run_inv [OF ok b net_invD(3) [OF inv]] by (simp_all add: bc_inv_def)
  have sub: "dl \<subseteq># ?all" using sum by (metis mset_subset_eq_add_left)
  have all: "count ?all r = (if r = origin then 0 else 1)" using r by (simp add: count_mset_set')
  have "count dl r \<le> count ?all r" using sub by (simp add: mset_subset_eq_count)
  then show "count dl r \<le> 1" "r = origin \<Longrightarrow> count dl r = 0" using all by (auto split: if_splits)
  show "count dl r = 1" if "net_flight N = {#}" "r \<noteq> origin" using sum all that by (simp add: unframed_def)
  have "size ?all = nat (ws - 1)" using ok by (simp add: ring_ok_def)
  with size_mset_mono [OF sub] size have "n \<le> nat (ws - 1)" by argo
  moreover have "2 \<le> ws" using ring_okD [OF ok] by simp
  ultimately show "n < nat ws" by linarith
qed

text \<open>From everywhere the broadcast can be completed: each delivery uses up one of the ranks.\<close>

lemma net_completes:
  assumes ok: "ring_ok ws origin" and b: "bcomm_init ws origin = Some b" and f: "good_frame D origin frame p"
  shows "net_inv D ws origin b frame p N0 n dl N \<Longrightarrow> \<exists>N'. (net_step ws)\<^sup>*\<^sup>* N N' \<and> net_flight N' = {#}"
proof (induction "nat ws - n" arbitrary: n dl N rule: less_induct)
  case less
  show ?case
  proof (cases "net_flight N = {#}")
    case False
    then obtain src r buf where m: "(src, r, buf) \<in># net_flight N" by (metis multiset_nonemptyE prod_cases3)
    obtain e where e: "net_round ((net_eng N r)\<lparr>arrivals := [Some (src, RLO_BCAST, buf)]\<rparr>) = Some e"
      "net_inv D ws origin b frame p N0 (Suc n) (add_mset r dl) (N\<lparr>net_eng := (net_eng N)(r := e),
        net_flight := net_flight N - {#(src, r, buf)#} + posts r (net_eng N r) e\<rparr>)"
      by (rule net_delivered [OF ok b f less.prems m])
    have "n < nat ws" using net_inv_counts(4) [OF ok b less.prems] flight_ranks [OF ok b less.prems m] by blast
    then have "nat ws - Suc n < nat ws - n" by simp
    from less.hyps [OF this e(2)] net_step.net_deliver [OF m e(1), of ws] show ?thesis
      by (meson converse_rtranclp_into_rtranclp)
  qed blast
qed

text \<open>The broadcast of a proposal that has just been started.\<close>

lemma good_frame_bcast:
  assumes "ring_ok ws origin" and "fits_message p"
  shows "good_frame encoded_proposal origin (bcast_frame origin p) (proposal_image p)"
  using frame_length [OF assms(2)] frame_good_arrival [OF assms(2)] frame_payload [OF assms(2)]
  by (simp add: good_frame_def) (simp add: bcast_frame_def get_origin_def codec_simps)

lemma net_inv_start:
  assumes ok: "ring_ok ws origin" and f: "good_frame D origin frame p" and ranks: "\<forall>r\<in>{0..<ws}. rank_ok D ws r (net_eng N r)"
    and flight: "net_flight N = image_mset (\<lambda>d. (origin, d, frame)) (mset (bcast_dests (my_bcomm (net_eng N origin))))"
  obtains b where "bcomm_init ws origin = Some b" and "net_inv D ws origin b frame p N 0 {#} N"
proof -
  have "rank_ok D ws origin (net_eng N origin)" using ranks ring_okD [OF ok] by simp
  then obtain b where b: "bcomm_init ws origin = Some b" "same_ring b (my_bcomm (net_eng N origin))" by (metis rank_okD)
  have "(unframed (net_flight N), {#}) = bc_start origin b"
    by (simp add: unframed_def flight bc_start_def image_mset.compositionality comp_def same_ring_dests(2) [OF b(2)])
  then have "bc_run ws origin b 0 (unframed (net_flight N), {#})" using bc_run.start by metis
  moreover have "\<forall>(s, d, x)\<in>#net_flight N. carries frame x" using f by (auto simp: flight carries_def good_frame_def)
  ultimately have "net_inv D ws origin b frame p N 0 {#} N"
    unfolding net_inv_def using ranks by simp
  with b(1) show thesis by (rule that)
qed

text \<open>New engines of all ranks.\<close>

lemma new_engine_links:
  assumes "RLO_progress_engine_new env cb ctx act e P = Some P'" and "engines P' e = Some eng"
  shows "bcomm_init (ce_size env) (ce_rank env) = Some (my_bcomm eng)" and "arrivals eng = ce_arrivals env"
  using assms by (auto simp: RLO_progress_engine_new_def RLO_msg_new_generic_def Let_def set_eng_def bind_eq_Some_conv)

lemma new_rank_ok:
  assumes "env_ok env" and "ce_arrivals env = []" and "active_engines P = None"
  obtains P' eng where "RLO_progress_engine_new env cb ctx act e P = Some P'" and "engines P' e = Some eng"
    and "rank_ok D (ce_size env) (ce_rank env) eng" and "eng_backlog eng = {#}"
proof -
  obtain P' eng where n: "RLO_progress_engine_new env cb ctx act e P = Some P'" "engines P' e = Some eng" "eng_ok D eng"
    "eng_backlog eng = {#}"
    using new_engine_ok [of env D P e cb ctx act] assms by auto
  show thesis
    by (rule that [OF n(1,2) _ n(4)]) (use new_engine_links [OF n(1,2)] n(3) assms(2) in \<open>auto simp: rank_ok_def\<close>)
qed

end
