(* ===== verification/Network_Properties.thy ===== *)
theory Network_Properties
  imports Network H5_Remote H5_Properties
begin

text \<open>
  The broadcast over a network of ranks: what every rank holds whatever the order of events, with new
  engines of three ranks as the instance.
\<close>

section \<open>From rank to rank\<close>

text \<open>
  C7: a proposal broadcast by one rank of a communicator of 2 to \<open>2 ^ 30\<close> sound engines, whatever they were
  doing, in whatever order messages arrive, rounds of progress find nothing and applications pick up
  packages: no rank gets it twice, the origin not at all, and when no message is under way every other
  rank has it once, to be picked up or picked up already; nothing else is lost or made up, no engine
  gets stuck, and from everywhere the broadcast can be brought to its end.
\<close>

theorem network_broadcast:
  assumes "ring_ok ws origin" and "fits_message p"
    and "\<forall>r\<in>{0..<ws}. rank_ok encoded_proposal ws r (net_eng N0 r)"
    and "net_flight N0 = image_mset (\<lambda>d. (origin, d, bcast_frame origin p)) (mset (bcast_dests (my_bcomm (net_eng N0 origin))))"
    and "(net_step ws)\<^sup>*\<^sup>* N0 N"
  shows "(\<forall>r\<in>{0..<ws}. \<exists>c. c \<le> 1 \<and> (r = origin \<longrightarrow> c = 0) \<and> (net_flight N = {#} \<longrightarrow> r \<noteq> origin \<longrightarrow> c = 1)
        \<and> eng_backlog (net_eng N r) + net_handed N r
          = eng_backlog (net_eng N0 r) + net_handed N0 r + replicate_mset c (proposal_image p))
    \<and> (\<forall>r\<in>{0..<ws}. net_round (net_eng N r) \<noteq> None \<and> checkout_engine (net_eng N r) \<noteq> None)
    \<and> (\<forall>(src, r, buf)\<in>#net_flight N. net_round ((net_eng N r)\<lparr>arrivals := [Some (src, RLO_BCAST, buf)]\<rparr>) \<noteq> None)
    \<and> (\<exists>N'. (net_step ws)\<^sup>*\<^sup>* N N' \<and> net_flight N' = {#})"
proof -
  note f = good_frame_bcast [OF assms(1,2)]
  obtain b where b: "bcomm_init ws origin = Some b"
    "net_inv encoded_proposal ws origin b (bcast_frame origin p) (proposal_image p) N0 0 {#} N0"
    by (rule net_inv_start [OF assms(1) f assms(3,4)])
  obtain n dl where inv: "net_inv encoded_proposal ws origin b (bcast_frame origin p) (proposal_image p) N0 n dl N"
    using net_inv_run [OF assms(1) b(1) f b(2) assms(5)] by blast
  note I = net_invD [OF inv] and cnt = net_inv_counts [OF assms(1) b(1) inv]
  have 1: "\<exists>c. c \<le> 1 \<and> (r = origin \<longrightarrow> c = 0) \<and> (net_flight N = {#} \<longrightarrow> r \<noteq> origin \<longrightarrow> c = 1)
        \<and> eng_backlog (net_eng N r) + net_handed N r
          = eng_backlog (net_eng N0 r) + net_handed N0 r + replicate_mset c (proposal_image p)" if "r \<in> {0..<ws}" for r
    using cnt(1-3) [of r] bspec [OF I(4) that] that by (intro exI [of _ "count dl r"]) simp
  have 2: "net_round (net_eng N r) \<noteq> None \<and> checkout_engine (net_eng N r) \<noteq> None" if "r \<in> {0..<ws}" for r
  proof -
    have r: "eng_ok encoded_proposal (net_eng N r)" "arrivals (net_eng N r) = []"
      using I(1) [of r] that by (simp_all add: rank_ok_def)
    have "net_round (net_eng N r) \<noteq> None" by (rule net_round_idle [OF r]) simp
    then show ?thesis using checkout_engine_ok [OF r(1)] by (auto split: if_splits)
  qed
  have 3: "net_round ((net_eng N r)\<lparr>arrivals := [Some (src, RLO_BCAST, buf)]\<rparr>) \<noteq> None" if "(src, r, buf) \<in># net_flight N" for src r buf
    by (rule net_delivered [OF assms(1) b(1) f inv that]) simp
  show ?thesis using 1 2 3 net_completes [OF assms(1) b(1) f inv] by auto
qed

text \<open>Three new engines, and a proposal that rank 1 has just broadcast.\<close>

lemma demo_network:
  assumes "fits_message p"
  obtains N :: "unit network" where "\<forall>r\<in>{0..<3}. rank_ok encoded_proposal 3 r (net_eng N r)"
    and "net_flight N = image_mset (\<lambda>d. (1, d, bcast_frame 1 p)) (mset (bcast_dests (my_bcomm (net_eng N 1))))"
    and "\<forall>r\<in>{0..<3}. eng_backlog (net_eng N r) = {#} \<and> net_handed N r = {#}"
proof -
  have "\<exists>eng :: unit engine. rank_ok encoded_proposal 3 r eng \<and> eng_backlog eng = {#}" if "r \<in> {0..<3}" for r
  proof -
    let ?env = "\<lparr>ce_size = 3, ce_rank = r, ce_arrivals = [], ce_complete = (\<lambda>i t. True)\<rparr>"
    have "env_ok ?env" "ce_arrivals ?env = []" using that by (simp_all add: env_ok_def)
    then show ?thesis
      by (rule new_rank_ok [where P = no_engines and e = 0 and cb = "\<lambda>b a. Some (1, a)" and ctx = "()" and act = None
          and D = encoded_proposal]) (auto simp: no_engines_def)
  qed
  then obtain E :: "int \<Rightarrow> unit engine" where E: "\<forall>r\<in>{0..<3}. rank_ok encoded_proposal 3 r (E r) \<and> eng_backlog (E r) = {#}"
    by metis
  show thesis
    by (rule that [of "\<lparr>net_eng = E, net_flight = image_mset (\<lambda>d. (1, d, bcast_frame 1 p)) (mset (bcast_dests (my_bcomm (E 1)))),
      net_handed = (\<lambda>r. {#})\<rparr>"]) (use E in simp_all)
qed

theorem network_broadcast_witness:
  "\<exists>N' :: unit network. net_flight N' = {#}
    \<and> eng_backlog (net_eng N' 0) + net_handed N' 0 = {#proposal_image (proposal_at 8 50)#}
    \<and> eng_backlog (net_eng N' 1) + net_handed N' 1 = {#}
    \<and> eng_backlog (net_eng N' 2) + net_handed N' 2 = {#proposal_image (proposal_at 8 50)#}"
proof -
  have fits: "fits_message (proposal_at 8 50)"
    using proposal_at_wf [of 8 50] by (simp add: fits_message_def proposal_at_def)
  obtain N :: "unit network" where N: "\<forall>r\<in>{0..<3}. rank_ok encoded_proposal 3 r (net_eng N r)"
    "net_flight N = image_mset (\<lambda>d. (1, d, bcast_frame 1 (proposal_at 8 50))) (mset (bcast_dests (my_bcomm (net_eng N 1))))"
    "\<forall>r\<in>{0..<3}. eng_backlog (net_eng N r) = {#} \<and> net_handed N r = {#}"
    by (rule demo_network [OF fits])
  have ring: "ring_ok 3 1" by (simp add: ring_ok_def)
  note nb = network_broadcast [OF ring fits N(1,2)]
  obtain N' where N': "(net_step 3)\<^sup>*\<^sup>* N N'" "net_flight N' = {#}" using nb [OF rtranclp.rtrancl_refl] by blast
  have "eng_backlog (net_eng N' r) + net_handed N' r = (if r = 1 then {#} else {#proposal_image (proposal_at 8 50)#})"
    if "r \<in> {0..<3}" for r
    using bspec [OF conjunct1 [OF nb [OF N'(1)]] that] bspec [OF N(3) that] N'(2) by auto
  from this [of 0] this [of 1] this [of 2] N'(2) show ?thesis by auto
qed

end
