(* ===== verification/VOL_Objects.thy ===== *)
theory VOL_Objects
  imports H5_Roundtrip_More H5_Callbacks Metadata Plugin_RLO
begin

text \<open>
  The objects the connector of \<^verbatim>\<open>H5VL_rlo.c\<close> hands out: the wrapper around an object of the connector
  below, the wrapper context, the information of a file access list, and the context all the objects
  of a file share, which is reference counted and freed with the last of them.
\<close>

section \<open>The calls below\<close>

text \<open>
  A call into the connector below, with its arguments; \<open>ptr\<close> is a pointer that is only handed on (a
  buffer, a request token, a \<^verbatim>\<open>va_list\<close>). Whatever such a call writes through its pointers is in the
  state of the library.
\<close>

type_synonym ptr = nat

datatype (plugins only: code) wrap_call =
  V_get_object nat hid_t
| V_wrap_object nat c_int hid_t "nat option"
| V_unwrap_object nat hid_t
| V_free_wrap_ctx nat hid_t

datatype (plugins only: code) attr_call =
  V_attr_open nat loc_params hid_t "byte list" hid_t hid_t ptr
| V_attr_read nat hid_t hid_t ptr hid_t ptr
| V_attr_get nat hid_t c_int hid_t ptr ptr
| V_attr_specific nat loc_params hid_t c_int hid_t ptr ptr
| V_attr_optional nat hid_t hid_t ptr ptr
| V_attr_close nat hid_t hid_t ptr

datatype (plugins only: code) dataset_call =
  V_dataset_open nat loc_params hid_t "byte list" hid_t hid_t ptr
| V_dataset_read nat hid_t hid_t hid_t hid_t hid_t ptr ptr
| V_dataset_write nat hid_t hid_t hid_t hid_t hid_t ptr ptr
| V_dataset_get nat hid_t c_int hid_t ptr ptr
| V_dataset_optional nat hid_t hid_t ptr ptr
| V_dataset_close nat hid_t hid_t ptr

datatype (plugins only: code) datatype_call =
  V_datatype_open nat loc_params hid_t "byte list" hid_t hid_t ptr
| V_datatype_get nat hid_t c_int hid_t ptr ptr
| V_datatype_specific nat hid_t c_int hid_t ptr ptr
| V_datatype_optional nat hid_t hid_t ptr ptr
| V_datatype_close nat hid_t hid_t ptr

datatype (plugins only: code) file_call =
  V_file_create "byte list" c_int hid_t hid_t hid_t ptr
| V_file_open "byte list" c_int hid_t hid_t ptr
| V_file_get nat hid_t c_int hid_t ptr ptr
| V_file_mount nat hid_t hid_t ptr c_int "byte list" nat hid_t
| V_file_access hid_t c_int hid_t ptr hid_t "byte list" ptr
| V_file_specific nat hid_t c_int hid_t ptr ptr
| V_file_optional nat hid_t hid_t ptr ptr
| V_file_close nat hid_t hid_t ptr

datatype (plugins only: code) group_call =
  V_group_open nat loc_params hid_t "byte list" hid_t hid_t ptr
| V_group_get nat hid_t c_int hid_t ptr ptr
| V_group_specific nat hid_t c_int hid_t ptr ptr
| V_group_optional nat hid_t hid_t ptr ptr
| V_group_close nat hid_t hid_t ptr

datatype (plugins only: code) link_call =
  V_link_create c_int "nat option" loc_params hid_t hid_t hid_t hid_t ptr ptr
| V_link_create_hard c_int "nat option" loc_params hid_t hid_t hid_t hid_t ptr "nat option" loc_params
| V_link_copy "nat option" loc_params "nat option" loc_params hid_t hid_t hid_t hid_t ptr
| V_link_move "nat option" loc_params "nat option" loc_params hid_t hid_t hid_t hid_t ptr
| V_link_get nat loc_params hid_t c_int hid_t ptr ptr
| V_link_specific nat loc_params hid_t c_int hid_t ptr ptr
| V_link_optional nat hid_t hid_t ptr ptr

datatype (plugins only: code) object_call =
  V_object_open nat loc_params hid_t ptr hid_t ptr
| V_object_copy nat loc_params "byte list" nat loc_params "byte list" hid_t hid_t hid_t hid_t ptr
| V_object_get nat loc_params hid_t c_int hid_t ptr ptr
| V_object_specific nat loc_params hid_t c_int hid_t ptr ptr
| V_object_optional nat hid_t hid_t ptr ptr

datatype (plugins only: code) request_call =
  V_request_notify nat hid_t ptr ptr
| V_request_cancel nat hid_t
| V_request_optional nat hid_t ptr
| V_request_free nat hid_t

datatype (plugins only: code) blob_call =
  V_blob_put nat hid_t ptr c_ulong ptr ptr
| V_blob_get nat hid_t ptr ptr ptr ptr
| V_blob_specific nat hid_t ptr c_int ptr

datatype (plugins only: code) entry_call =
  Wrap_call wrap_call
| Attr_call attr_call
| Dataset_call dataset_call
| Datatype_call datatype_call
| File_call file_call
| Group_call group_call
| Link_call link_call
| Object_call object_call
| Request_call request_call
| Blob_call blob_call

text \<open>The information of the connector, \<^verbatim>\<open>H5VL_rlo_pass_through_info_t\<close>; no \<open>in_mpi_info\<close> is \<^verbatim>\<open>MPI_INFO_NULL\<close>.\<close>

record vol_info =
  in_under_vol_id :: hid_t
  in_under_vol_info :: "nat option"
  in_time_window_size :: c_ulong
  in_mode :: c_int
  in_mpi_comm :: nat
  in_mpi_info :: "nat option"
  in_world_size :: c_int
  in_my_rank :: c_int

datatype h5o_type = H5O_TYPE_GROUP | H5O_TYPE_DATASET | H5O_TYPE_NAMED_DATATYPE | H5O_TYPE_OTHER

text \<open>
  The library below as the entry points use it. A result that the library does not fill in when it
  fails is \<^const>\<open>None\<close>: the connector looks at no status there, and what it reads is undefined. The
  last fields are what the system is asked when a file is opened: the communicator as the progress
  engine finds it, and clocks.
\<close>

record 'l vol_api = "'l h5_vol" +
  a_open :: "entry_call \<Rightarrow> 'l \<Rightarrow> nat option \<times> 'l"
  a_do :: "entry_call \<Rightarrow> 'l \<Rightarrow> c_int \<times> 'l"
  a_reopen :: "entry_call \<Rightarrow> 'l \<Rightarrow> (c_int \<times> nat option) \<times> 'l"
  a_wait :: "nat \<Rightarrow> hid_t \<Rightarrow> c_ulong \<Rightarrow> 'l \<Rightarrow> (c_int \<times> c_int) \<times> 'l"
  a_waitany :: "nat \<Rightarrow> hid_t \<Rightarrow> nat list \<Rightarrow> c_ulong \<Rightarrow> 'l \<Rightarrow> (c_int \<times> nat \<times> c_int) \<times> 'l"
  a_waitsome :: "nat \<Rightarrow> hid_t \<Rightarrow> nat list \<Rightarrow> c_ulong \<Rightarrow> 'l \<Rightarrow> (c_int \<times> nat) \<times> 'l"
  a_waitall :: "nat \<Rightarrow> hid_t \<Rightarrow> nat list \<Rightarrow> c_ulong \<Rightarrow> 'l \<Rightarrow> (c_int \<times> c_int list) \<times> 'l"
  a_in_progress :: c_int
  a_wrap_ctx :: "nat \<Rightarrow> hid_t \<Rightarrow> 'l \<Rightarrow> nat option \<times> 'l"
  a_native_info :: "nat \<Rightarrow> hid_t \<Rightarrow> hid_t \<Rightarrow> c_int \<Rightarrow> 'l \<Rightarrow> (haddr_t \<times> h5o_type) option \<times> 'l"
  a_attr_name :: "nat \<Rightarrow> hid_t \<Rightarrow> nat \<Rightarrow> 'l \<Rightarrow> (nat \<times> byte list) option \<times> 'l"
  a_attr_space :: "nat \<Rightarrow> hid_t \<Rightarrow> 'l \<Rightarrow> hid_t option \<times> 'l"
  a_ds_space :: "nat \<Rightarrow> hid_t \<Rightarrow> 'l \<Rightarrow> hid_t option \<times> 'l"
  a_npoints :: "hid_t \<Rightarrow> 'l \<Rightarrow> c_ulong"
  a_ndims :: "hid_t \<Rightarrow> 'l \<Rightarrow> c_int"
  a_sclose :: "hid_t \<Rightarrow> 'l \<Rightarrow> 'l"
  a_type_size :: "hid_t \<Rightarrow> 'l \<Rightarrow> c_ulong"
  a_vol_info :: "hid_t \<Rightarrow> 'l \<Rightarrow> vol_info option"
  a_coll_ops :: "hid_t \<Rightarrow> 'l \<Rightarrow> bool"
  a_copy_plist :: "hid_t \<Rightarrow> 'l \<Rightarrow> hid_t \<times> 'l"
  a_set_vol :: "hid_t \<Rightarrow> hid_t \<Rightarrow> nat option \<Rightarrow> 'l \<Rightarrow> 'l"
  a_close_plist :: "hid_t \<Rightarrow> 'l \<Rightarrow> 'l"
  a_dup_comm :: "nat \<Rightarrow> 'l \<Rightarrow> nat \<times> 'l"
  a_dup_info :: "nat \<Rightarrow> 'l \<Rightarrow> nat \<times> 'l"
  a_copy_info :: "hid_t \<Rightarrow> nat \<Rightarrow> 'l \<Rightarrow> nat option \<times> 'l"
  a_free_info :: "hid_t \<Rightarrow> nat \<Rightarrow> 'l \<Rightarrow> 'l"
  a_cmp_cls :: "hid_t \<Rightarrow> hid_t \<Rightarrow> 'l \<Rightarrow> c_int"
  a_cmp_info :: "hid_t \<Rightarrow> nat option \<Rightarrow> nat option \<Rightarrow> 'l \<Rightarrow> c_int"
  a_comm_env :: "nat \<Rightarrow> comm_env"
  a_clock :: "nat \<Rightarrow> nat \<Rightarrow> c_ulong"

section \<open>The state\<close>

text \<open>
  The manager of a file holds its context, in the state of the execution callback. Wrappers and
  wrapper contexts point to it by the address of the context. A pointer that was freed leads to
  nothing, and its use is undefined. The log records what the connector acquires of the library and of
  MPI, and what it releases, in order.
\<close>

type_synonym judgement = "(byte list option \<Rightarrow> judge_ctx \<Rightarrow> (c_int \<times> judge_ctx) option) \<times> judge_ctx"
type_synonym 'l file_mgr =
  "(nat, judgement, comm_env \<times> nat, judge_ctx rlo_state, nat, 'l vol_app) metadata_manager"

record rlo_object =
  obj_type :: c_int
  under_object :: nat
  p_ctx :: nat

record rlo_wrap_ctx =
  wrap_p_ctx :: nat
  under_wrap_ctx :: "nat option"

datatype res_event =
  H5Iinc_ref hid_t
| H5Idec_ref hid_t
| MPI_Comm_dup nat nat
| MPI_Info_dup nat nat
| MPI_Info_free nat
| H5VLcopy_info "nat option"
| H5VLfree_info nat
| H5Pcopy hid_t
| H5Pclose hid_t

record 'l vol_state =
  vo_ctxs :: "nat \<rightharpoonup> 'l file_mgr"
  vo_objs :: "nat \<rightharpoonup> rlo_object"
  vo_wraps :: "nat \<rightharpoonup> rlo_wrap_ctx"
  vo_next :: nat
  vo_log :: "res_event list"
  vo_lib :: 'l
  vo_vs :: "judge_ctx rlo_state"
  vo_rank_debug :: c_int

abbreviation mgr_ctx :: "'l file_mgr \<Rightarrow> prop_ctx" where
  "mgr_ctx m \<equiv> va_ctx (mm_app m)"

definition upd_ctx :: "(prop_ctx \<Rightarrow> prop_ctx) \<Rightarrow> 'l file_mgr \<Rightarrow> 'l file_mgr" where
  "upd_ctx f m = m\<lparr>mm_app := (mm_app m)\<lparr>va_ctx := f (va_ctx (mm_app m))\<rparr>\<rparr>"

definition logged_event :: "res_event \<Rightarrow> 'l vol_state \<Rightarrow> 'l vol_state" where
  "logged_event e st = st\<lparr>vo_log := vo_log st @ [e]\<rparr>"

definition set_ctx :: "nat \<Rightarrow> 'l file_mgr \<Rightarrow> 'l vol_state \<Rightarrow> 'l vol_state" where
  "set_ctx c m st = st\<lparr>vo_ctxs := (vo_ctxs st)(c \<mapsto> m)\<rparr>"

text \<open>
  There is one library and one voting mechanism in the process: the manager of a file works on them as
  it finds them, and leaves them to the next.
\<close>

definition enter :: "'l vol_state \<Rightarrow> 'l file_mgr \<Rightarrow> 'l file_mgr" where
  "enter st m = m\<lparr>mm_app := (mm_app m)\<lparr>va_lib := vo_lib st\<rparr>, mm_vs := vo_vs st\<rparr>"

definition leave :: "nat \<Rightarrow> 'l file_mgr \<Rightarrow> 'l vol_state \<Rightarrow> 'l vol_state" where
  "leave c m st = (set_ctx c m st)\<lparr>vo_lib := va_lib (mm_app m), vo_vs := mm_vs m\<rparr>"

section \<open>Reference counting\<close>

definition prop_ctx_inc_rc :: "nat \<Rightarrow> 'l vol_state \<Rightarrow> 'l vol_state option" where
  "prop_ctx_inc_rc c st = do {
     m \<leftarrow> vo_ctxs st c;
     Some (set_ctx c (upd_ctx (\<lambda>x. x\<lparr>ref_count := ref_count x + 1\<rparr>) m) st) }"

definition prop_ctx_dec_rc :: "nat \<Rightarrow> 'l vol_state \<Rightarrow> 'l vol_state option" where
  "prop_ctx_dec_rc c st = do {
     m \<leftarrow> vo_ctxs st c;
     m \<leftarrow> Some (upd_ctx (\<lambda>x. x\<lparr>ref_count := ref_count x - 1\<rparr>) m);
     (if ref_count (mgr_ctx m) = 0 then do {
        st \<leftarrow> Some (logged_event (H5Idec_ref (under_vol_id (mgr_ctx m))) st);
        (r, m) \<leftarrow> MM_metadata_update_helper_term (enter st m);
        st \<leftarrow> Some (leave c m st);
        Some (st\<lparr>vo_ctxs := (vo_ctxs st)(c := None)\<rparr>) }
      else Some (set_ctx c m st)) }"

definition H5VL_rlo_pass_through_new_obj ::
  "nat \<Rightarrow> rlo_obj_type \<Rightarrow> nat \<Rightarrow> 'l vol_state \<Rightarrow> (nat \<times> 'l vol_state) option" where
  "H5VL_rlo_pass_through_new_obj x t c st = (let p = vo_next st in do {
     st \<leftarrow> Some (st\<lparr>vo_objs := (vo_objs st)(p \<mapsto> \<lparr>obj_type = vl_code t, under_object = x, p_ctx = c\<rparr>),
                    vo_next := p + 1\<rparr>);
     st \<leftarrow> prop_ctx_inc_rc c st;
     Some (p, st) })"

definition H5VL_rlo_pass_through_free_obj :: "nat \<Rightarrow> 'l vol_state \<Rightarrow> 'l vol_state option" where
  "H5VL_rlo_pass_through_free_obj p st = do {
     obj \<leftarrow> vo_objs st p;
     st \<leftarrow> prop_ctx_dec_rc (p_ctx obj) st;
     Some (st\<lparr>vo_objs := (vo_objs st)(p := None)\<rparr>) }"

text \<open>The object below a wrapper and the connector it belongs to.\<close>

definition wrapped :: "nat \<Rightarrow> 'l vol_state \<Rightarrow> (nat \<times> hid_t) option" where
  "wrapped p st = do {
     obj \<leftarrow> vo_objs st p;
     m \<leftarrow> vo_ctxs st (p_ctx obj);
     Some (under_object obj, under_vol_id (mgr_ctx m)) }"

definition call_do :: "('l, 'z) vol_api_scheme \<Rightarrow> entry_call \<Rightarrow> 'l vol_state \<Rightarrow> c_int \<times> 'l vol_state" where
  "call_do h c st = (case a_do h c (vo_lib st) of (r, l) \<Rightarrow> (r, st\<lparr>vo_lib := l\<rparr>))"

definition call_open :: "('l, 'z) vol_api_scheme \<Rightarrow> entry_call \<Rightarrow> 'l vol_state \<Rightarrow> nat option \<times> 'l vol_state" where
  "call_open h c st = (case a_open h c (vo_lib st) of (r, l) \<Rightarrow> (r, st\<lparr>vo_lib := l\<rparr>))"

section \<open>The context of a file\<close>

text \<open>The communicator and the \<^verbatim>\<open>MPI_Info\<close> of the voting plugin are duplicates.\<close>

definition plugin_handles ::
  "('l, 'z) vol_api_scheme \<Rightarrow> vol_info \<Rightarrow> 'l vol_state \<Rightarrow> nat \<times> 'l vol_state" where
  "plugin_handles h info_in st =
     (case a_dup_comm h (in_mpi_comm info_in) (vo_lib st) of (comm, l) \<Rightarrow>
      let st = logged_event (MPI_Comm_dup (in_mpi_comm info_in) comm) (st\<lparr>vo_lib := l\<rparr>) in
      (comm, case in_mpi_info info_in of
         None \<Rightarrow> st
       | Some i \<Rightarrow> (case a_dup_info h i (vo_lib st) of (j, l) \<Rightarrow>
           logged_event (MPI_Info_dup i j) (st\<lparr>vo_lib := l\<rparr>))))"

definition metadata_helper_init ::
  "('l, 'z) vol_api_scheme \<Rightarrow> vol_info \<Rightarrow> nat \<Rightarrow> prop_ctx \<Rightarrow> 'l vol_state \<Rightarrow> ('l file_mgr \<times> 'l vol_state) option" where
  "metadata_helper_init h info_in h5_app_ctx ctx st =
     (case plugin_handles h info_in st of (comm, st) \<Rightarrow>
      let st = st\<lparr>vo_rank_debug := in_my_rank info_in\<rparr>;
          judge = \<lparr>jc_window = None, jc_clock = a_clock h h5_app_ctx, jc_ticks = 0\<rparr>;
          e = vo_next st
      in do {
        mm \<leftarrow> MM_metadata_update_helper_init (sint (in_mode info_in)) (sint (in_world_size info_in))
          (in_time_window_size info_in) (h5_judgement, judge) h5_app_ctx (rlo_plugin (a_comm_env h comm, e))
          (cb_execute_H5VL_RLO h) \<lparr>qs_links = Map.empty, qs_data = Map.empty, qs_num = Map.empty, qs_fresh = 0\<rparr>
          (vo_vs st) \<lparr>va_ctx = ctx, va_lib = vo_lib st\<rparr> (a_clock h h5_app_ctx) 0;
        Some (mm, st\<lparr>vo_next := e + 1, vo_lib := va_lib (mm_app mm), vo_vs := mm_vs mm\<rparr>) })"

text \<open>
  The pointer of the context to its manager is set when the initialisation has returned; from then on
  the judgement finds the window of the file.
\<close>

definition judge_window :: "nat \<Rightarrow> c_ulong \<Rightarrow> judge_ctx rlo_state \<Rightarrow> judge_ctx rlo_state" where
  "judge_window e w v =
     (case engines (rlo_process v) e of
        None \<Rightarrow> v
      | Some eng \<Rightarrow> v\<lparr>rlo_process := set_eng (rlo_process v) e (eng\<lparr>app_ctx := (app_ctx eng)\<lparr>jc_window := Some w\<rparr>\<rparr>)\<rparr>)"

definition prop_ctx_new ::
  "('l, 'z) vol_api_scheme \<Rightarrow> nat \<Rightarrow> vol_info \<Rightarrow> bool \<Rightarrow> 'l vol_state \<Rightarrow> (nat \<times> 'l vol_state) option" where
  "prop_ctx_new h under_obj_file info coll st =
     (let c = vo_next st; env = a_comm_env h (in_mpi_comm info);
          st = logged_event (H5Iinc_ref (in_under_vol_id info)) (st\<lparr>vo_next := c + 1\<rparr>);
          ctx = \<lparr>ref_count = 0, under_file = under_obj_file, under_vol_id = in_under_vol_id info,
            comm_size = word_of_int (ce_size env), ctx_my_rank = word_of_int (ce_rank env), close_count = 0,
            is_collective = coll, under_obj = None, resulting_obj_out = None\<rparr> in do {
        (mm, st) \<leftarrow> metadata_helper_init h info c ctx st;
        st \<leftarrow> Some (st\<lparr>vo_vs := judge_window (vp_context (mm_vm mm)) (time_window_size mm) (vo_vs st)\<rparr>);
        Some (c, set_ctx c mm st) })"

section \<open>Wrapper contexts\<close>

definition H5VL_rlo_pass_through_get_object ::
  "('l, 'z) vol_api_scheme \<Rightarrow> nat \<Rightarrow> 'l vol_state \<Rightarrow> (nat option \<times> 'l vol_state) option" where
  "H5VL_rlo_pass_through_get_object h obj st = do {
     (x, vol) \<leftarrow> wrapped obj st;
     Some (call_open h (Wrap_call (V_get_object x vol)) st) }"

definition H5VL_rlo_pass_through_get_wrap_ctx ::
  "('l, 'z) vol_api_scheme \<Rightarrow> nat \<Rightarrow> 'l vol_state \<Rightarrow> (nat \<times> 'l vol_state) option" where
  "H5VL_rlo_pass_through_get_wrap_ctx h obj st = (let w = vo_next st in do {
     ob \<leftarrow> vo_objs st obj;
     st \<leftarrow> prop_ctx_inc_rc (p_ctx ob) (st\<lparr>vo_next := w + 1\<rparr>);
     (x, vol) \<leftarrow> wrapped obj st;
     (case a_wrap_ctx h x vol (vo_lib st) of (uw, l) \<Rightarrow>
        Some (w, st\<lparr>vo_wraps := (vo_wraps st)(w \<mapsto> \<lparr>wrap_p_ctx = p_ctx ob, under_wrap_ctx = uw\<rparr>), vo_lib := l\<rparr>)) })"

text \<open>The switch over the types of identifiers; any other type fails an assertion.\<close>

definition wrapped_type :: "('l, 'z) vol_api_scheme \<Rightarrow> c_int \<Rightarrow> rlo_obj_type option" where
  "wrapped_type h t =
     (if t = h5i_code h H5I_FILE then Some VL_FILE
      else if t = h5i_code h H5I_GROUP then Some VL_GROUP
      else if t = h5i_code h H5I_DATATYPE then Some VL_NAMED_DATATYPE
      else if t = h5i_code h H5I_DATASET then Some VL_DATASET
      else if t = h5i_code h H5I_ATTR then Some VL_ATTRIBUTES
      else None)"

definition H5VL_rlo_pass_through_wrap_object ::
  "('l, 'z) vol_api_scheme \<Rightarrow> nat \<Rightarrow> c_int \<Rightarrow> nat \<Rightarrow> 'l vol_state \<Rightarrow> (nat option \<times> 'l vol_state) option" where
  "H5VL_rlo_pass_through_wrap_object h obj t wrap st = do {
     w \<leftarrow> vo_wraps st wrap;
     m \<leftarrow> vo_ctxs st (wrap_p_ctx w);
     (case call_open h (Wrap_call (V_wrap_object obj t (under_vol_id (mgr_ctx m)) (under_wrap_ctx w))) st of
        (None, st) \<Rightarrow> Some (None, st)
      | (Some x, st) \<Rightarrow> do {
          rlo_type \<leftarrow> wrapped_type h t;
          (p, st) \<leftarrow> H5VL_rlo_pass_through_new_obj x rlo_type (wrap_p_ctx w) st;
          Some (Some p, st) }) }"

definition H5VL_rlo_pass_through_unwrap_object ::
  "('l, 'z) vol_api_scheme \<Rightarrow> nat \<Rightarrow> 'l vol_state \<Rightarrow> (nat option \<times> 'l vol_state) option" where
  "H5VL_rlo_pass_through_unwrap_object h obj st = do {
     (x, vol) \<leftarrow> wrapped obj st;
     (case call_open h (Wrap_call (V_unwrap_object x vol)) st of
        (None, st) \<Rightarrow> Some (None, st)
      | (Some y, st) \<Rightarrow> do {
          st \<leftarrow> H5VL_rlo_pass_through_free_obj obj st;
          Some (Some y, st) }) }"

definition H5VL_rlo_pass_through_free_wrap_ctx ::
  "('l, 'z) vol_api_scheme \<Rightarrow> nat \<Rightarrow> 'l vol_state \<Rightarrow> (c_int \<times> 'l vol_state) option" where
  "H5VL_rlo_pass_through_free_wrap_ctx h wrap st = do {
     w \<leftarrow> vo_wraps st wrap;
     m \<leftarrow> vo_ctxs st (wrap_p_ctx w);
     st \<leftarrow> Some (case under_wrap_ctx w of
        None \<Rightarrow> st
      | Some u \<Rightarrow> snd (call_do h (Wrap_call (V_free_wrap_ctx u (under_vol_id (mgr_ctx m)))) st));
     st \<leftarrow> prop_ctx_dec_rc (wrap_p_ctx w) st;
     Some (0, st\<lparr>vo_wraps := (vo_wraps st)(wrap := None)\<rparr>) }"

end
