(* ===== verification/VOL_Info.thy ===== *)
theory VOL_Info
  imports VOL_Objects
begin

text \<open>
  The information object of the connector in \<^verbatim>\<open>H5VL_rlo.c\<close>: copying, comparing and freeing it, and
  its form as a string, with the buffers the two conversions write to.
\<close>

section \<open>Copying, comparing, freeing\<close>

text \<open>The duplicates of the communicator and of the \<^verbatim>\<open>MPI_Info\<close> come first, the reference to the identifier after them.\<close>

definition H5VL_rlo_pass_through_info_copy ::
  "('l, 'z) vol_api_scheme \<Rightarrow> vol_info \<Rightarrow> 'l vol_state \<Rightarrow> vol_info \<times> 'l vol_state" where
  "H5VL_rlo_pass_through_info_copy h info st =
     (case a_dup_comm h (in_mpi_comm info) (vo_lib st) of (comm, l) \<Rightarrow>
      let st = logged_event (MPI_Comm_dup (in_mpi_comm info) comm) (st\<lparr>vo_lib := l\<rparr>);
          (mi, st) = (case in_mpi_info info of
             None \<Rightarrow> (None, st)
           | Some i \<Rightarrow> (case a_dup_info h i (vo_lib st) of (j, l) \<Rightarrow>
               (Some j, logged_event (MPI_Info_dup i j) (st\<lparr>vo_lib := l\<rparr>))));
          st = logged_event (H5Iinc_ref (in_under_vol_id info)) st;
          (ui, st) = (case in_under_vol_info info of
             None \<Rightarrow> (None, st)
           | Some i \<Rightarrow> (case a_copy_info h (in_under_vol_id info) i (vo_lib st) of (u, l) \<Rightarrow>
               (u, logged_event (H5VLcopy_info u) (st\<lparr>vo_lib := l\<rparr>))))
      in (\<lparr>in_under_vol_id = in_under_vol_id info, in_under_vol_info = ui,
           in_time_window_size = in_time_window_size info, in_mode = in_mode info, in_mpi_comm = comm,
           in_mpi_info = mi, in_world_size = in_world_size info, in_my_rank = in_my_rank info\<rparr>, st))"

text \<open>The comparison written through \<^verbatim>\<open>cmp_value\<close>; the status is 0 on every path.\<close>

definition H5VL_rlo_pass_through_info_cmp ::
  "('l, 'z) vol_api_scheme \<Rightarrow> vol_info \<Rightarrow> vol_info \<Rightarrow> 'l vol_state \<Rightarrow> c_int" where
  "H5VL_rlo_pass_through_info_cmp h info1 info2 st =
     (let cmp_value = a_cmp_cls h (in_under_vol_id info1) (in_under_vol_id info2) (vo_lib st) in
      if cmp_value \<noteq> 0 then cmp_value
      else a_cmp_info h (in_under_vol_id info1) (in_under_vol_info info1) (in_under_vol_info info2) (vo_lib st))"

text \<open>The communicator of the information is not freed.\<close>

definition H5VL_rlo_pass_through_info_free ::
  "('l, 'z) vol_api_scheme \<Rightarrow> vol_info \<Rightarrow> 'l vol_state \<Rightarrow> c_int \<times> 'l vol_state" where
  "H5VL_rlo_pass_through_info_free h info st =
     (let st = (case in_under_vol_info info of
                  None \<Rightarrow> st
                | Some u \<Rightarrow> logged_event (H5VLfree_info u)
                    (st\<lparr>vo_lib := a_free_info h (in_under_vol_id info) u (vo_lib st)\<rparr>));
          st = logged_event (H5Idec_ref (in_under_vol_id info)) st;
          st = (case in_mpi_info info of None \<Rightarrow> st | Some i \<Rightarrow> logged_event (MPI_Info_free i) st)
      in (0, st))"

section \<open>The form as a string\<close>

text \<open>Characters are bytes, as everywhere; \<open>chars\<close> is the literal of a format.\<close>

definition chars :: "string \<Rightarrow> byte list" where
  "chars s = map (\<lambda>c. of_nat (of_char c)) s"

text \<open>The conversion \<^verbatim>\<open>%u\<close>.\<close>

fun digits :: "nat \<Rightarrow> byte list" where
  "digits n = (if n < 10 then [48 + of_nat n] else digits (n div 10) @ [48 + of_nat (n mod 10)])"

declare digits.simps [simp del]

text \<open>
  The string is printed into a buffer of 32 bytes and as many as the string of the connector below
  has; a longer one runs over the end of the buffer. The value of the connector is an argument, and so
  is its string, null when that connector has none.
\<close>

definition H5VL_rlo_pass_through_info_to_str :: "c_int \<Rightarrow> byte list option \<Rightarrow> byte list option" where
  "H5VL_rlo_pass_through_info_to_str under_value under_vol_string = do {
     under_vol_str_len \<leftarrow> (case under_vol_string of None \<Rightarrow> Some 0 | Some s \<Rightarrow> strlen s);
     (let str = replicate (32 + under_vol_str_len) 0;
          s = (case under_vol_string of None \<Rightarrow> [] | Some s \<Rightarrow> take under_vol_str_len s) in
      write_at 0 (chars ''under_vol='' @ digits (unat under_value) @ chars '';under_info={'' @ s @ chars ''}'' @ [0]) str) }"

text \<open>The conversions of \<^verbatim>\<open>sscanf\<close>: the literal part of the format, then \<^verbatim>\<open>%u\<close> with blanks and a sign before it.\<close>

fun scan_literal :: "byte list \<Rightarrow> byte list \<Rightarrow> byte list option" where
  "scan_literal [] s = Some s"
| "scan_literal (c # cs) [] = None"
| "scan_literal (c # cs) (x # s) = (if c = x then scan_literal cs s else None)"

definition is_digit :: "byte \<Rightarrow> bool" where
  "is_digit c \<longleftrightarrow> 48 \<le> c \<and> c \<le> 57"

definition is_space :: "byte \<Rightarrow> bool" where
  "is_space c \<longleftrightarrow> c = 32 \<or> 9 \<le> c \<and> c \<le> 13"

definition number_of :: "byte list \<Rightarrow> nat" where
  "number_of ds = foldl (\<lambda>n d. 10 * n + (unat d - 48)) 0 ds"

text \<open>A number that does not fit is undefined, and so is the variable when nothing was converted.\<close>

definition scan_unsigned :: "byte list \<Rightarrow> c_int option" where
  "scan_unsigned s =
     (let s = dropWhile is_space s;
          neg = (s \<noteq> [] \<and> hd s = 45);
          s = (if s \<noteq> [] \<and> (hd s = 45 \<or> hd s = 43) then tl s else s);
          ds = takeWhile is_digit s in do {
        require (ds \<noteq> []);
        require (number_of ds < 2 ^ 32);
        Some (if neg then - of_nat (number_of ds) else of_nat (number_of ds)) })"

fun strchr :: "byte \<Rightarrow> byte list \<Rightarrow> nat option" where
  "strchr c [] = None"
| "strchr c (x # s) = (if x = c then Some 0 else map_option Suc (strchr c s))"

fun strrchr :: "byte \<Rightarrow> byte list \<Rightarrow> nat option" where
  "strrchr c [] = None"
| "strrchr c (x # s) =
     (case strrchr c s of Some n \<Rightarrow> Some (Suc n) | None \<Rightarrow> if x = c then Some 0 else None)"

text \<open>
  The string for the connector below is copied into a buffer as long as the distance of the two braces,
  and the zero after it is written at that distance: one past the end. Without braces the pointers
  compared are null; two null pointers fail the assertion, and so does one before the other. A string
  with only the closing one is read from the address 1 on.
\<close>

definition under_info_str :: "byte list \<Rightarrow> byte list option option" where
  "under_info_str str = do {
     under_vol_info_start \<leftarrow> strchr 123 str;
     under_vol_info_end \<leftarrow> strrchr 125 str;
     require (under_vol_info_end > under_vol_info_start);
     (if under_vol_info_end \<noteq> under_vol_info_start + 1 then
        (let n = under_vol_info_end - under_vol_info_start in do {
           buf \<leftarrow> write_at 0 (take (n - 1) (drop (under_vol_info_start + 1) str)) (replicate n 0);
           buf \<leftarrow> write_at n [0] buf;
           Some (Some buf) })
      else Some None) }"

text \<open>
  The fields that the string does not have stay as \<^verbatim>\<open>calloc\<close> left them. \<open>by_value\<close> registers a
  connector by its value, \<open>from_str\<close> asks it for its information; null handles are 0.
\<close>

definition H5VL_rlo_pass_through_str_to_info ::
  "(c_int \<Rightarrow> hid_t) \<Rightarrow> (byte list \<Rightarrow> hid_t \<Rightarrow> nat option) \<Rightarrow> byte list \<Rightarrow> vol_info option" where
  "H5VL_rlo_pass_through_str_to_info by_value from_str str = do {
     str \<leftarrow> (if 0 \<in> set str then Some (takeWhile (\<lambda>c. c \<noteq> 0) str) else None);
     rest \<leftarrow> scan_literal (chars ''under_vol='') str;
     under_vol_value \<leftarrow> scan_unsigned rest;
     (let vol = by_value under_vol_value in do {
        sub \<leftarrow> under_info_str str;
        Some \<lparr>in_under_vol_id = vol,
          in_under_vol_info = (case sub of None \<Rightarrow> None | Some s \<Rightarrow> from_str s vol),
          in_time_window_size = 0, in_mode = 0, in_mpi_comm = 0, in_mpi_info = Some 0, in_world_size = 0,
          in_my_rank = 0\<rparr> }) }"

section \<open>Round trip and overflow\<close>

lemma length_digits: "length (digits n) \<le> k \<longleftrightarrow> n < 10 ^ k" if "0 < k"
  using that
proof (induction n arbitrary: k rule: digits.induct)
  case (1 n)
  show ?case
  proof (cases "n < 10")
    case True
    also have "(10::nat) \<le> 10 ^ k" using "1.prems" by (simp add: self_le_power)
    finally have "n < 10 ^ k" .
    with True "1.prems" show ?thesis by (simp add: digits.simps)
  next
    case False
    then obtain j where k: "k = Suc j" using "1.prems" by (cases k) auto
    show ?thesis
    proof (cases "j = 0")
      case True
      have "digits (n div 10) \<noteq> []" by (simp add: digits.simps)
      with False k True show ?thesis by (auto simp: digits.simps [of n])
    next
      case j: False
      have "length (digits (n div 10)) \<le> j \<longleftrightarrow> n div 10 < 10 ^ j" using "1.IH" False j by simp
      with False k show ?thesis by (simp add: digits.simps [of n] div_less_iff_less_mult mult.commute)
    qed
  qed
qed

lemma digits_are: "set (digits n) \<subseteq> {c. is_digit c}"
proof (induction n rule: digits.induct)
  case (1 n)
  have "is_digit (48 + of_nat m)" if "m < 10" for m :: nat
  proof -
    have "unat (48 + of_nat m :: byte) = 48 + m" using that by (simp add: unat_word_ariths unat_of_nat)
    then show ?thesis using that by (simp add: is_digit_def word_le_nat_alt)
  qed
  with 1 show ?case by (auto simp: digits.simps [of n])
qed

lemma number_of_digits: "number_of (digits n) = n"
proof (induction n rule: digits.induct)
  case (1 n)
  have d: "unat (48 + of_nat m :: byte) - 48 = m" if "m < 10" for m :: nat
    using that by (simp add: unat_word_ariths unat_of_nat)
  show ?case
  proof (cases "n < 10")
    case True
    then show ?thesis by (simp add: digits.simps number_of_def d)
  next
    case False
    with 1 show ?thesis by (simp add: digits.simps [of n] number_of_def d)
  qed
qed

lemma strchr_skip: "c \<notin> set xs \<Longrightarrow> strchr c (xs @ s) = map_option ((+) (length xs)) (strchr c s)"
  by (induction xs; cases "strchr c s") auto

lemma strrchr_none: "c \<notin> set xs \<Longrightarrow> strrchr c xs = None"
  by (induction xs) auto

lemma strrchr_last: "c \<notin> set ys \<Longrightarrow> strrchr c (xs @ c # ys) = Some (length xs)"
  by (induction xs) (auto simp: strrchr_none)

lemma scan_literal_append: "scan_literal cs (cs @ s) = Some s"
  by (induction cs) auto

lemma scan_digits:
  assumes "unat v = n" and "s = [] \<or> \<not> is_digit (hd s)"
  shows "scan_unsigned (digits n @ s) = Some v"
proof -
  have ne: "digits n \<noteq> []" by (simp add: digits.simps)
  moreover have "takeWhile is_digit (digits n @ s) = digits n"
  proof -
    have "takeWhile is_digit s = []" using assms(2) by (cases s) auto
    moreover have "\<forall>x\<in>set (digits n). is_digit x" using digits_are by blast
    ultimately show ?thesis by (simp add: takeWhile_append2)
  qed
  moreover have "dropWhile is_space (digits n @ s) = digits n @ s"
    and "hd (digits n @ s) \<noteq> 45" and "hd (digits n @ s) \<noteq> 43"
  proof -
    have "is_digit (hd (digits n))" using digits_are [of n] ne hd_in_set by blast
    then have "\<not> is_space (hd (digits n))" "hd (digits n) \<noteq> 45" "hd (digits n) \<noteq> 43"
      by (auto simp: is_digit_def is_space_def word_le_nat_alt)
    with ne show "dropWhile is_space (digits n @ s) = digits n @ s"
      and "hd (digits n @ s) \<noteq> 45" and "hd (digits n @ s) \<noteq> 43"
      by (cases "digits n"; simp)+
  qed
  moreover have "n < 2 ^ 32"
  proof -
    have "unat v < 2 ^ LENGTH(32)" by (rule unsigned_less)
    with assms(1) show ?thesis by simp
  qed
  ultimately show ?thesis using assms(1) by (auto simp: scan_unsigned_def Let_def number_of_digits)
qed

text \<open>The string the connector below gives, as printed.\<close>

definition printed :: "byte list option \<Rightarrow> byte list" where
  "printed s = (case s of None \<Rightarrow> [] | Some s \<Rightarrow> takeWhile (\<lambda>c. c \<noteq> 0) s)"

definition info_image :: "c_int \<Rightarrow> byte list option \<Rightarrow> byte list" where
  "info_image v s = chars ''under_vol='' @ digits (unat v) @ chars '';under_info={'' @ printed s @ chars ''}''"

lemma info_to_str_image:
  assumes "\<forall>x. s = Some x \<longrightarrow> 0 \<in> set x"
  shows "H5VL_rlo_pass_through_info_to_str v s =
    (if unat v < 10 ^ 7 then Some (info_image v s @ replicate (8 - length (digits (unat v))) 0) else None)"
proof -
  let ?d = "length (digits (unat v))"
  have len: "length (chars c) = length c" for c by (simp add: chars_def)
  have "(case s of None \<Rightarrow> Some 0 | Some s \<Rightarrow> strlen s) = Some (length (printed s))"
    using assms by (auto simp: strlen_def printed_def split: option.split)
  moreover have "(case s of None \<Rightarrow> [] | Some x \<Rightarrow> take (length (printed s)) x) = printed s"
    by (auto simp: printed_def simp flip: takeWhile_eq_take split: option.split)
  ultimately have "H5VL_rlo_pass_through_info_to_str v s =
      write_at 0 (info_image v s @ [0]) (replicate (32 + length (printed s)) 0)"
    unfolding H5VL_rlo_pass_through_info_to_str_def info_image_def
    by (simp only: Option.bind.simps Let_def append_assoc)
  also have "\<dots> = (if ?d \<le> 7 then Some (info_image v s @ replicate (8 - ?d) 0) else None)"
  proof -
    have n: "length (info_image v s @ [0]) = 25 + ?d + length (printed s)" by (simp add: info_image_def len)
    show ?thesis
    proof (cases "?d \<le> 7")
      case True
      then have "32 + length (printed s) - (25 + ?d + length (printed s)) = 7 - ?d"
        and "replicate (8 - ?d) 0 = [0] @ replicate (7 - ?d) (0 :: byte)"
        by (simp_all flip: replicate_Suc add: Suc_diff_le)
      with True show ?thesis unfolding write_at_def by (simp only: n drop_replicate) simp
    qed (simp only: write_at_def n length_replicate, simp)
  qed
  finally show ?thesis by (simp add: length_digits [of 7])
qed

lemma printed_no_zero: "0 \<notin> set (printed s)"
  by (auto simp: printed_def split: option.splits dest: set_takeWhileD)

lemma info_image_braces:
  shows "strchr 123 (info_image v s) = Some (22 + length (digits (unat v)))"
    and "strrchr 125 (info_image v s) = Some (23 + length (digits (unat v)) + length (printed s))"
    and "0 \<notin> set (info_image v s)"
proof -
  have d: "c \<notin> set (digits (unat v))" if "c \<in> {0, 123, 125}" for c
    using that digits_are [of "unat v"] by (auto simp: is_digit_def word_le_nat_alt)
  have 1: "info_image v s = (chars ''under_vol='' @ digits (unat v) @ chars '';under_info='') @ 123 # printed s @ [125]"
    and 2: "info_image v s = (chars ''under_vol='' @ digits (unat v) @ chars '';under_info={'' @ printed s) @ 125 # []"
    by (simp_all add: info_image_def chars_def)
  show "strchr 123 (info_image v s) = Some (22 + length (digits (unat v)))"
    unfolding 1 using d by (subst strchr_skip) (auto simp: chars_def)
  show "strrchr 125 (info_image v s) = Some (23 + length (digits (unat v)) + length (printed s))"
    unfolding 2 by (subst strrchr_last) (auto simp: chars_def)
  show "0 \<notin> set (info_image v s)"
    unfolding 2 using d printed_no_zero by (auto simp: chars_def)
qed

lemma write_past_end: "write_at (length buf) (c # cs) buf = None"
  by (simp add: write_at_def)

lemma write_at_length: "write_at n bs buf = Some buf' \<Longrightarrow> length buf' = length buf"
  by (auto simp: write_at_def split: if_splits)

lemma under_info_str_image:
  "under_info_str (info_image v s) = (if printed s = [] then Some None else None)"
proof -
  have past: "write_at 0 bs (replicate k 0) \<bind> (\<lambda>buf. write_at k [0] buf \<bind> f) = None" for k bs and f :: "byte list \<Rightarrow> 'b option"
    by (cases "write_at 0 bs (replicate k 0)") (auto simp: write_at_def split: if_splits)
  show ?thesis
    by (cases "printed s = []")
      (simp_all add: under_info_str_def info_image_braces Let_def past)
qed

lemma str_to_info_image:
  "H5VL_rlo_pass_through_str_to_info by_value from_str (info_image v s @ 0 # rest) =
    (if printed s = [] then
       Some \<lparr>in_under_vol_id = by_value v, in_under_vol_info = None, in_time_window_size = 0, in_mode = 0,
         in_mpi_comm = 0, in_mpi_info = Some 0, in_world_size = 0, in_my_rank = 0\<rparr>
     else None)"
proof -
  have "takeWhile (\<lambda>c. c \<noteq> 0) (xs @ 0 # rest) = xs" if "0 \<notin> set xs" for xs :: "byte list"
    using that by (induction xs) auto
  then have "takeWhile (\<lambda>c. c \<noteq> 0) (info_image v s @ 0 # rest) = info_image v s"
    by (simp add: info_image_braces)
  moreover have "scan_literal (chars ''under_vol='') (info_image v s) =
      Some (digits (unat v) @ chars '';under_info={'' @ printed s @ chars ''}'')"
    unfolding info_image_def by (rule scan_literal_append)
  moreover have "scan_unsigned (digits (unat v) @ chars '';under_info={'' @ printed s @ chars ''}'') = Some v"
    by (rule scan_digits) (auto simp: chars_def is_digit_def)
  ultimately show ?thesis by (simp add: H5VL_rlo_pass_through_str_to_info_def under_info_str_image Let_def)
qed

end
