(* ===== verification/VOL_Operations.thy ===== *)
theory VOL_Operations
  imports VOL_Objects
begin

text \<open>
  The entry points of \<^verbatim>\<open>H5VL_rlo.c\<close> that open and close objects, and those that make a proposal of what
  they are asked for: what they encode, and what they make of the answer.
\<close>

section \<open>Opening\<close>

text \<open>What the connector below opened gets a wrapper that shares the context; null stays null.\<close>

definition wrap_result ::
  "rlo_obj_type \<Rightarrow> nat \<Rightarrow> nat option \<times> 'l vol_state \<Rightarrow> (nat option \<times> 'l vol_state) option" where
  "wrap_result t c r =
     (case r of
        (None, st) \<Rightarrow> Some (None, st)
      | (Some x, st) \<Rightarrow> do { (p, st) \<leftarrow> H5VL_rlo_pass_through_new_obj x t c st; Some (Some p, st) })"

definition open_under ::
  "('l, 'z) vol_api_scheme \<Rightarrow> rlo_obj_type \<Rightarrow> nat \<Rightarrow> (nat \<Rightarrow> hid_t \<Rightarrow> entry_call) \<Rightarrow> 'l vol_state
   \<Rightarrow> (nat option \<times> 'l vol_state) option" where
  "open_under h t obj f st = do {
     ob \<leftarrow> vo_objs st obj;
     (x, vol) \<leftarrow> wrapped obj st;
     wrap_result t (p_ctx ob) (call_open h (f x vol) st) }"

definition H5VL_rlo_pass_through_attr_open ::
  "('l, 'z) vol_api_scheme \<Rightarrow> nat \<Rightarrow> loc_params \<Rightarrow> byte list \<Rightarrow> hid_t \<Rightarrow> hid_t \<Rightarrow> ptr \<Rightarrow> 'l vol_state
   \<Rightarrow> (nat option \<times> 'l vol_state) option" where
  "H5VL_rlo_pass_through_attr_open h obj loc_params name aapl_id dxpl_id req st =
     open_under h VL_ATTRIBUTES obj (\<lambda>x vol. Attr_call (V_attr_open x loc_params vol name aapl_id dxpl_id req)) st"

definition H5VL_rlo_pass_through_dataset_open ::
  "('l, 'z) vol_api_scheme \<Rightarrow> nat \<Rightarrow> loc_params \<Rightarrow> byte list \<Rightarrow> hid_t \<Rightarrow> hid_t \<Rightarrow> ptr \<Rightarrow> 'l vol_state
   \<Rightarrow> (nat option \<times> 'l vol_state) option" where
  "H5VL_rlo_pass_through_dataset_open h obj loc_params name dapl_id dxpl_id req st =
     open_under h VL_DATASET obj (\<lambda>x vol. Dataset_call (V_dataset_open x loc_params vol name dapl_id dxpl_id req)) st"

definition H5VL_rlo_pass_through_datatype_open ::
  "('l, 'z) vol_api_scheme \<Rightarrow> nat \<Rightarrow> loc_params \<Rightarrow> byte list \<Rightarrow> hid_t \<Rightarrow> hid_t \<Rightarrow> ptr \<Rightarrow> 'l vol_state
   \<Rightarrow> (nat option \<times> 'l vol_state) option" where
  "H5VL_rlo_pass_through_datatype_open h obj loc_params name tapl_id dxpl_id req st =
     open_under h VL_NAMED_DATATYPE obj (\<lambda>x vol. Datatype_call (V_datatype_open x loc_params vol name tapl_id dxpl_id req)) st"

definition H5VL_rlo_pass_through_group_open ::
  "('l, 'z) vol_api_scheme \<Rightarrow> nat \<Rightarrow> loc_params \<Rightarrow> byte list \<Rightarrow> hid_t \<Rightarrow> hid_t \<Rightarrow> ptr \<Rightarrow> 'l vol_state
   \<Rightarrow> (nat option \<times> 'l vol_state) option" where
  "H5VL_rlo_pass_through_group_open h obj loc_params name gapl_id dxpl_id req st =
     open_under h VL_GROUP obj (\<lambda>x vol. Group_call (V_group_open x loc_params vol name gapl_id dxpl_id req)) st"

definition H5VL_rlo_pass_through_object_open ::
  "('l, 'z) vol_api_scheme \<Rightarrow> nat \<Rightarrow> loc_params \<Rightarrow> ptr \<Rightarrow> hid_t \<Rightarrow> ptr \<Rightarrow> 'l vol_state
   \<Rightarrow> (nat option \<times> 'l vol_state) option" where
  "H5VL_rlo_pass_through_object_open h obj loc_params opened_type dxpl_id req st =
     open_under h VL_INVALID obj (\<lambda>x vol. Object_call (V_object_open x loc_params vol opened_type dxpl_id req)) st"

section \<open>Closing\<close>

text \<open>The wrapper is released when the connector below did not fail.\<close>

definition release_if :: "nat \<Rightarrow> bool \<Rightarrow> 'l vol_state \<Rightarrow> 'l vol_state option" where
  "release_if p b st = (if b then H5VL_rlo_pass_through_free_obj p st else Some st)"

definition close_under ::
  "('l, 'z) vol_api_scheme \<Rightarrow> nat \<Rightarrow> (nat \<Rightarrow> hid_t \<Rightarrow> entry_call) \<Rightarrow> 'l vol_state \<Rightarrow> (c_int \<times> 'l vol_state) option" where
  "close_under h p f st = do {
     (x, vol) \<leftarrow> wrapped p st;
     (case call_do h (f x vol) st of (ret_value, st) \<Rightarrow> do {
        st \<leftarrow> release_if p (0 \<le>s ret_value) st;
        Some (ret_value, st) }) }"

definition H5VL_rlo_pass_through_attr_close ::
  "('l, 'z) vol_api_scheme \<Rightarrow> nat \<Rightarrow> hid_t \<Rightarrow> ptr \<Rightarrow> 'l vol_state \<Rightarrow> (c_int \<times> 'l vol_state) option" where
  "H5VL_rlo_pass_through_attr_close h attr dxpl_id req st =
     close_under h attr (\<lambda>x vol. Attr_call (V_attr_close x vol dxpl_id req)) st"

definition H5VL_rlo_pass_through_dataset_close ::
  "('l, 'z) vol_api_scheme \<Rightarrow> nat \<Rightarrow> hid_t \<Rightarrow> ptr \<Rightarrow> 'l vol_state \<Rightarrow> (c_int \<times> 'l vol_state) option" where
  "H5VL_rlo_pass_through_dataset_close h dset dxpl_id req st =
     close_under h dset (\<lambda>x vol. Dataset_call (V_dataset_close x vol dxpl_id req)) st"

text \<open>An object below is never null here, so the assertion that it is not holds.\<close>

definition H5VL_rlo_pass_through_datatype_close ::
  "('l, 'z) vol_api_scheme \<Rightarrow> nat \<Rightarrow> hid_t \<Rightarrow> ptr \<Rightarrow> 'l vol_state \<Rightarrow> (c_int \<times> 'l vol_state) option" where
  "H5VL_rlo_pass_through_datatype_close h dt dxpl_id req st =
     close_under h dt (\<lambda>x vol. Datatype_call (V_datatype_close x vol dxpl_id req)) st"

text \<open>In a collective file the call below is not made: the status is \<^verbatim>\<open>-1\<close>, and the wrapper stays.\<close>

definition H5VL_rlo_pass_through_group_close ::
  "('l, 'z) vol_api_scheme \<Rightarrow> nat \<Rightarrow> hid_t \<Rightarrow> ptr \<Rightarrow> 'l vol_state \<Rightarrow> (c_int \<times> 'l vol_state) option" where
  "H5VL_rlo_pass_through_group_close h grp dxpl_id req st = do {
     ob \<leftarrow> vo_objs st grp;
     m \<leftarrow> vo_ctxs st (p_ctx ob);
     (if is_collective (mgr_ctx m) then Some (- 1, st)
      else close_under h grp (\<lambda>x vol. Group_call (V_group_close x vol dxpl_id req)) st) }"

section \<open>Submitting\<close>

definition submit ::
  "nat \<Rightarrow> nat proposal \<Rightarrow> 'l vol_state \<Rightarrow> (int \<times> nat proposal \<times> 'l vol_state) option" where
  "submit c p st = do {
     m \<leftarrow> vo_ctxs st c;
     (ret, p, m) \<leftarrow> MM_submit_proposal (enter st m) p;
     Some (ret, p, leave c m st) }"

definition clear_result :: "nat \<Rightarrow> 'l vol_state \<Rightarrow> 'l vol_state option" where
  "clear_result c st = do {
     m \<leftarrow> vo_ctxs st c;
     Some (set_ctx c (upd_ctx (\<lambda>x. x\<lparr>resulting_obj_out := None\<rparr>) m) st) }"

text \<open>
  The proposal of a creating operation: the object the execution left in the context is the result when
  the submission returned 1. A wrapper is made of it, and otherwise the result is null.
\<close>

definition submit_create ::
  "rlo_obj_type \<Rightarrow> nat \<Rightarrow> nat proposal \<Rightarrow> 'l vol_state \<Rightarrow> (nat option \<times> 'l vol_state) option" where
  "submit_create t c p st = do {
     st \<leftarrow> clear_result c st;
     (ret, p, st) \<leftarrow> submit c p st;
     m \<leftarrow> vo_ctxs st c;
     p \<leftarrow> Some (if ret = 1 then p\<lparr>result_obj_local := resulting_obj_out (mgr_ctx m)\<rparr> else p);
     wrap_result t c (result_obj_local p, st) }"

text \<open>
  The address of the parent in the file, and the type of the parent as the switch over the type of the
  location gives it; \<open>ok\<close> are the types it has a case for.
\<close>

definition native_info ::
  "('l, 'z) vol_api_scheme \<Rightarrow> nat \<Rightarrow> hid_t \<Rightarrow> hid_t \<Rightarrow> c_int \<Rightarrow> 'l vol_state \<Rightarrow> ((haddr_t \<times> h5o_type) \<times> 'l vol_state) option" where
  "native_info h x vol dxpl_id t st =
     (case a_native_info h x vol dxpl_id t (vo_lib st) of (oinfo, l) \<Rightarrow> do {
        oinfo \<leftarrow> oinfo;
        Some (oinfo, st\<lparr>vo_lib := l\<rparr>) })"

definition parent_of ::
  "('l, 'z) vol_api_scheme \<Rightarrow> rlo_obj_type set \<Rightarrow> loc_params \<Rightarrow> rlo_obj_type option" where
  "parent_of h ok loc =
     (let t = lp_obj_type loc in
      if t = h5i_code h H5I_FILE \<and> VL_FILE \<in> ok then Some VL_FILE
      else if t = h5i_code h H5I_GROUP \<and> VL_GROUP \<in> ok then Some VL_GROUP
      else if t = h5i_code h H5I_DATASET \<and> VL_DATASET \<in> ok then Some VL_DATASET
      else if t = h5i_code h H5I_DATATYPE \<and> VL_NAMED_DATATYPE \<in> ok then Some VL_NAMED_DATATYPE
      else None)"

text \<open>The parameters the four creating operations have in common.\<close>

definition create_params ::
  "('l, 'z) vol_api_scheme \<Rightarrow> rlo_obj_type set \<Rightarrow> nat \<Rightarrow> loc_params \<Rightarrow> byte list \<Rightarrow> hid_t \<Rightarrow> 'l vol_state
   \<Rightarrow> (param_create \<times> 'l vol_state) option" where
  "create_params h ok obj loc name dxpl_id st = do {
     len \<leftarrow> strlen name;
     (x, vol) \<leftarrow> wrapped obj st;
     (oinfo, st) \<leftarrow> native_info h x vol dxpl_id (lp_obj_type loc) st;
     t \<leftarrow> parent_of h ok loc;
     Some (\<lparr>parent_type = vl_code t, parent_obj_addr = fst oinfo, loc_param_size = 0,
             prm_loc_params = loc, name_size = of_nat len + 1, prm_name = name\<rparr>, st) }"

text \<open>\<open>tv\<close> is the time the proposal is composed at.\<close>

definition submit_encoded ::
  "VL_op_type \<Rightarrow> rlo_obj_type \<Rightarrow> nat \<Rightarrow> timeval \<Rightarrow> (c_ulong \<times> byte list) \<Rightarrow> 'l vol_state
   \<Rightarrow> (nat option \<times> 'l vol_state) option" where
  "submit_encoded op t obj tv enc st = do {
     ob \<leftarrow> vo_objs st obj;
     (case enc of (p_data_size, dat) \<Rightarrow>
        submit_create t (p_ctx ob)
          (compose_proposal tv (vo_rank_debug st) (op_code op) (Some dat) p_data_size) st) }"

section \<open>Creating\<close>

definition H5VL_rlo_pass_through_attr_create ::
  "('l, 'z) vol_api_scheme \<Rightarrow> nat \<Rightarrow> loc_params \<Rightarrow> byte list \<Rightarrow> hid_t \<Rightarrow> hid_t \<Rightarrow> hid_t \<Rightarrow> hid_t \<Rightarrow> hid_t \<Rightarrow> timeval
   \<Rightarrow> 'l vol_state \<Rightarrow> (nat option \<times> 'l vol_state) option" where
  "H5VL_rlo_pass_through_attr_create h obj loc_params name type_id space_id acpl_id aapl_id dxpl_id tv st = do {
     (c, st) \<leftarrow> create_params h {VL_FILE, VL_GROUP, VL_DATASET, VL_NAMED_DATATYPE} obj loc_params name dxpl_id st;
     enc \<leftarrow> attr_create_data h (vo_lib st)
       (param_create.extend c (param_attr.fields type_id space_id acpl_id aapl_id dxpl_id));
     submit_encoded ATTR_CREATE VL_ATTRIBUTES obj tv enc st }"

definition H5VL_rlo_pass_through_dataset_create ::
  "('l, 'z) vol_api_scheme \<Rightarrow> nat \<Rightarrow> loc_params \<Rightarrow> byte list \<Rightarrow> hid_t \<Rightarrow> hid_t \<Rightarrow> hid_t \<Rightarrow> hid_t \<Rightarrow> hid_t \<Rightarrow> hid_t \<Rightarrow> timeval
   \<Rightarrow> 'l vol_state \<Rightarrow> (nat option \<times> 'l vol_state) option" where
  "H5VL_rlo_pass_through_dataset_create h obj loc_params name lcpl_id type_id space_id dcpl_id dapl_id dxpl_id tv st = do {
     (c, st) \<leftarrow> create_params h {VL_FILE, VL_GROUP} obj loc_params name dxpl_id st;
     enc \<leftarrow> ds_create_data h (vo_lib st)
       (param_create.extend c (param_ds_create.fields type_id space_id lcpl_id dcpl_id dapl_id dxpl_id));
     submit_encoded DS_CREATE VL_DATASET obj tv enc st }"

definition H5VL_rlo_pass_through_datatype_commit ::
  "('l, 'z) vol_api_scheme \<Rightarrow> nat \<Rightarrow> loc_params \<Rightarrow> byte list \<Rightarrow> hid_t \<Rightarrow> hid_t \<Rightarrow> hid_t \<Rightarrow> hid_t \<Rightarrow> hid_t \<Rightarrow> timeval
   \<Rightarrow> 'l vol_state \<Rightarrow> (nat option \<times> 'l vol_state) option" where
  "H5VL_rlo_pass_through_datatype_commit h obj loc_params name type_id lcpl_id tcpl_id tapl_id dxpl_id tv st = do {
     (c, st) \<leftarrow> create_params h {VL_FILE, VL_GROUP} obj loc_params name dxpl_id st;
     enc \<leftarrow> dt_commit_data h (vo_lib st)
       (param_create.extend c (param_dt_commit.fields type_id lcpl_id tcpl_id tapl_id dxpl_id));
     submit_encoded DT_COMMIT VL_NAMED_DATATYPE obj tv enc st }"

text \<open>
  The self test that a group creation runs before its proposal: the parameters, with the fields nothing
  is assigned to at 0, are encoded and decoded, and the names compared up to their end.
\<close>

definition c_string :: "byte list \<Rightarrow> byte list option" where
  "c_string s = (if 0 \<in> set s then Some (takeWhile (\<lambda>c. c \<noteq> 0) s) else None)"

definition group_encoder_test ::
  "('l, 'z) vol_api_scheme \<Rightarrow> loc_params \<Rightarrow> byte list \<Rightarrow> hid_t \<Rightarrow> hid_t \<Rightarrow> hid_t \<Rightarrow> hid_t \<Rightarrow> 'l vol_state \<Rightarrow> 'l vol_state option" where
  "group_encoder_test h loc name lcpl_id gcpl_id gapl_id dxpl_id st = do {
     (n, buf_out) \<leftarrow> group_create_data h (vo_lib st)
       (param_create.extend \<lparr>parent_type = 0, parent_obj_addr = 0, loc_param_size = 0, prm_loc_params = loc,
           name_size = 0, prm_name = name\<rparr>
         (param_group.fields lcpl_id gcpl_id gapl_id dxpl_id));
     (gp2, l) \<leftarrow> group_create_decoder h buf_out (vo_lib st);
     a \<leftarrow> c_string name;
     b \<leftarrow> c_string (prm_name gp2);
     require (a = b);
     require (lp_obj_type loc = lp_obj_type (prm_loc_params gp2));
     require (lp_type loc = lp_type (prm_loc_params gp2));
     Some (st\<lparr>vo_lib := l\<rparr>) }"

definition H5VL_rlo_pass_through_group_create ::
  "('l, 'z) vol_api_scheme \<Rightarrow> nat \<Rightarrow> loc_params \<Rightarrow> byte list \<Rightarrow> hid_t \<Rightarrow> hid_t \<Rightarrow> hid_t \<Rightarrow> hid_t \<Rightarrow> timeval
   \<Rightarrow> 'l vol_state \<Rightarrow> (nat option \<times> 'l vol_state) option" where
  "H5VL_rlo_pass_through_group_create h obj loc_params name lcpl_id gcpl_id gapl_id dxpl_id tv st = do {
     (c, st) \<leftarrow> create_params h {VL_FILE, VL_GROUP} obj loc_params name dxpl_id st;
     enc \<leftarrow> group_create_data h (vo_lib st)
       (param_create.extend c (param_group.fields lcpl_id gcpl_id gapl_id dxpl_id));
     st \<leftarrow> group_encoder_test h loc_params name lcpl_id gcpl_id gapl_id dxpl_id st;
     submit_encoded GROUP_CREATE VL_GROUP obj tv enc st }"

section \<open>Writing an attribute, extending a dataset\<close>

text \<open>The name of an attribute: its length is asked for first, then the name, with room for the final zero.\<close>

definition attr_get_name ::
  "('l, 'z) vol_api_scheme \<Rightarrow> nat \<Rightarrow> hid_t \<Rightarrow> 'l vol_state \<Rightarrow> (byte list \<times> 'l vol_state) option" where
  "attr_get_name h x vol st =
     (case a_attr_name h x vol 0 (vo_lib st) of (r, l) \<Rightarrow> do {
        (buf_size, s) \<leftarrow> r;
        (case a_attr_name h x vol (buf_size + 1) l of (r, l) \<Rightarrow> do {
           buf \<leftarrow> (case r of None \<Rightarrow> Some (replicate (buf_size + 1) 0)
                   | Some (n, s) \<Rightarrow> write_at 0 s (replicate (buf_size + 1) 0));
           Some (buf, st\<lparr>vo_lib := l\<rparr>) }) })"

text \<open>
  The status is what the submission returned: 1 for an operation that was carried out. \<open>buf\<close> is what is
  in memory at the pointer to the data, and \<open>this_pid\<close> the process.
\<close>

definition parent_of_attr :: "h5o_type \<Rightarrow> rlo_obj_type option" where
  "parent_of_attr t =
     (case t of H5O_TYPE_GROUP \<Rightarrow> Some VL_GROUP
      | H5O_TYPE_NAMED_DATATYPE \<Rightarrow> Some VL_NAMED_DATATYPE
      | H5O_TYPE_DATASET \<Rightarrow> Some VL_DATASET
      | H5O_TYPE_OTHER \<Rightarrow> None)"

definition attr_size ::
  "('l, 'z) vol_api_scheme \<Rightarrow> nat \<Rightarrow> hid_t \<Rightarrow> hid_t \<Rightarrow> 'l vol_state \<Rightarrow> (c_ulong \<times> 'l vol_state) option" where
  "attr_size h x vol mem_type_id st =
     (case a_attr_space h x vol (vo_lib st) of (r, l) \<Rightarrow> do {
        space_id \<leftarrow> r;
        (let no_elem = ucast (a_npoints h space_id l) :: c_int; l = a_sclose h space_id l in
         Some (scast no_elem * a_type_size h mem_type_id l, st\<lparr>vo_lib := l\<rparr>)) })"

definition H5VL_rlo_pass_through_attr_write ::
  "('l, 'z) vol_api_scheme \<Rightarrow> nat \<Rightarrow> hid_t \<Rightarrow> byte list \<Rightarrow> hid_t \<Rightarrow> c_int \<Rightarrow> timeval \<Rightarrow> 'l vol_state
   \<Rightarrow> (c_int \<times> 'l vol_state) option" where
  "H5VL_rlo_pass_through_attr_write h attr mem_type_id buf dxpl_id this_pid tv st = do {
     ob \<leftarrow> vo_objs st attr;
     (x, vol) \<leftarrow> wrapped attr st;
     (oinfo, st) \<leftarrow> native_info h x vol (h5p_default h) (h5i_code h H5I_ATTR) st;
     t \<leftarrow> parent_of_attr (snd oinfo);
     (attr_name, st) \<leftarrow> attr_get_name h x vol st;
     len \<leftarrow> strlen attr_name;
     (buf_size, st) \<leftarrow> attr_size h x vol mem_type_id st;
     (proposal_size, attr_param_data) \<leftarrow> attr_write_data h (vo_lib st)
       \<lparr>aw_mem_type_id = mem_type_id, aw_dxpl_id = dxpl_id, aw_parent_type = vl_code t,
        aw_parent_obj_addr = fst oinfo, aw_attr_name_size = of_nat len + 1, aw_attr_name = attr_name,
        aw_buf_size = buf_size, aw_buf = buf\<rparr>;
     st \<leftarrow> clear_result (p_ctx ob) st;
     (ret_value, p, st) \<leftarrow> submit (p_ctx ob)
       (compose_proposal tv this_pid (op_code ATTR_WRITE) (Some attr_param_data) proposal_size) st;
     Some (word_of_int ret_value, st) }"

text \<open>
  The new size is printed before anything else, its first two dimensions in every case. The dataset is
  left in the context for the execution here.
\<close>

definition ds_extend_data ::
  "('l, 'z) vol_api_scheme \<Rightarrow> nat \<Rightarrow> hid_t \<Rightarrow> hsize_t list \<Rightarrow> 'l vol_state \<Rightarrow> ((c_ulong \<times> byte list) \<times> 'l vol_state) option" where
  "ds_extend_data h x vol sizes st = do {
     require (0 <s vol);
     (oinfo, st) \<leftarrow> native_info h x vol (h5p_default h) (h5i_code h H5I_DATASET) st;
     (case a_ds_space h x vol (vo_lib st) of (r, l) \<Rightarrow> do {
        space_id \<leftarrow> r;
        enc \<leftarrow> ds_extend_encoder (fst oinfo) (a_ndims h space_id l) sizes;
        Some (enc, st\<lparr>vo_lib := a_sclose h space_id l\<rparr>) }) }"

definition H5VL_rlo_pass_through_dataset_specific ::
  "('l, 'z) vol_api_scheme \<Rightarrow> nat \<Rightarrow> hsize_t list option \<Rightarrow> timeval \<Rightarrow> 'l vol_state \<Rightarrow> (c_int \<times> 'l vol_state) option" where
  "H5VL_rlo_pass_through_dataset_specific h obj set_extent tv st = do {
     sizes \<leftarrow> set_extent;
     require (2 \<le> length sizes);
     ob \<leftarrow> vo_objs st obj;
     (x, vol) \<leftarrow> wrapped obj st;
     ((p_data_size, dat), st) \<leftarrow> ds_extend_data h x vol sizes st;
     m \<leftarrow> vo_ctxs st (p_ctx ob);
     st \<leftarrow> Some (set_ctx (p_ctx ob) (upd_ctx (\<lambda>c. c\<lparr>under_obj := Some x\<rparr>) m) st);
     (ret_value, p, st) \<leftarrow> submit (p_ctx ob)
       (compose_proposal tv (vo_rank_debug st) (op_code DS_EXTEND) (Some dat) p_data_size) st;
     Some (word_of_int ret_value, st) }"

end
