(* ===== verification/VOL_Calls.thy ===== *)
theory VOL_Calls
  imports VOL_Objects
begin

text \<open>
  The entry points of \<^verbatim>\<open>H5VL_rlo.c\<close> that hand a call on to the connector below, with the object under
  the wrapper and the connector of the file in the place of the wrapper. A wrapper that was freed is
  undefined; the status is the one of the connector below.
\<close>

definition delegate ::
  "('l, 'z) vol_api_scheme \<Rightarrow> nat \<Rightarrow> (nat \<Rightarrow> hid_t \<Rightarrow> entry_call) \<Rightarrow> 'l vol_state \<Rightarrow> (c_int \<times> 'l vol_state) option" where
  "delegate h p f st = do { (x, vol) \<leftarrow> wrapped p st; Some (call_do h (f x vol) st) }"

section \<open>Attributes\<close>

definition H5VL_rlo_pass_through_attr_read ::
  "('l, 'z) vol_api_scheme \<Rightarrow> nat \<Rightarrow> hid_t \<Rightarrow> ptr \<Rightarrow> hid_t \<Rightarrow> ptr \<Rightarrow> 'l vol_state \<Rightarrow> (c_int \<times> 'l vol_state) option" where
  "H5VL_rlo_pass_through_attr_read h attr mem_type_id buf dxpl_id req st =
     delegate h attr (\<lambda>x vol. Attr_call (V_attr_read x vol mem_type_id buf dxpl_id req)) st"

definition H5VL_rlo_pass_through_attr_get ::
  "('l, 'z) vol_api_scheme \<Rightarrow> nat \<Rightarrow> c_int \<Rightarrow> hid_t \<Rightarrow> ptr \<Rightarrow> ptr \<Rightarrow> 'l vol_state \<Rightarrow> (c_int \<times> 'l vol_state) option" where
  "H5VL_rlo_pass_through_attr_get h obj get_type dxpl_id req args st =
     delegate h obj (\<lambda>x vol. Attr_call (V_attr_get x vol get_type dxpl_id req args)) st"

definition H5VL_rlo_pass_through_attr_specific ::
  "('l, 'z) vol_api_scheme \<Rightarrow> nat \<Rightarrow> loc_params \<Rightarrow> c_int \<Rightarrow> hid_t \<Rightarrow> ptr \<Rightarrow> ptr \<Rightarrow> 'l vol_state \<Rightarrow> (c_int \<times> 'l vol_state) option" where
  "H5VL_rlo_pass_through_attr_specific h obj loc_params specific_type dxpl_id req args st =
     delegate h obj (\<lambda>x vol. Attr_call (V_attr_specific x loc_params vol specific_type dxpl_id req args)) st"

definition H5VL_rlo_pass_through_attr_optional ::
  "('l, 'z) vol_api_scheme \<Rightarrow> nat \<Rightarrow> hid_t \<Rightarrow> ptr \<Rightarrow> ptr \<Rightarrow> 'l vol_state \<Rightarrow> (c_int \<times> 'l vol_state) option" where
  "H5VL_rlo_pass_through_attr_optional h obj dxpl_id req args st =
     delegate h obj (\<lambda>x vol. Attr_call (V_attr_optional x vol dxpl_id req args)) st"

section \<open>Datasets\<close>

definition H5VL_rlo_pass_through_dataset_read ::
  "('l, 'z) vol_api_scheme \<Rightarrow> nat \<Rightarrow> hid_t \<Rightarrow> hid_t \<Rightarrow> hid_t \<Rightarrow> hid_t \<Rightarrow> ptr \<Rightarrow> ptr \<Rightarrow> 'l vol_state \<Rightarrow> (c_int \<times> 'l vol_state) option" where
  "H5VL_rlo_pass_through_dataset_read h dset mem_type_id mem_space_id file_space_id plist_id buf req st =
     delegate h dset (\<lambda>x vol. Dataset_call (V_dataset_read x vol mem_type_id mem_space_id file_space_id plist_id buf req)) st"

definition H5VL_rlo_pass_through_dataset_write ::
  "('l, 'z) vol_api_scheme \<Rightarrow> nat \<Rightarrow> hid_t \<Rightarrow> hid_t \<Rightarrow> hid_t \<Rightarrow> hid_t \<Rightarrow> ptr \<Rightarrow> ptr \<Rightarrow> 'l vol_state \<Rightarrow> (c_int \<times> 'l vol_state) option" where
  "H5VL_rlo_pass_through_dataset_write h dset mem_type_id mem_space_id file_space_id plist_id buf req st =
     delegate h dset (\<lambda>x vol. Dataset_call (V_dataset_write x vol mem_type_id mem_space_id file_space_id plist_id buf req)) st"

definition H5VL_rlo_pass_through_dataset_get ::
  "('l, 'z) vol_api_scheme \<Rightarrow> nat \<Rightarrow> c_int \<Rightarrow> hid_t \<Rightarrow> ptr \<Rightarrow> ptr \<Rightarrow> 'l vol_state \<Rightarrow> (c_int \<times> 'l vol_state) option" where
  "H5VL_rlo_pass_through_dataset_get h dset get_type dxpl_id req args st =
     delegate h dset (\<lambda>x vol. Dataset_call (V_dataset_get x vol get_type dxpl_id req args)) st"

definition H5VL_rlo_pass_through_dataset_optional ::
  "('l, 'z) vol_api_scheme \<Rightarrow> nat \<Rightarrow> hid_t \<Rightarrow> ptr \<Rightarrow> ptr \<Rightarrow> 'l vol_state \<Rightarrow> (c_int \<times> 'l vol_state) option" where
  "H5VL_rlo_pass_through_dataset_optional h obj dxpl_id req args st =
     delegate h obj (\<lambda>x vol. Dataset_call (V_dataset_optional x vol dxpl_id req args)) st"

section \<open>Datatypes\<close>

definition H5VL_rlo_pass_through_datatype_get ::
  "('l, 'z) vol_api_scheme \<Rightarrow> nat \<Rightarrow> c_int \<Rightarrow> hid_t \<Rightarrow> ptr \<Rightarrow> ptr \<Rightarrow> 'l vol_state \<Rightarrow> (c_int \<times> 'l vol_state) option" where
  "H5VL_rlo_pass_through_datatype_get h dt get_type dxpl_id req args st =
     delegate h dt (\<lambda>x vol. Datatype_call (V_datatype_get x vol get_type dxpl_id req args)) st"

definition H5VL_rlo_pass_through_datatype_specific ::
  "('l, 'z) vol_api_scheme \<Rightarrow> nat \<Rightarrow> c_int \<Rightarrow> hid_t \<Rightarrow> ptr \<Rightarrow> ptr \<Rightarrow> 'l vol_state \<Rightarrow> (c_int \<times> 'l vol_state) option" where
  "H5VL_rlo_pass_through_datatype_specific h obj specific_type dxpl_id req args st =
     delegate h obj (\<lambda>x vol. Datatype_call (V_datatype_specific x vol specific_type dxpl_id req args)) st"

definition H5VL_rlo_pass_through_datatype_optional ::
  "('l, 'z) vol_api_scheme \<Rightarrow> nat \<Rightarrow> hid_t \<Rightarrow> ptr \<Rightarrow> ptr \<Rightarrow> 'l vol_state \<Rightarrow> (c_int \<times> 'l vol_state) option" where
  "H5VL_rlo_pass_through_datatype_optional h obj dxpl_id req args st =
     delegate h obj (\<lambda>x vol. Datatype_call (V_datatype_optional x vol dxpl_id req args)) st"

section \<open>Files\<close>

definition H5VL_rlo_pass_through_file_get ::
  "('l, 'z) vol_api_scheme \<Rightarrow> nat \<Rightarrow> c_int \<Rightarrow> hid_t \<Rightarrow> ptr \<Rightarrow> ptr \<Rightarrow> 'l vol_state \<Rightarrow> (c_int \<times> 'l vol_state) option" where
  "H5VL_rlo_pass_through_file_get h file get_type dxpl_id req args st =
     delegate h file (\<lambda>x vol. File_call (V_file_get x vol get_type dxpl_id req args)) st"

definition H5VL_rlo_pass_through_file_optional ::
  "('l, 'z) vol_api_scheme \<Rightarrow> nat \<Rightarrow> hid_t \<Rightarrow> ptr \<Rightarrow> ptr \<Rightarrow> 'l vol_state \<Rightarrow> (c_int \<times> 'l vol_state) option" where
  "H5VL_rlo_pass_through_file_optional h file dxpl_id req args st =
     delegate h file (\<lambda>x vol. File_call (V_file_optional x vol dxpl_id req args)) st"

section \<open>Groups\<close>

definition H5VL_rlo_pass_through_group_get ::
  "('l, 'z) vol_api_scheme \<Rightarrow> nat \<Rightarrow> c_int \<Rightarrow> hid_t \<Rightarrow> ptr \<Rightarrow> ptr \<Rightarrow> 'l vol_state \<Rightarrow> (c_int \<times> 'l vol_state) option" where
  "H5VL_rlo_pass_through_group_get h obj get_type dxpl_id req args st =
     delegate h obj (\<lambda>x vol. Group_call (V_group_get x vol get_type dxpl_id req args)) st"

definition H5VL_rlo_pass_through_group_specific ::
  "('l, 'z) vol_api_scheme \<Rightarrow> nat \<Rightarrow> c_int \<Rightarrow> hid_t \<Rightarrow> ptr \<Rightarrow> ptr \<Rightarrow> 'l vol_state \<Rightarrow> (c_int \<times> 'l vol_state) option" where
  "H5VL_rlo_pass_through_group_specific h obj specific_type dxpl_id req args st =
     delegate h obj (\<lambda>x vol. Group_call (V_group_specific x vol specific_type dxpl_id req args)) st"

definition H5VL_rlo_pass_through_group_optional ::
  "('l, 'z) vol_api_scheme \<Rightarrow> nat \<Rightarrow> hid_t \<Rightarrow> ptr \<Rightarrow> ptr \<Rightarrow> 'l vol_state \<Rightarrow> (c_int \<times> 'l vol_state) option" where
  "H5VL_rlo_pass_through_group_optional h obj dxpl_id req args st =
     delegate h obj (\<lambda>x vol. Group_call (V_group_optional x vol dxpl_id req args)) st"

section \<open>Links\<close>

definition H5VL_rlo_pass_through_link_get ::
  "('l, 'z) vol_api_scheme \<Rightarrow> nat \<Rightarrow> loc_params \<Rightarrow> c_int \<Rightarrow> hid_t \<Rightarrow> ptr \<Rightarrow> ptr \<Rightarrow> 'l vol_state \<Rightarrow> (c_int \<times> 'l vol_state) option" where
  "H5VL_rlo_pass_through_link_get h obj loc_params get_type dxpl_id req args st =
     delegate h obj (\<lambda>x vol. Link_call (V_link_get x loc_params vol get_type dxpl_id req args)) st"

definition H5VL_rlo_pass_through_link_specific ::
  "('l, 'z) vol_api_scheme \<Rightarrow> nat \<Rightarrow> loc_params \<Rightarrow> c_int \<Rightarrow> hid_t \<Rightarrow> ptr \<Rightarrow> ptr \<Rightarrow> 'l vol_state \<Rightarrow> (c_int \<times> 'l vol_state) option" where
  "H5VL_rlo_pass_through_link_specific h obj loc_params specific_type dxpl_id req args st =
     delegate h obj (\<lambda>x vol. Link_call (V_link_specific x loc_params vol specific_type dxpl_id req args)) st"

definition H5VL_rlo_pass_through_link_optional ::
  "('l, 'z) vol_api_scheme \<Rightarrow> nat \<Rightarrow> hid_t \<Rightarrow> ptr \<Rightarrow> ptr \<Rightarrow> 'l vol_state \<Rightarrow> (c_int \<times> 'l vol_state) option" where
  "H5VL_rlo_pass_through_link_optional h obj dxpl_id req args st =
     delegate h obj (\<lambda>x vol. Link_call (V_link_optional x vol dxpl_id req args)) st"

section \<open>Objects\<close>

definition H5VL_rlo_pass_through_object_get ::
  "('l, 'z) vol_api_scheme \<Rightarrow> nat \<Rightarrow> loc_params \<Rightarrow> c_int \<Rightarrow> hid_t \<Rightarrow> ptr \<Rightarrow> ptr \<Rightarrow> 'l vol_state \<Rightarrow> (c_int \<times> 'l vol_state) option" where
  "H5VL_rlo_pass_through_object_get h obj loc_params get_type dxpl_id req args st =
     delegate h obj (\<lambda>x vol. Object_call (V_object_get x loc_params vol get_type dxpl_id req args)) st"

definition H5VL_rlo_pass_through_object_specific ::
  "('l, 'z) vol_api_scheme \<Rightarrow> nat \<Rightarrow> loc_params \<Rightarrow> c_int \<Rightarrow> hid_t \<Rightarrow> ptr \<Rightarrow> ptr \<Rightarrow> 'l vol_state \<Rightarrow> (c_int \<times> 'l vol_state) option" where
  "H5VL_rlo_pass_through_object_specific h obj loc_params specific_type dxpl_id req args st =
     delegate h obj (\<lambda>x vol. Object_call (V_object_specific x loc_params vol specific_type dxpl_id req args)) st"

definition H5VL_rlo_pass_through_object_optional ::
  "('l, 'z) vol_api_scheme \<Rightarrow> nat \<Rightarrow> hid_t \<Rightarrow> ptr \<Rightarrow> ptr \<Rightarrow> 'l vol_state \<Rightarrow> (c_int \<times> 'l vol_state) option" where
  "H5VL_rlo_pass_through_object_optional h obj dxpl_id req args st =
     delegate h obj (\<lambda>x vol. Object_call (V_object_optional x vol dxpl_id req args)) st"

section \<open>Requests\<close>

definition H5VL_rlo_pass_through_request_optional ::
  "('l, 'z) vol_api_scheme \<Rightarrow> nat \<Rightarrow> ptr \<Rightarrow> 'l vol_state \<Rightarrow> (c_int \<times> 'l vol_state) option" where
  "H5VL_rlo_pass_through_request_optional h obj args st =
     delegate h obj (\<lambda>x vol. Request_call (V_request_optional x vol args)) st"

section \<open>Blobs\<close>

definition H5VL_rlo_pass_through_blob_put ::
  "('l, 'z) vol_api_scheme \<Rightarrow> nat \<Rightarrow> ptr \<Rightarrow> c_ulong \<Rightarrow> ptr \<Rightarrow> ptr \<Rightarrow> 'l vol_state \<Rightarrow> (c_int \<times> 'l vol_state) option" where
  "H5VL_rlo_pass_through_blob_put h obj buf sz blob_id ctx st =
     delegate h obj (\<lambda>x vol. Blob_call (V_blob_put x vol buf sz blob_id ctx)) st"

definition H5VL_rlo_pass_through_blob_get ::
  "('l, 'z) vol_api_scheme \<Rightarrow> nat \<Rightarrow> ptr \<Rightarrow> ptr \<Rightarrow> ptr \<Rightarrow> ptr \<Rightarrow> 'l vol_state \<Rightarrow> (c_int \<times> 'l vol_state) option" where
  "H5VL_rlo_pass_through_blob_get h obj blob_id buf sz ctx st =
     delegate h obj (\<lambda>x vol. Blob_call (V_blob_get x vol blob_id buf sz ctx)) st"

definition H5VL_rlo_pass_through_blob_specific ::
  "('l, 'z) vol_api_scheme \<Rightarrow> nat \<Rightarrow> ptr \<Rightarrow> c_int \<Rightarrow> ptr \<Rightarrow> 'l vol_state \<Rightarrow> (c_int \<times> 'l vol_state) option" where
  "H5VL_rlo_pass_through_blob_specific h obj blob_id specific_type args st =
     delegate h obj (\<lambda>x vol. Blob_call (V_blob_specific x vol blob_id specific_type args)) st"

lemmas delegates = H5VL_rlo_pass_through_attr_read_def H5VL_rlo_pass_through_attr_get_def
  H5VL_rlo_pass_through_attr_specific_def H5VL_rlo_pass_through_attr_optional_def
  H5VL_rlo_pass_through_dataset_read_def H5VL_rlo_pass_through_dataset_write_def
  H5VL_rlo_pass_through_dataset_get_def H5VL_rlo_pass_through_dataset_optional_def
  H5VL_rlo_pass_through_datatype_get_def H5VL_rlo_pass_through_datatype_specific_def
  H5VL_rlo_pass_through_datatype_optional_def H5VL_rlo_pass_through_file_get_def
  H5VL_rlo_pass_through_file_optional_def H5VL_rlo_pass_through_group_get_def
  H5VL_rlo_pass_through_group_specific_def H5VL_rlo_pass_through_group_optional_def
  H5VL_rlo_pass_through_link_get_def H5VL_rlo_pass_through_link_specific_def
  H5VL_rlo_pass_through_link_optional_def H5VL_rlo_pass_through_object_get_def
  H5VL_rlo_pass_through_object_specific_def H5VL_rlo_pass_through_object_optional_def
  H5VL_rlo_pass_through_request_optional_def H5VL_rlo_pass_through_blob_put_def
  H5VL_rlo_pass_through_blob_get_def H5VL_rlo_pass_through_blob_specific_def

section \<open>Any of them\<close>

inductive vol_delegate :: "('l, 'z) vol_api_scheme \<Rightarrow> 'l vol_state \<Rightarrow> 'l vol_state \<Rightarrow> bool" for h where
  "H5VL_rlo_pass_through_attr_read h attr mem_type_id buf dxpl_id req st = Some (r, st') \<Longrightarrow> vol_delegate h st st'"
|  "H5VL_rlo_pass_through_attr_get h obj get_type dxpl_id req args st = Some (r, st') \<Longrightarrow> vol_delegate h st st'"
|  "H5VL_rlo_pass_through_attr_specific h obj loc_params specific_type dxpl_id req args st = Some (r, st') \<Longrightarrow> vol_delegate h st st'"
|  "H5VL_rlo_pass_through_attr_optional h obj dxpl_id req args st = Some (r, st') \<Longrightarrow> vol_delegate h st st'"
|  "H5VL_rlo_pass_through_dataset_read h dset mem_type_id mem_space_id file_space_id plist_id buf req st = Some (r, st') \<Longrightarrow> vol_delegate h st st'"
|  "H5VL_rlo_pass_through_dataset_write h dset mem_type_id mem_space_id file_space_id plist_id buf req st = Some (r, st') \<Longrightarrow> vol_delegate h st st'"
|  "H5VL_rlo_pass_through_dataset_get h dset get_type dxpl_id req args st = Some (r, st') \<Longrightarrow> vol_delegate h st st'"
|  "H5VL_rlo_pass_through_dataset_optional h obj dxpl_id req args st = Some (r, st') \<Longrightarrow> vol_delegate h st st'"
|  "H5VL_rlo_pass_through_datatype_get h dt get_type dxpl_id req args st = Some (r, st') \<Longrightarrow> vol_delegate h st st'"
|  "H5VL_rlo_pass_through_datatype_specific h obj specific_type dxpl_id req args st = Some (r, st') \<Longrightarrow> vol_delegate h st st'"
|  "H5VL_rlo_pass_through_datatype_optional h obj dxpl_id req args st = Some (r, st') \<Longrightarrow> vol_delegate h st st'"
|  "H5VL_rlo_pass_through_file_get h file get_type dxpl_id req args st = Some (r, st') \<Longrightarrow> vol_delegate h st st'"
|  "H5VL_rlo_pass_through_file_optional h file dxpl_id req args st = Some (r, st') \<Longrightarrow> vol_delegate h st st'"
|  "H5VL_rlo_pass_through_group_get h obj get_type dxpl_id req args st = Some (r, st') \<Longrightarrow> vol_delegate h st st'"
|  "H5VL_rlo_pass_through_group_specific h obj specific_type dxpl_id req args st = Some (r, st') \<Longrightarrow> vol_delegate h st st'"
|  "H5VL_rlo_pass_through_group_optional h obj dxpl_id req args st = Some (r, st') \<Longrightarrow> vol_delegate h st st'"
|  "H5VL_rlo_pass_through_link_get h obj loc_params get_type dxpl_id req args st = Some (r, st') \<Longrightarrow> vol_delegate h st st'"
|  "H5VL_rlo_pass_through_link_specific h obj loc_params specific_type dxpl_id req args st = Some (r, st') \<Longrightarrow> vol_delegate h st st'"
|  "H5VL_rlo_pass_through_link_optional h obj dxpl_id req args st = Some (r, st') \<Longrightarrow> vol_delegate h st st'"
|  "H5VL_rlo_pass_through_object_get h obj loc_params get_type dxpl_id req args st = Some (r, st') \<Longrightarrow> vol_delegate h st st'"
|  "H5VL_rlo_pass_through_object_specific h obj loc_params specific_type dxpl_id req args st = Some (r, st') \<Longrightarrow> vol_delegate h st st'"
|  "H5VL_rlo_pass_through_object_optional h obj dxpl_id req args st = Some (r, st') \<Longrightarrow> vol_delegate h st st'"
|  "H5VL_rlo_pass_through_request_optional h obj args st = Some (r, st') \<Longrightarrow> vol_delegate h st st'"
|  "H5VL_rlo_pass_through_blob_put h obj buf sz blob_id ctx st = Some (r, st') \<Longrightarrow> vol_delegate h st st'"
|  "H5VL_rlo_pass_through_blob_get h obj blob_id buf sz ctx st = Some (r, st') \<Longrightarrow> vol_delegate h st st'"
|  "H5VL_rlo_pass_through_blob_specific h obj blob_id specific_type args st = Some (r, st') \<Longrightarrow> vol_delegate h st st'"

text \<open>They call the library and touch nothing of the connector's own.\<close>

lemma delegate_frame: "delegate h p f st = Some (r, st') \<Longrightarrow> \<exists>l. st' = st\<lparr>vo_lib := l\<rparr>"
  by (auto simp: delegate_def call_do_def bind_eq_Some_conv case_prod_unfold)

lemma vol_delegate_frame: "vol_delegate h st st' \<Longrightarrow> \<exists>l. st' = st\<lparr>vo_lib := l\<rparr>"
  by (induction rule: vol_delegate.induct) (auto simp only: delegates dest: delegate_frame)

end
