(* ===== verification/VOL_Files.thy ===== *)
theory VOL_Files
  imports VOL_Info VOL_Operations VOL_Calls
begin

text \<open>
  Files, links and requests in \<^verbatim>\<open>H5VL_rlo.c\<close>: creating and opening a file with the context its objects
  share, the collective closing of it, the operations that take more than one wrapper, and the
  requests, which are released when they have completed.
\<close>

section \<open>Creating and opening\<close>

text \<open>
  The library answers \<^verbatim>\<open>H5Pget_vol_info\<close> with a copy, made by the connector's own callback. A list without
  information is undefined.
\<close>

definition get_vol_info ::
  "('l, 'z) vol_api_scheme \<Rightarrow> hid_t \<Rightarrow> 'l vol_state \<Rightarrow> (vol_info \<times> 'l vol_state) option" where
  "get_vol_info h fapl_id st = do {
     info \<leftarrow> a_vol_info h fapl_id (vo_lib st);
     Some (H5VL_rlo_pass_through_info_copy h info st) }"

definition under_fapl ::
  "('l, 'z) vol_api_scheme \<Rightarrow> hid_t \<Rightarrow> vol_info \<Rightarrow> 'l vol_state \<Rightarrow> hid_t \<times> 'l vol_state" where
  "under_fapl h fapl_id info st =
     (case a_copy_plist h fapl_id (vo_lib st) of (i, l) \<Rightarrow>
        (i, logged_event (H5Pcopy i) (st\<lparr>vo_lib := a_set_vol h i (in_under_vol_id info) (in_under_vol_info info) l\<rparr>)))"

definition close_fapl :: "('l, 'z) vol_api_scheme \<Rightarrow> hid_t \<Rightarrow> 'l vol_state \<Rightarrow> 'l vol_state" where
  "close_fapl h i st = logged_event (H5Pclose i) (st\<lparr>vo_lib := a_close_plist h i (vo_lib st)\<rparr>)"

definition file_with ::
  "('l, 'z) vol_api_scheme \<Rightarrow> (hid_t \<Rightarrow> entry_call) \<Rightarrow> hid_t \<Rightarrow> 'l vol_state \<Rightarrow> (nat option \<times> 'l vol_state) option" where
  "file_with h f fapl_id st = do {
     (info, st) \<leftarrow> get_vol_info h fapl_id st;
     (let coll = a_coll_ops h fapl_id (vo_lib st); (fapl, st) = under_fapl h fapl_id info st in do {
        (file, st) \<leftarrow>
          (case call_open h (f fapl) st of
             (None, st) \<Rightarrow> Some (None, st)
           | (Some x, st) \<Rightarrow> do {
               st \<leftarrow> Some (st\<lparr>vo_rank_debug := word_of_int (ce_rank (a_comm_env h (in_mpi_comm info)))\<rparr>);
               (h5_ctx, st) \<leftarrow> prop_ctx_new h x info coll st;
               (p, st) \<leftarrow> H5VL_rlo_pass_through_new_obj x VL_FILE h5_ctx st;
               Some (Some p, st) });
        st \<leftarrow> Some (close_fapl h fapl st);
        (case H5VL_rlo_pass_through_info_free h info st of (r, st) \<Rightarrow> Some (file, st)) }) }"

definition H5VL_rlo_pass_through_file_create ::
  "('l, 'z) vol_api_scheme \<Rightarrow> byte list \<Rightarrow> c_int \<Rightarrow> hid_t \<Rightarrow> hid_t \<Rightarrow> hid_t \<Rightarrow> ptr \<Rightarrow> 'l vol_state
   \<Rightarrow> (nat option \<times> 'l vol_state) option" where
  "H5VL_rlo_pass_through_file_create h name flags fcpl_id fapl_id dxpl_id req st =
     file_with h (\<lambda>fapl. File_call (V_file_create name flags fcpl_id fapl dxpl_id req)) fapl_id st"

definition H5VL_rlo_pass_through_file_open ::
  "('l, 'z) vol_api_scheme \<Rightarrow> byte list \<Rightarrow> c_int \<Rightarrow> hid_t \<Rightarrow> hid_t \<Rightarrow> ptr \<Rightarrow> 'l vol_state
   \<Rightarrow> (nat option \<times> 'l vol_state) option" where
  "H5VL_rlo_pass_through_file_open h name flags fapl_id dxpl_id req st =
     file_with h (\<lambda>fapl. File_call (V_file_open name flags fapl dxpl_id req)) fapl_id st"

section \<open>Closing\<close>

text \<open>
  Every rank proposes to close, and waits until as many such proposals were executed here as there are
  ranks. The counts are compared without sign.
\<close>

partial_function (option) await_close :: "'l file_mgr \<Rightarrow> 'l file_mgr option" where
  "await_close m =
     (if close_count (mgr_ctx m) < comm_size (mgr_ctx m) then do {
        m \<leftarrow> MM_make_progress m;
        await_close m }
      else Some m)"

declare await_close.simps [code]

text \<open>The answer to the proposal is not looked at, and the status is always 0.\<close>

definition H5VL_rlo_pass_through_file_close ::
  "('l, 'z) vol_api_scheme \<Rightarrow> nat \<Rightarrow> hid_t \<Rightarrow> ptr \<Rightarrow> timeval \<Rightarrow> 'l vol_state \<Rightarrow> (c_int \<times> 'l vol_state) option" where
  "H5VL_rlo_pass_through_file_close h file dxpl_id req tv st = do {
     ob \<leftarrow> vo_objs st file;
     (ret, p, st) \<leftarrow> submit (p_ctx ob) (compose_proposal tv (vo_rank_debug st) (op_code FILE_CLOSE) None 0) st;
     m \<leftarrow> vo_ctxs st (p_ctx ob);
     m \<leftarrow> await_close (enter st m);
     st \<leftarrow> Some (leave (p_ctx ob) m st);
     (r, st) \<leftarrow> close_under h file (\<lambda>x vol. File_call (V_file_close x vol dxpl_id req)) st;
     Some (0, st) }"

section \<open>Other operations on files\<close>

text \<open>The arguments by the operation; \<open>t\<close> is its number.\<close>

datatype file_specific =
  FILE_MOUNT c_int "byte list" nat hid_t
| FILE_ACCESS hid_t "byte list" ptr
| FILE_REOPEN ptr
| FILE_OTHER ptr

definition file_access ::
  "('l, 'z) vol_api_scheme \<Rightarrow> c_int \<Rightarrow> hid_t \<Rightarrow> byte list \<Rightarrow> ptr \<Rightarrow> hid_t \<Rightarrow> ptr \<Rightarrow> 'l vol_state \<Rightarrow> (c_int \<times> 'l vol_state) option" where
  "file_access h t fapl_id name ret dxpl_id req st = do {
     (info, st) \<leftarrow> get_vol_info h fapl_id st;
     (let (fapl, st) = under_fapl h fapl_id info st;
          (ret_value, st) = call_do h (File_call (V_file_access (in_under_vol_id info) t dxpl_id req fapl name ret)) st;
          st = close_fapl h fapl st;
          (r, st) = H5VL_rlo_pass_through_info_free h info st
      in Some (ret_value, st)) }"

text \<open>
  Mounting unwraps the file mounted; asking for a file or deleting it needs no open file; a file that is
  opened again gets a wrapper, which is the second result.
\<close>

definition H5VL_rlo_pass_through_file_specific ::
  "('l, 'z) vol_api_scheme \<Rightarrow> nat \<Rightarrow> c_int \<Rightarrow> file_specific \<Rightarrow> hid_t \<Rightarrow> ptr \<Rightarrow> 'l vol_state
   \<Rightarrow> (c_int \<times> nat option \<times> 'l vol_state) option" where
  "H5VL_rlo_pass_through_file_specific h file t args dxpl_id req st =
     (case args of
        FILE_MOUNT loc_type name child_file plist_id \<Rightarrow> do {
          child \<leftarrow> vo_objs st child_file;
          (r, st) \<leftarrow> delegate h file (\<lambda>x vol. File_call
            (V_file_mount x vol dxpl_id req loc_type name (under_object child) plist_id)) st;
          Some (r, None, st) }
      | FILE_ACCESS fapl_id name ret \<Rightarrow> do {
          (r, st) \<leftarrow> file_access h t fapl_id name ret dxpl_id req st;
          Some (r, None, st) }
      | FILE_REOPEN args \<Rightarrow> do {
          ob \<leftarrow> vo_objs st file;
          (x, vol) \<leftarrow> wrapped file st;
          (case a_reopen h (File_call (V_file_specific x vol t dxpl_id req args)) (vo_lib st) of ((r, file), l) \<Rightarrow> do {
             (p, st) \<leftarrow> wrap_result VL_FILE (p_ctx ob) (if 0 \<le>s r then file else None, st\<lparr>vo_lib := l\<rparr>);
             Some (r, p, st) }) }
      | FILE_OTHER args \<Rightarrow> do {
          (r, st) \<leftarrow> delegate h file (\<lambda>x vol. File_call (V_file_specific x vol t dxpl_id req args)) st;
          Some (r, None, st) })"

section \<open>Links\<close>

text \<open>A wrapper that may be null: the object below, if any, and the connector it belongs to.\<close>

definition maybe_wrapped :: "nat option \<Rightarrow> 'l vol_state \<Rightarrow> (nat option \<times> hid_t option) option" where
  "maybe_wrapped p st =
     (case p of None \<Rightarrow> Some (None, None)
      | Some p \<Rightarrow> do { (x, vol) \<leftarrow> wrapped p st; Some (Some x, Some vol) })"

text \<open>
  A hard link names its target by another wrapper, in \<open>hard\<close>. The connector is taken from there when the
  one of the location is missing or negative.
\<close>

definition H5VL_rlo_pass_through_link_create ::
  "('l, 'z) vol_api_scheme \<Rightarrow> c_int \<Rightarrow> (nat option \<times> loc_params) option \<Rightarrow> nat option \<Rightarrow> loc_params \<Rightarrow> hid_t \<Rightarrow> hid_t
   \<Rightarrow> hid_t \<Rightarrow> ptr \<Rightarrow> ptr \<Rightarrow> 'l vol_state \<Rightarrow> (c_int \<times> 'l vol_state) option" where
  "H5VL_rlo_pass_through_link_create h create_type hard obj loc_params lcpl_id lapl_id dxpl_id req args st = do {
     (x, vol) \<leftarrow> maybe_wrapped obj st;
     (let under_vol_id = (case vol of None \<Rightarrow> - 1 | Some v \<Rightarrow> v) in
      case hard of
        None \<Rightarrow> Some (call_do h (Link_call
          (V_link_create create_type x loc_params under_vol_id lcpl_id lapl_id dxpl_id req args)) st)
      | Some (cur_obj, cur_params) \<Rightarrow> do {
          (y, cur_vol) \<leftarrow> maybe_wrapped cur_obj st;
          (let under_vol_id = (if under_vol_id <s 0 then (case cur_vol of None \<Rightarrow> under_vol_id | Some v \<Rightarrow> v)
                               else under_vol_id) in
           Some (call_do h (Link_call
             (V_link_create_hard create_type x loc_params under_vol_id lcpl_id lapl_id dxpl_id req y cur_params)) st)) }) }"

text \<open>Copying and moving take the connector from the source, or else from the destination, which must be there.\<close>

definition link_both ::
  "('l, 'z) vol_api_scheme \<Rightarrow> (nat option \<Rightarrow> nat option \<Rightarrow> hid_t \<Rightarrow> link_call) \<Rightarrow> nat option \<Rightarrow> nat option
   \<Rightarrow> 'l vol_state \<Rightarrow> (c_int \<times> 'l vol_state) option" where
  "link_both h f src_obj dst_obj st = do {
     (x, vol1) \<leftarrow> maybe_wrapped src_obj st;
     (y, vol2) \<leftarrow> maybe_wrapped dst_obj st;
     (let under_vol_id = (case vol1 of Some v \<Rightarrow> v | None \<Rightarrow> (case vol2 of Some v \<Rightarrow> v | None \<Rightarrow> - 1)) in do {
        require (0 <s under_vol_id);
        Some (call_do h (Link_call (f x y under_vol_id)) st) }) }"

definition H5VL_rlo_pass_through_link_copy ::
  "('l, 'z) vol_api_scheme \<Rightarrow> nat option \<Rightarrow> loc_params \<Rightarrow> nat option \<Rightarrow> loc_params \<Rightarrow> hid_t \<Rightarrow> hid_t \<Rightarrow> hid_t \<Rightarrow> ptr
   \<Rightarrow> 'l vol_state \<Rightarrow> (c_int \<times> 'l vol_state) option" where
  "H5VL_rlo_pass_through_link_copy h src_obj loc_params1 dst_obj loc_params2 lcpl_id lapl_id dxpl_id req st =
     link_both h (\<lambda>x y vol. V_link_copy x loc_params1 y loc_params2 vol lcpl_id lapl_id dxpl_id req) src_obj dst_obj st"

definition H5VL_rlo_pass_through_link_move ::
  "('l, 'z) vol_api_scheme \<Rightarrow> nat option \<Rightarrow> loc_params \<Rightarrow> nat option \<Rightarrow> loc_params \<Rightarrow> hid_t \<Rightarrow> hid_t \<Rightarrow> hid_t \<Rightarrow> ptr
   \<Rightarrow> 'l vol_state \<Rightarrow> (c_int \<times> 'l vol_state) option" where
  "H5VL_rlo_pass_through_link_move h src_obj loc_params1 dst_obj loc_params2 lcpl_id lapl_id dxpl_id req st =
     link_both h (\<lambda>x y vol. V_link_move x loc_params1 y loc_params2 vol lcpl_id lapl_id dxpl_id req) src_obj dst_obj st"

definition H5VL_rlo_pass_through_object_copy ::
  "('l, 'z) vol_api_scheme \<Rightarrow> nat \<Rightarrow> loc_params \<Rightarrow> byte list \<Rightarrow> nat \<Rightarrow> loc_params \<Rightarrow> byte list \<Rightarrow> hid_t \<Rightarrow> hid_t \<Rightarrow> hid_t \<Rightarrow> ptr
   \<Rightarrow> 'l vol_state \<Rightarrow> (c_int \<times> 'l vol_state) option" where
  "H5VL_rlo_pass_through_object_copy h src_obj src_loc_params src_name dst_obj dst_loc_params dst_name
       ocpypl_id lcpl_id dxpl_id req st = do {
     o_dst \<leftarrow> vo_objs st dst_obj;
     delegate h src_obj (\<lambda>x vol. Object_call (V_object_copy x src_loc_params src_name (under_object o_dst)
       dst_loc_params dst_name vol ocpypl_id lcpl_id dxpl_id req)) st }"

section \<open>Requests\<close>

text \<open>The status of the request is the second result.\<close>

definition H5VL_rlo_pass_through_request_wait ::
  "('l, 'z) vol_api_scheme \<Rightarrow> nat \<Rightarrow> c_ulong \<Rightarrow> 'l vol_state \<Rightarrow> (c_int \<times> c_int \<times> 'l vol_state) option" where
  "H5VL_rlo_pass_through_request_wait h obj timeout st = do {
     (x, vol) \<leftarrow> wrapped obj st;
     (case a_wait h x vol timeout (vo_lib st) of ((ret_value, status), l) \<Rightarrow> do {
        st \<leftarrow> release_if obj (0 \<le>s ret_value \<and> status \<noteq> a_in_progress h) (st\<lparr>vo_lib := l\<rparr>);
        Some (ret_value, status, st) }) }"

definition H5VL_rlo_pass_through_request_notify ::
  "('l, 'z) vol_api_scheme \<Rightarrow> nat \<Rightarrow> ptr \<Rightarrow> ptr \<Rightarrow> 'l vol_state \<Rightarrow> (c_int \<times> 'l vol_state) option" where
  "H5VL_rlo_pass_through_request_notify h obj cb ctx st =
     close_under h obj (\<lambda>x vol. Request_call (V_request_notify x vol cb ctx)) st"

definition H5VL_rlo_pass_through_request_cancel ::
  "('l, 'z) vol_api_scheme \<Rightarrow> nat \<Rightarrow> 'l vol_state \<Rightarrow> (c_int \<times> 'l vol_state) option" where
  "H5VL_rlo_pass_through_request_cancel h obj st =
     close_under h obj (\<lambda>x vol. Request_call (V_request_cancel x vol)) st"

definition H5VL_rlo_pass_through_request_free ::
  "('l, 'z) vol_api_scheme \<Rightarrow> nat \<Rightarrow> 'l vol_state \<Rightarrow> (c_int \<times> 'l vol_state) option" where
  "H5VL_rlo_pass_through_request_free h obj st =
     close_under h obj (\<lambda>x vol. Request_call (V_request_free x vol)) st"

text \<open>
  Waiting for any, some or all of an array of requests. The values at \<^verbatim>\<open>index\<close> and \<^verbatim>\<open>outcount\<close> before the
  call are checked. After waiting for some of them the indices are read through one more argument of the
  list, \<open>extra\<close>; without one the read is undefined.
\<close>

datatype request_specific =
  WAITANY nat
| WAITSOME nat "nat list option"
| WAITALL

fun under_requests :: "nat list \<Rightarrow> 'l vol_state \<Rightarrow> nat list option" where
  "under_requests [] st = Some []"
| "under_requests (p # ps) st = do {
     ob \<leftarrow> vo_objs st p;
     xs \<leftarrow> under_requests ps st;
     Some (under_object ob # xs) }"

fun free_requests :: "nat list \<Rightarrow> 'l vol_state \<Rightarrow> 'l vol_state option" where
  "free_requests [] st = Some st"
| "free_requests (p # ps) st = do { st \<leftarrow> H5VL_rlo_pass_through_free_obj p st; free_requests ps st }"

definition request_at :: "nat list \<Rightarrow> nat \<Rightarrow> nat option" where
  "request_at ps i = (if i < length ps then Some (ps ! i) else None)"

fun requests_at :: "nat list \<Rightarrow> nat list \<Rightarrow> nat list option" where
  "requests_at ps [] = Some []"
| "requests_at ps (i # is) = do { p \<leftarrow> request_at ps i; qs \<leftarrow> requests_at ps is; Some (p # qs) }"

definition H5VL_rlo_pass_through_request_specific ::
  "('l, 'z) vol_api_scheme \<Rightarrow> nat option \<Rightarrow> request_specific \<Rightarrow> nat list \<Rightarrow> c_ulong \<Rightarrow> 'l vol_state
   \<Rightarrow> (c_int \<times> 'l vol_state) option" where
  "H5VL_rlo_pass_through_request_specific h obj t req_array timeout st = do {
     require (obj = None);
     (case req_array of
        [] \<Rightarrow> Some (- 1, st)
      | r0 # rs \<Rightarrow> do {
          (x, vol) \<leftarrow> wrapped r0 st;
          under_req_array \<leftarrow> under_requests req_array st;
          (case t of
             WAITANY index \<Rightarrow> do {
               require (index \<le> length req_array);
               (case a_waitany h x vol under_req_array timeout (vo_lib st) of ((ret_value, i, status), l) \<Rightarrow> do {
                  st \<leftarrow> (if 0 \<le>s ret_value \<and> status \<noteq> a_in_progress h
                         then do { p \<leftarrow> request_at req_array i; H5VL_rlo_pass_through_free_obj p (st\<lparr>vo_lib := l\<rparr>) }
                         else Some (st\<lparr>vo_lib := l\<rparr>));
                  Some (ret_value, st) }) }
           | WAITSOME outcount extra \<Rightarrow> do {
               require (outcount \<le> length req_array);
               (case a_waitsome h x vol under_req_array timeout (vo_lib st) of ((ret_value, n), l) \<Rightarrow> do {
                  st \<leftarrow> (if 0 \<le>s ret_value \<and> n > 0
                         then do {
                           idx_array \<leftarrow> extra;
                           require (n \<le> length idx_array);
                           ps \<leftarrow> requests_at req_array (take n idx_array);
                           free_requests ps (st\<lparr>vo_lib := l\<rparr>) }
                         else Some (st\<lparr>vo_lib := l\<rparr>));
                  Some (ret_value, st) }) }
           | WAITALL \<Rightarrow>
               (case a_waitall h x vol under_req_array timeout (vo_lib st) of ((ret_value, statuses), l) \<Rightarrow> do {
                  st \<leftarrow> (if 0 \<le>s ret_value
                         then do {
                           require (length req_array \<le> length statuses);
                           free_requests (map fst (filter (\<lambda>(p, s). s \<noteq> a_in_progress h) (zip req_array statuses)))
                             (st\<lparr>vo_lib := l\<rparr>) }
                         else Some (st\<lparr>vo_lib := l\<rparr>));
                  Some (ret_value, st) })) }) }"

end
