(* ===== verification/Application_State.thy ===== *)
theory Application_State
  imports Metadata_Facts
begin

text \<open>
  What the helper does to the application: whatever the execution callback keeps of its state, every
  operation of the helper keeps, however many proposals it executes, and the callback stays the same.
\<close>

definition callback_is ::
  "('c \<Rightarrow> byte list \<Rightarrow> 'w \<Rightarrow> (int \<times> 'w) option) \<Rightarrow> ('o, 'j, 'i, 'v, 'c, 'w) metadata_manager \<Rightarrow> bool" where
  "callback_is cb m \<longleftrightarrow> (\<exists>e. mm_em m = Some e \<and> execute_cb e = cb)"

definition app_is ::
  "('c \<Rightarrow> byte list \<Rightarrow> 'w \<Rightarrow> (int \<times> 'w) option) \<Rightarrow> ('w \<Rightarrow> bool) \<Rightarrow> ('o, 'j, 'i, 'v, 'c, 'w) metadata_manager \<Rightarrow> bool" where
  "app_is cb kept m \<longleftrightarrow> callback_is cb m \<and> kept (mm_app m)"

lemma app_is_frame [simp]:
  "app_is cb kept (m\<lparr>mm_vs := v\<rparr>) = app_is cb kept m" "app_is cb kept (m\<lparr>mm_store := s\<rparr>) = app_is cb kept m"
  "app_is cb kept (m\<lparr>mm_lm := l\<rparr>) = app_is cb kept m" "app_is cb kept (m\<lparr>mm_ticks := n\<rparr>) = app_is cb kept m"
  by (simp_all add: app_is_def callback_is_def)

locale kept_by_callback =
  fixes cb :: "'c \<Rightarrow> byte list \<Rightarrow> 'w \<Rightarrow> (int \<times> 'w) option" and kept :: "'w \<Rightarrow> bool"
  assumes callback_keeps: "cb c b w = Some (r, w') \<Longrightarrow> kept w \<Longrightarrow> kept w'"
begin

lemma app_is_simple [simp]:
  "app_is cb kept (snd (mm_new_node m buf)) = app_is cb kept m"
  "app_is cb kept (snd (MM_get_time_stamp_us m)) = app_is cb kept m"
  by (simp_all add: mm_new_node_def MM_get_time_stamp_us_def case_prod_unfold Let_def)

lemma execute_loop:
  assumes "EM_execute_loop s e w = Some y" and "execute_cb e = cb" "kept w"
  shows "execute_cb (fst (snd y)) = cb \<and> kept (snd (snd y))"
proof -
  have "execute_cb e = cb \<and> kept w \<longrightarrow> execute_cb (fst (snd y)) = cb \<and> kept (snd (snd y))"
  proof (rule EM_execute_loop.raw_induct [OF _ assms(1)], intro impI, goal_cases)
    case (1 f s e w y)
    show ?case
    proof (cases "dq_head (execution_q e) = None")
      case True
      with 1 show ?thesis by auto
    next
      case False
      then obtain b r w1 s1 q where s: "EM_execute e b w = Some (r, w1)" "f s1 (e\<lparr>execution_q := q\<rparr>) w1 = Some y"
        using 1(2) by (auto simp: bind_eq_Some_conv)
      moreover have "kept w1" using s(1) 1(3) callback_keeps by (auto simp: EM_execute_def)
      ultimately show ?thesis using 1(1) [OF s(2)] 1(3) by simp
    qed
  qed
  with assms(2,3) show ?thesis by simp
qed

lemma execute_all: "mm_execute_all m = Some m' \<Longrightarrow> app_is cb kept m \<Longrightarrow> app_is cb kept m'"
  by (auto simp: mm_execute_all_def EM_execute_all_def bind_eq_Some_conv app_is_def callback_is_def dest!: execute_loop)

lemma simple_steps:
  "mm_voting_make_progress m = Some m' \<Longrightarrow> app_is cb kept m \<Longrightarrow> app_is cb kept m'"
  "mm_add_ledger m node = Some m' \<Longrightarrow> app_is cb kept m \<Longrightarrow> app_is cb kept m'"
  "mm_check_my_proposal_state m i = Some y \<Longrightarrow> app_is cb kept m \<Longrightarrow> app_is cb kept (snd y)"
  by (auto simp: mm_voting_make_progress_def mm_add_ledger_def
      mm_check_my_proposal_state_def bind_eq_Some_conv)

lemma to_execution: "mm_ledger_to_execution m node = Some m' \<Longrightarrow> app_is cb kept m \<Longrightarrow> app_is cb kept m'"
  by (auto simp: mm_ledger_to_execution_def EM_add_proposal_def bind_eq_Some_conv app_is_def callback_is_def)

lemma add_own: "mm_add_own m p = Some m' \<Longrightarrow> app_is cb kept m \<Longrightarrow> app_is cb kept m'"
  by (auto simp: mm_add_own_def bind_eq_Some_conv case_prod_unfold Let_def dest!: simple_steps(2))

lemma checkout:
  assumes "checkout_proposal_make_progress m = Some m'" and "app_is cb kept m"
  shows "app_is cb kept m'"
proof -
  have "app_is cb kept m \<longrightarrow> app_is cb kept m'"
    by (rule checkout_proposal_make_progress.raw_induct [OF _ assms(1)])
      (auto simp: bind_eq_Some_conv Let_def case_prod_unfold split: if_splits dest!: simple_steps(2))
  with assms(2) show ?thesis by simp
qed

lemma progress_cb: "MM_make_progress_cb node m = Some m' \<Longrightarrow> app_is cb kept m \<Longrightarrow> app_is cb kept m'"
  by (auto simp: MM_make_progress_cb_def bind_eq_Some_conv case_prod_unfold Let_def split: if_splits
      dest!: to_execution)

lemma iterate:
  assumes "gen_queue_iterate_loop links_of f cur m = Some m'" and "f = MM_make_progress_cb" and "app_is cb kept m"
  shows "app_is cb kept m'"
proof -
  have "f = MM_make_progress_cb \<and> app_is cb kept m \<longrightarrow> app_is cb kept m'"
    by (rule gen_queue_iterate_loop.raw_induct [OF _ assms(1)])
      (auto simp: bind_eq_Some_conv split: option.splits dest: progress_cb)
  with assms(2,3) show ?thesis by simp
qed

lemma progress: "MM_make_progress m = Some m' \<Longrightarrow> app_is cb kept m \<Longrightarrow> app_is cb kept m'"
  by (auto simp: MM_make_progress_def LM_iterate_def gen_queue_iterate_def bind_eq_Some_conv split: if_splits
      dest!: simple_steps(1) checkout iterate execute_all)

lemma ledger_process_loop:
  assumes "MM_ledger_process_loop k m = Some m'" and "app_is cb kept m"
  shows "app_is cb kept m'"
proof -
  have "app_is cb kept m \<longrightarrow> app_is cb kept m'"
    by (rule MM_ledger_process_loop.raw_induct [OF _ assms(1)])
      (auto simp: bind_eq_Some_conv Let_def case_prod_unfold split: if_splits
        dest!: simple_steps(1) checkout to_execution)
  with assms(2) show ?thesis by simp
qed

lemma ledger_process: "MM_ledger_process m = Some m' \<Longrightarrow> app_is cb kept m \<Longrightarrow> app_is cb kept m'"
  by (auto simp: MM_ledger_process_def bind_eq_Some_conv dest!: simple_steps(1) checkout ledger_process_loop)

lemma wait_state:
  assumes "wait_my_state i m = Some y" and "app_is cb kept m"
  shows "app_is cb kept (snd y)"
proof -
  have "app_is cb kept m \<longrightarrow> app_is cb kept (snd y)"
    by (rule wait_my_state.raw_induct [OF _ assms(1)])
      (auto simp: bind_eq_Some_conv case_prod_unfold split: if_splits dest!: simple_steps(3) checkout)
  with assms(2) show ?thesis by simp
qed

lemma wait_window:
  assumes "wait_my_window t m = Some m'" and "app_is cb kept m"
  shows "app_is cb kept m'"
proof -
  have "app_is cb kept m \<longrightarrow> app_is cb kept m'"
    by (rule wait_my_window.raw_induct [OF _ assms(1)])
      (auto simp: bind_eq_Some_conv Let_def case_prod_unfold split: if_splits dest!: simple_steps(1) checkout)
  with assms(2) show ?thesis by simp
qed

lemma submit_proposal:
  assumes "MM_submit_proposal m p = Some (r, p', m')" and "app_is cb kept m"
  shows "app_is cb kept m'"
proof -
  consider "mm_mode m = 1" | "mm_mode m = 2" | "mm_mode m \<noteq> 1" "mm_mode m \<noteq> 2" by blast
  then show ?thesis
  proof cases
    case 1
    from assms(1) 1 show ?thesis
      apply (clarsimp simp: MM_submit_proposal_def Let_def bind_eq_Some_conv)
      apply (frule wait_state, simp add: assms(2))
      by (auto simp: bind_eq_Some_conv split: if_splits dest!: add_own wait_window ledger_process execute_all simple_steps(3))
  next
    case 2
    with assms show ?thesis
      by (auto simp: MM_submit_proposal_def Let_def bind_eq_Some_conv dest!: add_own progress simple_steps)
  qed (use assms in \<open>auto simp: MM_submit_proposal_def Let_def\<close>)
qed

end

end
