(* ===== verification/VOL_Contexts.thy ===== *)
theory VOL_Contexts
  imports VOL_Files Application_State
begin

text \<open>
  What the operations leave of the context of a file: executing proposals changes neither its reference
  count nor the connector it holds on to, and so no entry point that submits one does.
\<close>

section \<open>The fixed part of a context\<close>

definition ctx_key :: "prop_ctx \<Rightarrow> c_int \<times> nat \<times> hid_t \<times> c_int \<times> c_int \<times> bool" where
  "ctx_key c = (ref_count c, under_file c, under_vol_id c, comm_size c, ctx_my_rank c, is_collective c)"

lemma ctx_key_simps [simp]:
  "ctx_key (c\<lparr>close_count := n\<rparr>) = ctx_key c"
  "ctx_key (c\<lparr>under_obj := x\<rparr>) = ctx_key c"
  "ctx_key (c\<lparr>resulting_obj_out := r\<rparr>) = ctx_key c"
  by (simp_all add: ctx_key_def)

lemma vol_call_ctx:
  "vol_open h c a = Some (x, a') \<Longrightarrow> va_ctx a' = va_ctx a"
  "va_ctx (snd (vol_do h c a)) = va_ctx a"
  by (auto simp: vol_open_def vol_do_def bind_eq_Some_conv split: prod.splits)

lemma vol_do_ctx: "vol_do h c a = (r, a') \<Longrightarrow> va_ctx a' = va_ctx a"
  by (metis vol_call_ctx(2) snd_conv)

lemma set_result_key [simp]: "ctx_key (va_ctx (set_result x a)) = ctx_key (va_ctx a)"
  by (simp add: set_result_def)

lemma parent_ctx:
  "open_by_addr h addr dxpl a = Some (x, a') \<Longrightarrow> va_ctx a' = va_ctx a"
  "open_parent h pt addr dxpl a = Some (x, a') \<Longrightarrow> va_ctx a' = va_ctx a"
  "va_ctx (close_parent h pt x dxpl a) = va_ctx a"
  "close_attr_parent h pt x dxpl a = Some a' \<Longrightarrow> va_ctx a' = va_ctx a"
proof -
  show 1: "va_ctx a' = va_ctx a" if "open_by_addr h addr dxpl a = Some (x, a')" for a a'
    using that vol_call_ctx(1) by (metis open_by_addr_def)
  show "open_parent h pt addr dxpl a = Some (x, a') \<Longrightarrow> va_ctx a' = va_ctx a"
    by (auto simp: open_parent_def split: if_splits dest: 1)
  show "va_ctx (close_parent h pt x dxpl a) = va_ctx a"
    by (simp add: close_parent_def vol_call_ctx(2))
  show "close_attr_parent h pt x dxpl a = Some a' \<Longrightarrow> va_ctx a' = va_ctx a"
    by (auto simp: close_attr_parent_def Let_def vol_call_ctx(2) split: if_splits)
qed

lemmas ctx_frame = vol_call_ctx(1) vol_do_ctx parent_ctx(1,2,4)

lemma ds_create_keeps_key:
  assumes "ds_create_cb_sub h prop a = Some (r, a')"
  shows "ctx_key (va_ctx a') = ctx_key (va_ctx a)"
  using assms unfolding ds_create_cb_sub_def Let_def
  by (cases "isLocal prop = 0"; clarsimp simp: bind_eq_Some_conv parent_ctx(3) vol_call_ctx(2); auto simp: vol_call_ctx(2) dest!: ctx_frame)

lemma dt_commit_keeps_key:
  assumes "dt_commit_cb_sub h prop a = Some (r, a')"
  shows "ctx_key (va_ctx a') = ctx_key (va_ctx a)"
  using assms unfolding dt_commit_cb_sub_def Let_def
  by (cases "isLocal prop = 0"; clarsimp simp: bind_eq_Some_conv parent_ctx(3) vol_call_ctx(2); auto simp: vol_call_ctx(2) dest!: ctx_frame)

lemma group_create_keeps_key:
  assumes "group_create_cb_sub h prop a = Some (r, a')"
  shows "ctx_key (va_ctx a') = ctx_key (va_ctx a)"
  using assms unfolding group_create_cb_sub_def Let_def
  by (cases "isLocal prop = 0"; clarsimp simp: bind_eq_Some_conv parent_ctx(3) vol_call_ctx(2); auto simp: vol_call_ctx(2) dest!: ctx_frame)

lemma attr_create_keeps_key:
  assumes "attr_create_cb_sub h prop a = Some (r, a')"
  shows "ctx_key (va_ctx a') = ctx_key (va_ctx a)"
  using assms unfolding attr_create_cb_sub_def Let_def
  by (cases "isLocal prop = 0"; clarsimp simp: bind_eq_Some_conv parent_ctx(3) vol_call_ctx(2); auto simp: vol_call_ctx(2) dest!: ctx_frame)

lemmas creating_keep_key = ds_create_keeps_key dt_commit_keeps_key group_create_keeps_key attr_create_keeps_key

lemma attr_write_keeps_key:
  "attr_write_cb_sub h prop a = Some (r, a') \<Longrightarrow> ctx_key (va_ctx a') = ctx_key (va_ctx a)"
  by (auto simp: attr_write_cb_sub_def bind_eq_Some_conv Let_def vol_call_ctx(2) case_prod_unfold split: if_splits
      dest!: ctx_frame)

lemma ds_extend_keeps_key:
  "ds_extend_cb_sub h prop a = Some (r, a') \<Longrightarrow> ctx_key (va_ctx a') = ctx_key (va_ctx a)"
  by (cases "isLocal prop = 0")
    (auto simp: ds_extend_cb_sub_def bind_eq_Some_conv Let_def vol_call_ctx(2) case_prod_unfold dest!: ctx_frame)

lemma cb_execute_keeps_key:
  "cb_execute_H5VL_RLO h c b a = Some (r, a') \<Longrightarrow> ctx_key (va_ctx a) = k \<Longrightarrow> ctx_key (va_ctx a') = k"
  by (auto simp: cb_execute_H5VL_RLO_def bind_eq_Some_conv file_close_cb_sub_def split: if_splits
      dest: creating_keep_key attr_write_keeps_key ds_extend_keeps_key)

interpretation key: kept_by_callback "cb_execute_H5VL_RLO h" "\<lambda>w. ctx_key (va_ctx w) = k"
  for h :: "('l, 'z) h5_vol_scheme" and k
  by unfold_locales (rule cb_execute_keeps_key)

text \<open>The manager of a file executes with the connector's callback.\<close>

definition mgr_ok :: "('l, 'z) vol_api_scheme \<Rightarrow> 'l file_mgr \<Rightarrow> bool" where
  "mgr_ok h m \<longleftrightarrow> callback_is (cb_execute_H5VL_RLO h) m"

definition same_ctx :: "('l, 'z) vol_api_scheme \<Rightarrow> 'l file_mgr \<Rightarrow> 'l file_mgr \<Rightarrow> bool" where
  "same_ctx h m m' \<longleftrightarrow> (mgr_ok h m \<longrightarrow> mgr_ok h m') \<and> ctx_key (mgr_ctx m') = ctx_key (mgr_ctx m)"

lemma same_ctx_refl [simp]: "same_ctx h m m"
  by (simp add: same_ctx_def)

lemma same_ctx_trans: "same_ctx h m m1 \<Longrightarrow> same_ctx h m1 m2 \<Longrightarrow> same_ctx h m m2"
  by (simp add: same_ctx_def)

lemma mgr_ok_app: "mgr_ok h m \<Longrightarrow> app_is (cb_execute_H5VL_RLO h) (\<lambda>w. ctx_key (va_ctx w) = ctx_key (mgr_ctx m)) m"
  by (simp add: mgr_ok_def app_is_def)

lemma key_app_ok: "app_is (cb_execute_H5VL_RLO h) (\<lambda>w. ctx_key (va_ctx w) = k) m \<Longrightarrow> mgr_ok h m \<and> ctx_key (mgr_ctx m) = k"
  by (simp add: mgr_ok_def app_is_def)

lemma submit_same_ctx:
  "MM_submit_proposal m p = Some (r, p', m') \<Longrightarrow> mgr_ok h m \<Longrightarrow> mgr_ok h m' \<and> ctx_key (mgr_ctx m') = ctx_key (mgr_ctx m)"
  using key.submit_proposal mgr_ok_app key_app_ok by blast

lemma progress_same_ctx:
  "MM_make_progress m = Some m' \<Longrightarrow> mgr_ok h m \<Longrightarrow> mgr_ok h m' \<and> ctx_key (mgr_ctx m') = ctx_key (mgr_ctx m)"
  using key.progress mgr_ok_app key_app_ok by blast

lemma await_close_same_ctx:
  assumes "await_close m = Some m'" and "mgr_ok h m"
  shows "mgr_ok h m' \<and> ctx_key (mgr_ctx m') = ctx_key (mgr_ctx m)"
proof -
  have "mgr_ok h m \<longrightarrow> mgr_ok h m' \<and> ctx_key (mgr_ctx m') = ctx_key (mgr_ctx m)"
    by (rule await_close.raw_induct [OF _ assms(1)])
      (auto simp: bind_eq_Some_conv split: if_splits dest!: progress_same_ctx)
  with assms(2) show ?thesis by simp
qed

lemma enter_ctx [simp]:
  "mgr_ctx (enter st m) = mgr_ctx m" "mgr_ok h (enter st m) = mgr_ok h m"
  by (simp_all add: enter_def mgr_ok_def callback_is_def)

lemma upd_ctx_ok [simp]:
  "mgr_ctx (upd_ctx f m) = f (mgr_ctx m)" "mgr_ok h (upd_ctx f m) = mgr_ok h m"
  by (simp_all add: upd_ctx_def mgr_ok_def callback_is_def)

end
