(* ===== verification/VOL_Refs.thy ===== *)
theory VOL_Refs
  imports VOL_Contexts
begin

text \<open>
  Reference counting over the entry points: the count of a context is the number of wrappers and wrapper
  contexts that share it, a context lives exactly as long as one of them does, and the identifiers of
  the connectors below are held once for each live context.
\<close>

section \<open>Counting\<close>

definition refs :: "('b \<Rightarrow> nat) \<Rightarrow> (nat \<rightharpoonup> 'b) \<Rightarrow> nat \<Rightarrow> nat" where
  "refs f M c = card {p. \<exists>x. M p = Some x \<and> f x = c}"

lemma refs_empty [simp]: "refs f Map.empty c = 0"
  by (simp add: refs_def)

lemma refs_finite: "finite (dom M) \<Longrightarrow> finite {p. \<exists>x. M p = Some x \<and> f x = c}"
  by (rule finite_subset [of _ "dom M"]) auto

lemma refs_insert:
  assumes "finite (dom M)" and "M p = None"
  shows "refs f (M(p \<mapsto> x)) c = refs f M c + (if f x = c then 1 else 0)"
proof -
  have "{q. \<exists>y. (M(p \<mapsto> x)) q = Some y \<and> f y = c}
      = (if f x = c then insert p {q. \<exists>y. M q = Some y \<and> f y = c} else {q. \<exists>y. M q = Some y \<and> f y = c})"
    using assms(2) by auto
  moreover have "finite {q. \<exists>y. M q = Some y \<and> f y = c}" by (rule refs_finite [OF assms(1)])
  ultimately show ?thesis using assms(2) by (simp only: refs_def) (simp add: card_insert_disjoint)
qed

lemma refs_delete:
  assumes "finite (dom M)" and "M p = Some x"
  shows "refs f M c = refs f (M(p := None)) c + (if f x = c then 1 else 0)"
proof -
  have "M = (M(p := None))(p \<mapsto> x)" using assms(2) by auto
  then show ?thesis using refs_insert [of "M(p := None)" p f x c] assms(1) by simp
qed

lemma refs_le: "finite (dom M) \<Longrightarrow> refs f M c \<le> card (dom M)"
  unfolding refs_def by (rule card_mono) auto

definition held :: "'l vol_state \<Rightarrow> nat \<Rightarrow> nat" where
  "held st c = refs p_ctx (vo_objs st) c + refs wrap_p_ctx (vo_wraps st) c"

fun id_refs :: "res_event list \<Rightarrow> hid_t \<Rightarrow> int" where
  "id_refs [] i = 0"
| "id_refs (H5Iinc_ref j # es) i = (if i = j then 1 else 0) + id_refs es i"
| "id_refs (H5Idec_ref j # es) i = (if i = j then - 1 else 0) + id_refs es i"
| "id_refs (e # es) i = id_refs es i"

lemma id_refs_append [simp]: "id_refs (xs @ ys) i = id_refs xs i + id_refs ys i"
  by (induction xs i rule: id_refs.induct) auto

definition ctx_vols :: "'l vol_state \<Rightarrow> hid_t \<Rightarrow> nat" where
  "ctx_vols st i = card {c. \<exists>m. vo_ctxs st c = Some m \<and> under_vol_id (mgr_ctx m) = i}"

section \<open>The invariant\<close>

text \<open>
  \<open>fresh\<close> are contexts that no wrapper shares yet, and \<open>extra\<close> the references an operation in progress
  holds beside those of the contexts.
\<close>

definition vol_inv ::
  "('l, 'z) vol_api_scheme \<Rightarrow> nat set \<Rightarrow> (hid_t \<Rightarrow> int) \<Rightarrow> 'l vol_state \<Rightarrow> bool" where
  "vol_inv h fresh extra st \<longleftrightarrow>
     finite (dom (vo_ctxs st)) \<and> finite (dom (vo_objs st)) \<and> finite (dom (vo_wraps st))
   \<and> (\<forall>p\<in>dom (vo_ctxs st) \<union> dom (vo_objs st) \<union> dom (vo_wraps st). p < vo_next st)
   \<and> (\<forall>p ob. vo_objs st p = Some ob \<longrightarrow> p_ctx ob \<in> dom (vo_ctxs st))
   \<and> (\<forall>p w. vo_wraps st p = Some w \<longrightarrow> wrap_p_ctx w \<in> dom (vo_ctxs st))
   \<and> (\<forall>c m. vo_ctxs st c = Some m \<longrightarrow>
        mgr_ok h m \<and> ref_count (mgr_ctx m) = of_nat (held st c) \<and> (c \<notin> fresh \<longrightarrow> 0 < held st c))
   \<and> (\<forall>i. id_refs (vo_log st) i = int (ctx_vols st i) + extra i)"

text \<open>
  The count has 32 bits: there are not more objects than it can count, and while there is room for one
  more it does not wrap around.
\<close>

definition fits :: "'l vol_state \<Rightarrow> bool" where
  "fits st \<longleftrightarrow> card (dom (vo_objs st)) + card (dom (vo_wraps st)) < 2 ^ 32"

definition room :: "'l vol_state \<Rightarrow> bool" where
  "room st \<longleftrightarrow> card (dom (vo_objs st)) + card (dom (vo_wraps st)) < 2 ^ 32 - 1"

definition vol_ok :: "('l, 'z) vol_api_scheme \<Rightarrow> 'l vol_state \<Rightarrow> bool" where
  "vol_ok h st \<longleftrightarrow> vol_inv h {} (\<lambda>i. 0) st \<and> fits st"

lemma held_bound:
  assumes "vol_inv h fresh extra st"
  shows "held st c \<le> card (dom (vo_objs st)) + card (dom (vo_wraps st))"
  using assms refs_le [of "vo_objs st" p_ctx c] refs_le [of "vo_wraps st" wrap_p_ctx c]
  by (simp add: vol_inv_def held_def)

text \<open>Changes the invariant does not see.\<close>

lemma vol_inv_frame [simp]:
  "vol_inv h fresh extra (st\<lparr>vo_lib := l\<rparr>) = vol_inv h fresh extra st"
  "vol_inv h fresh extra (st\<lparr>vo_vs := v\<rparr>) = vol_inv h fresh extra st"
  "vol_inv h fresh extra (st\<lparr>vo_rank_debug := r\<rparr>) = vol_inv h fresh extra st"
  by (simp_all add: vol_inv_def held_def ctx_vols_def)

lemma vol_inv_next:
  assumes "vol_inv h fresh extra st" and "vo_next st \<le> n"
  shows "vol_inv h fresh extra (st\<lparr>vo_next := n\<rparr>)"
proof -
  have "\<forall>p\<in>dom (vo_ctxs st) \<union> dom (vo_objs st) \<union> dom (vo_wraps st). p < n"
    using assms less_le_trans unfolding vol_inv_def by blast
  then show ?thesis using assms(1) by (simp add: vol_inv_def held_def ctx_vols_def)
qed

fun id_change :: "res_event \<Rightarrow> hid_t \<Rightarrow> int" where
  "id_change (H5Iinc_ref j) i = (if i = j then 1 else 0)"
| "id_change (H5Idec_ref j) i = (if i = j then - 1 else 0)"
| "id_change e i = 0"

lemma id_refs_single: "id_refs [e] i = id_change e i"
  by (cases e) auto

lemma vol_inv_event:
  "vol_inv h fresh extra (logged_event e st) = vol_inv h fresh (\<lambda>i. extra i - id_change e i) st"
  by (auto simp: vol_inv_def held_def ctx_vols_def logged_event_def id_refs_single algebra_simps)

lemma logged_event_simps [simp]:
  "vo_objs (logged_event e st) = vo_objs st" "vo_wraps (logged_event e st) = vo_wraps st"
  "vo_ctxs (logged_event e st) = vo_ctxs st" "vo_next (logged_event e st) = vo_next st"
  "vo_log (logged_event e st) = vo_log st @ [e]" "vo_lib (logged_event e st) = vo_lib st"
  by (simp_all add: logged_event_def)

lemma held_set_ctx [simp]:
  "held (set_ctx c m st) = held st" "vo_objs (set_ctx c m st) = vo_objs st" "vo_wraps (set_ctx c m st) = vo_wraps st"
  "vo_next (set_ctx c m st) = vo_next st" "vo_log (set_ctx c m st) = vo_log st" "vo_lib (set_ctx c m st) = vo_lib st"
  "vo_vs (set_ctx c m st) = vo_vs st" "vo_rank_debug (set_ctx c m st) = vo_rank_debug st"
  "vo_ctxs (set_ctx c m st) = (vo_ctxs st)(c \<mapsto> m)"
  by (simp_all add: held_def [abs_def] set_ctx_def)

lemma vol_inv_same_ctx:
  assumes inv: "vol_inv h fresh extra st" and m: "vo_ctxs st c = Some m"
    and key: "mgr_ok h m'" "ctx_key (mgr_ctx m') = ctx_key (mgr_ctx m)"
  shows "vol_inv h fresh extra (set_ctx c m' st)"
proof -
  have "{d. \<exists>x. ((vo_ctxs st)(c \<mapsto> m')) d = Some x \<and> under_vol_id (mgr_ctx x) = i}
      = {d. \<exists>x. vo_ctxs st d = Some x \<and> under_vol_id (mgr_ctx x) = i}" for i
    using m key(2) by (auto simp: ctx_key_def)
  then have "ctx_vols (set_ctx c m' st) = ctx_vols st" by (simp add: ctx_vols_def [abs_def])
  moreover have "c < vo_next st" "c \<in> dom (vo_ctxs st)" using inv m by (auto simp: vol_inv_def)
  ultimately show ?thesis
    using inv m key unfolding vol_inv_def by (auto simp: ctx_key_def)
qed

lemma leave_inv:
  "vol_inv h fresh extra st \<Longrightarrow> vo_ctxs st c = Some m \<Longrightarrow> mgr_ok h m' \<Longrightarrow> ctx_key (mgr_ctx m') = ctx_key (mgr_ctx m)
   \<Longrightarrow> vol_inv h fresh extra (leave c m' st)"
  unfolding leave_def by (simp add: vol_inv_same_ctx)

lemma inv_mgr_ok: "vol_inv h fresh extra st \<Longrightarrow> vo_ctxs st c = Some m \<Longrightarrow> mgr_ok h m"
  by (simp add: vol_inv_def)

section \<open>The basic operations keep it\<close>

lemma unat_of_nat_small: "n < 2 ^ 32 \<Longrightarrow> unat (of_nat n :: c_int) = n"
  by (simp add: unsigned_of_nat take_bit_nat_eq_self)

text \<open>A wrapper is added and counted; its context is no longer fresh.\<close>

lemma new_obj_inv:
  assumes inv: "vol_inv h fresh extra st" and new: "H5VL_rlo_pass_through_new_obj x t c st = Some (p, st')"
  shows "vol_inv h (fresh - {c}) extra st' \<and> vo_objs st' p = Some \<lparr>obj_type = vl_code t, under_object = x, p_ctx = c\<rparr>
    \<and> p = vo_next st"
proof -
  obtain m where m: "vo_ctxs st c = Some m"
    and st': "p = vo_next st" "st' = set_ctx c (upd_ctx (\<lambda>x. x\<lparr>ref_count := ref_count x + 1\<rparr>) m)
      (st\<lparr>vo_objs := (vo_objs st)(p \<mapsto> \<lparr>obj_type = vl_code t, under_object = x, p_ctx = c\<rparr>), vo_next := p + 1\<rparr>)"
    using new by (auto simp: H5VL_rlo_pass_through_new_obj_def prop_ctx_inc_rc_def bind_eq_Some_conv Let_def)
  have fin: "finite (dom (vo_objs st))" "vo_objs st p = None"
    using inv st'(1) by (auto simp: vol_inv_def domIff Ball_def)
  have held: "held st' d = held st d + (if c = d then 1 else 0)" for d
    using fin by (simp add: st'(2) held_def refs_insert)
  have "ctx_vols st' = ctx_vols st"
  proof -
    have "{d. \<exists>x. vo_ctxs st' d = Some x \<and> under_vol_id (mgr_ctx x) = i}
        = {d. \<exists>x. vo_ctxs st d = Some x \<and> under_vol_id (mgr_ctx x) = i}" for i
      using m by (auto simp: st'(2))
    then show ?thesis by (simp add: ctx_vols_def [abs_def])
  qed
  moreover have "p < vo_next st'" "vo_next st \<le> vo_next st'" by (simp_all add: st')
  ultimately show ?thesis
    using inv m unfolding vol_inv_def held
    by (simp add: st') (auto simp: less_Suc_eq)
qed

lemma get_wrap_ctx_inv:
  assumes inv: "vol_inv h fresh extra st"
    and new: "H5VL_rlo_pass_through_get_wrap_ctx h obj st = Some (w, st')"
  shows "vol_inv h fresh extra st' \<and> card (dom (vo_wraps st')) = Suc (card (dom (vo_wraps st))) \<and> vo_objs st' = vo_objs st"
proof -
  obtain ob m uw l where m: "vo_objs st obj = Some ob" "vo_ctxs st (p_ctx ob) = Some m"
    and st': "w = vo_next st" "st' = (set_ctx (p_ctx ob) (upd_ctx (\<lambda>x. x\<lparr>ref_count := ref_count x + 1\<rparr>) m)
      (st\<lparr>vo_next := w + 1\<rparr>))\<lparr>vo_wraps := (vo_wraps st)(w \<mapsto> \<lparr>wrap_p_ctx = p_ctx ob, under_wrap_ctx = uw\<rparr>), vo_lib := l\<rparr>"
    using new by (auto simp: H5VL_rlo_pass_through_get_wrap_ctx_def prop_ctx_inc_rc_def bind_eq_Some_conv Let_def case_prod_unfold)
  have fin: "finite (dom (vo_wraps st))" "vo_wraps st w = None"
    using inv st'(1) by (auto simp: vol_inv_def domIff Ball_def)
  have held: "held st' d = held st d + (if p_ctx ob = d then 1 else 0)" for d
    using fin by (simp add: st'(2) held_def refs_insert)
  have "ctx_vols st' = ctx_vols st"
  proof -
    have "{d. \<exists>x. vo_ctxs st' d = Some x \<and> under_vol_id (mgr_ctx x) = i}
        = {d. \<exists>x. vo_ctxs st d = Some x \<and> under_vol_id (mgr_ctx x) = i}" for i
      using m by (auto simp: st'(2))
    then show ?thesis by (simp add: ctx_vols_def [abs_def])
  qed
  then have "vol_inv h fresh extra st'"
    using inv m unfolding vol_inv_def held by (simp add: st') (auto simp: less_Suc_eq)
  moreover have "card (dom (vo_wraps st')) = Suc (card (dom (vo_wraps st)))"
    using fin by (simp add: st'(2) card_insert_disjoint domIff)
  ultimately show ?thesis by (simp add: st'(2))
qed

text \<open>What a decrement makes of a context that \<open>k\<close> others share beside the one that lets it go.\<close>

lemma dec_rc_effect:
  assumes inv: "vol_inv h {} extra st" and "fits st" and m: "vo_ctxs st c = Some m"
    and dec: "prop_ctx_dec_rc c st = Some st'" and k: "held st c = Suc k"
  shows "vo_objs st' = vo_objs st \<and> vo_wraps st' = vo_wraps st \<and> vo_next st' = vo_next st
    \<and> (if k = 0 then vo_ctxs st' = (vo_ctxs st)(c := None) \<and> vo_log st' = vo_log st @ [H5Idec_ref (under_vol_id (mgr_ctx m))]
       else vo_ctxs st' = (vo_ctxs st)(c \<mapsto> upd_ctx (\<lambda>x. x\<lparr>ref_count := of_nat k\<rparr>) m) \<and> vo_log st' = vo_log st)"
proof -
  have "ref_count (mgr_ctx m) = of_nat (Suc k)" using inv m k by (simp add: vol_inv_def)
  then have "ref_count (mgr_ctx m) - 1 = of_nat k" by simp
  then have upd: "upd_ctx (\<lambda>x. x\<lparr>ref_count := ref_count x - 1\<rparr>) m = upd_ctx (\<lambda>x. x\<lparr>ref_count := of_nat k\<rparr>) m"
    by (simp add: upd_ctx_def)
  have zero: "of_nat k = (0 :: c_int) \<longleftrightarrow> k = 0"
  proof -
    have "k < 2 ^ 32" using held_bound [OF inv, of c] assms(2) k by (simp add: fits_def)
    then have "unat (of_nat k :: c_int) = k" by (rule unat_of_nat_small)
    then show ?thesis by (auto dest: arg_cong [where f = unat])
  qed
  let ?m = "upd_ctx (\<lambda>x. x\<lparr>ref_count := of_nat k\<rparr>) m"
  have rc: "ref_count (mgr_ctx ?m) = of_nat k" and vol: "under_vol_id (mgr_ctx ?m) = under_vol_id (mgr_ctx m)" by simp_all
  show ?thesis
  proof (cases "k = 0")
    case True
    let ?st = "logged_event (H5Idec_ref (under_vol_id (mgr_ctx m))) st"
    have "do { (r, m) \<leftarrow> MM_metadata_update_helper_term (enter ?st ?m); Some ((leave c m ?st)\<lparr>vo_ctxs := (vo_ctxs (leave c m ?st))(c := None)\<rparr>) } = Some st'"
      using dec by (simp only: prop_ctx_dec_rc_def m upd rc zero vol Option.bind.simps) (simp only: True simp_thms if_True)
    then obtain r m' where "st' = (leave c m' ?st)\<lparr>vo_ctxs := (vo_ctxs (leave c m' ?st))(c := None)\<rparr>"
      by (auto simp: bind_eq_Some_conv)
    with True show ?thesis by (simp add: leave_def logged_event_def)
  next
    case False
    have "st' = set_ctx c ?m st"
      using dec False by (simp only: prop_ctx_dec_rc_def m upd rc zero Option.bind.simps if_False option.inject)
    with False show ?thesis by simp
  qed
qed

text \<open>Letting a context go: the state afterwards has one sharer less, and fewer contexts if it was the last.\<close>

lemma release_inv:
  assumes inv: "vol_inv h {} extra st" and "fits st" and m: "vo_ctxs st c = Some m"
    and dec: "prop_ctx_dec_rc c st = Some st1" and k: "held st c = Suc k"
    and objs: "dom objs' \<subseteq> dom (vo_objs st)" "\<And>p ob. objs' p = Some ob \<Longrightarrow> vo_objs st p = Some ob"
    and wraps: "dom wraps' \<subseteq> dom (vo_wraps st)" "\<And>p w. wraps' p = Some w \<Longrightarrow> vo_wraps st p = Some w"
    and held': "\<And>d. refs p_ctx objs' d + refs wrap_p_ctx wraps' d = (if d = c then k else held st d)"
  shows "vol_inv h {} extra (st1\<lparr>vo_objs := objs', vo_wraps := wraps'\<rparr>)"
proof -
  let ?s = "st1\<lparr>vo_objs := objs', vo_wraps := wraps'\<rparr>"
  note eff = dec_rc_effect [OF assms(1-5)]
  have fin: "finite (dom objs')" "finite (dom wraps')"
    using inv objs(1) wraps(1) finite_subset by (auto simp: vol_inv_def)
  have held: "held ?s d = (if d = c then k else held st d)" for d using held' by (simp add: held_def)
  have low: "\<forall>p\<in>dom (vo_ctxs st) \<union> dom (vo_objs st) \<union> dom (vo_wraps st). p < vo_next st"
    and shared: "\<And>p ob. vo_objs st p = Some ob \<Longrightarrow> p_ctx ob \<in> dom (vo_ctxs st)"
      "\<And>p w. vo_wraps st p = Some w \<Longrightarrow> wrap_p_ctx w \<in> dom (vo_ctxs st)"
    using inv unfolding vol_inv_def by blast+
  have low': "\<forall>p\<in>dom objs' \<union> dom wraps'. p < vo_next st" "\<forall>p\<in>dom (vo_ctxs st). p < vo_next st"
    using low objs(1) wraps(1) by blast+
  show ?thesis
  proof (cases "k = 0")
    case True
    with eff have e: "vo_ctxs st1 = (vo_ctxs st)(c := None)" "vo_next st1 = vo_next st"
      "vo_log st1 = vo_log st @ [H5Idec_ref (under_vol_id (mgr_ctx m))]" by simp_all
    have none: "refs p_ctx objs' c = 0" "refs wrap_p_ctx wraps' c = 0" using held' [of c] True by auto
    have no: "p_ctx ob \<noteq> c" if "objs' p = Some ob" for p ob
      using none(1) that refs_finite [OF fin(1), of p_ctx c] by (auto simp: refs_def)
    have nw: "wrap_p_ctx w \<noteq> c" if "wraps' p = Some w" for p w
      using none(2) that refs_finite [OF fin(2), of wrap_p_ctx c] by (auto simp: refs_def)
    have vols: "ctx_vols st i = ctx_vols ?s i + (if under_vol_id (mgr_ctx m) = i then 1 else 0)" for i
    proof -
      let ?A = "{d. \<exists>x. vo_ctxs st d = Some x \<and> under_vol_id (mgr_ctx x) = i}"
      have "finite ?A" by (rule finite_subset [of _ "dom (vo_ctxs st)"]) (use inv in \<open>auto simp: vol_inv_def\<close>)
      moreover have "{d. \<exists>x. vo_ctxs ?s d = Some x \<and> under_vol_id (mgr_ctx x) = i} = ?A - {c}" by (auto simp: e(1))
      moreover have "c \<in> ?A \<longleftrightarrow> under_vol_id (mgr_ctx m) = i" using m by auto
      ultimately show ?thesis unfolding ctx_vols_def using card.remove [of ?A c] by (cases "c \<in> ?A") simp_all
    qed
    show ?thesis unfolding vol_inv_def
    proof (intro conjI)
      show "\<forall>i. id_refs (vo_log ?s) i = int (ctx_vols ?s i) + extra i"
        using inv vols by (auto simp: vol_inv_def e(3))
      show "\<forall>d x. vo_ctxs ?s d = Some x \<longrightarrow> mgr_ok h x \<and> ref_count (mgr_ctx x) = of_nat (held ?s d) \<and> (d \<notin> {} \<longrightarrow> 0 < held ?s d)"
        using inv by (auto simp: vol_inv_def held e(1))
      show "\<forall>p ob. vo_objs ?s p = Some ob \<longrightarrow> p_ctx ob \<in> dom (vo_ctxs ?s)"
      proof (intro allI impI)
        fix p ob assume "vo_objs ?s p = Some ob"
        then have o: "objs' p = Some ob" by simp
        then have "p_ctx ob \<in> dom (vo_ctxs st)" using shared(1) objs(2) by blast
        then show "p_ctx ob \<in> dom (vo_ctxs ?s)" using no [OF o] by (simp add: e(1))
      qed
      show "\<forall>p w. vo_wraps ?s p = Some w \<longrightarrow> wrap_p_ctx w \<in> dom (vo_ctxs ?s)"
      proof (intro allI impI)
        fix p w assume "vo_wraps ?s p = Some w"
        then have o: "wraps' p = Some w" by simp
        then have "wrap_p_ctx w \<in> dom (vo_ctxs st)" using shared(2) wraps(2) by blast
        then show "wrap_p_ctx w \<in> dom (vo_ctxs ?s)" using nw [OF o] by (simp add: e(1))
      qed
    qed (use inv fin low' in \<open>auto simp: vol_inv_def e\<close>)
  next
    case False
    let ?m = "upd_ctx (\<lambda>x. x\<lparr>ref_count := of_nat k\<rparr>) m"
    from eff False have e: "vo_ctxs st1 = (vo_ctxs st)(c \<mapsto> ?m)" "vo_next st1 = vo_next st" "vo_log st1 = vo_log st"
      by simp_all
    have "{d. \<exists>x. vo_ctxs ?s d = Some x \<and> under_vol_id (mgr_ctx x) = i}
        = {d. \<exists>x. vo_ctxs st d = Some x \<and> under_vol_id (mgr_ctx x) = i}" for i
      using m by (auto simp: e(1))
    then have vols: "ctx_vols ?s = ctx_vols st" by (simp add: ctx_vols_def [abs_def])
    show ?thesis unfolding vol_inv_def
    proof (intro conjI)
      show "\<forall>i. id_refs (vo_log ?s) i = int (ctx_vols ?s i) + extra i"
        using inv by (simp add: vol_inv_def e(3) vols)
      show "\<forall>d x. vo_ctxs ?s d = Some x \<longrightarrow> mgr_ok h x \<and> ref_count (mgr_ctx x) = of_nat (held ?s d) \<and> (d \<notin> {} \<longrightarrow> 0 < held ?s d)"
        using inv m False by (auto simp: vol_inv_def held e(1))
      show "\<forall>p ob. vo_objs ?s p = Some ob \<longrightarrow> p_ctx ob \<in> dom (vo_ctxs ?s)"
      proof (intro allI impI)
        fix p ob assume "vo_objs ?s p = Some ob"
        then have o: "objs' p = Some ob" by simp
        then have "p_ctx ob \<in> dom (vo_ctxs st)" using shared(1) objs(2) by blast
        then show "p_ctx ob \<in> dom (vo_ctxs ?s)" using m by (simp add: e(1))
      qed
      show "\<forall>p w. vo_wraps ?s p = Some w \<longrightarrow> wrap_p_ctx w \<in> dom (vo_ctxs ?s)"
      proof (intro allI impI)
        fix p w assume "vo_wraps ?s p = Some w"
        then have o: "wraps' p = Some w" by simp
        then have "wrap_p_ctx w \<in> dom (vo_ctxs st)" using shared(2) wraps(2) by blast
        then show "wrap_p_ctx w \<in> dom (vo_ctxs ?s)" using m by (simp add: e(1))
      qed
    qed (use inv fin low' m in \<open>auto simp: vol_inv_def e\<close>)
  qed
qed

lemma free_obj_inv:
  assumes inv: "vol_inv h {} extra st" "fits st" and free: "H5VL_rlo_pass_through_free_obj p st = Some st'"
  shows "vol_inv h {} extra st' \<and> fits st' \<and> vo_objs st' = (vo_objs st)(p := None) \<and> vo_wraps st' = vo_wraps st"
proof -
  obtain ob st1 where ob: "vo_objs st p = Some ob" and dec: "prop_ctx_dec_rc (p_ctx ob) st = Some st1"
    and st': "st' = st1\<lparr>vo_objs := (vo_objs st1)(p := None)\<rparr>"
    using free by (auto simp: H5VL_rlo_pass_through_free_obj_def bind_eq_Some_conv)
  obtain m where m: "vo_ctxs st (p_ctx ob) = Some m" using dec by (auto simp: prop_ctx_dec_rc_def bind_eq_Some_conv)
  have fin: "finite (dom (vo_objs st))" using inv(1) by (simp add: vol_inv_def)
  let ?k = "refs p_ctx ((vo_objs st)(p := None)) (p_ctx ob) + refs wrap_p_ctx (vo_wraps st) (p_ctx ob)"
  have k: "held st (p_ctx ob) = Suc ?k"
    by (simp add: held_def refs_delete [OF fin ob, of p_ctx])
  have eff: "vo_objs st1 = vo_objs st" "vo_wraps st1 = vo_wraps st"
    using dec_rc_effect [OF inv m dec k] by simp_all
  have "vol_inv h {} extra (st1\<lparr>vo_objs := (vo_objs st)(p := None), vo_wraps := vo_wraps st\<rparr>)"
    by (rule release_inv [OF inv m dec k]) (auto simp: held_def refs_delete [OF fin ob, of p_ctx] split: if_splits)
  moreover have "st1\<lparr>vo_objs := (vo_objs st)(p := None), vo_wraps := vo_wraps st\<rparr> = st'"
    using eff by (simp add: st')
  moreover have "card (dom ((vo_objs st)(p := None))) \<le> card (dom (vo_objs st))"
    using fin by (intro card_mono) auto
  ultimately show ?thesis using inv(2) eff by (simp add: st' fits_def)
qed

lemma free_wrap_inv:
  assumes inv: "vol_inv h {} extra st" "fits st" and w: "vo_wraps st p = Some w"
    and dec: "prop_ctx_dec_rc (wrap_p_ctx w) st = Some st1" and st': "st' = st1\<lparr>vo_wraps := (vo_wraps st1)(p := None)\<rparr>"
  shows "vol_inv h {} extra st' \<and> fits st'"
proof -
  obtain m where m: "vo_ctxs st (wrap_p_ctx w) = Some m" using dec by (auto simp: prop_ctx_dec_rc_def bind_eq_Some_conv)
  have fin: "finite (dom (vo_wraps st))" using inv(1) by (simp add: vol_inv_def)
  let ?k = "refs p_ctx (vo_objs st) (wrap_p_ctx w) + refs wrap_p_ctx ((vo_wraps st)(p := None)) (wrap_p_ctx w)"
  have k: "held st (wrap_p_ctx w) = Suc ?k"
    by (simp add: held_def refs_delete [OF fin w, of wrap_p_ctx])
  have eff: "vo_objs st1 = vo_objs st" "vo_wraps st1 = vo_wraps st"
    using dec_rc_effect [OF inv m dec k] by simp_all
  have "vol_inv h {} extra (st1\<lparr>vo_objs := vo_objs st, vo_wraps := (vo_wraps st)(p := None)\<rparr>)"
    by (rule release_inv [OF inv m dec k]) (auto simp: held_def refs_delete [OF fin w, of wrap_p_ctx] split: if_splits)
  moreover have "st1\<lparr>vo_objs := vo_objs st, vo_wraps := (vo_wraps st)(p := None)\<rparr> = st'"
    using eff by (simp add: st')
  moreover have "card (dom ((vo_wraps st)(p := None))) \<le> card (dom (vo_wraps st))"
    using fin by (intro card_mono) auto
  ultimately show ?thesis using inv(2) eff by (simp add: st' fits_def)
qed

section \<open>The context of a new file\<close>

text \<open>The context is nobody's yet, and takes over the reference to the identifier taken for it.\<close>

lemma new_ctx_inv:
  assumes inv: "vol_inv h {} extra st" and c: "c \<notin> dom (vo_ctxs st)" "c < vo_next st"
    and m: "mgr_ok h m" "ref_count (mgr_ctx m) = 0"
  shows "vol_inv h {c} (\<lambda>i. extra i - (if i = under_vol_id (mgr_ctx m) then 1 else 0)) (set_ctx c m st)"
proof -
  have fin: "finite (dom (vo_objs st))" "finite (dom (vo_wraps st))" "finite (dom (vo_ctxs st))"
    using inv by (simp_all add: vol_inv_def)
  have "{p. \<exists>x. vo_objs st p = Some x \<and> p_ctx x = c} = {}" "{p. \<exists>x. vo_wraps st p = Some x \<and> wrap_p_ctx x = c} = {}"
    using inv c(1) unfolding vol_inv_def by blast+
  then have held: "held st c = 0" unfolding held_def refs_def by (simp only: card.empty)
  have vols: "ctx_vols (set_ctx c m st) i = ctx_vols st i + (if i = under_vol_id (mgr_ctx m) then 1 else 0)" for i
  proof -
    let ?A = "{d. \<exists>x. vo_ctxs st d = Some x \<and> under_vol_id (mgr_ctx x) = i}"
    have "finite ?A" by (rule finite_subset [of _ "dom (vo_ctxs st)"]) (use fin in auto)
    moreover have "c \<notin> ?A" using c(1) by auto
    moreover have "{d. \<exists>x. vo_ctxs (set_ctx c m st) d = Some x \<and> under_vol_id (mgr_ctx x) = i}
        = (if i = under_vol_id (mgr_ctx m) then insert c ?A else ?A)" using c(1) by auto
    ultimately show ?thesis
      unfolding ctx_vols_def using card_insert_disjoint [of ?A c] by (cases "i = under_vol_id (mgr_ctx m)") simp_all
  qed
  show ?thesis
    using inv c m held unfolding vol_inv_def by (auto simp: vols domIff)
qed

lemma checkout_app:
  assumes "checkout_proposal_make_progress m = Some m'"
  shows "mm_app m' = mm_app m \<and> mm_em m' = mm_em m"
  by (rule checkout_proposal_make_progress.raw_induct [OF _ assms])
    (auto simp: bind_eq_Some_conv Let_def case_prod_unfold mm_new_node_def mm_add_ledger_def split: if_splits)

lemma helper_init_app:
  assumes "MM_metadata_update_helper_init md ws win j c vp cb s v w clk n = Some m"
  shows "mm_app m = w \<and> callback_is cb m"
  using assms by (auto simp: MM_metadata_update_helper_init_def bind_eq_Some_conv callback_is_def
      EM_execution_manager_init_def dest!: checkout_app)

definition same_objs :: "'l vol_state \<Rightarrow> 'l vol_state \<Rightarrow> bool" where
  "same_objs st st' \<longleftrightarrow> vo_objs st' = vo_objs st \<and> vo_wraps st' = vo_wraps st"

lemma fits_same: "same_objs st st' \<Longrightarrow> fits st' = fits st" and room_same: "same_objs st st' \<Longrightarrow> room st' = room st"
  by (simp_all add: same_objs_def fits_def room_def)

lemma plugin_handles_inv:
  "vol_inv h fresh extra (snd (plugin_handles g info st)) = vol_inv h fresh extra st"
  "same_objs st (snd (plugin_handles g info st))"
  "vo_ctxs (snd (plugin_handles g info st)) = vo_ctxs st" "vo_next (snd (plugin_handles g info st)) = vo_next st"
  by (simp_all add: plugin_handles_def case_prod_unfold Let_def vol_inv_event same_objs_def split: option.split)

lemma metadata_helper_init_inv:
  assumes inv: "vol_inv h {} extra st" and init: "metadata_helper_init h info c ctx st = Some (m, st')"
  shows "vol_inv h {} extra st' \<and> mgr_ok h m \<and> mgr_ctx m = ctx \<and> same_objs st st' \<and> vo_ctxs st' = vo_ctxs st
    \<and> vo_next st' = Suc (vo_next st)"
proof -
  let ?s = "snd (plugin_handles h info st)"
  have st': "st' = ?s\<lparr>vo_rank_debug := in_my_rank info, vo_next := Suc (vo_next ?s), vo_lib := va_lib (mm_app m), vo_vs := mm_vs m\<rparr>"
    and m: "va_ctx (mm_app m) = ctx" "callback_is (cb_execute_H5VL_RLO h) m"
    using init by (auto simp: metadata_helper_init_def bind_eq_Some_conv case_prod_unfold Let_def dest!: helper_init_app)
  have "vol_inv h {} extra (?s\<lparr>vo_rank_debug := in_my_rank info, vo_next := Suc (vo_next ?s)\<rparr>)"
    by (rule vol_inv_next) (simp_all add: plugin_handles_inv inv)
  then show ?thesis using m plugin_handles_inv(2-4) [where st = st and g = h and info = info] by (simp add: st' mgr_ok_def same_objs_def)
qed

lemma prop_ctx_new_inv:
  assumes inv: "vol_inv h {} extra st" and new: "prop_ctx_new h x info coll st = Some (c, st')"
  shows "vol_inv h {c} extra st' \<and> same_objs st st'"
proof -
  let ?i = "in_under_vol_id info"
  let ?st = "logged_event (H5Iinc_ref ?i) (st\<lparr>vo_next := Suc (vo_next st)\<rparr>)"
  let ?ctx = "\<lparr>ref_count = 0, under_file = x, under_vol_id = ?i,
    comm_size = word_of_int (ce_size (a_comm_env h (in_mpi_comm info))),
    ctx_my_rank = word_of_int (ce_rank (a_comm_env h (in_mpi_comm info))),
    close_count = 0, is_collective = coll, under_obj = None, resulting_obj_out = None\<rparr>"
  obtain m st1 where c: "c = vo_next st"
    and init: "metadata_helper_init h info c ?ctx ?st = Some (m, st1)"
    and st': "st' = set_ctx c m (st1\<lparr>vo_vs := judge_window (vp_context (mm_vm m)) (time_window_size m) (vo_vs st1)\<rparr>)"
    using new by (auto simp: prop_ctx_new_def Let_def bind_eq_Some_conv)
  have "vol_inv h {} (\<lambda>i. extra i + (if i = ?i then 1 else 0)) ?st"
    using inv by (simp add: vol_inv_event vol_inv_next)
  note i = metadata_helper_init_inv [OF this init]
  then have ctx: "ref_count (mgr_ctx m) = 0" "under_vol_id (mgr_ctx m) = ?i" by simp_all
  have "c \<notin> dom (vo_ctxs st1)"
    using inv i by (auto simp: c vol_inv_def Ball_def)
  moreover have "c < vo_next st1" using i by (simp add: c)
  ultimately have "vol_inv h {c} (\<lambda>i. extra i + (if i = ?i then 1 else 0) - (if i = ?i then 1 else 0)) st'"
    unfolding st' using new_ctx_inv [of h "\<lambda>i. extra i + (if i = ?i then 1 else 0)" "st1\<lparr>vo_vs := v\<rparr>" c m for v] i ctx
    by simp
  then show ?thesis using i by (simp add: st' same_objs_def)
qed

end
