(* ===== verification/VOL_Steps.thy ===== *)
theory VOL_Steps
  imports VOL_Refs
begin

text \<open>
  The entry points of the class structure of \<^verbatim>\<open>H5VL_rlo.c\<close> as steps of the process, and that each of them
  keeps the counts right.
\<close>

section \<open>Steps that only call the library\<close>

definition only_lib :: "'l vol_state \<Rightarrow> 'l vol_state \<Rightarrow> bool" where
  "only_lib st st' \<longleftrightarrow> (\<exists>l. st' = st\<lparr>vo_lib := l\<rparr>)"

lemma only_lib_refl [simp]: "only_lib st st"
  unfolding only_lib_def by (rule exI [of _ "vo_lib st"]) simp

lemma only_lib_upd [simp]: "only_lib st (st\<lparr>vo_lib := l\<rparr>)"
  by (auto simp: only_lib_def)

lemma only_lib_trans: "only_lib st st1 \<Longrightarrow> only_lib st1 st2 \<Longrightarrow> only_lib st st2"
  by (auto simp: only_lib_def)

lemma only_lib_inv: "only_lib st st' \<Longrightarrow> vol_inv h fresh extra st' = vol_inv h fresh extra st"
  and only_lib_fits: "only_lib st st' \<Longrightarrow> fits st' = fits st"
  and only_lib_room: "only_lib st st' \<Longrightarrow> room st' = room st"
  by (auto simp: only_lib_def fits_def room_def)

lemma only_lib_ok: "only_lib st st' \<Longrightarrow> vol_ok h st' = vol_ok h st"
  by (simp add: vol_ok_def only_lib_inv only_lib_fits)

lemma calls_only_lib:
  "only_lib st (snd (call_do h c st))" "only_lib st (snd (call_open h c st))"
  by (simp_all add: call_do_def call_open_def case_prod_unfold)

lemma call_do_lib: "call_do h c st = (r, st') \<Longrightarrow> only_lib st st'"
  and call_open_lib: "call_open h c st = (x, st') \<Longrightarrow> only_lib st st'"
  by (metis calls_only_lib snd_conv)+

lemma native_info_lib: "native_info h x vol d t st = Some (r, st') \<Longrightarrow> only_lib st st'"
  by (auto simp: native_info_def bind_eq_Some_conv case_prod_unfold)

lemma attr_get_name_lib: "attr_get_name h x vol st = Some (r, st') \<Longrightarrow> only_lib st st'"
  by (auto simp: attr_get_name_def bind_eq_Some_conv case_prod_unfold)

lemma attr_size_lib: "attr_size h x vol t st = Some (r, st') \<Longrightarrow> only_lib st st'"
  by (auto simp: attr_size_def bind_eq_Some_conv case_prod_unfold Let_def)

lemma ds_extend_data_lib: "ds_extend_data h x vol sizes st = Some (r, st') \<Longrightarrow> only_lib st st'"
  by (auto simp: ds_extend_data_def bind_eq_Some_conv case_prod_unfold split: if_splits
      dest!: native_info_lib intro: only_lib_trans)

lemma create_params_lib: "create_params h ok obj loc name d st = Some (r, st') \<Longrightarrow> only_lib st st'"
  by (auto simp: create_params_def bind_eq_Some_conv dest: native_info_lib)

lemma group_encoder_test_lib: "group_encoder_test h loc name a b c d st = Some st' \<Longrightarrow> only_lib st st'"
  by (auto simp: group_encoder_test_def bind_eq_Some_conv split: if_splits)

lemma vol_delegate_lib: "vol_delegate h st st' \<Longrightarrow> only_lib st st'"
  by (drule vol_delegate_frame) (simp add: only_lib_def)

lemma link_both_lib: "link_both h f a b st = Some (r, st') \<Longrightarrow> only_lib st st'"
  by (auto simp: link_both_def bind_eq_Some_conv Let_def split: if_splits dest: call_do_lib)

section \<open>Wrapping, releasing, submitting\<close>

lemma wrap_result_inv:
  assumes "wrap_result t c (r, st) = Some (p, st')" and "vol_inv h {} extra st" and "room st"
  shows "vol_inv h {} extra st' \<and> fits st'"
proof (cases r)
  case None
  with assms show ?thesis by (auto simp: wrap_result_def room_def fits_def)
next
  case (Some x)
  with assms(1) obtain q where new: "H5VL_rlo_pass_through_new_obj x t c st = Some (q, st')"
    by (auto simp: wrap_result_def bind_eq_Some_conv)
  have "vo_objs st' = (vo_objs st)(q \<mapsto> \<lparr>obj_type = vl_code t, under_object = x, p_ctx = c\<rparr>)" "vo_wraps st' = vo_wraps st"
    using new by (auto simp: H5VL_rlo_pass_through_new_obj_def prop_ctx_inc_rc_def bind_eq_Some_conv Let_def)
  moreover have "finite (dom (vo_objs st))" using assms(2) by (simp add: vol_inv_def)
  then have "card (insert q (dom (vo_objs st))) \<le> Suc (card (dom (vo_objs st)))" by (simp add: card_insert_if)
  ultimately have "fits st'" using assms(3) by (simp add: fits_def room_def)
  then show ?thesis using new_obj_inv [OF assms(2) new] by simp
qed

lemma open_under_ok:
  assumes "open_under h t obj f st = Some (p, st')" and "vol_ok h st" and "room st"
  shows "vol_ok h st'"
proof -
  obtain c r s where w: "wrap_result t c (r, s) = Some (p, st')" and s: "only_lib st s"
    using assms(1) by (auto simp: open_under_def bind_eq_Some_conv) (metis call_open_lib prod.collapse)
  have "vol_inv h {} (\<lambda>i. 0) s" "room s" using assms(2,3) s by (simp_all add: vol_ok_def only_lib_inv only_lib_room)
  then show ?thesis using wrap_result_inv [OF w] unfolding vol_ok_def by blast
qed

lemma release_if_ok: "release_if p b st = Some st' \<Longrightarrow> vol_ok h st \<Longrightarrow> vol_ok h st'"
  by (auto simp: release_if_def vol_ok_def split: if_splits dest: free_obj_inv)

lemma close_under_ok:
  assumes "close_under h p f st = Some (r, st')" and "vol_ok h st"
  shows "vol_ok h st'"
proof -
  obtain c s1 b where s: "call_do h c st = (r, s1)" "release_if p b s1 = Some st'"
    using assms(1) by (auto simp: close_under_def bind_eq_Some_conv case_prod_unfold) (metis prod.collapse)
  then show ?thesis using release_if_ok only_lib_ok [OF call_do_lib] assms(2) by blast
qed

lemma submit_inv:
  assumes "submit c p st = Some (r, p', st')" and "vol_inv h fresh extra st"
  shows "vol_inv h fresh extra st' \<and> same_objs st st'"
proof -
  obtain m m' where m: "vo_ctxs st c = Some m" "MM_submit_proposal (enter st m) p = Some (r, p', m')" "st' = leave c m' st"
    using assms(1) by (auto simp: submit_def bind_eq_Some_conv)
  have "mgr_ok h m' \<and> ctx_key (mgr_ctx m') = ctx_key (mgr_ctx (enter st m))"
    using submit_same_ctx [OF m(2)] inv_mgr_ok [OF assms(2) m(1)] by simp
  then show ?thesis using leave_inv [OF assms(2) m(1)] by (simp add: m(3) same_objs_def leave_def)
qed

lemma clear_result_inv:
  assumes "clear_result c st = Some st'" and "vol_inv h fresh extra st"
  shows "vol_inv h fresh extra st' \<and> same_objs st st'"
proof -
  obtain m where m: "vo_ctxs st c = Some m" "st' = set_ctx c (upd_ctx (\<lambda>x. x\<lparr>resulting_obj_out := None\<rparr>) m) st"
    using assms(1) by (auto simp: clear_result_def bind_eq_Some_conv)
  show ?thesis using vol_inv_same_ctx [OF assms(2) m(1)] inv_mgr_ok [OF assms(2) m(1)]
    by (simp add: m(2) same_objs_def)
qed

lemma submit_create_ok:
  assumes "submit_create t c p st = Some (q, st')" and "vol_ok h st" and "room st"
  shows "vol_ok h st'"
proof -
  obtain s1 s2 r p1 x where s: "clear_result c st = Some s1" "submit c p s1 = Some (r, p1, s2)"
    "wrap_result t c (x, s2) = Some (q, st')"
    using assms(1) by (auto simp: submit_create_def bind_eq_Some_conv)
  have 1: "vol_inv h {} (\<lambda>i. 0) s1" "same_objs st s1"
    using clear_result_inv [OF s(1)] assms(2) unfolding vol_ok_def by blast+
  have 2: "vol_inv h {} (\<lambda>i. 0) s2" "same_objs s1 s2" using submit_inv [OF s(2) 1(1)] by blast+
  have "room s2" using room_same [OF 1(2)] room_same [OF 2(2)] assms(3) by blast
  then show ?thesis using wrap_result_inv [OF s(3) 2(1)] unfolding vol_ok_def by blast
qed

lemma submit_encoded_ok:
  "submit_encoded op t obj tv enc st = Some (q, st') \<Longrightarrow> vol_ok h st \<Longrightarrow> room st \<Longrightarrow> vol_ok h st'"
  by (auto simp: submit_encoded_def bind_eq_Some_conv case_prod_unfold dest: submit_create_ok)

section \<open>The steps\<close>

inductive open_step :: "('l, 'z) vol_api_scheme \<Rightarrow> 'l vol_state \<Rightarrow> 'l vol_state \<Rightarrow> bool" for h where
  "H5VL_rlo_pass_through_attr_open h obj loc name apl dxpl req st = Some (r, st') \<Longrightarrow> open_step h st st'"
| "H5VL_rlo_pass_through_dataset_open h obj loc name apl dxpl req st = Some (r, st') \<Longrightarrow> open_step h st st'"
| "H5VL_rlo_pass_through_datatype_open h obj loc name apl dxpl req st = Some (r, st') \<Longrightarrow> open_step h st st'"
| "H5VL_rlo_pass_through_group_open h obj loc name apl dxpl req st = Some (r, st') \<Longrightarrow> open_step h st st'"
| "H5VL_rlo_pass_through_object_open h obj loc opened dxpl req st = Some (r, st') \<Longrightarrow> open_step h st st'"

inductive close_step :: "('l, 'z) vol_api_scheme \<Rightarrow> 'l vol_state \<Rightarrow> 'l vol_state \<Rightarrow> bool" for h where
  "H5VL_rlo_pass_through_attr_close h obj dxpl req st = Some (r, st') \<Longrightarrow> close_step h st st'"
| "H5VL_rlo_pass_through_dataset_close h obj dxpl req st = Some (r, st') \<Longrightarrow> close_step h st st'"
| "H5VL_rlo_pass_through_datatype_close h obj dxpl req st = Some (r, st') \<Longrightarrow> close_step h st st'"
| "H5VL_rlo_pass_through_group_close h obj dxpl req st = Some (r, st') \<Longrightarrow> close_step h st st'"
| "H5VL_rlo_pass_through_file_close h obj dxpl req tv st = Some (r, st') \<Longrightarrow> close_step h st st'"

inductive submit_step :: "('l, 'z) vol_api_scheme \<Rightarrow> 'l vol_state \<Rightarrow> 'l vol_state \<Rightarrow> bool" for h where
  "H5VL_rlo_pass_through_attr_create h obj loc name i1 i2 i3 i4 dxpl tv st = Some (p, st') \<Longrightarrow> submit_step h st st'"
| "H5VL_rlo_pass_through_dataset_create h obj loc name i1 i2 i3 i4 i5 dxpl tv st = Some (p, st') \<Longrightarrow> submit_step h st st'"
| "H5VL_rlo_pass_through_datatype_commit h obj loc name i1 i2 i3 i4 dxpl tv st = Some (p, st') \<Longrightarrow> submit_step h st st'"
| "H5VL_rlo_pass_through_group_create h obj loc name i1 i2 i3 dxpl tv st = Some (p, st') \<Longrightarrow> submit_step h st st'"
| "H5VL_rlo_pass_through_attr_write h obj i1 buf dxpl this_pid tv st = Some (r, st') \<Longrightarrow> submit_step h st st'"
| "H5VL_rlo_pass_through_dataset_specific h obj sizes tv st = Some (r, st') \<Longrightarrow> submit_step h st st'"

inductive wrap_step :: "('l, 'z) vol_api_scheme \<Rightarrow> 'l vol_state \<Rightarrow> 'l vol_state \<Rightarrow> bool" for h where
  "H5VL_rlo_pass_through_get_object h obj st = Some (r, st') \<Longrightarrow> wrap_step h st st'"
| "H5VL_rlo_pass_through_get_wrap_ctx h obj st = Some (w, st') \<Longrightarrow> wrap_step h st st'"
| "H5VL_rlo_pass_through_wrap_object h obj t w st = Some (r, st') \<Longrightarrow> wrap_step h st st'"
| "H5VL_rlo_pass_through_unwrap_object h obj st = Some (r, st') \<Longrightarrow> wrap_step h st st'"
| "H5VL_rlo_pass_through_free_wrap_ctx h w st = Some (s, st') \<Longrightarrow> wrap_step h st st'"

inductive file_step :: "('l, 'z) vol_api_scheme \<Rightarrow> 'l vol_state \<Rightarrow> 'l vol_state \<Rightarrow> bool" for h where
  "H5VL_rlo_pass_through_file_create h name flags fcpl fapl dxpl req st = Some (r, st') \<Longrightarrow> file_step h st st'"
| "H5VL_rlo_pass_through_file_open h name flags fapl dxpl req st = Some (r, st') \<Longrightarrow> file_step h st st'"
| "H5VL_rlo_pass_through_file_specific h obj t args dxpl req st = Some (s, r, st') \<Longrightarrow> file_step h st st'"

inductive link_step :: "('l, 'z) vol_api_scheme \<Rightarrow> 'l vol_state \<Rightarrow> 'l vol_state \<Rightarrow> bool" for h where
  "H5VL_rlo_pass_through_link_create h t hard obj loc lcpl lapl dxpl req args st = Some (r, st') \<Longrightarrow> link_step h st st'"
| "H5VL_rlo_pass_through_link_copy h src loc1 dst loc2 lcpl lapl dxpl req st = Some (r, st') \<Longrightarrow> link_step h st st'"
| "H5VL_rlo_pass_through_link_move h src loc1 dst loc2 lcpl lapl dxpl req st = Some (r, st') \<Longrightarrow> link_step h st st'"
| "H5VL_rlo_pass_through_object_copy h src loc1 name1 dst loc2 name2 ocpypl lcpl dxpl req st = Some (r, st') \<Longrightarrow> link_step h st st'"

inductive request_step :: "('l, 'z) vol_api_scheme \<Rightarrow> 'l vol_state \<Rightarrow> 'l vol_state \<Rightarrow> bool" for h where
  "H5VL_rlo_pass_through_request_wait h obj timeout st = Some (r, s, st') \<Longrightarrow> request_step h st st'"
| "H5VL_rlo_pass_through_request_notify h obj cb ctx st = Some (r, st') \<Longrightarrow> request_step h st st'"
| "H5VL_rlo_pass_through_request_cancel h obj st = Some (r, st') \<Longrightarrow> request_step h st st'"
| "H5VL_rlo_pass_through_request_free h obj st = Some (r, st') \<Longrightarrow> request_step h st st'"
| "H5VL_rlo_pass_through_request_specific h none t array timeout st = Some (r, st') \<Longrightarrow> request_step h st st'"

text \<open>A step of the process is one call of an entry point that returns, with room for one more wrapper.\<close>

inductive vol_step :: "('l, 'z) vol_api_scheme \<Rightarrow> 'l vol_state \<Rightarrow> 'l vol_state \<Rightarrow> bool" for h where
  vs_open: "room st \<Longrightarrow> open_step h st st' \<Longrightarrow> vol_step h st st'"
| vs_close: "room st \<Longrightarrow> close_step h st st' \<Longrightarrow> vol_step h st st'"
| vs_submit: "room st \<Longrightarrow> submit_step h st st' \<Longrightarrow> vol_step h st st'"
| vs_wrap: "room st \<Longrightarrow> wrap_step h st st' \<Longrightarrow> vol_step h st st'"
| vs_file: "room st \<Longrightarrow> file_step h st st' \<Longrightarrow> vol_step h st st'"
| vs_link: "room st \<Longrightarrow> link_step h st st' \<Longrightarrow> vol_step h st st'"
| vs_request: "room st \<Longrightarrow> request_step h st st' \<Longrightarrow> vol_step h st st'"
| vs_delegate: "room st \<Longrightarrow> vol_delegate h st st' \<Longrightarrow> vol_step h st st'"

lemma open_step_ok: "open_step h st st' \<Longrightarrow> vol_ok h st \<Longrightarrow> room st \<Longrightarrow> vol_ok h st'"
  by (erule open_step.cases)
    (simp_all only: H5VL_rlo_pass_through_attr_open_def H5VL_rlo_pass_through_dataset_open_def
      H5VL_rlo_pass_through_datatype_open_def H5VL_rlo_pass_through_group_open_def
      H5VL_rlo_pass_through_object_open_def open_under_ok)

lemma await_close_inv:
  assumes "vol_inv h {} extra st" and "vo_ctxs st c = Some m" and "await_close (enter st m) = Some m'"
  shows "vol_inv h {} extra (leave c m' st) \<and> same_objs st (leave c m' st)"
proof -
  have "mgr_ok h m' \<and> ctx_key (mgr_ctx m') = ctx_key (mgr_ctx m)"
    using await_close_same_ctx [OF assms(3), of h] inv_mgr_ok [OF assms(1,2)] by simp
  then show ?thesis using leave_inv [OF assms(1,2)] by (simp add: same_objs_def leave_def)
qed

lemma file_close_ok:
  assumes "H5VL_rlo_pass_through_file_close h f dxpl req tv st = Some (r, st')" and "vol_ok h st"
  shows "vol_ok h st'"
proof -
  obtain ob where ob: "vo_objs st f = Some ob"
    using assms(1) by (auto simp: H5VL_rlo_pass_through_file_close_def bind_eq_Some_conv)
  define p :: "nat proposal" where "p = compose_proposal tv (vo_rank_debug st) (op_code FILE_CLOSE) None 0"
  obtain r1 p1 s1 where s1: "submit (p_ctx ob) p st = Some (r1, p1, s1)"
    using assms(1) ob by (auto simp: H5VL_rlo_pass_through_file_close_def bind_eq_Some_conv p_def)
  obtain m m' where s: "submit (p_ctx ob) p st = Some (r1, p1, s1)" "vo_ctxs s1 (p_ctx ob) = Some m"
    "await_close (enter s1 m) = Some m'"
    using assms(1) ob s1 by (auto simp: H5VL_rlo_pass_through_file_close_def bind_eq_Some_conv p_def)
  obtain r2 where s4: "close_under h f (\<lambda>x vol. File_call (V_file_close x vol dxpl req)) (leave (p_ctx ob) m' s1) = Some (r2, st')"
    using assms(1) ob s by (auto simp: H5VL_rlo_pass_through_file_close_def bind_eq_Some_conv p_def)
  have 1: "vol_inv h {} (\<lambda>i. 0) s1" "same_objs st s1"
    using submit_inv [OF s(1)] assms(2) unfolding vol_ok_def by blast+
  note 2 = await_close_inv [OF 1(1) s(2,3)]
  have "vol_ok h (leave (p_ctx ob) m' s1)"
    unfolding vol_ok_def using 2 fits_same [OF 1(2)] fits_same [OF 2 [THEN conjunct2]] assms(2) [unfolded vol_ok_def] by blast
  then show ?thesis using close_under_ok [OF s4] by blast
qed

lemma close_step_ok: "close_step h st st' \<Longrightarrow> vol_ok h st \<Longrightarrow> vol_ok h st'"
  by (erule close_step.cases)
    (auto simp: H5VL_rlo_pass_through_attr_close_def H5VL_rlo_pass_through_dataset_close_def
      H5VL_rlo_pass_through_datatype_close_def H5VL_rlo_pass_through_group_close_def bind_eq_Some_conv
      split: if_splits dest: close_under_ok file_close_ok)

lemma attr_write_ok:
  assumes "H5VL_rlo_pass_through_attr_write h obj t buf dxpl this_pid tv st = Some (r, st')" and "vol_ok h st"
  shows "vol_ok h st'"
proof -
  obtain c p s1 s2 s3 s4 r1 p1 where s: "only_lib st s1" "only_lib s1 s2" "only_lib s2 s3" "clear_result c s3 = Some s4"
    "submit c p s4 = Some (r1, p1, st')"
    using assms(1) by (auto simp: H5VL_rlo_pass_through_attr_write_def bind_eq_Some_conv
      dest!: native_info_lib attr_get_name_lib attr_size_lib)
  have 3: "vol_ok h s3" using assms(2) only_lib_ok [OF s(1)] only_lib_ok [OF s(2)] only_lib_ok [OF s(3)] by blast
  have 4: "vol_inv h {} (\<lambda>i. 0) s4" "same_objs s3 s4"
    using clear_result_inv [OF s(4)] 3 unfolding vol_ok_def by blast+
  note 5 = submit_inv [OF s(5) 4(1)]
  show ?thesis
    unfolding vol_ok_def using 5 fits_same [OF 4(2)] fits_same [OF 5 [THEN conjunct2]] 3 [unfolded vol_ok_def] by blast
qed

lemma dataset_specific_ok:
  assumes "H5VL_rlo_pass_through_dataset_specific h obj sizes tv st = Some (r, st')" and "vol_ok h st"
  shows "vol_ok h st'"
proof -
  obtain c x m p s1 r1 p1 where s: "only_lib st s1" "vo_ctxs s1 c = Some m"
    "submit c p (set_ctx c (upd_ctx (\<lambda>c. c\<lparr>under_obj := Some x\<rparr>) m) s1) = Some (r1, p1, st')"
    using assms(1) by (auto simp: H5VL_rlo_pass_through_dataset_specific_def bind_eq_Some_conv split: if_splits
      dest!: ds_extend_data_lib)
  let ?s = "set_ctx c (upd_ctx (\<lambda>c. c\<lparr>under_obj := Some x\<rparr>) m) s1"
  have 1: "vol_ok h s1" using assms(2) only_lib_ok [OF s(1)] by blast
  then have "mgr_ok h m" using inv_mgr_ok s(2) unfolding vol_ok_def by blast
  then have 2: "vol_inv h {} (\<lambda>i. 0) ?s"
    by (intro vol_inv_same_ctx [OF _ s(2)]) (use 1 in \<open>simp_all add: vol_ok_def\<close>)
  have same: "same_objs s1 ?s" by (simp add: same_objs_def)
  note 3 = submit_inv [OF s(3) 2]
  show ?thesis
    unfolding vol_ok_def using 3 fits_same [OF same] fits_same [OF 3 [THEN conjunct2]] 1 [unfolded vol_ok_def] by blast
qed

lemma create_ok:
  assumes "only_lib st s1" and "submit_encoded op t obj tv enc s1 = Some (q, st')" and "vol_ok h st" "room st"
  shows "vol_ok h st'"
  using submit_encoded_ok [OF assms(2)] only_lib_ok [OF assms(1)] only_lib_room [OF assms(1)] assms(3,4) by blast

lemma submit_step_ok:
  assumes "submit_step h st st'" and "vol_ok h st" "room st"
  shows "vol_ok h st'"
  using assms(1)
proof cases
  case 1
  then show ?thesis using assms(2,3)
    by (auto simp: H5VL_rlo_pass_through_attr_create_def bind_eq_Some_conv dest!: create_params_lib intro: create_ok)
next
  case 2
  then show ?thesis using assms(2,3)
    by (auto simp: H5VL_rlo_pass_through_dataset_create_def bind_eq_Some_conv dest!: create_params_lib intro: create_ok)
next
  case 3
  then show ?thesis using assms(2,3)
    by (auto simp: H5VL_rlo_pass_through_datatype_commit_def bind_eq_Some_conv dest!: create_params_lib intro: create_ok)
next
  case 4
  then show ?thesis using assms(2,3)
    by (auto simp: H5VL_rlo_pass_through_group_create_def bind_eq_Some_conv dest!: create_params_lib group_encoder_test_lib
        intro: create_ok only_lib_trans)
next
  case 5
  then show ?thesis using assms(2) attr_write_ok by blast
next
  case 6
  then show ?thesis using assms(2) dataset_specific_ok by blast
qed

lemma wrap_step_ok:
  assumes "wrap_step h st st'" and "vol_ok h st" "room st"
  shows "vol_ok h st'"
  using assms(1)
proof cases
  case 1
  then have "only_lib st st'" by (auto simp: H5VL_rlo_pass_through_get_object_def bind_eq_Some_conv call_open_lib)
  then show ?thesis using assms(2) only_lib_ok by blast
next
  case 2
  from get_wrap_ctx_inv [OF _ 2] assms(2,3) show ?thesis
    unfolding vol_ok_def fits_def room_def by fastforce
next
  case (3 obj t w r)
  obtain wc m where m: "vo_wraps st w = Some wc" "vo_ctxs st (wrap_p_ctx wc) = Some m"
    using 3 by (auto simp: H5VL_rlo_pass_through_wrap_object_def bind_eq_Some_conv)
  obtain x s1 where x: "call_open h (Wrap_call (V_wrap_object obj t (under_vol_id (mgr_ctx m)) (under_wrap_ctx wc))) st = (x, s1)"
    by fastforce
  have s: "only_lib st s1" "x = None \<longrightarrow> st' = s1"
    "\<And>y. x = Some y \<Longrightarrow> \<exists>ty. wrap_result ty (wrap_p_ctx wc) (Some y, s1) = Some (r, st')"
    using 3 m x call_open_lib [OF x]
    by (auto simp: H5VL_rlo_pass_through_wrap_object_def bind_eq_Some_conv wrap_result_def split: option.splits)
  show ?thesis
  proof (cases x)
    case None
    then show ?thesis using s(1,2) only_lib_ok assms(2) by blast
  next
    case (Some y)
    then obtain ty where w: "wrap_result ty (wrap_p_ctx wc) (Some y, s1) = Some (r, st')" using s(3) by blast
    have "vol_inv h {} (\<lambda>i. 0) s1" "room s1"
      using only_lib_ok [OF s(1)] only_lib_room [OF s(1)] assms(2,3) unfolding vol_ok_def by blast+
    then show ?thesis using wrap_result_inv [OF w] unfolding vol_ok_def by blast
  qed
next
  case (4 obj r)
  obtain x vol where x: "wrapped obj st = Some (x, vol)"
    using 4 by (auto simp: H5VL_rlo_pass_through_unwrap_object_def bind_eq_Some_conv)
  obtain y s1 where y: "call_open h (Wrap_call (V_unwrap_object x vol)) st = (y, s1)" by fastforce
  have s: "only_lib st s1" "release_if obj (y \<noteq> None) s1 = Some st'"
    using 4 x y call_open_lib [OF y]
    by (auto simp: H5VL_rlo_pass_through_unwrap_object_def bind_eq_Some_conv release_if_def split: option.splits)
  then show ?thesis using release_if_ok only_lib_ok [OF s(1)] assms(2) by blast
next
  case (5 w s)
  obtain wc m where m: "vo_wraps st w = Some wc" "vo_ctxs st (wrap_p_ctx wc) = Some m"
    using 5 by (auto simp: H5VL_rlo_pass_through_free_wrap_ctx_def bind_eq_Some_conv)
  define s1 where "s1 = (case under_wrap_ctx wc of
     None \<Rightarrow> st | Some u \<Rightarrow> snd (call_do h (Wrap_call (V_free_wrap_ctx u (under_vol_id (mgr_ctx m)))) st))"
  obtain s2 where s: "vo_wraps st w = Some wc" "only_lib st s1" "prop_ctx_dec_rc (wrap_p_ctx wc) s1 = Some s2"
    "st' = s2\<lparr>vo_wraps := (vo_wraps s2)(w := None)\<rparr>"
    using 5 m by (auto simp: H5VL_rlo_pass_through_free_wrap_ctx_def bind_eq_Some_conv s1_def calls_only_lib split: option.split)
  have "vol_inv h {} (\<lambda>i. 0) s1" "fits s1" "vo_wraps s1 w = Some wc"
    using only_lib_ok [OF s(2)] assms(2) s(1,2) unfolding vol_ok_def only_lib_def by auto
  then show ?thesis using free_wrap_inv s(3,4) unfolding vol_ok_def by blast
qed

section \<open>Files\<close>

lemma info_copy_inv:
  assumes "H5VL_rlo_pass_through_info_copy g info st = (info', st')" and "vol_inv h fresh extra st"
  shows "vol_inv h fresh (\<lambda>i. extra i + (if i = in_under_vol_id info' then 1 else 0)) st' \<and> same_objs st st'"
  using assms
  by (auto simp: H5VL_rlo_pass_through_info_copy_def case_prod_unfold Let_def vol_inv_event same_objs_def split: option.splits)

lemma minus_dec: "(\<lambda>i. (e i :: int) - (if i = v then - 1 else 0)) = (\<lambda>i. e i + (if i = v then 1 else 0))"
  by auto

lemma info_free_inv:
  assumes "H5VL_rlo_pass_through_info_free g info st = (r, st')"
    and "vol_inv h fresh (\<lambda>i. extra i + (if i = in_under_vol_id info then 1 else 0)) st"
  shows "vol_inv h fresh extra st' \<and> same_objs st st'"
  using assms
  by (auto simp: H5VL_rlo_pass_through_info_free_def Let_def vol_inv_event same_objs_def minus_dec split: option.splits)

lemma get_vol_info_inv:
  assumes "get_vol_info g fapl st = Some (info, st')" and "vol_inv h fresh extra st"
  shows "vol_inv h fresh (\<lambda>i. extra i + (if i = in_under_vol_id info then 1 else 0)) st' \<and> same_objs st st'"
proof -
  obtain info0 where "H5VL_rlo_pass_through_info_copy g info0 st = (info, st')"
    using assms(1) by (auto simp: get_vol_info_def bind_eq_Some_conv)
  from info_copy_inv [OF this assms(2)] show ?thesis .
qed

lemma fapl_inv:
  "under_fapl g fapl info st = (i, st') \<Longrightarrow> vol_inv h fresh extra st' = vol_inv h fresh extra st \<and> same_objs st st'"
  "vol_inv h fresh extra (close_fapl g i st) = vol_inv h fresh extra st" "same_objs st (close_fapl g i st)"
  by (auto simp: under_fapl_def close_fapl_def vol_inv_event same_objs_def split: prod.splits)

lemma same_objs_trans: "same_objs st s1 \<Longrightarrow> same_objs s1 s2 \<Longrightarrow> same_objs st s2"
  by (simp add: same_objs_def)

lemma only_lib_same: "only_lib st st' \<Longrightarrow> same_objs st st'"
  by (auto simp: only_lib_def same_objs_def)

lemma file_with_ok:
  assumes "file_with h f fapl_id st = Some (p, st')" and "vol_ok h st" "room st"
  shows "vol_ok h st'"
proof -
  obtain info s1 where 1: "get_vol_info h fapl_id st = Some (info, s1)"
    using assms(1) by (auto simp: file_with_def bind_eq_Some_conv)
  obtain fapl s2 where 2: "under_fapl h fapl_id info s1 = (fapl, s2)" by fastforce
  obtain x s3 where 3: "call_open h (f fapl) s2 = (x, s3)" by fastforce
  let ?E = "\<lambda>i. 0 + (if i = in_under_vol_id info then 1 else 0)"
  have i1: "vol_inv h {} ?E s1" "same_objs st s1" using get_vol_info_inv [OF 1] assms(2) unfolding vol_ok_def by blast+
  have i3: "vol_inv h {} ?E s3" "same_objs st s3"
    using i1 fapl_inv(1) [OF 2] only_lib_inv [OF call_open_lib [OF 3]] only_lib_same [OF call_open_lib [OF 3]]
      same_objs_trans by blast+
  define s3' where "s3' = s3\<lparr>vo_rank_debug := word_of_int (ce_rank (a_comm_env h (in_mpi_comm info)))\<rparr>"
  have i3': "vol_inv h {} ?E s3'" "room s3'" "fits s3'"
    using i3 room_same [OF i3(2)] assms(3) by (simp_all add: s3'_def room_def fits_def)
  obtain s4 where 4: "(case x of None \<Rightarrow> Some (None, s3) | Some x \<Rightarrow> do {
        (h5_ctx, st) \<leftarrow> prop_ctx_new h x info (a_coll_ops h fapl_id (vo_lib s1)) s3';
        (p, st) \<leftarrow> H5VL_rlo_pass_through_new_obj x VL_FILE h5_ctx st;
        Some (Some p, st) }) = Some (p, s4)"
    and st': "H5VL_rlo_pass_through_info_free h info (close_fapl h fapl s4) = (0, st')"
    using assms(1) 1 2 3
    by (auto simp: file_with_def bind_eq_Some_conv s3'_def H5VL_rlo_pass_through_info_free_def Let_def split: option.splits)
  have i4: "vol_inv h {} ?E s4 \<and> fits s4"
  proof (cases x)
    case None
    with 4 i3 room_same [OF i3(2)] assms(3) show ?thesis by (simp add: fits_def room_def)
  next
    case (Some y)
    with 4 obtain c s5 where s5: "prop_ctx_new h y info (a_coll_ops h fapl_id (vo_lib s1)) s3' = Some (c, s5)"
      and w: "wrap_result VL_FILE c (Some y, s5) = Some (p, s4)"
      by (auto simp: bind_eq_Some_conv wrap_result_def)
    have i5: "vol_inv h {c} ?E s5" "same_objs s3' s5" using prop_ctx_new_inv [OF i3'(1) s5] by blast+
    then obtain q where new: "H5VL_rlo_pass_through_new_obj y VL_FILE c s5 = Some (q, s4)"
      using w by (auto simp: wrap_result_def bind_eq_Some_conv)
    have "vol_inv h {} ?E s4" using new_obj_inv [OF i5(1) new] by simp
    moreover have "fits s4"
    proof -
      have "vo_objs s4 = (vo_objs s5)(q \<mapsto> \<lparr>obj_type = vl_code VL_FILE, under_object = y, p_ctx = c\<rparr>)"
        and "vo_wraps s4 = vo_wraps s5"
        using new by (auto simp: H5VL_rlo_pass_through_new_obj_def prop_ctx_inc_rc_def bind_eq_Some_conv Let_def)
      moreover have "finite (dom (vo_objs s5))" using i5(1) by (simp add: vol_inv_def)
      then have "card (insert q (dom (vo_objs s5))) \<le> Suc (card (dom (vo_objs s5)))" by (simp add: card_insert_if)
      ultimately show ?thesis using room_same [OF i5(2)] i3'(2) by (simp add: fits_def room_def)
    qed
    ultimately show ?thesis by blast
  qed
  have "vol_inv h {} ?E (close_fapl h fapl s4)" "same_objs s4 (close_fapl h fapl s4)" using i4 fapl_inv by blast+
  then have "vol_inv h {} (\<lambda>i. 0) st'" "same_objs s4 st'"
    using info_free_inv [OF st', of h "{}" "\<lambda>i. 0"] same_objs_trans by blast+
  then show ?thesis using i4 fits_same [of s4 st'] unfolding vol_ok_def by blast
qed

lemma file_access_ok:
  assumes "file_access h t fapl_id name ret dxpl_id req st = Some (r, st')" and "vol_ok h st"
  shows "vol_ok h st'"
proof -
  obtain info s1 where 1: "get_vol_info h fapl_id st = Some (info, s1)"
    using assms(1) by (auto simp: file_access_def bind_eq_Some_conv)
  obtain fapl s2 where 2: "under_fapl h fapl_id info s1 = (fapl, s2)" by fastforce
  define c where "c = File_call (V_file_access (in_under_vol_id info) t dxpl_id req fapl name ret)"
  obtain r3 s3 where 3: "call_do h c s2 = (r3, s3)" by fastforce
  have st': "H5VL_rlo_pass_through_info_free h info (close_fapl h fapl s3) = (0, st')"
    using assms(1) 1 2 3
    by (simp add: file_access_def c_def Let_def H5VL_rlo_pass_through_info_free_def)
  let ?E = "\<lambda>i. 0 + (if i = in_under_vol_id info then 1 else 0)"
  have i1: "vol_inv h {} ?E s1" "same_objs st s1" using get_vol_info_inv [OF 1] assms(2) unfolding vol_ok_def by blast+
  have "vol_inv h {} ?E s3" "same_objs st s3"
    using i1 fapl_inv(1) [OF 2] only_lib_inv [OF call_do_lib [OF 3]] only_lib_same [OF call_do_lib [OF 3]]
      same_objs_trans by blast+
  then have "vol_inv h {} ?E (close_fapl h fapl s3)" "same_objs st (close_fapl h fapl s3)"
    unfolding fapl_inv(2) using fapl_inv(3) same_objs_trans by blast+
  then have "vol_inv h {} (\<lambda>i. 0) st'" "same_objs st st'"
    using info_free_inv [OF st', of h "{}" "\<lambda>i. 0"] same_objs_trans by blast+
  then show ?thesis using assms(2) fits_same [of st st'] unfolding vol_ok_def by blast
qed

lemma delegate_lib: "delegate h p f st = Some (r, st') \<Longrightarrow> only_lib st st'"
  by (drule delegate_frame) (simp add: only_lib_def)

lemma file_specific_ok:
  assumes "H5VL_rlo_pass_through_file_specific h obj t args dxpl req st = Some (r, p, st')" and "vol_ok h st" "room st"
  shows "vol_ok h st'"
proof (cases args)
  case (FILE_MOUNT a b c d)
  with assms(1) have "only_lib st st'"
    by (auto simp: H5VL_rlo_pass_through_file_specific_def bind_eq_Some_conv dest: delegate_lib)
  then show ?thesis using assms(2) only_lib_ok by blast
next
  case (FILE_ACCESS a b c)
  with assms show ?thesis
    by (auto simp: H5VL_rlo_pass_through_file_specific_def bind_eq_Some_conv dest: file_access_ok)
next
  case (FILE_REOPEN a)
  with assms(1) obtain c x l where w: "wrap_result VL_FILE c (x, st\<lparr>vo_lib := l\<rparr>) = Some (p, st')"
    by (auto simp: H5VL_rlo_pass_through_file_specific_def bind_eq_Some_conv case_prod_unfold)
  have "vol_inv h {} (\<lambda>i. 0) (st\<lparr>vo_lib := l\<rparr>)" "room (st\<lparr>vo_lib := l\<rparr>)"
    using assms(2,3) by (simp_all add: vol_ok_def room_def)
  then show ?thesis using wrap_result_inv [OF w] unfolding vol_ok_def by blast
next
  case (FILE_OTHER a)
  with assms(1) have "only_lib st st'"
    by (auto simp: H5VL_rlo_pass_through_file_specific_def bind_eq_Some_conv dest: delegate_lib)
  then show ?thesis using assms(2) only_lib_ok by blast
qed

lemma file_step_ok: "file_step h st st' \<Longrightarrow> vol_ok h st \<Longrightarrow> room st \<Longrightarrow> vol_ok h st'"
  by (erule file_step.cases)
    (auto simp: H5VL_rlo_pass_through_file_create_def H5VL_rlo_pass_through_file_open_def
      dest: file_with_ok file_specific_ok)

lemma link_step_lib:
  assumes "link_step h st st'"
  shows "only_lib st st'"
  using assms
proof cases
  case 1
  then show ?thesis
    by (auto simp: H5VL_rlo_pass_through_link_create_def bind_eq_Some_conv Let_def split: option.splits
        dest: call_do_lib)
next
  case 2
  then show ?thesis using link_both_lib by (simp add: H5VL_rlo_pass_through_link_copy_def)
next
  case 3
  then show ?thesis using link_both_lib by (simp add: H5VL_rlo_pass_through_link_move_def)
next
  case 4
  then show ?thesis by (auto simp: H5VL_rlo_pass_through_object_copy_def bind_eq_Some_conv dest: delegate_lib)
qed

section \<open>Requests\<close>

lemma free_requests_ok: "free_requests ps st = Some st' \<Longrightarrow> vol_ok h st \<Longrightarrow> vol_ok h st'"
  by (induction ps arbitrary: st) (auto simp: bind_eq_Some_conv vol_ok_def dest: free_obj_inv)

lemma vol_ok_lib [simp]: "vol_ok h (st\<lparr>vo_lib := l\<rparr>) = vol_ok h st"
  by (rule only_lib_ok) simp

lemma free_obj_ok: "H5VL_rlo_pass_through_free_obj p st = Some st' \<Longrightarrow> vol_ok h st \<Longrightarrow> vol_ok h st'"
  by (auto simp: vol_ok_def dest: free_obj_inv)

lemma request_specific_ok:
  assumes "H5VL_rlo_pass_through_request_specific h none t array timeout st = Some (r, st')" and "vol_ok h st"
  shows "vol_ok h st'"
  using assms
  by (cases array; cases t)
    (auto simp: H5VL_rlo_pass_through_request_specific_def bind_eq_Some_conv case_prod_unfold split: if_splits
      dest!: free_requests_ok free_obj_ok)

lemma request_step_ok: "request_step h st st' \<Longrightarrow> vol_ok h st \<Longrightarrow> vol_ok h st'"
  by (erule request_step.cases)
    (auto simp: H5VL_rlo_pass_through_request_wait_def H5VL_rlo_pass_through_request_notify_def
      H5VL_rlo_pass_through_request_cancel_def H5VL_rlo_pass_through_request_free_def bind_eq_Some_conv
      case_prod_unfold dest!: release_if_ok dest: close_under_ok request_specific_ok)

section \<open>Every step\<close>

lemma vol_step_ok: "vol_step h st st' \<Longrightarrow> vol_ok h st \<Longrightarrow> vol_ok h st'"
proof (induction rule: vol_step.induct)
  case (vs_link st st')
  then show ?case using only_lib_ok link_step_lib by blast
next
  case (vs_delegate st st')
  then show ?case using only_lib_ok vol_delegate_lib by blast
qed (blast intro: open_step_ok close_step_ok submit_step_ok wrap_step_ok file_step_ok request_step_ok)+

end
