(* ===== verification/Helper_Liveness.thy ===== *)
theory Helper_Liveness
  imports Helper_Service
begin

text \<open>
  Rounds of progress of the update helper: as soon as every proposal is older than the window, as many
  rounds as there are messages to wait for execute all of them.
\<close>

section \<open>A voting service that delivers\<close>

text \<open>
  \<open>pending\<close> counts the tests for a message until everything under way has arrived; making progress takes
  one of them, and a checkout none.
\<close>

locale live_voting = voting_service vmgr vok backlog incoming
  for vmgr :: "('o, 'j, 'i, 'v) voting_mgr" and vok backlog incoming +
  fixes pending :: "'v \<Rightarrow> nat"
  assumes pending_progress: "vok v \<Longrightarrow> VM_voting_make_progress vmgr v = Some (r, v') \<Longrightarrow> pending v' = pending v - 1"
    and pending_checkout: "vok v \<Longrightarrow> VM_checkout_proposal vmgr v = Some (s, b, v') \<Longrightarrow> pending v' = pending v"
    and pending_none: "vok v \<Longrightarrow> pending v = 0 \<Longrightarrow> incoming v = {#}"

fun progress_rounds ::
  "nat \<Rightarrow> ('o, 'j, 'i, 'v, 'c, 'w) metadata_manager \<Rightarrow> ('o, 'j, 'i, 'v, 'c, 'w) metadata_manager option" where
  "progress_rounds 0 m = Some m"
| "progress_rounds (Suc n) m = do { m \<leftarrow> MM_make_progress m; progress_rounds n m }"

lemma execute_in_order_append:
  "execute_in_order e (xs @ ys) w = do { w \<leftarrow> execute_in_order e xs w; execute_in_order e ys w }"
  by (induction xs arbitrary: w) (auto simp: case_prod_unfold split: Option.bind_split)

lemma mm_const_D:
  assumes "mm_const m' = mm_const m"
  shows "mm_vm m' = mm_vm m" "mm_clock m' = mm_clock m" "time_window_size m' = time_window_size m"
    "map_option (\<lambda>e. (execute_cb e, em_app_ctx e)) (mm_em m') = map_option (\<lambda>e. (execute_cb e, em_app_ctx e)) (mm_em m)"
  using assms by (simp_all add: mm_const_def)

text \<open>Induction over a run of checkouts: what one of them does to the manager, and the end of the run.\<close>

lemma checkout_induct [consumes 1, case_names none some]:
  assumes "checkout_proposal_make_progress m = Some m'"
    and "\<And>m b v. VM_checkout_proposal (mm_vm m) (mm_vs m) = Some (0, b, v) \<Longrightarrow> P m (m\<lparr>mm_vs := v\<rparr>)"
    and "\<And>m m1 m' r b v. VM_checkout_proposal (mm_vm m) (mm_vs m) = Some (r, b, v) \<Longrightarrow> mm_vm m1 = mm_vm m
      \<Longrightarrow> mm_vs m1 = v \<Longrightarrow> mm_clock m1 = mm_clock m \<Longrightarrow> mm_app m1 = mm_app m \<Longrightarrow> mm_em m1 = mm_em m \<Longrightarrow> P m1 m' \<Longrightarrow> P m m'"
  shows "P m m'"
proof (rule checkout_proposal_make_progress.raw_induct [OF _ assms(1)], goal_cases)
  case (1 f m m')
  obtain r b v where c: "VM_checkout_proposal (mm_vm m) (mm_vs m) = Some (r, b, v)"
    using 1(2) by (cases "VM_checkout_proposal (mm_vm m) (mm_vs m)") auto
  show ?case
  proof (cases "r = 0")
    case True
    then have "m' = m\<lparr>mm_vs := v\<rparr>" using 1(2) c by simp
    then show ?thesis using assms(2) c True by simp
  next
    case False
    then obtain m1 where m1: "f m1 = Some m'" "mm_vm m1 = mm_vm m" "mm_vs m1 = v" "mm_clock m1 = mm_clock m"
      "mm_app m1 = mm_app m" "mm_em m1 = mm_em m"
      using 1(2) c by (auto simp: mm_new_node_def mm_add_ledger_def Let_def case_prod_unfold bind_eq_Some_conv)
    show ?thesis by (rule assms(3) [OF c m1(2-6) 1(1) [OF m1(1)]])
  qed
qed

context live_voting
begin

lemma checkout_pending:
  assumes "checkout_proposal_make_progress m = Some m'" and "mm_vm m = vmgr" and "vok (mm_vs m)"
  shows "pending (mm_vs m') = pending (mm_vs m)"
proof -
  have keep: "vok v' \<and> pending v' = pending v" if "vok v" "VM_checkout_proposal vmgr v = Some (s, b, v')" for v s b v'
    using that checkout_none [OF that(1)] checkout_some [OF that(1)] pending_checkout [OF that]
    by (cases "backlog v = {#}") auto
  show ?thesis using assms
  proof (induction rule: checkout_induct)
    case (none m b v)
    then show ?case using keep [of "mm_vs m"] by simp
  next
    case (some m m1 m' r b v)
    then show ?case using keep [of "mm_vs m"] by simp
  qed
qed

text \<open>When everything is due, one round leaves only what has not arrived.\<close>

lemma round_when_due:
  assumes rep: "mm_rep m xs ys" and vm: "mm_vm m = vmgr" and vok: "vok (mm_vs m)" and em: "mm_em m = Some e"
    and everything: "everything = mset (node_bufs (mm_store m) (xs @ ys)) + backlog (mm_vs m) + incoming (mm_vs m)"
    and runs: "\<And>bs. mset bs \<subseteq># everything \<Longrightarrow> execute_in_order e bs (mm_app m) \<noteq> None"
    and due: "\<And>b t. b \<in># everything \<Longrightarrow> mm_ticks m \<le> t \<Longrightarrow> due_at (mm_clock m) (time_window_size m) t b"
  obtains m' ds where "MM_make_progress m = Some m'" and "mm_rep m' [] []" and "mm_const m' = mm_const m"
    and "vok (mm_vs m')" and "backlog (mm_vs m') = {#}" and "execute_in_order e ds (mm_app m) = Some (mm_app m')"
    and "mset ds + incoming (mm_vs m') = everything" and "mm_ticks m \<le> mm_ticks m'"
    and "pending (mm_vs m') = pending (mm_vs m) - 1"
proof (rule make_progress_runs [OF rep vm vok em])
  show "execute_in_order e bs (mm_app m) \<noteq> None"
    if "mset bs \<subseteq># mset (node_bufs (mm_store m) (xs @ ys)) + backlog (mm_vs m) + incoming (mm_vs m)" for bs
    using runs that by (simp add: everything)
next
  fix m' kept ds v m2
  assume r: "MM_make_progress m = Some m'" "mm_rep m' kept []" "mm_const m' = mm_const m" "vok (mm_vs m')"
    "backlog (mm_vs m') = {#}" "execute_in_order e ds (mm_app m) = Some (mm_app m')" "mm_ticks m \<le> mm_ticks m'"
    and cons: "mset (node_bufs (mm_store m') kept) + mset ds + incoming (mm_vs m')
      = mset (node_bufs (mm_store m) (xs @ ys)) + backlog (mm_vs m) + incoming (mm_vs m)"
    and young: "\<forall>b\<in>set (node_bufs (mm_store m') kept). \<exists>t\<ge>mm_ticks m. \<not> due_at (mm_clock m) (time_window_size m) t b"
    and v: "mm_voting_make_progress m = Some (m\<lparr>mm_vs := v\<rparr>)" "vok v"
      "checkout_proposal_make_progress (m\<lparr>mm_vs := v\<rparr>) = Some m2" "mm_vs m' = mm_vs m2"
  have "b \<in># everything" if "b \<in> set (node_bufs (mm_store m') kept)" for b
    unfolding everything cons [symmetric] using that by simp
  then have "b \<notin> set (node_bufs (mm_store m') kept)" for b
    using bspec [OF young, of b] due [of b] by auto
  then have "set (node_bufs (mm_store m') kept) = {}" by (metis ex_in_conv)
  then have kept: "kept = []" by (simp add: node_bufs_def)
  obtain s where "VM_voting_make_progress (mm_vm m) (mm_vs m) = Some (s, v)"
    using v(1) by (auto simp: mm_voting_make_progress_def bind_eq_Some_conv dest!: arg_cong [of _ _ mm_vs])
  then have "pending v = pending (mm_vs m) - 1" using pending_progress [OF vok] vm by simp
  moreover have "pending (mm_vs m2) = pending v" using checkout_pending [OF v(3)] vm v(2) by simp
  ultimately show thesis
    using that [OF r(1) _ r(3-6) _ r(7)] r(2) cons v(4) by (simp add: kept everything node_bufs_def)
qed

text \<open>Everything is due, and stays due: the rounds leave nothing.\<close>

lemma rounds_execute_all:
  assumes "mm_rep m xs ys" and "mm_vm m = vmgr" and "vok (mm_vs m)" and "mm_em m = Some e"
    and "everything = mset (node_bufs (mm_store m) (xs @ ys)) + backlog (mm_vs m) + incoming (mm_vs m)"
    and "\<And>bs. mset bs \<subseteq># everything \<Longrightarrow> execute_in_order e bs (mm_app m) \<noteq> None"
    and "\<And>b t. b \<in># everything \<Longrightarrow> mm_ticks m \<le> t \<Longrightarrow> due_at (mm_clock m) (time_window_size m) t b"
  shows "\<exists>m' ds. progress_rounds (Suc (pending (mm_vs m))) m = Some m' \<and> mset ds = everything
    \<and> execute_in_order e ds (mm_app m) = Some (mm_app m') \<and> mm_rep m' [] []"
  using assms
proof (induction "pending (mm_vs m)" arbitrary: m xs ys e everything)
  case (0 m xs ys e everything)
  obtain m' ds where m': "MM_make_progress m = Some m'" "mm_rep m' [] []" "vok (mm_vs m')"
    "execute_in_order e ds (mm_app m) = Some (mm_app m')" "mset ds + incoming (mm_vs m') = everything"
    "pending (mm_vs m') = pending (mm_vs m) - 1"
    using round_when_due [OF "0.prems"] by blast
  have "incoming (mm_vs m') = {#}" using pending_none [OF m'(3)] m'(6) "0.hyps" by simp
  with m' "0.hyps" show ?case by (intro exI [of _ m'] exI [of _ ds]) simp
next
  case (Suc n m xs ys e everything)
  obtain m1 ds where m1: "MM_make_progress m = Some m1" "mm_rep m1 [] []" "mm_const m1 = mm_const m"
    "vok (mm_vs m1)" "backlog (mm_vs m1) = {#}" "execute_in_order e ds (mm_app m) = Some (mm_app m1)"
    "mset ds + incoming (mm_vs m1) = everything" "mm_ticks m \<le> mm_ticks m1" "pending (mm_vs m1) = pending (mm_vs m) - 1"
    using round_when_due [OF Suc.prems] by blast
  note c = mm_const_D [OF m1(3)]
  obtain e1 where e1: "mm_em m1 = Some e1" "execute_cb e1 = execute_cb e" "em_app_ctx e1 = em_app_ctx e"
    using c(4) Suc.prems(4) by auto
  have same: "execute_in_order e1 bs w = execute_in_order e bs w" for bs w
    by (rule execute_in_order_cong [OF e1(2,3)])
  have n: "n = pending (mm_vs m1)" using Suc.hyps(2) m1(9) by simp
  have "\<exists>m' ds'. progress_rounds (Suc (pending (mm_vs m1))) m1 = Some m' \<and> mset ds' = incoming (mm_vs m1)
    \<and> execute_in_order e1 ds' (mm_app m1) = Some (mm_app m') \<and> mm_rep m' [] []"
  proof (rule Suc.hyps(1) [OF n m1(2) _ m1(4) e1(1)])
    show "execute_in_order e1 bs (mm_app m1) \<noteq> None" if "mset bs \<subseteq># incoming (mm_vs m1)" for bs
    proof -
      have "mset (ds @ bs) \<subseteq># everything" unfolding m1(7) [symmetric] using that by simp
      from Suc.prems(6) [OF this] show ?thesis by (simp add: execute_in_order_append m1(6) same)
    qed
    show "due_at (mm_clock m1) (time_window_size m1) t b" if "b \<in># incoming (mm_vs m1)" "mm_ticks m1 \<le> t" for b t
      using that Suc.prems(7) [of b t] m1(8) by (simp add: c flip: m1(7))
  qed (use Suc.prems(2) c(1) m1(5) in \<open>simp_all add: node_bufs_def\<close>)
  then obtain m' ds' where "progress_rounds (Suc n) m1 = Some m'" "mset ds' = incoming (mm_vs m1)"
    "execute_in_order e ds' (mm_app m1) = Some (mm_app m')" "mm_rep m' [] []"
    unfolding same n [symmetric] by blast
  with m1 Suc.hyps(2) [symmetric] show ?case
    by (intro exI [of _ m'] exI [of _ "ds @ ds'"]) (simp add: execute_in_order_append)
qed

end

section \<open>The rootless plugin delivers\<close>

lemma rlo_pending_none: "rlo_ok e v \<Longrightarrow> rlo_pending e v = 0 \<Longrightarrow> rlo_incoming e v = {#}"
  by (simp add: rlo_pending_def rlo_incoming_def eng_arriving_def)

interpretation rlo_live: live_voting "rlo_mgr info e" "rlo_ok e" "rlo_backlog e" "rlo_incoming e" "rlo_pending e"
  for info :: "comm_env \<times> nat" and e :: nat
proof unfold_locales
  show "rlo_pending e v' = rlo_pending e v - 1"
    if "rlo_ok e v" "VM_voting_make_progress (rlo_mgr info e) v = Some (r, v')" for v v' r
    using rlo_progress_ok [OF that(1), of info] that(2)
    by (auto simp: VM_voting_make_progress_def rlo_mgr_def rlo_plugin_def)
  show "rlo_pending e v' = rlo_pending e v"
    if "rlo_ok e v" "VM_checkout_proposal (rlo_mgr info e) v = Some (s, b, v')" for v v' s b
    using rlo_checkout_ok [OF that(1), of info] that(2)
    by (auto simp: VM_checkout_proposal_def rlo_mgr_def rlo_plugin_def split: if_splits)
qed (rule rlo_pending_none)

end
