(* ===== verification/VOL_Service.thy ===== *)
theory VOL_Service
  imports VOL_Steps Helper_Liveness
begin

text \<open>
  What the entry points rely on of the layers below: a file that can be opened gets a sound manager over
  the rootless plugin, the wait for the closing of a file ends when every rank has proposed to close it,
  and an idle manager can be shut down.
\<close>

section \<open>Submitting\<close>

lemma submit_keeps_result:
  "VM_submit_proposal_for_voting vm q v = Some (s, q', v') \<Longrightarrow> result_obj_local q' = result_obj_local q"
  "VM_submit_bcast vm q v = Some (s, q', v') \<Longrightarrow> result_obj_local q' = result_obj_local q"
  by (auto simp: VM_submit_proposal_for_voting_def VM_submit_bcast_def bind_eq_Some_conv)

lemma submission_keeps_result:
  assumes "MM_submit_proposal m p = Some (r, p', m')"
  shows "result_obj_local p' = result_obj_local p \<and> (mm_mode m \<noteq> 1 \<and> mm_mode m \<noteq> 2 \<longrightarrow> r = - 1 \<and> m' = m)"
proof -
  consider "mm_mode m = 1" | "mm_mode m = 2" | "mm_mode m \<noteq> 1" "mm_mode m \<noteq> 2" by blast
  then show ?thesis
  proof cases
    case 1
    obtain s p1 v where v: "VM_submit_proposal_for_voting (mm_vm m) (p\<lparr>isLocal := 0\<rparr>) (mm_vs m) = Some (s, p1, v)"
      using assms 1 unfolding MM_submit_proposal_def Let_def
      by (cases "VM_submit_proposal_for_voting (mm_vm m) (p\<lparr>isLocal := 0\<rparr>) (mm_vs m)") auto
    have "p' = p1 \<or> p' = p1\<lparr>isLocal := 1\<rparr>"
      using assms 1 unfolding MM_submit_proposal_def Let_def
      by (simp add: v bind_eq_Some_conv split del: if_split) (elim exE conjE, simp split: if_split_asm, auto simp: bind_eq_Some_conv)
    with submit_keeps_result(1) [OF v] 1 show ?thesis by auto
  next
    case 2
    obtain s p1 v where v: "VM_submit_bcast (mm_vm m) (p\<lparr>isLocal := 0\<rparr>) (mm_vs m) = Some (s, p1, v)"
      using assms 2 unfolding MM_submit_proposal_def Let_def
      by (cases "VM_submit_bcast (mm_vm m) (p\<lparr>isLocal := 0\<rparr>) (mm_vs m)") auto
    have "p' = p1\<lparr>isLocal := 1\<rparr>"
      using assms 2 unfolding MM_submit_proposal_def Let_def by (simp add: v bind_eq_Some_conv) (elim exE conjE, simp)
    with submit_keeps_result(2) [OF v] 2 show ?thesis by auto
  next
    case 3
    then show ?thesis using assms by (auto simp: MM_submit_proposal_def Let_def)
  qed
qed

section \<open>Waiting for the closing of a file\<close>

definition waits_for_close :: "'l file_mgr \<Rightarrow> bool" where
  "waits_for_close m \<longleftrightarrow> close_count (mgr_ctx m) < comm_size (mgr_ctx m)"

lemma await_close_step:
  "await_close m = (if waits_for_close m then do { m \<leftarrow> MM_make_progress m; await_close m } else Some m)"
  by (subst await_close.simps) (simp add: waits_for_close_def)

lemma await_close_rounds:
  assumes "await_close m = Some m'"
  shows "\<exists>n. progress_rounds n m = Some m' \<and> \<not> waits_for_close m'
    \<and> (\<forall>k<n. \<exists>x. progress_rounds k m = Some x \<and> waits_for_close x)"
proof (rule await_close.raw_induct [OF _ assms, where P = "\<lambda>m m'. \<exists>n. progress_rounds n m = Some m' \<and> \<not> waits_for_close m'
    \<and> (\<forall>k<n. \<exists>x. progress_rounds k m = Some x \<and> waits_for_close x)"], goal_cases)
  case (1 f m m')
  show ?case
  proof (cases "waits_for_close m")
    case False
    with 1(2) show ?thesis by (intro exI [of _ 0]) (simp add: waits_for_close_def)
  next
    case True
    then obtain m1 where m1: "MM_make_progress m = Some m1" "f m1 = Some m'"
      using 1(2) by (auto simp: waits_for_close_def bind_eq_Some_conv)
    obtain n where n: "progress_rounds n m1 = Some m'" "\<not> waits_for_close m'"
      "\<forall>k<n. \<exists>x. progress_rounds k m1 = Some x \<and> waits_for_close x"
      using 1(1) [OF m1(2)] by blast
    have "\<exists>x. progress_rounds k m = Some x \<and> waits_for_close x" if "k < Suc n" for k
      using that n(3) m1(1) True by (cases k) auto
    with n m1(1) show ?thesis by (intro exI [of _ "Suc n"]) simp
  qed
qed

lemma rounds_await_close:
  "progress_rounds n m = Some m' \<Longrightarrow> \<not> waits_for_close m' \<Longrightarrow> \<forall>k<n. \<exists>x. progress_rounds k m = Some x \<and> waits_for_close x
    \<Longrightarrow> await_close m = Some m'"
proof (induction n arbitrary: m)
  case 0
  then show ?case by (subst await_close_step) simp
next
  case (Suc n)
  then have "waits_for_close m" by fastforce
  moreover obtain m1 where m1: "MM_make_progress m = Some m1" using Suc.prems(1) by (auto simp: bind_eq_Some_conv)
  moreover have "await_close m1 = Some m'"
  proof (rule Suc.IH)
    show "\<forall>k<n. \<exists>x. progress_rounds k m1 = Some x \<and> waits_for_close x"
    proof (intro allI impI)
      fix k assume "k < n"
      then show "\<exists>x. progress_rounds k m1 = Some x \<and> waits_for_close x" using spec [OF Suc.prems(3), of "Suc k"] m1 by simp
    qed
  qed (use Suc.prems m1 in auto)
  ultimately show ?case by (subst await_close_step) simp
qed

text \<open>A proposal to close raises the count by one.\<close>

definition is_closing :: "byte list \<Rightarrow> bool" where
  "is_closing b \<longleftrightarrow> (case proposal_decoder b :: unit proposal option of None \<Rightarrow> False
     | Some p \<Rightarrow> op_type p = op_code FILE_CLOSE)"

definition closed_by :: "nat \<Rightarrow> 'l vol_app \<Rightarrow> 'l vol_app" where
  "closed_by n a = a\<lparr>va_ctx := (va_ctx a)\<lparr>close_count := close_count (va_ctx a) + of_nat n\<rparr>\<rparr>"

lemma closing_executes:
  "is_closing b \<Longrightarrow> cb_execute_H5VL_RLO h c b a = Some (- 1, closed_by 1 a)"
  by (auto simp: is_closing_def cb_execute_H5VL_RLO_def file_close_cb_sub_def closed_by_def split: option.splits)

lemma closings_in_order:
  assumes "execute_cb e = cb_execute_H5VL_RLO h" and "\<forall>b\<in>set bs. is_closing b"
  shows "execute_in_order e bs a = Some (closed_by (length bs) a)"
  using assms(2)
proof (induction bs arbitrary: a)
  case (Cons b bs)
  then show ?case
    by (simp add: EM_execute_def assms(1) closing_executes) (simp add: closed_by_def algebra_simps)
qed (simp add: closed_by_def)

lemma await_close_ends:
  "progress_rounds n m = Some x \<Longrightarrow> \<not> waits_for_close x \<Longrightarrow> \<exists>m'. await_close m = Some m' \<and> \<not> waits_for_close m'"
proof (induction n arbitrary: m)
  case 0
  then show ?case by (subst await_close_step) simp
next
  case (Suc n)
  then obtain m1 where "MM_make_progress m = Some m1" "progress_rounds n m1 = Some x"
    by (auto simp: bind_eq_Some_conv)
  with Suc.IH [of m1] Suc.prems(2) show ?case by (subst await_close_step) auto
qed

text \<open>When only proposals to close are under way, and enough of them, the wait is over after the rounds that execute them.\<close>

lemma closings_end_wait:
  assumes "mgr_ok h m" and "mm_rep m xs ys" and "mm_vm m = rlo_mgr info e" and "rlo_ok e (mm_vs m)"
    and everything: "everything = mset (node_bufs (mm_store m) (xs @ ys)) + rlo_backlog e (mm_vs m) + rlo_incoming e (mm_vs m)"
    and closing: "\<forall>b\<in>#everything. is_closing b \<and> (\<forall>t\<ge>mm_ticks m. due_at (mm_clock m) (time_window_size m) t b)"
    and count: "unat (comm_size (mgr_ctx m)) \<le> unat (close_count (mgr_ctx m)) + size everything"
      "unat (close_count (mgr_ctx m)) + size everything < 2 ^ 32"
  shows "\<exists>m'. await_close m = Some m' \<and> comm_size (mgr_ctx m') \<le> close_count (mgr_ctx m')"
proof -
  obtain em where em: "mm_em m = Some em" "execute_cb em = cb_execute_H5VL_RLO h"
    using assms(1,2) by (auto simp: mm_rep_def mgr_ok_def callback_is_def)
  have all: "\<forall>b\<in>set bs. is_closing b" if "mset bs \<subseteq># everything" for bs
    using closing that by (metis mset_subset_eqD set_mset_mset)
  have "\<exists>m' ds. progress_rounds (Suc (rlo_pending e (mm_vs m))) m = Some m' \<and> mset ds = everything
    \<and> execute_in_order em ds (mm_app m) = Some (mm_app m') \<and> mm_rep m' [] []"
    by (rule rlo_live.rounds_execute_all [OF assms(2-4) em(1) everything])
      (use closing all closings_in_order [OF em(2)] in auto)
  then obtain m' ds where m': "progress_rounds (Suc (rlo_pending e (mm_vs m))) m = Some m'" "mset ds = everything"
    "execute_in_order em ds (mm_app m) = Some (mm_app m')" by blast
  then have "mm_app m' = closed_by (length ds) (mm_app m)"
    using closings_in_order [OF em(2) all [of ds]] by simp
  moreover have "length ds = size everything" using m'(2) by (metis size_mset)
  ultimately have "comm_size (mgr_ctx m') = comm_size (mgr_ctx m)"
    "close_count (mgr_ctx m') = close_count (mgr_ctx m) + of_nat (size everything)" by (simp_all add: closed_by_def)
  moreover have "unat (close_count (mgr_ctx m) + of_nat (size everything)) = unat (close_count (mgr_ctx m)) + size everything"
  proof -
    have "close_count (mgr_ctx m) + of_nat (size everything)
        = of_nat (unat (close_count (mgr_ctx m)) + size everything)" by simp
    then show ?thesis using unat_of_nat_small [OF count(2)] by (simp only:)
  qed
  ultimately have "\<not> waits_for_close m'"
    using count(1) by (simp add: waits_for_close_def word_less_nat_alt)
  from await_close_ends [OF m'(1) this] show ?thesis by (auto simp: waits_for_close_def)
qed

section \<open>Opening a file\<close>

lemma plugin_handles_vs [simp]: "vo_vs (snd (plugin_handles g info st)) = vo_vs st"
  by (simp add: plugin_handles_def case_prod_unfold Let_def logged_event_def split: option.split)

lemma info_copy_keeps:
  "in_mode (fst (H5VL_rlo_pass_through_info_copy h info st)) = in_mode info"
  "in_time_window_size (fst (H5VL_rlo_pass_through_info_copy h info st)) = in_time_window_size info"
  "in_under_vol_id (fst (H5VL_rlo_pass_through_info_copy h info st)) = in_under_vol_id info"
  "in_mpi_comm (fst (H5VL_rlo_pass_through_info_copy h info st)) = fst (a_dup_comm h (in_mpi_comm info) (vo_lib st))"
  by (simp_all add: H5VL_rlo_pass_through_info_copy_def case_prod_unfold Let_def)

definition objs_vs where
  "objs_vs st = (vo_objs st, vo_wraps st, vo_ctxs st, vo_next st, vo_vs st)"

lemma objs_vs_steps:
  "objs_vs (snd (H5VL_rlo_pass_through_info_copy h info st)) = objs_vs st"
  "objs_vs (snd (H5VL_rlo_pass_through_info_free h info st)) = objs_vs st"
  "objs_vs (snd (under_fapl h i info st)) = objs_vs st"
  "objs_vs (close_fapl h i st) = objs_vs st"
  "objs_vs (snd (call_open h c st)) = objs_vs st"
  "objs_vs (st\<lparr>vo_rank_debug := r\<rparr>) = objs_vs st"
  by (simp_all add: objs_vs_def H5VL_rlo_pass_through_info_copy_def H5VL_rlo_pass_through_info_free_def
      under_fapl_def close_fapl_def call_open_def case_prod_unfold Let_def logged_event_def split: option.split)

definition cleanup_params :: "'a rlo_state \<Rightarrow> nat \<times> int" where
  "cleanup_params v = (cleanup_tests v, cleanup_total v)"

lemma lift_process_cleanup: "lift_process f v = Some (r, v') \<Longrightarrow> cleanup_params v' = cleanup_params v"
  by (auto simp: lift_process_def cleanup_params_def bind_eq_Some_conv)

lemma checkout_cleanup:
  assumes "checkout_proposal_make_progress m = Some m'" and "mm_vm m = rlo_mgr info e"
  shows "cleanup_params (mm_vs m') = cleanup_params (mm_vs m)"
proof -
  have keep: "cleanup_params v' = cleanup_params v" if "VM_checkout_proposal (rlo_mgr info e) v = Some (r, b, v')" for v r b v'
    using that by (auto simp: VM_checkout_proposal_def rlo_mgr_def rlo_plugin_def vp_checkout_proposal_RLO_def
        bind_eq_Some_conv case_prod_unfold dest!: lift_process_cleanup split: if_splits)
  show ?thesis using assms by (induction rule: checkout_induct) (auto dest: keep)
qed

lemma helper_init_cleanup:
  assumes "MM_metadata_update_helper_init md ws win j c vp cb s v w clk n = Some m" and "vp = rlo_plugin info"
  shows "cleanup_params (mm_vs m) = cleanup_params v"
proof -
  obtain vm v1 where vm: "VM_voting_manager_init vp j v = Some (vm, v1)"
    using assms(1) by (auto simp: MM_metadata_update_helper_init_def bind_eq_Some_conv)
  then have v: "vm = rlo_mgr info (snd info)" "cleanup_params v1 = cleanup_params v"
    by (auto simp: assms(2) VM_voting_manager_init_def rlo_plugin_def vp_init_RLO_def rlo_mgr_def bind_eq_Some_conv
        dest!: lift_process_cleanup)
  let ?m = "\<lparr>mm_mode = md, mm_world_size = ws, time_window_size = win, mm_app_ctx = c, mm_vm = vm, mm_lm = None,
    mm_em = None, mm_store = s, mm_vs = v1, mm_app = w, mm_clock = clk, mm_ticks = n\<rparr>"
  obtain m1 where m: "checkout_proposal_make_progress ?m = Some m1" "mm_vs m = mm_vs m1"
    using assms(1) vm by (auto simp: MM_metadata_update_helper_init_def bind_eq_Some_conv)
  show ?thesis using checkout_cleanup [OF m(1)] m v by simp
qed

lemma checkout_clock: "checkout_proposal_make_progress m = Some m' \<Longrightarrow> mm_clock m' = mm_clock m"
  by (induction rule: checkout_induct) auto

lemma helper_init_clock:
  "MM_metadata_update_helper_init md ws win j c vp cb s v w clk n = Some m \<Longrightarrow> mm_clock m = clk"
  by (auto simp: MM_metadata_update_helper_init_def bind_eq_Some_conv dest!: checkout_clock)

lemma judge_window_cleanup [simp]: "cleanup_params (judge_window e w v) = cleanup_params v"
  by (auto simp: judge_window_def cleanup_params_def split: option.split)

definition good_env :: "comm_env \<Rightarrow> bool" where
  "good_env env \<longleftrightarrow> env_ok env \<and> (\<forall>a\<in>set (ce_arrivals env). good_arrival encoded_proposal a)"

lemma helper_init_succeeds:
  assumes "\<And>c. good_env (a_comm_env h c)" and "active_engines (rlo_process (vo_vs st)) = None"
  obtains m st' comm where "metadata_helper_init h info c ctx st = Some (m, st')"
    and "mm_rep m [] []" and "mm_vm m = rlo_mgr (a_comm_env h comm, vo_next st) (vo_next st)" and "rlo_ok (vo_next st) (mm_vs m)"
    and "rlo_backlog (vo_next st) (mm_vs m) = {#}" and "rlo_incoming (vo_next st) (mm_vs m) = env_arriving (a_comm_env h comm)"
    and "mm_mode m = sint (in_mode info)" and "time_window_size m = in_time_window_size info" and "mgr_ok h m"
    and "mgr_ctx m = ctx"
    and "vo_objs st' = vo_objs st" and "vo_wraps st' = vo_wraps st" and "vo_ctxs st' = vo_ctxs st"
    and "vo_next st' = Suc (vo_next st)" and "vo_vs st' = mm_vs m"
    and "cleanup_params (mm_vs m) = cleanup_params (vo_vs st)" and "mm_clock m = a_clock h c"
proof -
  let ?c = "fst (plugin_handles h info st)" and ?s = "snd (plugin_handles h info st)"
  let ?env = "a_comm_env h ?c"
  note same = plugin_handles_inv(2-4) [where g = h and info = info and st = st]
  have env: "env_ok ?env" "\<forall>a\<in>set (ce_arrivals ?env). good_arrival encoded_proposal a"
    using assms(1) [of ?c] by (simp_all add: good_env_def)
  let ?judge = "\<lparr>jc_window = None, jc_clock = a_clock h c, jc_ticks = 0\<rparr>"
  obtain m where m: "MM_metadata_update_helper_init (sint (in_mode info)) (sint (in_world_size info))
          (in_time_window_size info) (h5_judgement, ?judge) c (rlo_plugin (?env, vo_next ?s))
          (cb_execute_H5VL_RLO h) \<lparr>qs_links = Map.empty, qs_data = Map.empty, qs_num = Map.empty, qs_fresh = 0\<rparr>
          (vo_vs ?s) \<lparr>va_ctx = ctx, va_lib = vo_lib ?s\<rparr> (a_clock h c) 0 = Some (m :: 'a file_mgr)"
    "mm_rep m [] []" "mm_vm m = rlo_mgr (?env, vo_next ?s) (vo_next ?s)" "rlo_ok (vo_next ?s) (mm_vs m)"
    "rlo_backlog (vo_next ?s) (mm_vs m) = {#}" "rlo_incoming (vo_next ?s) (mm_vs m) = env_arriving ?env"
    "mm_app m = \<lparr>va_ctx = ctx, va_lib = vo_lib ?s\<rparr>" "mm_mode m = sint (in_mode info)" "time_window_size m = in_time_window_size info"
    "callback_is (cb_execute_H5VL_RLO h) m"
    using rlo_helper_init [OF env, of "vo_vs ?s" "\<lparr>qs_links = Map.empty, qs_data = Map.empty, qs_num = Map.empty, qs_fresh = 0\<rparr>"
        "sint (in_mode info)" "sint (in_world_size info)" "in_time_window_size info" "(h5_judgement, ?judge)" c "vo_next ?s"
        "cb_execute_H5VL_RLO h" "\<lparr>va_ctx = ctx, va_lib = vo_lib ?s\<rparr>" "a_clock h c" 0] assms(2)
    by (auto simp: callback_is_def)
  let ?st = "?s\<lparr>vo_rank_debug := in_my_rank info, vo_next := Suc (vo_next ?s), vo_lib := va_lib (mm_app m), vo_vs := mm_vs m\<rparr>"
  have "metadata_helper_init h info c ctx st = Some (m, ?st)"
    using m(1) by (simp add: metadata_helper_init_def case_prod_unfold Let_def)
  then show thesis
    by (rule that) (use m same assms(1) helper_init_cleanup [OF m(1) refl] helper_init_clock [OF m(1)] in \<open>auto simp: same_objs_def mgr_ok_def\<close>)
qed

lemma judge_window_ok:
  assumes "rlo_ok e v"
  shows "rlo_ok e (judge_window e w v)" "rlo_backlog e (judge_window e w v) = rlo_backlog e v"
    "rlo_incoming e (judge_window e w v) = rlo_incoming e v"
    "\<exists>eng. engines (rlo_process (judge_window e w v)) e = Some eng \<and> jc_window (app_ctx eng) = Some w"
proof -
  obtain es eng where v: "process_ok encoded_proposal (rlo_process v)" "active_engines (rlo_process v) = Some es"
    "e \<in> set es" "engines (rlo_process v) e = Some eng" "eng_ok encoded_proposal eng"
    using assms by (rule rlo_okE)
  let ?eng = "eng\<lparr>app_ctx := (app_ctx eng)\<lparr>jc_window := Some w\<rparr>\<rparr>"
  have "eng_ok encoded_proposal ?eng" using v(5) by (simp add: eng_ok_def)
  moreover have "eng_backlog ?eng = eng_backlog eng" "eng_arriving ?eng = eng_arriving eng"
    by (simp_all add: eng_backlog_def eng_arriving_def msg_payload_def [abs_def])
  ultimately show "rlo_ok e (judge_window e w v)" "rlo_backlog e (judge_window e w v) = rlo_backlog e v"
    "rlo_incoming e (judge_window e w v) = rlo_incoming e v"
    "\<exists>eng. engines (rlo_process (judge_window e w v)) e = Some eng \<and> jc_window (app_ctx eng) = Some w"
    using v by (simp_all add: judge_window_def rlo_ok_def process_ok_set_eng rlo_backlog_def rlo_incoming_def)
qed

lemma file_with_opens:
  assumes "a_vol_info h fapl_id (vo_lib st) = Some info" and "H5VL_rlo_pass_through_info_copy h info st = (info', st1)"
    and "under_fapl h fapl_id info' st1 = (i, st2)" and "call_open h (f i) st2 = (Some x, st3)"
    and "prop_ctx_new h x info' (a_coll_ops h fapl_id (vo_lib st1))
      (st3\<lparr>vo_rank_debug := word_of_int (ce_rank (a_comm_env h (in_mpi_comm info')))\<rparr>) = Some (c, st4)"
    and "H5VL_rlo_pass_through_new_obj x VL_FILE c st4 = Some (p, st5)"
  shows "file_with h f fapl_id st = Some (Some p, snd (H5VL_rlo_pass_through_info_free h info' (close_fapl h i st5)))"
  by (simp add: file_with_def get_vol_info_def assms(1-4)) (simp add: assms(5,6) split: prod.split)

lemma file_create_opens:
  assumes info: "a_vol_info h fapl_id (vo_lib st) = Some info"
    and opens: "\<forall>i l. fst (a_open h (File_call (V_file_create name flags fcpl_id i dxpl_id req)) l) = Some x"
    and env: "\<forall>c. good_env (a_comm_env h c)" and none: "active_engines (rlo_process (vo_vs st)) = None"
  shows "\<exists>st' m comm. H5VL_rlo_pass_through_file_create h name flags fcpl_id fapl_id dxpl_id req st
      = Some (Some (vo_next st + 2), st')
    \<and> vo_objs st' = (vo_objs st)(vo_next st + 2 \<mapsto> \<lparr>obj_type = vl_code VL_FILE, under_object = x, p_ctx = vo_next st\<rparr>)
    \<and> vo_wraps st' = vo_wraps st \<and> vo_ctxs st' = (vo_ctxs st)(vo_next st \<mapsto> m)
    \<and> ref_count (mgr_ctx m) = 1 \<and> close_count (mgr_ctx m) = 0 \<and> under_file (mgr_ctx m) = x
    \<and> under_vol_id (mgr_ctx m) = in_under_vol_id info
    \<and> comm_size (mgr_ctx m) = word_of_int (ce_size (a_comm_env h (fst (a_dup_comm h (in_mpi_comm info) (vo_lib st)))))
    \<and> mm_clock m = a_clock h (vo_next st)
    \<and> mgr_ok h m \<and> mm_rep m [] [] \<and> mm_mode m = sint (in_mode info) \<and> time_window_size m = in_time_window_size info
    \<and> mm_vm m = rlo_mgr (a_comm_env h comm, vo_next st + 1) (vo_next st + 1)
    \<and> rlo_ok (vo_next st + 1) (vo_vs st') \<and> rlo_backlog (vo_next st + 1) (vo_vs st') = {#}
    \<and> rlo_incoming (vo_next st + 1) (vo_vs st') = env_arriving (a_comm_env h comm)
    \<and> (\<exists>eng. engines (rlo_process (vo_vs st')) (vo_next st + 1) = Some eng \<and> jc_window (app_ctx eng) = Some (in_time_window_size info))
    \<and> cleanup_params (vo_vs st') = cleanup_params (vo_vs st)"
proof -
  define copy where "copy = H5VL_rlo_pass_through_info_copy h info st"
  define fa where "fa = under_fapl h fapl_id (fst copy) (snd copy)"
  define coll where "coll = a_coll_ops h fapl_id (vo_lib (snd copy))"
  define call where "call = call_open h (File_call (V_file_create name flags fcpl_id (fst fa) dxpl_id req)) (snd fa)"
  define s where "s = (snd call)\<lparr>vo_rank_debug := word_of_int (ce_rank (a_comm_env h (in_mpi_comm (fst copy))))\<rparr>"
  have s: "objs_vs s = objs_vs st" by (simp add: s_def call_def fa_def copy_def objs_vs_steps)
  have x: "call = (Some x, snd call)" using opens by (simp add: call_def call_open_def case_prod_unfold prod_eq_iff)
  let ?i = "in_under_vol_id (fst copy)"
  let ?s = "logged_event (H5Iinc_ref ?i) (s\<lparr>vo_next := Suc (vo_next s)\<rparr>)"
  define ctx where "ctx = \<lparr>ref_count = 0, under_file = x, under_vol_id = ?i,
    comm_size = word_of_int (ce_size (a_comm_env h (in_mpi_comm (fst copy)))),
    ctx_my_rank = word_of_int (ce_rank (a_comm_env h (in_mpi_comm (fst copy)))),
    close_count = 0, is_collective = coll, under_obj = None, resulting_obj_out = None\<rparr>"
  have vs: "active_engines (rlo_process (vo_vs ?s)) = None" and nx: "vo_next ?s = Suc (vo_next st)"
    using s none by (simp_all add: objs_vs_def logged_event_def)
  obtain m s1 comm where m: "metadata_helper_init h (fst copy) (vo_next s) ctx ?s = Some (m, s1)"
    "mm_rep m [] []" "mm_vm m = rlo_mgr (a_comm_env h comm, vo_next ?s) (vo_next ?s)" "rlo_ok (vo_next ?s) (mm_vs m)"
    "rlo_backlog (vo_next ?s) (mm_vs m) = {#}" "rlo_incoming (vo_next ?s) (mm_vs m) = env_arriving (a_comm_env h comm)"
    "mm_mode m = sint (in_mode (fst copy))" "time_window_size m = in_time_window_size (fst copy)" "mgr_ok h m"
    "mgr_ctx m = ctx" "vo_objs s1 = vo_objs ?s" "vo_wraps s1 = vo_wraps ?s" "vo_ctxs s1 = vo_ctxs ?s"
    "vo_next s1 = Suc (vo_next ?s)" "vo_vs s1 = mm_vs m"
    "cleanup_params (mm_vs m) = cleanup_params (vo_vs ?s)" "mm_clock m = a_clock h (vo_next s)"
    by (rule helper_init_succeeds [OF env [THEN spec] vs])
  let ?v = "judge_window (Suc (vo_next st)) (time_window_size m) (vo_vs s1)"
  let ?m = "upd_ctx (\<lambda>x. x\<lparr>ref_count := ref_count x + 1\<rparr>) m"
  have ctx': "vp_context (mm_vm m) = Suc (vo_next st)" using m(3) nx by (simp add: rlo_mgr_def)
  have new: "prop_ctx_new h x (fst copy) coll s = Some (vo_next s, set_ctx (vo_next s) m (s1\<lparr>vo_vs := ?v\<rparr>))"
    using m(1) ctx' by (simp add: prop_ctx_new_def Let_def ctx_def)
  define s2 where "s2 = set_ctx (vo_next s) ?m ((s1\<lparr>vo_vs := ?v\<rparr>)\<lparr>vo_objs := (vo_objs s1)(vo_next s1 \<mapsto>
      \<lparr>obj_type = vl_code VL_FILE, under_object = x, p_ctx = vo_next s\<rparr>), vo_next := Suc (vo_next s1)\<rparr>)"
  have obj: "H5VL_rlo_pass_through_new_obj x VL_FILE (vo_next s) (set_ctx (vo_next s) m (s1\<lparr>vo_vs := ?v\<rparr>)) = Some (vo_next s1, s2)"
    by (simp add: H5VL_rlo_pass_through_new_obj_def prop_ctx_inc_rc_def s2_def set_ctx_def Let_def)
  have r: "H5VL_rlo_pass_through_file_create h name flags fcpl_id fapl_id dxpl_id req st
      = Some (Some (vo_next s1), snd (H5VL_rlo_pass_through_info_free h (fst copy) (close_fapl h (fst fa) s2)))"
    unfolding H5VL_rlo_pass_through_file_create_def
  proof (rule file_with_opens [OF info _ _ _ _ obj])
    show "H5VL_rlo_pass_through_info_copy h info st = (fst copy, snd copy)" by (simp add: copy_def)
    show "under_fapl h fapl_id (fst copy) (snd copy) = (fst fa, snd fa)" by (simp add: fa_def)
    show "call_open h (File_call (V_file_create name flags fcpl_id (fst fa) dxpl_id req)) (snd fa) = (Some x, snd call)"
      using x by (simp add: call_def)
    show "prop_ctx_new h x (fst copy) (a_coll_ops h fapl_id (vo_lib (snd copy)))
        ((snd call)\<lparr>vo_rank_debug := word_of_int (ce_rank (a_comm_env h (in_mpi_comm (fst copy))))\<rparr>)
      = Some (vo_next s, set_ctx (vo_next s) m (s1\<lparr>vo_vs := ?v\<rparr>))"
      using new by (simp add: coll_def s_def)
  qed
  define st' where "st' = snd (H5VL_rlo_pass_through_info_free h (fst copy) (close_fapl h (fst fa) s2))"
  have "objs_vs st' = objs_vs s2" by (simp add: st'_def objs_vs_steps)
  then have st': "vo_objs st' = vo_objs s2" "vo_wraps st' = vo_wraps s2" "vo_ctxs st' = vo_ctxs s2" "vo_vs st' = vo_vs s2"
    by (simp_all add: objs_vs_def)
  have cl: "cleanup_params (mm_vs m) = cleanup_params (vo_vs st)"
    using m(16) s by (simp add: objs_vs_def logged_event_def)
  have o: "vo_objs s = vo_objs st" "vo_wraps s = vo_wraps st" "vo_ctxs s = vo_ctxs st" "vo_next s = vo_next st"
    using s by (simp_all add: objs_vs_def)
  note j = judge_window_ok [OF m(4) [unfolded nx], of "time_window_size m"]
  have k: "mm_rep ?m [] []" using m(2) by (simp add: upd_ctx_def mm_rep_def)
  have "mm_clock ?m = mm_clock m" "mm_vm ?m = mm_vm m" "mm_mode ?m = mm_mode m" "time_window_size ?m = time_window_size m" by (simp_all add: upd_ctx_def)
  then show ?thesis
    using r [folded st'_def] m(3,5-15,17) st' cl o j k nx
    by (intro exI [of _ st'] exI [of _ ?m] exI [of _ comm])
      (simp add: s2_def ctx_def copy_def info_copy_keeps)
qed

section \<open>Releasing\<close>

lemma rlo_finalize:
  assumes "rlo_ok e v" and "rlo_backlog e v = {#}" and "cleanup_params v = (0, 0)"
  shows "\<exists>v'. vp_finalize_RLO e v = Some (1, v')"
proof -
  obtain es eng where v: "active_engines (rlo_process v) = Some es" "e \<in> set es" "engines (rlo_process v) e = Some eng"
    "eng_ok encoded_proposal eng" "rlo_backlog e v = eng_backlog eng"
    using assms(1) by (rule rlo_okE)
  have q: "queue_wait_and_pickup eng = []" "queue_pickup eng = []"
    using assms(2) v(5) by (auto simp: eng_backlog_def)
  obtain m where m: "queue_recv eng = [m]" using eng_okD(2) [OF v(4)] by (auto simp: length_Suc_conv)
  obtain x where x: "msgs eng m = Some x" using roles_alloc(1) [OF eng_okD(5) [OF v(4)], of m] m by auto
  have "cleanup_pickup eng = Some eng"
    by (subst cleanup_pickup.simps) (simp add: RLO_user_pickup_next_def q)
  then show ?thesis
    using v(1-3) m x assms(3)
    by (simp add: vp_finalize_RLO_def lift_process_def RLO_progress_engine_cleanup_def cleanup_params_def
        cleanup_wait.simps [of e] RLO_msg_free_def lq_remove_mem)
qed



definition idle_service :: "'l file_mgr \<Rightarrow> 'l vol_state \<Rightarrow> bool" where
  "idle_service m st \<longleftrightarrow> mm_lm m \<noteq> None \<and> cleanup_params (vo_vs st) = (0, 0)
     \<and> (\<exists>info e. mm_vm m = rlo_mgr info e \<and> rlo_ok e (vo_vs st) \<and> rlo_backlog e (vo_vs st) = {#})"

lemma idle_service_term:
  assumes "idle_service m st" and "mm_vs m' = vo_vs st" and "mm_vm m' = mm_vm m" and "mm_lm m' = mm_lm m"
  shows "\<exists>m''. MM_metadata_update_helper_term m' = Some (- 1, m'')"
proof -
  obtain info e where e: "mm_vm m = rlo_mgr info e" "rlo_ok e (vo_vs st)" "rlo_backlog e (vo_vs st) = {#}"
    "cleanup_params (vo_vs st) = (0, 0)" "mm_lm m \<noteq> None" using assms(1) by (auto simp: idle_service_def)
  obtain v where "vp_finalize_RLO e (vo_vs st) = Some (1, v)" using rlo_finalize [OF e(2-4)] by blast
  with e assms(2-4) show ?thesis
    by (simp add: MM_metadata_update_helper_term_def VM_voting_manager_term_def rlo_mgr_def rlo_plugin_def)
qed

lemma enter_simps [simp]:
  "mm_vs (enter st m) = vo_vs st" "mm_vm (enter st m) = mm_vm m" "mm_lm (enter st m) = mm_lm m"
  "mm_mode (enter st m) = mm_mode m" "mm_ticks (enter st m) = mm_ticks m" "mm_clock (enter st m) = mm_clock m"
  "time_window_size (enter st m) = time_window_size m" "mm_store (enter st m) = mm_store m"
  by (simp_all add: enter_def)

lemma upd_ctx_simps [simp]:
  "mm_vm (upd_ctx f m) = mm_vm m" "mm_lm (upd_ctx f m) = mm_lm m" "mm_mode (upd_ctx f m) = mm_mode m"
  "mm_vs (upd_ctx f m) = mm_vs m" "mm_ticks (upd_ctx f m) = mm_ticks m" "mm_clock (upd_ctx f m) = mm_clock m"
  "time_window_size (upd_ctx f m) = time_window_size m" "mm_store (upd_ctx f m) = mm_store m"
  by (simp_all add: upd_ctx_def)

lemma logged_event_vs [simp]: "vo_vs (logged_event e st) = vo_vs st"
  by (simp add: logged_event_def)

lemma dec_rc_idle:
  assumes "vo_ctxs st c = Some m" and "ref_count (mgr_ctx m) = 1" and "idle_service m st"
  shows "prop_ctx_dec_rc c st \<noteq> None"
proof -
  let ?m = "upd_ctx (\<lambda>x. x\<lparr>ref_count := ref_count x - 1\<rparr>) m"
  let ?st = "logged_event (H5Idec_ref (under_vol_id (mgr_ctx ?m))) st"
  have zero: "ref_count (mgr_ctx ?m) = 0" using assms(2) by simp
  have "\<exists>m''. MM_metadata_update_helper_term (enter ?st ?m) = Some (- 1, m'')"
    by (rule idle_service_term [OF assms(3)]) (simp_all only: enter_simps upd_ctx_simps logged_event_vs)
  then obtain m'' where t: "MM_metadata_update_helper_term (enter ?st ?m) = Some (- 1, m'')" by blast
  have "prop_ctx_dec_rc c st = Some ((leave c m'' ?st)\<lparr>vo_ctxs := (vo_ctxs (leave c m'' ?st))(c := None)\<rparr>)"
    unfolding prop_ctx_dec_rc_def assms(1) Option.bind.simps
    by (simp only: zero t Option.bind.simps if_True simp_thms prod.case)
  then show ?thesis by (simp only: option.distinct not_False_eq_True)
qed

text \<open>The live contexts and their counts.\<close>

lemma steps_ok: "(vol_step h)\<^sup>*\<^sup>* st0 st \<Longrightarrow> vol_ok h st0 \<Longrightarrow> vol_ok h st"
  by (induction rule: rtranclp_induct) (auto dest: vol_step_ok)

lemma held_fits: "vol_ok h st \<Longrightarrow> held st c < 2 ^ 32"
  using held_bound [of h "{}" "\<lambda>i. 0" st c] by (simp add: vol_ok_def fits_def)

lemma live_ctx:
  assumes "vol_ok h st" and "vo_ctxs st c = Some m"
  shows "unat (ref_count (mgr_ctx m)) = held st c \<and> 0 < held st c"
  using assms held_fits [OF assms(1), of c]
  by (simp add: vol_ok_def vol_inv_def unat_of_nat_small)

lemma free_obj_effect:
  assumes "vol_ok h st" and "vo_objs st p = Some ob" and "vo_ctxs st (p_ctx ob) = Some m"
  shows "if held st (p_ctx ob) = 1
    then (\<forall>st'. H5VL_rlo_pass_through_free_obj p st = Some st' \<longrightarrow> vo_ctxs st' = (vo_ctxs st)(p_ctx ob := None)
        \<and> vo_objs st' = (vo_objs st)(p := None) \<and> vo_log st' = vo_log st @ [H5Idec_ref (under_vol_id (mgr_ctx m))])
      \<and> (idle_service m st \<longrightarrow> H5VL_rlo_pass_through_free_obj p st \<noteq> None)
    else (\<exists>st'. H5VL_rlo_pass_through_free_obj p st = Some st'
        \<and> vo_ctxs st' = (vo_ctxs st)(p_ctx ob \<mapsto> upd_ctx (\<lambda>x. x\<lparr>ref_count := ref_count x - 1\<rparr>) m)
        \<and> vo_objs st' = (vo_objs st)(p := None) \<and> vo_log st' = vo_log st \<and> vo_lib st' = vo_lib st)"
proof (cases "held st (p_ctx ob) = 1")
  case True
  have ok: "vol_inv h {} (\<lambda>i. 0) st" "fits st" using assms(1) by (simp_all add: vol_ok_def)
  have rc: "ref_count (mgr_ctx m) = 1" using ok(1) assms(3) True by (simp add: vol_inv_def)
  have free: "H5VL_rlo_pass_through_free_obj p st \<noteq> None" if "idle_service m st"
  proof -
    have "prop_ctx_dec_rc (p_ctx ob) st \<noteq> None" by (rule dec_rc_idle [OF assms(3) rc that])
    then obtain s where "prop_ctx_dec_rc (p_ctx ob) st = Some s" by blast
    then show ?thesis by (simp only: H5VL_rlo_pass_through_free_obj_def assms(2) Option.bind.simps option.distinct not_False_eq_True)
  qed
  have last: "vo_ctxs st' = (vo_ctxs st)(p_ctx ob := None) \<and> vo_objs st' = (vo_objs st)(p := None)
      \<and> vo_log st' = vo_log st @ [H5Idec_ref (under_vol_id (mgr_ctx m))]"
    if freed: "H5VL_rlo_pass_through_free_obj p st = Some st'" for st'
  proof -
    obtain s where s: "prop_ctx_dec_rc (p_ctx ob) st = Some s" "st' = s\<lparr>vo_objs := (vo_objs s)(p := None)\<rparr>"
      using freed assms(2) by (auto simp: H5VL_rlo_pass_through_free_obj_def bind_eq_Some_conv)
    show ?thesis using dec_rc_effect [OF ok assms(3) s(1), of 0] True by (simp add: s(2))
  qed
  show ?thesis unfolding if_P [OF True] by (intro conjI allI impI free) (blast dest: last)+
next
  case False
  with live_ctx [OF assms(1,3)] have "ref_count (mgr_ctx m) - 1 \<noteq> 0" by auto
  with False show ?thesis
    by (simp add: H5VL_rlo_pass_through_free_obj_def prop_ctx_dec_rc_def assms(2,3))
qed

end
