(* ===== verification/VOL_Types.thy ===== *)
theory VOL_Types
  imports VOL_Service
begin

text \<open>
  The types of the wrappers: no entry point changes a wrapper that is in use, and every wrapper made is
  of one of the types of \<^verbatim>\<open>rlo_obj_type\<close>.
\<close>

definition keeps_types :: "'l vol_state \<Rightarrow> 'l vol_state \<Rightarrow> bool" where
  "keeps_types st st' \<longleftrightarrow> vo_next st \<le> vo_next st'
     \<and> (\<forall>p ob. vo_objs st' p = Some ob \<longrightarrow> vo_objs st p = Some ob \<or> (vo_next st \<le> p \<and> obj_type ob \<in> range vl_code))"

named_theorems keeps \<open>operations that keep the wrappers in use\<close>

lemma keeps_refl [simp]: "keeps_types st st"
  by (simp add: keeps_types_def)

lemma keeps_trans: "keeps_types st s \<Longrightarrow> keeps_types s st' \<Longrightarrow> keeps_types st st'"
  unfolding keeps_types_def by (meson order_trans)

lemma keeps_same: "vo_objs st' = vo_objs st \<Longrightarrow> vo_next st \<le> vo_next st' \<Longrightarrow> keeps_types st st'"
  by (simp add: keeps_types_def)

lemma keeps_lib [keeps]: "only_lib st st' \<Longrightarrow> keeps_types st st'"
  by (auto simp: only_lib_def intro: keeps_same)

lemma keeps_upd [simp]:
  "keeps_types st (s\<lparr>vo_lib := l\<rparr>) = keeps_types st s" "keeps_types (s\<lparr>vo_lib := l\<rparr>) st = keeps_types s st"
  "keeps_types st (s\<lparr>vo_wraps := w\<rparr>) = keeps_types st s" "keeps_types st (s\<lparr>vo_rank_debug := r\<rparr>) = keeps_types st s"
  "keeps_types st (s\<lparr>vo_vs := v\<rparr>) = keeps_types st s" "keeps_types st (leave c m s) = keeps_types st s"
  "keeps_types st (set_ctx c m s) = keeps_types st s" "keeps_types (set_ctx c m s) st = keeps_types s st"
  "keeps_types (s\<lparr>vo_rank_debug := r\<rparr>) st = keeps_types s st" "keeps_types st (logged_event ev s) = keeps_types st s"
  by (simp_all add: keeps_types_def leave_def set_ctx_def logged_event_def)

lemma keeps_dec_rc [keeps]: "prop_ctx_dec_rc c st = Some st' \<Longrightarrow> keeps_types st st'"
  by (auto simp: prop_ctx_dec_rc_def bind_eq_Some_conv keeps_types_def leave_def set_ctx_def logged_event_def split: if_splits)

lemma keeps_new_obj [keeps]: "H5VL_rlo_pass_through_new_obj x t c st = Some (p, st') \<Longrightarrow> keeps_types st st'"
  by (auto simp: H5VL_rlo_pass_through_new_obj_def prop_ctx_inc_rc_def keeps_types_def set_ctx_def bind_eq_Some_conv Let_def
      split: if_splits)

lemma keeps_free_obj [keeps]: "H5VL_rlo_pass_through_free_obj p st = Some st' \<Longrightarrow> keeps_types st st'"
  by (auto simp: H5VL_rlo_pass_through_free_obj_def bind_eq_Some_conv dest!: keeps_dec_rc) (auto simp: keeps_types_def split: if_splits)

lemma keeps_release [keeps]: "release_if p b st = Some st' \<Longrightarrow> keeps_types st st'"
  by (auto simp: release_if_def keeps_free_obj split: if_splits)

lemma keeps_wrap_result [keeps]: "wrap_result t c (r, st) = Some (p, st') \<Longrightarrow> keeps_types st st'"
  by (auto simp: wrap_result_def bind_eq_Some_conv keeps_new_obj split: option.splits)

lemma keeps_open_under [keeps]: "open_under h t obj f st = Some (p, st') \<Longrightarrow> keeps_types st st'"
  by (auto simp: open_under_def bind_eq_Some_conv)
    (metis keeps_wrap_result keeps_lib keeps_trans calls_only_lib(2) prod.collapse)

lemma keeps_close_under [keeps]: "close_under h p f st = Some (r, st') \<Longrightarrow> keeps_types st st'"
  by (auto simp: close_under_def bind_eq_Some_conv case_prod_unfold)
    (metis keeps_release keeps_lib keeps_trans calls_only_lib(1))

lemma keeps_submit [keeps]: "submit c p st = Some (r, p', st') \<Longrightarrow> keeps_types st st'"
  by (auto simp: submit_def bind_eq_Some_conv)

lemma keeps_clear [keeps]: "clear_result c st = Some st' \<Longrightarrow> keeps_types st st'"
  by (auto simp: clear_result_def bind_eq_Some_conv)

lemma keeps_submit_encoded [keeps]: "submit_encoded op t obj tv enc st = Some (q, st') \<Longrightarrow> keeps_types st st'"
  by (auto simp: submit_encoded_def submit_create_def bind_eq_Some_conv case_prod_unfold)
    (meson keeps_clear keeps_submit keeps_wrap_result keeps_trans)

section \<open>The entry points\<close>

lemma keeps_inc_rc [keeps]: "prop_ctx_inc_rc c st = Some st' \<Longrightarrow> keeps_types st st'"
  by (auto simp: prop_ctx_inc_rc_def bind_eq_Some_conv)

lemma keeps_file_close:
  assumes "H5VL_rlo_pass_through_file_close h f dxpl req tv st = Some (r, st')"
  shows "keeps_types st st'"
proof -
  obtain c p r1 p1 s1 m m' r2 where s: "submit c p st = Some (r1, p1, s1)"
    "close_under h f (\<lambda>x vol. File_call (V_file_close x vol dxpl req)) (leave c m' s1) = Some (r2, st')"
    using assms by (auto simp: H5VL_rlo_pass_through_file_close_def bind_eq_Some_conv)
  have "keeps_types st (leave c m' s1)" using keeps_submit [OF s(1)] by simp
  with keeps_close_under [OF s(2)] show ?thesis using keeps_trans by blast
qed

lemma keeps_close_step: "close_step h st st' \<Longrightarrow> keeps_types st st'"
  by (erule close_step.cases)
    (auto simp: H5VL_rlo_pass_through_attr_close_def H5VL_rlo_pass_through_dataset_close_def
      H5VL_rlo_pass_through_datatype_close_def H5VL_rlo_pass_through_group_close_def bind_eq_Some_conv
      split: if_splits dest: keeps_close_under keeps_file_close)

lemma keeps_open_step: "open_step h st st' \<Longrightarrow> keeps_types st st'"
  by (erule open_step.cases)
    (auto simp: H5VL_rlo_pass_through_attr_open_def H5VL_rlo_pass_through_dataset_open_def
      H5VL_rlo_pass_through_datatype_open_def H5VL_rlo_pass_through_group_open_def
      H5VL_rlo_pass_through_object_open_def dest: keeps_open_under)

lemma keeps_attr_write:
  assumes "H5VL_rlo_pass_through_attr_write h obj t buf dxpl this_pid tv st = Some (r, st')"
  shows "keeps_types st st'"
proof -
  obtain c p s1 s2 s3 s4 r1 p1 where s: "only_lib st s1" "only_lib s1 s2" "only_lib s2 s3" "clear_result c s3 = Some s4"
    "submit c p s4 = Some (r1, p1, st')"
    using assms by (auto simp: H5VL_rlo_pass_through_attr_write_def bind_eq_Some_conv
      dest!: native_info_lib attr_get_name_lib attr_size_lib)
  then show ?thesis by (meson keeps_lib keeps_clear keeps_submit keeps_trans)
qed

lemma keeps_dataset_specific:
  assumes "H5VL_rlo_pass_through_dataset_specific h obj sizes tv st = Some (r, st')"
  shows "keeps_types st st'"
proof -
  obtain c x m p s1 r1 p1 where s: "only_lib st s1"
    "submit c p (set_ctx c (upd_ctx (\<lambda>c. c\<lparr>under_obj := Some x\<rparr>) m) s1) = Some (r1, p1, st')"
    using assms by (auto simp: H5VL_rlo_pass_through_dataset_specific_def bind_eq_Some_conv split: if_splits
      dest!: ds_extend_data_lib)
  have "keeps_types s1 st'" using keeps_submit [OF s(2)] by simp
  with keeps_lib [OF s(1)] show ?thesis by (rule keeps_trans)
qed

lemma keeps_create: "only_lib st s1 \<Longrightarrow> submit_encoded op t obj tv enc s1 = Some (q, st') \<Longrightarrow> keeps_types st st'"
  using keeps_lib keeps_submit_encoded keeps_trans by blast

lemma keeps_submit_step:
  assumes "submit_step h st st'"
  shows "keeps_types st st'"
  using assms
proof cases
  case 1
  then show ?thesis
    by (auto simp: H5VL_rlo_pass_through_attr_create_def bind_eq_Some_conv dest!: create_params_lib intro: keeps_create)
next
  case 2
  then show ?thesis
    by (auto simp: H5VL_rlo_pass_through_dataset_create_def bind_eq_Some_conv dest!: create_params_lib intro: keeps_create)
next
  case 3
  then show ?thesis
    by (auto simp: H5VL_rlo_pass_through_datatype_commit_def bind_eq_Some_conv dest!: create_params_lib intro: keeps_create)
next
  case 4
  then show ?thesis
    by (auto simp: H5VL_rlo_pass_through_group_create_def bind_eq_Some_conv dest!: create_params_lib group_encoder_test_lib
        intro: keeps_create only_lib_trans)
qed (rule keeps_attr_write keeps_dataset_specific; assumption)+

lemma keeps_wrap_step:
  assumes "wrap_step h st st'"
  shows "keeps_types st st'"
  using assms
proof cases
  case 1
  then show ?thesis
    by (auto simp: H5VL_rlo_pass_through_get_object_def bind_eq_Some_conv intro: keeps_lib call_open_lib)
next
  case (2 obj w)
  then obtain c s1 where "prop_ctx_inc_rc c (st\<lparr>vo_next := vo_next st + 1\<rparr>) = Some s1" "vo_objs st' = vo_objs s1" "vo_next st' = vo_next s1"
    by (auto simp: H5VL_rlo_pass_through_get_wrap_ctx_def bind_eq_Some_conv Let_def case_prod_unfold)
  then show ?thesis using keeps_inc_rc [of c "st\<lparr>vo_next := vo_next st + 1\<rparr>" s1]
    by (auto simp: keeps_types_def dest: Suc_leD)
next
  case (3 obj t w r)
  obtain wc m where m: "vo_wraps st w = Some wc" "vo_ctxs st (wrap_p_ctx wc) = Some m"
    using 3 by (auto simp: H5VL_rlo_pass_through_wrap_object_def bind_eq_Some_conv)
  obtain x s1 where x: "call_open h (Wrap_call (V_wrap_object obj t (under_vol_id (mgr_ctx m)) (under_wrap_ctx wc))) st = (x, s1)"
    by fastforce
  have "st' = s1 \<or> (\<exists>y ty p. H5VL_rlo_pass_through_new_obj y ty (wrap_p_ctx wc) s1 = Some (p, st'))"
    using 3 m x by (auto simp: H5VL_rlo_pass_through_wrap_object_def bind_eq_Some_conv split: option.splits)
  then show ?thesis using keeps_lib [OF call_open_lib [OF x]] keeps_new_obj keeps_trans by blast
next
  case (4 obj r)
  obtain x vol where x: "wrapped obj st = Some (x, vol)"
    using 4 by (auto simp: H5VL_rlo_pass_through_unwrap_object_def bind_eq_Some_conv)
  obtain y s1 where y: "call_open h (Wrap_call (V_unwrap_object x vol)) st = (y, s1)" by fastforce
  have "st' = s1 \<or> H5VL_rlo_pass_through_free_obj obj s1 = Some st'"
    using 4 x y by (auto simp: H5VL_rlo_pass_through_unwrap_object_def bind_eq_Some_conv split: option.splits)
  then show ?thesis using keeps_lib [OF call_open_lib [OF y]] keeps_free_obj keeps_trans by blast
next
  case (5 w s)
  obtain wc m where m: "vo_wraps st w = Some wc" "vo_ctxs st (wrap_p_ctx wc) = Some m"
    using 5 by (auto simp: H5VL_rlo_pass_through_free_wrap_ctx_def bind_eq_Some_conv)
  define s1 where "s1 = (case under_wrap_ctx wc of
     None \<Rightarrow> st | Some u \<Rightarrow> snd (call_do h (Wrap_call (V_free_wrap_ctx u (under_vol_id (mgr_ctx m)))) st))"
  have "only_lib st s1" by (simp add: s1_def calls_only_lib split: option.split)
  moreover obtain s2 where "prop_ctx_dec_rc (wrap_p_ctx wc) s1 = Some s2" "st' = s2\<lparr>vo_wraps := (vo_wraps s2)(w := None)\<rparr>"
    using 5 m by (auto simp: H5VL_rlo_pass_through_free_wrap_ctx_def bind_eq_Some_conv s1_def)
  ultimately show ?thesis using keeps_lib keeps_dec_rc keeps_trans by fastforce
qed

section \<open>Files\<close>

lemma keeps_objs_vs: "objs_vs st' = objs_vs st \<Longrightarrow> keeps_types st st'"
  by (simp add: objs_vs_def keeps_same)

lemma get_vol_info_same:
  assumes "get_vol_info h fapl_id st = Some (info, s1)"
  shows "objs_vs s1 = objs_vs st"
proof -
  obtain i where "H5VL_rlo_pass_through_info_copy h i st = (info, s1)"
    using assms by (auto simp: get_vol_info_def bind_eq_Some_conv)
  then show ?thesis using objs_vs_steps(1) [of h i st] by simp
qed

lemma keeps_ctx_new:
  assumes "prop_ctx_new h x info coll st = Some (c, st')"
  shows "keeps_types st st'"
proof -
  have handles: "vo_objs (snd (plugin_handles h i s)) = vo_objs s \<and> vo_next (snd (plugin_handles h i s)) = vo_next s" for i s
    by (simp add: plugin_handles_def case_prod_unfold Let_def logged_event_def split: option.split)
  have "vo_objs s' = vo_objs s \<and> vo_next s \<le> vo_next s'" if "metadata_helper_init h info a ctx s = Some (m, s')" for a ctx s m s'
    using that handles [of info s] by (auto simp: metadata_helper_init_def bind_eq_Some_conv case_prod_unfold Let_def)
  then show ?thesis
    using assms by (fastforce simp: prop_ctx_new_def bind_eq_Some_conv Let_def keeps_types_def set_ctx_def logged_event_def)
qed

lemma keeps_file_with:
  assumes "file_with h f fapl_id st = Some (p, st')"
  shows "keeps_types st st'"
proof -
  obtain info s1 where 1: "get_vol_info h fapl_id st = Some (info, s1)"
    using assms by (auto simp: file_with_def bind_eq_Some_conv)
  obtain fapl s2 where 2: "under_fapl h fapl_id info s1 = (fapl, s2)" by fastforce
  obtain x s3 where 3: "call_open h (f fapl) s2 = (x, s3)" by fastforce
  define s3' where "s3' = s3\<lparr>vo_rank_debug := word_of_int (ce_rank (a_comm_env h (in_mpi_comm info)))\<rparr>"
  obtain s4 where 4: "(case x of None \<Rightarrow> Some (None, s3) | Some x \<Rightarrow> do {
        (h5_ctx, st) \<leftarrow> prop_ctx_new h x info (a_coll_ops h fapl_id (vo_lib s1)) s3';
        (p, st) \<leftarrow> H5VL_rlo_pass_through_new_obj x VL_FILE h5_ctx st;
        Some (Some p, st) }) = Some (p, s4)"
    and st': "H5VL_rlo_pass_through_info_free h info (close_fapl h fapl s4) = (0, st')"
    using assms 1 2 3
    by (auto simp: file_with_def bind_eq_Some_conv s3'_def H5VL_rlo_pass_through_info_free_def Let_def split: option.splits)
  have "objs_vs s1 = objs_vs st" by (rule get_vol_info_same [OF 1])
  moreover have "objs_vs s3' = objs_vs s1"
    using objs_vs_steps(3) [of h fapl_id info s1] objs_vs_steps(5) [of h "f fapl" s2] 2 3 by (simp add: s3'_def objs_vs_steps(6))
  ultimately have "keeps_types st s3'" using keeps_objs_vs by metis
  moreover have "keeps_types s3' s4"
  proof (cases x)
    case None
    with 4 show ?thesis by (auto simp: s3'_def keeps_types_def)
  next
    case (Some y)
    with 4 show ?thesis by (auto simp: bind_eq_Some_conv dest!: keeps_ctx_new keeps_new_obj intro: keeps_trans)
  qed
  moreover have "keeps_types s4 st'"
    using objs_vs_steps(2) [of h info "close_fapl h fapl s4"] st' by (intro keeps_objs_vs) (simp add: objs_vs_steps(4))
  ultimately show ?thesis using keeps_trans by blast
qed

lemma keeps_file_access:
  assumes "file_access h t fapl_id name ret dxpl_id req st = Some (r, st')"
  shows "keeps_types st st'"
proof -
  obtain info s1 where 1: "get_vol_info h fapl_id st = Some (info, s1)"
    using assms by (auto simp: file_access_def bind_eq_Some_conv)
  obtain fapl s2 where 2: "under_fapl h fapl_id info s1 = (fapl, s2)" by fastforce
  define c where "c = File_call (V_file_access (in_under_vol_id info) t dxpl_id req fapl name ret)"
  obtain r3 s3 where 3: "call_do h c s2 = (r3, s3)" by fastforce
  have st': "H5VL_rlo_pass_through_info_free h info (close_fapl h fapl s3) = (0, st')"
    using assms 1 2 3
    by (simp add: file_access_def c_def Let_def H5VL_rlo_pass_through_info_free_def)
  have "objs_vs s1 = objs_vs st" by (rule get_vol_info_same [OF 1])
  moreover have "objs_vs s2 = objs_vs s1" using objs_vs_steps(3) [of h fapl_id info s1] 2 by simp
  moreover have "keeps_types s2 s3" by (rule keeps_lib [OF call_do_lib [OF 3]])
  moreover have "objs_vs st' = objs_vs s3"
    using objs_vs_steps(2) [of h info "close_fapl h fapl s3"] st' by (simp add: objs_vs_steps(4))
  ultimately show ?thesis using keeps_objs_vs keeps_trans by metis
qed

lemma keeps_file_specific:
  assumes "H5VL_rlo_pass_through_file_specific h obj t args dxpl req st = Some (r, p, st')"
  shows "keeps_types st st'"
proof (cases args)
  case (FILE_MOUNT a b c d)
  with assms show ?thesis
    by (auto simp: H5VL_rlo_pass_through_file_specific_def bind_eq_Some_conv intro: keeps_lib delegate_lib)
next
  case (FILE_ACCESS a b c)
  with assms show ?thesis
    by (auto simp: H5VL_rlo_pass_through_file_specific_def bind_eq_Some_conv dest: keeps_file_access)
next
  case (FILE_REOPEN a)
  with assms obtain c x l where "wrap_result VL_FILE c (x, st\<lparr>vo_lib := l\<rparr>) = Some (p, st')"
    by (auto simp: H5VL_rlo_pass_through_file_specific_def bind_eq_Some_conv case_prod_unfold)
  from keeps_wrap_result [OF this] show ?thesis by simp
next
  case (FILE_OTHER a)
  with assms show ?thesis
    by (auto simp: H5VL_rlo_pass_through_file_specific_def bind_eq_Some_conv intro: keeps_lib delegate_lib)
qed

lemma keeps_file_step: "file_step h st st' \<Longrightarrow> keeps_types st st'"
  by (erule file_step.cases)
    (auto simp: H5VL_rlo_pass_through_file_create_def H5VL_rlo_pass_through_file_open_def
      dest: keeps_file_with keeps_file_specific)

section \<open>Requests, and every step\<close>

lemma keeps_free_requests: "free_requests ps st = Some st' \<Longrightarrow> keeps_types st st'"
proof (induction ps arbitrary: st)
  case (Cons p ps)
  then show ?case by (auto simp: bind_eq_Some_conv dest!: keeps_free_obj) (metis keeps_trans)
qed simp

lemma keeps_request_specific:
  assumes "H5VL_rlo_pass_through_request_specific h none t array timeout st = Some (r, st')"
  shows "keeps_types st st'"
  using assms
  by (cases array; cases t)
    (auto simp: H5VL_rlo_pass_through_request_specific_def bind_eq_Some_conv case_prod_unfold split: if_splits
      dest!: keeps_free_requests keeps_free_obj)

lemma keeps_request_step: "request_step h st st' \<Longrightarrow> keeps_types st st'"
  by (erule request_step.cases)
    (auto simp: H5VL_rlo_pass_through_request_wait_def H5VL_rlo_pass_through_request_notify_def
      H5VL_rlo_pass_through_request_cancel_def H5VL_rlo_pass_through_request_free_def bind_eq_Some_conv
      case_prod_unfold dest!: keeps_release dest: keeps_close_under keeps_request_specific)

lemma vol_step_keeps: "vol_step h st st' \<Longrightarrow> keeps_types st st'"
  by (erule vol_step.cases)
    (blast intro: keeps_open_step keeps_close_step keeps_submit_step keeps_wrap_step keeps_file_step keeps_request_step
      keeps_lib [OF link_step_lib] keeps_lib [OF vol_delegate_lib])+

lemma vol_steps_keep: "(vol_step h)\<^sup>*\<^sup>* st st' \<Longrightarrow> keeps_types st st'"
  by (induction rule: rtranclp_induct) (simp, blast intro: keeps_trans vol_step_keeps)

end
