(* ===== verification/VOL_Properties.thy ===== *)
theory VOL_Properties
  imports VOL_Types H5_Properties Helper_Properties
begin

text \<open>
  The properties of the entry points: reference counts, the opening and the closing of files, creating
  operations and the string form of the connector's information; each with an instance at a concrete
  library and file.
\<close>

section \<open>A file of two ranks\<close>

text \<open>
  The library of the instances opens every object as 9, and the communicator it is asked about has two
  ranks. A proposal to close the file is under way to this one, which is rank 1.
\<close>

definition demo_info :: "c_int \<Rightarrow> vol_info" where
  "demo_info md = \<lparr>in_under_vol_id = 2, in_under_vol_info = None, in_time_window_size = 1000, in_mode = md,
     in_mpi_comm = 0, in_mpi_info = None, in_world_size = 2, in_my_rank = 1\<rparr>"

definition demo_api :: "c_int \<Rightarrow> unit vol_api" where
  "demo_api md = h5_vol.extend plain_vol (vol_api.fields
     (\<lambda>c l. (Some 9, l)) (\<lambda>c l. (0, l)) (\<lambda>c l. ((0, Some 9), l)) (\<lambda>x v t l. ((0, 1), l))
     (\<lambda>x v ps t l. ((0, 0, 1), l)) (\<lambda>x v ps t l. ((0, 0), l)) (\<lambda>x v ps t l. ((0, map (\<lambda>p. 1) ps), l)) 0
     (\<lambda>x v l. (Some 4, l)) (\<lambda>x v d t l. (Some (64, H5O_TYPE_GROUP), l)) (\<lambda>x v n l. (Some (1, [65, 0]), l))
     (\<lambda>x v l. (Some 6, l)) (\<lambda>x v l. (Some 6, l)) (\<lambda>i l. 1) (\<lambda>i l. 2) (\<lambda>i l. l) (\<lambda>i l. 8)
     (\<lambda>i l. Some (demo_info md)) (\<lambda>i l. False) (\<lambda>i l. (i, l)) (\<lambda>i v u l. l) (\<lambda>i l. l)
     (\<lambda>c l. (c, l)) (\<lambda>i l. (i, l)) (\<lambda>v u l. (Some u, l)) (\<lambda>v u l. l) (\<lambda>v w l. 0) (\<lambda>v a b l. 0)
     (\<lambda>c. env_prop) (\<lambda>c t. 5000))"

lemma demo_api_simps [simp]:
  "a_open (demo_api md) = (\<lambda>c l. (Some 9, l))" "a_vol_info (demo_api md) = (\<lambda>i l. Some (demo_info md))"
  "a_comm_env (demo_api md) = (\<lambda>c. env_prop)" "a_clock (demo_api md) = (\<lambda>c t. 5000)"
  "a_wrap_ctx (demo_api md) = (\<lambda>x v l. (Some 4, l))"
  by (simp_all add: demo_api_def h5_vol.defs vol_api.defs)

definition demo_start :: "unit vol_state" where
  "demo_start = \<lparr>vo_ctxs = Map.empty, vo_objs = Map.empty, vo_wraps = Map.empty, vo_next = 1, vo_log = [], vo_lib = (),
     vo_vs = \<lparr>rlo_process = \<lparr>engines = Map.empty, active_engines = None, ever_created = 0\<rparr>, rlo_clock = (\<lambda>i. 0),
       rlo_ticks = 0, cleanup_tests = 0, cleanup_total = 0\<rparr>, vo_rank_debug = 0\<rparr>"

lemma demo_start_ok: "vol_ok h demo_start"
  by (simp add: vol_ok_def vol_inv_def fits_def demo_start_def ctx_vols_def)

lemma good_env_prop: "good_env env_prop"
  using env_prop_ok(1,2) by (simp add: good_env_def)

lemma demo_opened:
  obtains st m where "H5VL_rlo_pass_through_file_create (demo_api md) [65, 0] 0 0 0 0 0 demo_start = Some (Some 3, st)"
    and "vo_objs st = [3 \<mapsto> \<lparr>obj_type = 0, under_object = 9, p_ctx = 1\<rparr>]" and "vo_wraps st = Map.empty"
    and "vo_ctxs st = [1 \<mapsto> m]"
    and "ref_count (mgr_ctx m) = 1" and "close_count (mgr_ctx m) = 0" and "comm_size (mgr_ctx m) = 2"
    and "mgr_ok (demo_api md) m" and "mm_rep m [] []" and "mm_mode m = sint md" and "time_window_size m = 1000"
    and "mm_clock m = (\<lambda>t. 5000)" and "mm_vm m = rlo_mgr (env_prop, 2) 2" and "rlo_ok 2 (vo_vs st)"
    and "rlo_backlog 2 (vo_vs st) = {#}" and "rlo_incoming 2 (vo_vs st) = env_arriving env_prop"
    and "cleanup_params (vo_vs st) = (0, 0)" and "vol_ok (demo_api md) st"
    and "vol_step (demo_api md) demo_start st"
proof -
  have info: "a_vol_info (demo_api md) 0 (vo_lib demo_start) = Some (demo_info md)" by simp
  have start: "vo_next demo_start = 1" "vo_objs demo_start = Map.empty" "vo_wraps demo_start = Map.empty"
    "vo_ctxs demo_start = Map.empty" "cleanup_params (vo_vs demo_start) = (0, 0)"
    "active_engines (rlo_process (vo_vs demo_start)) = None"
    by (simp_all add: demo_start_def cleanup_params_def)
  have size: "(word_of_int (ce_size env_prop) :: c_int) = 2" by (simp add: env_prop_def)
  obtain st m where st: "H5VL_rlo_pass_through_file_create (demo_api md) [65, 0] 0 0 0 0 0 demo_start = Some (Some 3, st)"
    "vo_objs st = [3 \<mapsto> \<lparr>obj_type = 0, under_object = 9, p_ctx = 1\<rparr>]" "vo_wraps st = Map.empty" "vo_ctxs st = [1 \<mapsto> m]"
    "ref_count (mgr_ctx m) = 1" "close_count (mgr_ctx m) = 0" "comm_size (mgr_ctx m) = 2"
    "mgr_ok (demo_api md) m" "mm_rep m [] []" "mm_mode m = sint md" "time_window_size m = 1000"
    "mm_clock m = (\<lambda>t. 5000)" "mm_vm m = rlo_mgr (env_prop, 2) 2" "rlo_ok 2 (vo_vs st)"
    "rlo_backlog 2 (vo_vs st) = {#}" "rlo_incoming 2 (vo_vs st) = env_arriving env_prop" "cleanup_params (vo_vs st) = (0, 0)"
    using file_create_opens [OF info, of "[65, 0]" 0 0 0 0 9] good_env_prop
    by (auto simp: start size demo_info_def numeral_2_eq_2 numeral_3_eq_3)
  have step: "vol_step (demo_api md) demo_start st"
    by (rule vs_file [OF _ file_step.intros(1) [OF st(1)]]) (simp add: room_def start)
  show thesis by (rule that [OF st vol_step_ok [OF step demo_start_ok] step])
qed

text \<open>The same after the library has asked for a wrapper context: two share the context.\<close>

lemma demo_wrapped:
  obtains st m where "(vol_step (demo_api md))\<^sup>*\<^sup>* demo_start st" and "vol_ok (demo_api md) st"
    and "vo_objs st 3 = Some \<lparr>obj_type = 0, under_object = 9, p_ctx = 1\<rparr>" and "vo_ctxs st 1 = Some m"
    and "ref_count (mgr_ctx m) = 2"
proof -
  obtain s m where s: "vo_objs s = [3 \<mapsto> \<lparr>obj_type = 0, under_object = 9, p_ctx = 1\<rparr>]" "vo_wraps s = Map.empty"
    "vo_ctxs s = [1 \<mapsto> m]" "ref_count (mgr_ctx m) = 1" "vol_ok (demo_api md) s" "vol_step (demo_api md) demo_start s"
    by (rule demo_opened)
  let ?m = "upd_ctx (\<lambda>x. x\<lparr>ref_count := ref_count x + 1\<rparr>) m"
  define st where "st = (set_ctx 1 ?m (s\<lparr>vo_next := vo_next s + 1\<rparr>))\<lparr>vo_wraps := (vo_wraps s)(vo_next s \<mapsto>
    \<lparr>wrap_p_ctx = 1, under_wrap_ctx = Some 4\<rparr>), vo_lib := vo_lib s\<rparr>"
  have "H5VL_rlo_pass_through_get_wrap_ctx (demo_api md) 3 s = Some (vo_next s, st)"
    by (simp add: H5VL_rlo_pass_through_get_wrap_ctx_def prop_ctx_inc_rc_def wrapped_def s Let_def st_def)
  then have step: "vol_step (demo_api md) s st"
    by (intro vs_wrap wrap_step.intros(2)) (simp_all add: room_def s)
  have "(vol_step (demo_api md))\<^sup>*\<^sup>* demo_start st" using s(6) step by (meson converse_rtranclp_into_rtranclp r_into_rtranclp)
  then show thesis
    by (rule that [OF _ vol_step_ok [OF step s(5)], of ?m]) (simp_all add: st_def s)
qed


section \<open>Reference counts\<close>

text \<open>
  C8: over any sequence of calls of the entry points, every wrapper and every wrapper context shares a
  context that is still there; the count of a context is the number of those that share it, and never
  zero; and the identifier of a connector below is held exactly once for each context that lives.
\<close>

theorem reference_counts:
  assumes "(vol_step h)\<^sup>*\<^sup>* st0 st" and "vol_ok h st0"
  shows "(\<forall>p ob. vo_objs st p = Some ob \<longrightarrow> vo_ctxs st (p_ctx ob) \<noteq> None)
    \<and> (\<forall>w x. vo_wraps st w = Some x \<longrightarrow> vo_ctxs st (wrap_p_ctx x) \<noteq> None)
    \<and> (\<forall>c m. vo_ctxs st c = Some m \<longrightarrow> 0 < unat (ref_count (mgr_ctx m))
         \<and> unat (ref_count (mgr_ctx m)) = card {p. \<exists>ob. vo_objs st p = Some ob \<and> p_ctx ob = c}
             + card {w. \<exists>x. vo_wraps st w = Some x \<and> wrap_p_ctx x = c})
    \<and> (\<forall>i. id_refs (vo_log st) i = int (card {c. \<exists>m. vo_ctxs st c = Some m \<and> under_vol_id (mgr_ctx m) = i}))"
proof -
  have ok: "vol_ok h st" by (rule steps_ok [OF assms])
  then have inv: "vol_inv h {} (\<lambda>i. 0) st" by (simp add: vol_ok_def)
  have "0 < unat (ref_count (mgr_ctx m)) \<and> unat (ref_count (mgr_ctx m)) = held st c" if "vo_ctxs st c = Some m" for c m
    using live_ctx [OF ok that] by simp
  with inv show ?thesis unfolding vol_inv_def held_def refs_def ctx_vols_def by auto
qed

theorem reference_counts_witness:
  "\<exists>st m. (vol_step (demo_api 2))\<^sup>*\<^sup>* demo_start st \<and> vo_ctxs st 1 = Some m \<and> ref_count (mgr_ctx m) = 2
    \<and> card {p. \<exists>ob. vo_objs st p = Some ob \<and> p_ctx ob = 1} + card {w. \<exists>x. vo_wraps st w = Some x \<and> wrap_p_ctx x = 1} = 2"
proof -
  obtain st m where st: "(vol_step (demo_api 2))\<^sup>*\<^sup>* demo_start st" "vo_ctxs st 1 = Some m" "ref_count (mgr_ctx m) = 2"
    by (rule demo_wrapped)
  from reference_counts [OF st(1) demo_start_ok] st(2) have "unat (ref_count (mgr_ctx m))
      = card {p. \<exists>ob. vo_objs st p = Some ob \<and> p_ctx ob = 1} + card {w. \<exists>x. vo_wraps st w = Some x \<and> wrap_p_ctx x = 1}"
    by blast
  with st show ?thesis by auto
qed



text \<open>
  C17: releasing a wrapper takes one from the count of its context and nothing else, as long as others
  share it; releasing the last one removes the context and gives back the identifier of the connector
  below, once. It cannot fail when the voting mechanism is idle.
\<close>

theorem last_release_frees_context:
  assumes "vol_ok h st" and "vo_objs st p = Some ob" and "vo_ctxs st (p_ctx ob) = Some m"
  shows "if held st (p_ctx ob) = 1
    then (\<forall>st'. H5VL_rlo_pass_through_free_obj p st = Some st' \<longrightarrow> vo_ctxs st' = (vo_ctxs st)(p_ctx ob := None)
        \<and> vo_objs st' = (vo_objs st)(p := None) \<and> vo_log st' = vo_log st @ [H5Idec_ref (under_vol_id (mgr_ctx m))])
      \<and> (idle_service m st \<longrightarrow> H5VL_rlo_pass_through_free_obj p st \<noteq> None)
    else (\<exists>st'. H5VL_rlo_pass_through_free_obj p st = Some st'
        \<and> vo_ctxs st' = (vo_ctxs st)(p_ctx ob \<mapsto> upd_ctx (\<lambda>x. x\<lparr>ref_count := ref_count x - 1\<rparr>) m)
        \<and> vo_objs st' = (vo_objs st)(p := None) \<and> vo_log st' = vo_log st \<and> vo_lib st' = vo_lib st)"
  by (rule free_obj_effect [OF assms])

theorem last_release_frees_context_witness:
  "\<exists>(st :: unit vol_state) st' (s :: unit vol_state) s'. held st 1 = 1 \<and> H5VL_rlo_pass_through_free_obj 3 st = Some st' \<and> vo_ctxs st' 1 = None
    \<and> held s 1 = 2 \<and> H5VL_rlo_pass_through_free_obj 3 s = Some s' \<and> vo_ctxs s' 1 \<noteq> None"
proof -
  obtain st m where st: "vo_objs st = [3 \<mapsto> \<lparr>obj_type = 0, under_object = 9, p_ctx = 1\<rparr>]" "vo_ctxs st = [1 \<mapsto> m]"
    "ref_count (mgr_ctx m) = 1" "mm_rep m [] []" "mm_vm m = rlo_mgr (env_prop, 2) 2" "rlo_ok 2 (vo_vs st)"
    "rlo_backlog 2 (vo_vs st) = {#}" "cleanup_params (vo_vs st) = (0, 0)" "vol_ok (demo_api 2) st"
    by (rule demo_opened)
  let ?ob = "\<lparr>obj_type = 0, under_object = 9, p_ctx = 1\<rparr>"
  have o: "vo_objs st 3 = Some ?ob" "vo_ctxs st (p_ctx ?ob) = Some m" by (simp_all add: st)
  have h: "held st (p_ctx ?ob) = 1" using live_ctx [OF st(9), of 1 m] st(2,3) by simp
  note r = last_release_frees_context [OF st(9) o, unfolded if_P [OF h]]
  have "idle_service m st" using st(4-8) unfolding idle_service_def mm_rep_def by blast
  then obtain st' where st': "H5VL_rlo_pass_through_free_obj 3 st = Some st'" using r by blast
  then have "vo_ctxs st' = (vo_ctxs st)(p_ctx ?ob := None)" using r by blast
  then have 1: "held st 1 = 1" "vo_ctxs st' 1 = None" using h by simp_all
  obtain s m1 where s: "vol_ok (demo_api 2) s" "vo_objs s 3 = Some ?ob" "vo_ctxs s 1 = Some m1" "ref_count (mgr_ctx m1) = 2"
    by (rule demo_wrapped)
  have s1: "vo_ctxs s (p_ctx ?ob) = Some m1" using s(3) by simp
  have g: "held s 1 = 2" using live_ctx [OF s(1,3)] s(4) by simp
  then have "held s (p_ctx ?ob) \<noteq> 1" by simp
  from last_release_frees_context [OF s(1,2) s1, unfolded if_not_P [OF this]] obtain s' where
    s': "H5VL_rlo_pass_through_free_obj 3 s = Some s'"
      "vo_ctxs s' = (vo_ctxs s)(p_ctx ?ob \<mapsto> upd_ctx (\<lambda>x. x\<lparr>ref_count := ref_count x - 1\<rparr>) m1)"
    by (elim exE conjE)
  have "vo_ctxs s' 1 \<noteq> None" by (simp add: s'(2))
  with 1 st' g s'(1) show ?thesis by blast
qed

section \<open>Opening and closing files\<close>







section \<open>Creating objects\<close>

text \<open>
  C14: a creating operation returns a wrapper exactly when its submission returned 1 and the execution
  here left an object: then the new wrapper holds this object and shares the context of the parent.
  Otherwise the result is null and no wrapper is made. With any mode but 1 and 2 the submission fails,
  so nothing can be created.
\<close>

theorem created_object_wrapped:
  assumes "submit_encoded op t obj tv enc st = Some (r, st')"
  shows "\<exists>ob m m1 ret p1. vo_objs st obj = Some ob \<and> vo_ctxs st (p_ctx ob) = Some m
    \<and> MM_submit_proposal (enter st (upd_ctx (\<lambda>x. x\<lparr>resulting_obj_out := None\<rparr>) m))
        (compose_proposal tv (vo_rank_debug st) (op_code op) (Some (snd enc)) (fst enc)) = Some (ret, p1, m1)
    \<and> (mm_mode m \<notin> {1, 2} \<longrightarrow> ret = - 1)
    \<and> (case if ret = 1 then resulting_obj_out (mgr_ctx m1) else None of
         None \<Rightarrow> r = None \<and> vo_objs st' = vo_objs st \<and> mgr_ctx (the (vo_ctxs st' (p_ctx ob))) = mgr_ctx m1
       | Some x \<Rightarrow> r = Some (vo_next st)
           \<and> vo_objs st' = (vo_objs st)(vo_next st \<mapsto> \<lparr>obj_type = vl_code t, under_object = x, p_ctx = p_ctx ob\<rparr>)
           \<and> ref_count (mgr_ctx (the (vo_ctxs st' (p_ctx ob)))) = ref_count (mgr_ctx m1) + 1)"
proof -
  let ?p = "compose_proposal tv (vo_rank_debug st) (op_code op) (Some (snd enc)) (fst enc)"
  obtain ob where ob: "vo_objs st obj = Some ob" "submit_create t (p_ctx ob) ?p st = Some (r, st')"
    using assms by (auto simp: submit_encoded_def bind_eq_Some_conv case_prod_unfold)
  obtain m where m: "vo_ctxs st (p_ctx ob) = Some m"
    using ob(2) by (auto simp: submit_create_def clear_result_def bind_eq_Some_conv)
  let ?m = "upd_ctx (\<lambda>x. x\<lparr>resulting_obj_out := None\<rparr>) m"
  have e: "enter (set_ctx c ?m st) ?m = enter st ?m" for c by (simp add: enter_def)
  obtain ret p1 m1 where s: "MM_submit_proposal (enter st ?m) ?p = Some (ret, p1, m1)"
    and w: "wrap_result t (p_ctx ob) (result_obj_local (if ret = 1 then p1\<lparr>result_obj_local := resulting_obj_out (mgr_ctx m1)\<rparr> else p1),
        leave (p_ctx ob) m1 (set_ctx (p_ctx ob) ?m st)) = Some (r, st')"
    using ob(2) m by (auto simp: submit_create_def clear_result_def submit_def e leave_def bind_eq_Some_conv)
  have p1: "result_obj_local p1 = None" and ret: "mm_mode m \<notin> {1, 2} \<longrightarrow> ret = - 1"
    using submission_keeps_result [OF s] by (auto simp: compose_proposal_def enter_def upd_ctx_def)
  show ?thesis
  proof (intro exI conjI)
    show "case if ret = 1 then resulting_obj_out (mgr_ctx m1) else None of
         None \<Rightarrow> r = None \<and> vo_objs st' = vo_objs st \<and> mgr_ctx (the (vo_ctxs st' (p_ctx ob))) = mgr_ctx m1
       | Some x \<Rightarrow> r = Some (vo_next st)
           \<and> vo_objs st' = (vo_objs st)(vo_next st \<mapsto> \<lparr>obj_type = vl_code t, under_object = x, p_ctx = p_ctx ob\<rparr>)
           \<and> ref_count (mgr_ctx (the (vo_ctxs st' (p_ctx ob)))) = ref_count (mgr_ctx m1) + 1"
      using w p1
      by (auto simp: wrap_result_def leave_def H5VL_rlo_pass_through_new_obj_def prop_ctx_inc_rc_def Let_def
          bind_eq_Some_conv split: option.splits if_splits)
  qed (use ob(1) m s ret in auto)
qed

theorem created_object_wrapped_witness:
  "\<exists>st st'. vo_objs st 3 \<noteq> None \<and> submit_encoded GROUP_CREATE VL_GROUP 3 \<lparr>tv_sec = 0, tv_usec = 0\<rparr> (0, []) st = Some (None, st')
    \<and> vo_objs (st' :: unit vol_state) = vo_objs st"
proof -
  obtain st m where st: "vo_objs st = [3 \<mapsto> \<lparr>obj_type = 0, under_object = 9, p_ctx = 1\<rparr>]" "vo_ctxs (st :: unit vol_state) = [1 \<mapsto> m]"
    "mm_mode m = sint (0 :: c_int)"
    by (rule demo_opened)
  let ?p = "compose_proposal \<lparr>tv_sec = 0, tv_usec = 0\<rparr> (vo_rank_debug st) (op_code GROUP_CREATE) (Some []) 0"
  have "\<exists>r st'. submit_encoded GROUP_CREATE VL_GROUP 3 \<lparr>tv_sec = 0, tv_usec = 0\<rparr> (0, []) st = Some (r, st')"
    by (simp add: submit_encoded_def submit_create_def clear_result_def submit_def MM_submit_proposal_def Let_def st
        wrap_result_def compose_proposal_def leave_def)
  then obtain r st' where r: "submit_encoded GROUP_CREATE VL_GROUP 3 \<lparr>tv_sec = 0, tv_usec = 0\<rparr> (0, []) st = Some (r, st')" by blast
  from created_object_wrapped [OF r] have "r = None \<and> vo_objs st' = vo_objs st"
    using st by (auto split: if_splits)
  with r st(1) show ?thesis by (intro exI [of _ st] exI [of _ st']) simp
qed

section \<open>The string form of the information\<close>

lemma info_to_str_defined:
  "\<forall>x. s = Some x \<longrightarrow> 0 \<in> set x \<Longrightarrow> H5VL_rlo_pass_through_info_to_str v s \<noteq> None \<longleftrightarrow> unat v < 10 ^ 7"
  by (simp add: info_to_str_image)

lemma info_read_back:
  assumes "\<forall>x. s = Some x \<longrightarrow> 0 \<in> set x" and "H5VL_rlo_pass_through_info_to_str v s = Some str"
  shows "H5VL_rlo_pass_through_str_to_info by_value from_str str =
     (if printed s = [] then
        Some \<lparr>in_under_vol_id = by_value v, in_under_vol_info = None, in_time_window_size = 0, in_mode = 0,
          in_mpi_comm = 0, in_mpi_info = Some 0, in_world_size = 0, in_my_rank = 0\<rparr>
      else None)"
proof -
  let ?d = "length (digits (unat v))"
  have u: "unat v < 10 ^ 7" and str: "str = info_image v s @ replicate (8 - ?d) 0"
    using assms(2) by (auto simp: info_to_str_image [OF assms(1)] split: if_splits)
  have "?d \<le> 7" using u length_digits [of 7 "unat v"] by simp
  then obtain k where "8 - ?d = Suc k" by (cases "8 - ?d") auto
  with str have "str = info_image v s @ 0 # replicate k 0" by simp
  then show ?thesis by (simp only: str_to_info_image)
qed

text \<open>
  C38: the information can be turned into a string exactly when the value of the connector below has
  at most seven digits, otherwise the buffer is overrun; and the string can be read back exactly when
  the connector below has no information of its own, otherwise the buffer for it is overrun. What is
  read back keeps the connector, and neither mode nor window.
\<close>

theorem info_string_limits:
  assumes "\<forall>x. s = Some x \<longrightarrow> 0 \<in> set x"
  shows "(H5VL_rlo_pass_through_info_to_str v s \<noteq> None \<longleftrightarrow> unat v < 10 ^ 7)
    \<and> (\<forall>str. H5VL_rlo_pass_through_info_to_str v s = Some str \<longrightarrow>
        H5VL_rlo_pass_through_str_to_info by_value from_str str =
         (if printed s = [] then
            Some \<lparr>in_under_vol_id = by_value v, in_under_vol_info = None, in_time_window_size = 0, in_mode = 0,
              in_mpi_comm = 0, in_mpi_info = Some 0, in_world_size = 0, in_my_rank = 0\<rparr>
          else None))"
  using info_to_str_defined [OF assms] info_read_back [OF assms] by blast

theorem info_string_limits_witness:
  "\<exists>str. H5VL_rlo_pass_through_info_to_str 515 None = Some str
    \<and> H5VL_rlo_pass_through_str_to_info (\<lambda>v. ucast v) (\<lambda>s v. None) str =
        Some \<lparr>in_under_vol_id = 515, in_under_vol_info = None, in_time_window_size = 0, in_mode = 0,
              in_mpi_comm = 0, in_mpi_info = Some 0, in_world_size = 0, in_my_rank = 0\<rparr>
    \<and> H5VL_rlo_pass_through_info_to_str 10000000 None = None"
proof -
  have 1: "H5VL_rlo_pass_through_info_to_str 515 None \<noteq> None" and 2: "H5VL_rlo_pass_through_info_to_str 10000000 None = None"
    using info_string_limits [of None 515] info_string_limits [of None 10000000] by simp_all
  then obtain str where str: "H5VL_rlo_pass_through_info_to_str 515 None = Some str" by blast
  then show ?thesis using info_string_limits [of None 515 "\<lambda>v. ucast v" "\<lambda>s v. None"] 2 by (simp add: printed_def)
qed

end
