(* ===== verification/VOL_Class.thy ===== *)
theory VOL_Class
  imports VOL_Objects
begin

text \<open>
  The registration of the connector in \<^verbatim>\<open>H5VL_rlo.c\<close>: the identifier of its class is kept in a global
  variable, which is negative while the class is not registered.
\<close>

text \<open>\<open>registered\<close> is what the library answers to \<^verbatim>\<open>H5VLregister_connector\<close> with the class of the connector.\<close>

record 'l vol_class =
  H5VL_RLO_PASSTHRU_g :: hid_t
  cls_lib :: 'l

definition H5VL_rlo_pass_through_register :: "('l \<Rightarrow> hid_t \<times> 'l) \<Rightarrow> 'l vol_class \<Rightarrow> hid_t \<times> 'l vol_class" where
  "H5VL_rlo_pass_through_register registered s =
     (let s = (if H5VL_RLO_PASSTHRU_g s <s 0
               then (case registered (cls_lib s) of (i, l) \<Rightarrow> s\<lparr>H5VL_RLO_PASSTHRU_g := i, cls_lib := l\<rparr>)
               else s)
      in (H5VL_RLO_PASSTHRU_g s, s))"

definition H5VL_rlo_pass_through_init :: "hid_t \<Rightarrow> c_int" where
  "H5VL_rlo_pass_through_init vipl_id = 0"

definition H5VL_rlo_pass_through_term :: "'l vol_class \<Rightarrow> c_int \<times> 'l vol_class" where
  "H5VL_rlo_pass_through_term s = (0, s\<lparr>H5VL_RLO_PASSTHRU_g := - 1\<rparr>)"

text \<open>The class is registered once, and again only after the connector was terminated.\<close>

lemma registered_once:
  assumes "H5VL_rlo_pass_through_register f s = (i, s')" and "0 \<le>s i"
  shows "H5VL_rlo_pass_through_register g s' = (i, s')"
  using assms by (auto simp: H5VL_rlo_pass_through_register_def Let_def split: prod.splits if_splits)

lemma registered_again:
  "H5VL_rlo_pass_through_register f (snd (H5VL_rlo_pass_through_term s)) =
    (fst (f (cls_lib s)), s\<lparr>H5VL_RLO_PASSTHRU_g := fst (f (cls_lib s)), cls_lib := snd (f (cls_lib s))\<rparr>)"
  by (simp add: H5VL_rlo_pass_through_register_def H5VL_rlo_pass_through_term_def case_prod_unfold Let_def)

end
