(* ===== verification/Self_Tests.thy ===== *)
theory Self_Tests
  imports Util_Queue PBuf
begin

text \<open>
  The self tests that stand beside the queues and the packages: \<^verbatim>\<open>gen_queue_test\<close> and \<^verbatim>\<open>find_min_test\<close> of
  \<^verbatim>\<open>util_queue.c\<close>, \<^verbatim>\<open>queue_test\<close> and \<^verbatim>\<open>pbuf_debug\<close> of \<^verbatim>\<open>rootless/rootless_ops.c\<close>, and \<^verbatim>\<open>pbuf_test\<close> of
  \<^verbatim>\<open>rootless/testcases.c\<close>. What they print of the nodes is their result, the number of each node in the
  order of printing.
\<close>

section \<open>The programs\<close>

text \<open>A new node with a number and no data.\<close>

definition test_node :: "'d qstore \<Rightarrow> int \<Rightarrow> nat \<times> 'd qstore" where
  "test_node s num =
     (let (a, s) = gen_queue_node_new s None in (a, s\<lparr>qs_num := (qs_num s)(a \<mapsto> num)\<rparr>))"

definition add_test_node :: "'d qstore \<Rightarrow> gen_queue \<Rightarrow> int \<Rightarrow> ('d qstore \<times> gen_queue) option" where
  "add_test_node s q num = (case test_node s num of (a, s) \<Rightarrow> gen_queue_append s q a)"

text \<open>The stack variable of the tests; its state is never set.\<close>

definition test_queue :: "int \<Rightarrow> gen_queue" where
  "test_queue st = \<lparr>dq_head = None, dq_tail = None, node_cnt = 0, q_state = st\<rparr>"

partial_function (option) print_test_loop :: "'d qstore \<Rightarrow> nat option \<Rightarrow> int list option" where
  "print_test_loop s cur =
     (case cur of
        None \<Rightarrow> Some []
      | Some c \<Rightarrow> do {
          x \<leftarrow> qs_num s c;
          n \<leftarrow> qs_links s c;
          xs \<leftarrow> print_test_loop s (d_next n);
          Some (x # xs) })"

definition print_test_queue :: "'d qstore \<Rightarrow> gen_queue \<Rightarrow> int list option" where
  "print_test_queue s q = print_test_loop s (dq_head q)"

text \<open>Each round prints the minimum it removes and the queue that is left.\<close>

partial_function (option) find_min_test_loop ::
  "'d qstore \<Rightarrow> gen_queue \<Rightarrow> ((int \<times> int list) list \<times> 'd qstore \<times> gen_queue) option" where
  "find_min_test_loop s q =
     (case dq_head q of
        None \<Rightarrow> Some ([], s, q)
      | Some h \<Rightarrow> do {
          min \<leftarrow> find_min s q;
          a \<leftarrow> min;
          x \<leftarrow> qs_num s a;
          (r, s, q) \<leftarrow> gen_queue_remove s q a True;
          l \<leftarrow> print_test_queue s q;
          (out, s, q) \<leftarrow> find_min_test_loop s q;
          Some ((x, l) # out, s, q) })"

definition find_min_test ::
  "'d qstore \<Rightarrow> int \<Rightarrow> int \<Rightarrow> (int list \<times> (int \<times> int list) list \<times> 'd qstore \<times> gen_queue) option" where
  "find_min_test s st cnt = do {
     let q = test_queue st;
     (s, q) \<leftarrow> add_test_node s q 1;
     (s, q) \<leftarrow> add_test_node s q 4;
     (s, q) \<leftarrow> add_test_node s q 3;
     (s, q) \<leftarrow> add_test_node s q 2;
     l \<leftarrow> print_test_queue s q;
     (out, s, q) \<leftarrow> find_min_test_loop s q;
     Some (l, out, s, q) }"

fun append_tests :: "'d qstore \<Rightarrow> gen_queue \<Rightarrow> int list \<Rightarrow> ('d qstore \<times> gen_queue) option" where
  "append_tests s q [] = Some (s, q)"
| "append_tests s q (i # ms) = do { (s, q) \<leftarrow> add_test_node s q i; append_tests s q ms }"

partial_function (option) remove_test_loop ::
  "'d qstore \<Rightarrow> gen_queue \<Rightarrow> nat option \<Rightarrow> (int list \<times> 'd qstore \<times> gen_queue) option" where
  "remove_test_loop s q cur =
     (case cur of
        None \<Rightarrow> Some ([], s, q)
      | Some c \<Rightarrow> do {
          x \<leftarrow> qs_num s c;
          n \<leftarrow> qs_links s c;
          (r, s, q) \<leftarrow> gen_queue_remove s q c True;
          (xs, s, q) \<leftarrow> remove_test_loop s q (d_next n);
          Some (x # xs, s, q) })"

text \<open>Three listings: after appending, while removing, and after it, with the counts printed.\<close>

definition gen_queue_test ::
  "'d qstore \<Rightarrow> int \<Rightarrow> int \<Rightarrow> ((int list \<times> int) \<times> int list \<times> (int list \<times> int) \<times> 'd qstore) option" where
  "gen_queue_test s st cnt = do {
     (s, q) \<leftarrow> append_tests s (test_queue st) [0..cnt - 1];
     let (a, s) = test_node s 99;
     (s, q) \<leftarrow> gen_queue_insert_head s q a;
     l1 \<leftarrow> print_test_queue s q;
     let c1 = node_cnt q;
     (l2, s, q) \<leftarrow> remove_test_loop s q (dq_head q);
     l3 \<leftarrow> print_test_queue s q;
     Some ((l1, c1), l2, (l3, node_cnt q), s) }"

declare print_test_loop.simps [code] find_min_test_loop.simps [code] remove_test_loop.simps [code]

section \<open>What they do to the store\<close>

text \<open>Numbers are read nowhere but in the tests, and only nodes that are freed lose theirs.\<close>

lemma remove_nums:
  "gen_queue_remove s q a f = Some (1, s', q') \<Longrightarrow> x \<noteq> a \<Longrightarrow> qs_num s' x = qs_num s x"
  by (auto simp: gen_queue_remove_def bind_eq_Some_conv free_node_def Let_def split: if_splits prod.splits)

lemma append_nums: "gen_queue_append s q a = Some (s', q') \<Longrightarrow> qs_num s' = qs_num s"
  by (auto simp: gen_queue_append_def bind_eq_Some_conv)

lemma insert_nums: "gen_queue_insert_head s q a = Some (s', q') \<Longrightarrow> qs_num s' = qs_num s"
  by (auto simp: gen_queue_insert_head_def bind_eq_Some_conv)

text \<open>A queue of numbered nodes, in a store that allocates fresh addresses.\<close>

definition numbers :: "'d qstore \<Rightarrow> gen_queue \<Rightarrow> nat list \<Rightarrow> int list \<Rightarrow> bool" where
  "numbers s q xs ks \<longleftrightarrow> gq_rep s q xs \<and> map (qs_num s) xs = map Some ks"

definition fresh_ok :: "'d qstore \<Rightarrow> bool" where
  "fresh_ok s \<longleftrightarrow> (\<forall>a\<in>dom (qs_links s). a < qs_fresh s)"

lemma test_queue_empty: "numbers s (test_queue st) [] []"
  by (simp add: numbers_def gq_rep_def test_queue_def dlist_def)

lemma test_node_obtain:
  assumes "numbers s q xs ks" and "fresh_ok s"
  obtains a s1 where "test_node s k = (a, s1)" and "a \<notin> set xs" and "a \<in> dom (qs_links s1)" and "numbers s1 q xs ks"
    and "qs_num s1 a = Some k" and "fresh_ok s1" and "dom (qs_links s1) = insert a (dom (qs_links s))" and "a \<notin> dom (qs_links s)"
proof -
  have new: "qs_fresh s \<notin> dom (qs_links s)" using assms(2) by (auto simp: fresh_ok_def)
  have "set xs \<subseteq> dom (qs_links s)"
    using assms(1) by (auto simp: numbers_def gq_rep_def dest: dlist_alloc)
  then have a: "qs_fresh s \<notin> set xs" using new by blast
  define s1 where "s1 = snd (test_node s k)"
  have t: "test_node s k = (qs_fresh s, s1)"
    by (simp add: s1_def test_node_def gen_queue_node_new_def)
  have s1: "qs_links s1 = (qs_links s)(qs_fresh s \<mapsto> \<lparr>d_prev = None, d_next = None\<rparr>)"
    "qs_num s1 = (qs_num s)(qs_fresh s \<mapsto> k)" "qs_fresh s1 = qs_fresh s + 1"
    by (simp_all add: s1_def test_node_def gen_queue_node_new_def)
  have old: "gq_rep s q xs" "map (qs_num s) xs = map Some ks" using assms(1) by (simp_all add: numbers_def)
  have "qs_links s1 x = qs_links s x \<and> qs_num s1 x = qs_num s x" if "x \<in> set xs" for x
    using a that by (auto simp: s1)
  then have "dlist (qs_links s1) q xs" "map (qs_num s1) xs = map (qs_num s) xs"
    using dlist_frame [OF gq_rep_D(1) [OF old(1)]] by simp_all
  then have n: "numbers s1 q xs ks" using gq_rep_D(2) [OF old(1)] old(2) by (simp add: numbers_def gq_rep_def)
  have dom: "dom (qs_links s1) = insert (qs_fresh s) (dom (qs_links s))" by (simp add: s1)
  have f: "fresh_ok s1" using assms(2) unfolding fresh_ok_def dom by (auto simp: s1(3) less_Suc_eq)
  show thesis by (rule that [OF t a _ n _ f dom new]) (simp_all add: s1)
qed

lemma numbers_head: "numbers s q xs ks \<Longrightarrow> dq_head q = hd_or xs None"
  by (simp add: numbers_def gq_rep_def dlist_def)

lemma numbers_removed:
  assumes "numbers s q (as @ a # bs) (ms @ k # js)" and "length as = length ms" and "fresh_ok s"
  obtains s' q' where "gen_queue_remove s q a True = Some (1, s', q')" and "numbers s' q' (as @ bs) (ms @ js)"
    and "fresh_ok s'" and "dom (qs_links s') = dom (qs_links s) - {a}"
proof -
  have r: "gq_rep s q (as @ a # bs)" using assms(1) by (simp add: numbers_def)
  obtain s' q' where s': "gen_queue_remove s q a True = Some (1, s', q')" "gq_rep s' q' (as @ bs)"
    "dom (qs_links s') = (if True then dom (qs_links s) - {a} else dom (qs_links s))" "qs_fresh s' = qs_fresh s"
    by (rule gen_queue_remove_rep [OF r, where free = True]) blast
  have d: "a \<notin> set as" "a \<notin> set bs" using gq_rep_D(1) [OF r] by (auto simp: dlist_def)
  have "map (qs_num s') as = map (qs_num s) as" "map (qs_num s') bs = map (qs_num s) bs"
    by (rule map_cong [OF refl], metis remove_nums [OF s'(1)] d)+
  then have "numbers s' q' (as @ bs) (ms @ js)"
    using assms(1,2) s'(2) by (simp add: numbers_def append_eq_append_conv del: map_eq_conv)
  then show thesis
    by (rule that [OF s'(1)]) (use assms(3) s'(3,4) in \<open>auto simp: fresh_ok_def\<close>)
qed

section \<open>What they print\<close>

lemma print_test_loop_rep:
  "dseg (qs_links s) p xs None \<Longrightarrow> map (qs_num s) xs = map Some ks \<Longrightarrow> print_test_loop s (hd_or xs None) = Some ks"
proof (induction xs arbitrary: p ks)
  case Nil
  then show ?case by (subst print_test_loop.simps) simp
next
  case (Cons x xs)
  then obtain k js where ks: "ks = k # js" "qs_num s x = Some k" "map (qs_num s) xs = map Some js" by (cases ks) auto
  have "print_test_loop s (hd_or xs None) = Some js" using Cons.prems(1) Cons.IH [of "Some x", OF _ ks(3)] by simp
  then show ?case using Cons.prems(1) ks(1,2) by (subst print_test_loop.simps) simp
qed

lemma printed: "numbers s q xs ks \<Longrightarrow> print_test_queue s q = Some ks"
  using print_test_loop_rep [of s None xs ks] by (simp add: print_test_queue_def numbers_def gq_rep_def dlist_def)

lemma append_tests_rep:
  assumes "numbers s q xs ks" and "fresh_ok s"
  shows "\<exists>s' q' ys. append_tests s q ms = Some (s', q') \<and> numbers s' q' (xs @ ys) (ks @ ms) \<and> fresh_ok s'
    \<and> dom (qs_links s') = dom (qs_links s) \<union> set ys \<and> set ys \<inter> dom (qs_links s) = {}"
  using assms
proof (induction ms arbitrary: s q xs ks)
  case Nil
  then show ?case by (intro exI [of _ s] exI [of _ q] exI [of _ "[]"]) simp
next
  case (Cons i js)
  obtain a s1 where a: "test_node s i = (a, s1)" "a \<notin> set xs" "a \<in> dom (qs_links s1)" "numbers s1 q xs ks"
    "qs_num s1 a = Some i" "fresh_ok s1" "dom (qs_links s1) = insert a (dom (qs_links s))" "a \<notin> dom (qs_links s)"
    by (rule test_node_obtain [OF Cons.prems])
  have "gq_rep s1 q xs" using a(4) by (simp add: numbers_def)
  then obtain s2 q2 where s2: "gen_queue_append s1 q a = Some (s2, q2)"
    "gq_rep s2 q2 (xs @ [a])" "dom (qs_links s2) = dom (qs_links s1)" "qs_fresh s2 = qs_fresh s1"
    by (rule gen_queue_append_rep [OF _ a(2,3)])
  have n: "numbers s2 q2 (xs @ [a]) (ks @ [i])"
    using a(4,5) s2(2) append_nums [OF s2(1)] by (simp add: numbers_def)
  have f: "fresh_ok s2" using a(6) s2(3,4) by (simp add: fresh_ok_def)
  obtain s' q' ys where r: "append_tests s2 q2 js = Some (s', q')" "numbers s' q' ((xs @ [a]) @ ys) ((ks @ [i]) @ js)"
    "fresh_ok s'" "dom (qs_links s') = dom (qs_links s2) \<union> set ys" "set ys \<inter> dom (qs_links s2) = {}"
    using Cons.IH [OF n f] by (elim exE conjE)
  show ?case
  proof (intro exI conjI)
    show "append_tests s q (i # js) = Some (s', q')" using r(1) s2(1) a(1) by (simp add: add_test_node_def)
    show "numbers s' q' (xs @ a # ys) (ks @ i # js)" "fresh_ok s'" using r(2,3) by simp_all
    show "dom (qs_links s') = dom (qs_links s) \<union> set (a # ys)" using r(4) s2(3) a(7) by simp
    show "set (a # ys) \<inter> dom (qs_links s) = {}" using r(5) s2(3) a(7,8) by auto
  qed
qed

lemma remove_test_loop_rep:
  assumes "numbers s q xs ks" and "fresh_ok s"
  shows "\<exists>s' q'. remove_test_loop s q (dq_head q) = Some (ks, s', q') \<and> numbers s' q' [] []
    \<and> dom (qs_links s') = dom (qs_links s) - set xs"
  using assms
proof (induction xs arbitrary: s q ks)
  case Nil
  then have "ks = []" "dq_head q = None" using numbers_head [OF Nil(1)] by (simp_all add: numbers_def)
  with Nil show ?case by (subst remove_test_loop.simps) simp
next
  case (Cons x xs)
  then obtain k js where ks: "ks = k # js" "qs_num s x = Some k" by (cases ks) (auto simp: numbers_def)
  have x: "qs_links s x = Some \<lparr>d_prev = None, d_next = hd_or xs None\<rparr>" "dq_head q = Some x"
    using Cons.prems(1) by (auto simp: numbers_def gq_rep_def dlist_def)
  have "numbers s q ([] @ x # xs) ([] @ k # js)" using Cons.prems(1) ks(1) by simp
  from numbers_removed [OF this _ Cons.prems(2)] obtain s1 q1 where
    r: "gen_queue_remove s q x True = Some (1, s1, q1)" "numbers s1 q1 xs js" "fresh_ok s1"
      "dom (qs_links s1) = dom (qs_links s) - {x}" by auto
  from Cons.IH [OF r(2,3)] r(1,4) x ks numbers_head [OF r(2)] show ?case
    by (subst remove_test_loop.simps) auto
qed

text \<open>
  With at least one node the test of the generic queue lists its nodes in order, and removes them in order
  without leaving one allocated; with none it dereferences the head of an empty queue.
\<close>

lemma gen_queue_test_result:
  assumes "fresh_ok s" and "0 < cnt"
  shows "\<exists>s'. gen_queue_test s st cnt = Some ((99 # [0..cnt - 1], cnt + 1), 99 # [0..cnt - 1], ([], 0), s')
    \<and> dom (qs_links s') = dom (qs_links s)"
proof -
  obtain s1 q1 ys where s1: "append_tests s (test_queue st) [0..cnt - 1] = Some (s1, q1)" "numbers s1 q1 ys [0..cnt - 1]"
    "fresh_ok s1" "dom (qs_links s1) = dom (qs_links s) \<union> set ys" "set ys \<inter> dom (qs_links s) = {}"
    using append_tests_rep [OF test_queue_empty assms(1), of st "[0..cnt - 1]"] by auto
  obtain a s2 where a: "test_node s1 99 = (a, s2)" "a \<notin> set ys" "a \<in> dom (qs_links s2)" "numbers s2 q1 ys [0..cnt - 1]"
    "qs_num s2 a = Some 99" "fresh_ok s2" "dom (qs_links s2) = insert a (dom (qs_links s1))" "a \<notin> dom (qs_links s1)"
    by (rule test_node_obtain [OF s1(2,3)])
  have len: "length ys = nat cnt" using s1(2) by (metis length_map length_upto numbers_def diff_add_cancel diff_zero)
  then obtain y zs where ys: "ys = y # zs" using assms(2) by (cases ys) auto
  have q1: "gq_rep s2 q1 (y # zs)" "a \<notin> set (y # zs)" using a(2,4) ys by (simp_all add: numbers_def)
  obtain s3 q3 where s3: "gen_queue_insert_head s2 q1 a = Some (s3, q3)" "gq_rep s3 q3 (a # y # zs)"
    by (rule gen_queue_insert_head_rep [OF q1 a(3)])
  have dom3: "dom (qs_links s3) = dom (qs_links s2)" "qs_fresh s3 = qs_fresh s2"
    using s3(1) a(3) by (auto simp: gen_queue_insert_head_def set_next_def set_prev_def bind_eq_Some_conv split: if_splits)
  have n3: "numbers s3 q3 (a # ys) (99 # [0..cnt - 1])"
    using s3(2) a(4,5) insert_nums [OF s3(1)] ys by (simp add: numbers_def)
  have f3: "fresh_ok s3" using a(6) dom3 by (simp add: fresh_ok_def)
  obtain s4 q4 where s4: "remove_test_loop s3 q3 (dq_head q3) = Some (99 # [0..cnt - 1], s4, q4)" "numbers s4 q4 [] []"
    "dom (qs_links s4) = dom (qs_links s3) - set (a # ys)"
    using remove_test_loop_rep [OF n3 f3] by blast
  have c: "node_cnt q3 = cnt + 1" "node_cnt q4 = 0" using s3(2) s4(2) len ys assms(2) by (auto simp: numbers_def gq_rep_def)
  have "dom (qs_links s4) = dom (qs_links s)" using s4(3) dom3(1) a(7,8) s1(4,5) by auto
  then show ?thesis
    using s1(1) a(1) s3(1) s4(1) printed [OF n3] printed [OF s4(2)] c by (simp add: gen_queue_test_def Let_def)
qed

lemma gen_queue_test_crashes:
  assumes "cnt \<le> 0"
  shows "gen_queue_test s st cnt = None"
proof -
  have "append_tests s (test_queue st) [0..cnt - 1] = Some (s, test_queue st)" using assms by simp
  moreover have "gen_queue_insert_head s1 (test_queue st) a = None" for a and s1 :: "'a qstore"
    using gen_queue_insert_head_empty test_queue_empty unfolding numbers_def by blast
  ultimately show ?thesis by (simp add: gen_queue_test_def case_prod_unfold Let_def)
qed

section \<open>Removing the minimum until nothing ms left sorts\<close>

lemma find_min_rep:
  assumes "numbers s q xs ks" and "xs \<noteq> []"
  obtains as a bs ms k js where "find_min s q = Some (Some a)" and "xs = as @ a # bs" and "ks = ms @ k # js"
    and "length as = length ms" and "qs_num s a = Some k" and "\<forall>i\<in>set ks. k \<le> i"
proof -
  obtain x xs' where xs: "xs = x # xs'" using assms(2) by (cases xs) auto
  have eq: "map (qs_num s) xs = map Some ks" using assms(1) by (simp add: numbers_def)
  from arg_cong [OF this, of set] have im: "qs_num s ` set xs = Some ` set ks" by simp
  then have nums: "\<exists>k. qs_num s y = Some k" if "y \<in> set xs" for y using that by blast
  have d: "dlist (qs_links s) q ([] @ x # xs')" using assms(1) xs by (simp add: numbers_def gq_rep_def)
  have ne: "qs_num s y \<noteq> None" if "y \<in> set (x # x # xs')" for y using nums [of y] that xs by auto
  have "\<exists>m. find_min_loop s (Some x) (Some x) = Some (Some m) \<and> m \<in> set (x # xs')
      \<and> (\<forall>y\<in>set (x # xs'). the (qs_num s m) \<le> the (qs_num s y))"
    by (rule find_min_loop_rep [OF d ne])
  then obtain a where a: "find_min_loop s (Some x) (Some x) = Some (Some a)" "a \<in> set xs"
    "\<forall>y\<in>set xs. the (qs_num s a) \<le> the (qs_num s y)" unfolding xs by (elim exE conjE)
  from nums [OF a(2)] obtain k where k: "qs_num s a = Some k" by blast
  obtain as bs where s: "xs = as @ a # bs" using a(2) by (meson split_list)
  have "map Some ks = map (qs_num s) as @ Some k # map (qs_num s) bs" using eq s k by simp
  then obtain ms r where r: "ks = ms @ r" "map Some ms = map (qs_num s) as" "map Some r = Some k # map (qs_num s) bs"
    unfolding map_eq_append_conv by (elim exE conjE) simp
  from r(3) obtain js where "r = k # js" by (cases r) simp_all
  then have ks: "ks = ms @ k # js" "length as = length ms" using r(1,2) by (simp, metis length_map)
  have "k \<le> i" if "i \<in> set ks" for i
  proof -
    have "Some i \<in> qs_num s ` set xs" unfolding im using that by (rule imageI)
    then obtain y where "y \<in> set xs" "qs_num s y = Some i" by (elim imageE) simp
    then show ?thesis using a(3) k by force
  qed
  then have "\<forall>i\<in>set ks. k \<le> i" by blast
  moreover have "find_min s q = Some (Some a)"
    using a(1) numbers_head [OF assms(1)] xs by (simp add: find_min_def)
  ultimately show thesis by (intro that [OF _ s ks k])
qed

lemma sort_min: "\<forall>i\<in>set (as @ k # bs). k \<le> i \<Longrightarrow> sort (as @ k # bs) = k # sort (as @ bs)" for k :: int
  by (rule properties_for_sort) (auto simp: sorted_sort)

lemma find_min_test_loop_sorts:
  assumes "numbers s q xs ks" and "fresh_ok s"
  shows "\<exists>out s' q'. find_min_test_loop s q = Some (out, s', q') \<and> map fst out = sort ks \<and> numbers s' q' [] []
    \<and> dom (qs_links s') = dom (qs_links s) - set xs"
  using assms
proof (induction xs arbitrary: s q ks rule: length_induct)
  case (1 xs)
  show ?case
  proof (cases "xs = []")
    case True
    then have "ks = []" "dq_head q = None" using "1.prems"(1) numbers_head [OF "1.prems"(1)] by (simp_all add: numbers_def)
    with "1.prems" True show ?thesis by (subst find_min_test_loop.simps) simp
  next
    case False
    obtain as a bs ms k js where m: "find_min s q = Some (Some a)" "xs = as @ a # bs" "ks = ms @ k # js" "length as = length ms"
      "qs_num s a = Some k" "\<forall>i\<in>set ks. k \<le> i" by (rule find_min_rep [OF "1.prems"(1) False])
    obtain s1 q1 where r: "gen_queue_remove s q a True = Some (1, s1, q1)" "numbers s1 q1 (as @ bs) (ms @ js)" "fresh_ok s1"
      "dom (qs_links s1) = dom (qs_links s) - {a}"
      by (rule numbers_removed [OF "1.prems"(1) [unfolded m(2,3)] m(4) "1.prems"(2)])
    have "length (as @ bs) < length xs" using m(2) by simp
    with "1.IH" r(2,3) obtain out s' q' where o: "find_min_test_loop s1 q1 = Some (out, s', q')" "map fst out = sort (ms @ js)"
      "numbers s' q' [] []" "dom (qs_links s') = dom (qs_links s1) - set (as @ bs)" by blast
    have "sort ks = k # sort (ms @ js)" unfolding m(3) by (rule sort_min) (use m(3,6) in simp)
    moreover obtain y where "dq_head q = Some y" using numbers_head [OF "1.prems"(1)] False by (cases xs) auto
    moreover have "dom (qs_links s') = dom (qs_links s) - set xs" using o(4) r(4) m(2) by auto
    ultimately show ?thesis
      using m(1,5) r(1) printed [OF r(2)] o(1-3) by (subst find_min_test_loop.simps) simp
  qed
qed

lemma find_min_test_result:
  assumes "fresh_ok s"
  shows "\<exists>out s' q'. find_min_test s st cnt = Some ([1, 4, 3, 2], out, s', q') \<and> map fst out = [1, 2, 3, 4]
    \<and> node_cnt q' = 0 \<and> dom (qs_links s') = dom (qs_links s)"
proof -
  obtain s1 q1 ys where a: "append_tests s (test_queue st) [1, 4, 3, 2] = Some (s1, q1)" "numbers s1 q1 ys [1, 4, 3, 2]"
    "fresh_ok s1" "dom (qs_links s1) = dom (qs_links s) \<union> set ys" "set ys \<inter> dom (qs_links s) = {}"
    using append_tests_rep [OF test_queue_empty assms, of st "[1, 4, 3, 2]"] by auto
  obtain out s' q' where o: "find_min_test_loop s1 q1 = Some (out, s', q')" "map fst out = sort [1, 4, 3, 2]"
    "numbers s' q' [] []" "dom (qs_links s') = dom (qs_links s1) - set ys"
    using find_min_test_loop_sorts [OF a(2,3)] by blast
  have "sort [1, 4, 3, 2 :: int] = [1, 2, 3, 4]" by simp
  moreover have "node_cnt q' = 0" using o(3) by (simp add: numbers_def gq_rep_def)
  moreover have "dom (qs_links s') = dom (qs_links s)" using o(4) a(4,5) by auto
  moreover have "find_min_test s st cnt = Some ([1, 4, 3, 2], out, s', q')"
    using a(1) printed [OF a(2)] o(1) by (auto simp: find_min_test_def bind_eq_Some_conv)
  ultimately show ?thesis using o(2) by auto
qed

section \<open>The test of the message queue\<close>

text \<open>The cells of the messages with the number the test gives them; the next address \<^verbatim>\<open>calloc\<close> returns.\<close>

record mstore =
  ms_links :: dheap
  ms_id :: "nat \<rightharpoonup> int"
  ms_fresh :: nat

definition test_msg :: "mstore \<Rightarrow> int \<Rightarrow> nat \<times> mstore" where
  "test_msg s i = (ms_fresh s, s\<lparr>ms_links := (ms_links s)(ms_fresh s \<mapsto> \<lparr>d_prev = None, d_next = None\<rparr>),
     ms_id := (ms_id s)(ms_fresh s \<mapsto> i), ms_fresh := ms_fresh s + 1\<rparr>)"

fun append_msgs :: "mstore \<Rightarrow> queue \<Rightarrow> int list \<Rightarrow> (mstore \<times> queue) option" where
  "append_msgs s q [] = Some (s, q)"
| "append_msgs s q (i # ms) = do {
     let (a, s) = test_msg s i;
     (h, q) \<leftarrow> queue_append (ms_links s) q a;
     append_msgs (s\<lparr>ms_links := h\<rparr>) q ms }"

partial_function (option) list_msgs :: "mstore \<Rightarrow> nat option \<Rightarrow> int list option" where
  "list_msgs s cur =
     (case cur of
        None \<Rightarrow> Some []
      | Some c \<Rightarrow> do {
          i \<leftarrow> ms_id s c;
          n \<leftarrow> ms_links s c;
          ms \<leftarrow> list_msgs s (d_next n);
          Some (i # ms) })"

partial_function (option) remove_msgs :: "mstore \<Rightarrow> queue \<Rightarrow> nat option \<Rightarrow> (int list \<times> mstore \<times> queue) option" where
  "remove_msgs s q cur =
     (case cur of
        None \<Rightarrow> Some ([], s, q)
      | Some c \<Rightarrow> do {
          i \<leftarrow> ms_id s c;
          n \<leftarrow> ms_links s c;
          (r, h, q) \<leftarrow> queue_remove (ms_links s) q c;
          let s = s\<lparr>ms_links := h(c := None), ms_id := (ms_id s)(c := None)\<rparr>;
          (ms, s, q) \<leftarrow> remove_msgs s q (d_next n);
          Some (i # ms, s, q) })"

definition queue_test :: "mstore \<Rightarrow> int \<Rightarrow> ((int list \<times> int) \<times> int list \<times> (int list \<times> int) \<times> mstore) option" where
  "queue_test s cnt = do {
     let q = \<lparr>dq_head = None, dq_tail = None, msg_cnt = 0\<rparr>;
     (s, q) \<leftarrow> append_msgs s q [0..cnt - 1];
     l1 \<leftarrow> list_msgs s (dq_head q);
     let c1 = msg_cnt q;
     (l2, s, q) \<leftarrow> remove_msgs s q (dq_head q);
     l3 \<leftarrow> list_msgs s (dq_head q);
     Some ((l1, c1), l2, (l3, msg_cnt q), s) }"

declare list_msgs.simps [code] remove_msgs.simps [code]

definition messages :: "mstore \<Rightarrow> queue \<Rightarrow> nat list \<Rightarrow> int list \<Rightarrow> bool" where
  "messages s q xs ks \<longleftrightarrow> mq_rep (ms_links s) q xs \<and> map (ms_id s) xs = map Some ks \<and> (\<forall>a\<in>dom (ms_links s). a < ms_fresh s)"

lemma mq_frame: "mq_rep h q xs \<Longrightarrow> (\<And>x. x \<in> set xs \<Longrightarrow> h' x = h x) \<Longrightarrow> mq_rep h' q xs"
  by (auto simp: mq_rep_def intro: dlist_frame)

lemma messages_head: "messages s q xs ks \<Longrightarrow> dq_head q = hd_or xs None"
  by (simp add: messages_def mq_rep_def dlist_def)

lemma append_msgs_rep:
  assumes "messages s q xs ks"
  shows "\<exists>s' q' ys. append_msgs s q ms = Some (s', q') \<and> messages s' q' (xs @ ys) (ks @ ms)
    \<and> dom (ms_links s') = dom (ms_links s) \<union> set ys \<and> set ys \<inter> dom (ms_links s) = {}"
  using assms
proof (induction ms arbitrary: s q xs ks)
  case Nil
  then show ?case by (intro exI [of _ s] exI [of _ q] exI [of _ "[]"]) simp
next
  case (Cons i js)
  let ?a = "ms_fresh s"
  have m: "mq_rep (ms_links s) q xs" "map (ms_id s) xs = map Some ks" "\<forall>a\<in>dom (ms_links s). a < ?a"
    using Cons.prems by (simp_all add: messages_def)
  have a: "?a \<notin> dom (ms_links s)" using m(3) by blast
  then have ax: "?a \<notin> set xs" using mq.alloc_law [OF m(1)] by blast
  let ?h = "(ms_links s)(?a \<mapsto> \<lparr>d_prev = None, d_next = None\<rparr>)"
  have r: "mq_rep ?h q xs" by (rule mq_frame [OF m(1)]) (use ax in auto)
  have d: "?a \<in> dom ?h" by simp
  obtain h1 q1 where h1: "queue_append ?h q ?a = Some (h1, q1)" "mq_rep h1 q1 (xs @ [?a])" "dom h1 = dom ?h"
    by (rule mq.enq_obtain [OF r ax d])
  define s1 where "s1 = (snd (test_msg s i))\<lparr>ms_links := h1\<rparr>"
  have s1: "ms_links s1 = h1" "ms_id s1 = (ms_id s)(?a \<mapsto> i)" "ms_fresh s1 = ?a + 1" by (simp_all add: s1_def test_msg_def)
  have "map (ms_id s1) xs = map Some ks" using m(2) ax unfolding s1(2) by (metis map_fun_upd)
  then have "messages s1 q1 (xs @ [?a]) (ks @ [i])"
    using h1(2,3) m(3) by (simp add: messages_def s1 less_Suc_eq del: map_eq_conv)
  from Cons.IH [OF this] obtain s' q' ys where
    n: "append_msgs s1 q1 js = Some (s', q')" "messages s' q' ((xs @ [?a]) @ ys) ((ks @ [i]) @ js)"
    "dom (ms_links s') = dom (ms_links s1) \<union> set ys" "set ys \<inter> dom (ms_links s1) = {}" by (elim exE conjE)
  show ?case
  proof (intro exI conjI)
    show "append_msgs s q (i # js) = Some (s', q')" using n(1) h1(1) by (simp add: test_msg_def s1_def)
    show "messages s' q' (xs @ ?a # ys) (ks @ i # js)" using n(2) by simp
    show "dom (ms_links s') = dom (ms_links s) \<union> set (?a # ys)" using n(3) h1(3) s1(1) by auto
    show "set (?a # ys) \<inter> dom (ms_links s) = {}" using n(4) h1(3) s1(1) a by auto
  qed
qed

lemma list_msgs_rep:
  "dseg (ms_links s) p xs None \<Longrightarrow> map (ms_id s) xs = map Some ks \<Longrightarrow> list_msgs s (hd_or xs None) = Some ks"
proof (induction xs arbitrary: p ks)
  case Nil
  then show ?case by (subst list_msgs.simps) simp
next
  case (Cons x xs)
  then obtain k js where ks: "ks = k # js" "ms_id s x = Some k" "map (ms_id s) xs = map Some js" by (cases ks) auto
  have "list_msgs s (hd_or xs None) = Some js" using Cons.prems(1) Cons.IH [of "Some x", OF _ ks(3)] by simp
  then show ?case using Cons.prems(1) ks(1,2) by (subst list_msgs.simps) simp
qed

lemma listed: "messages s q xs ks \<Longrightarrow> list_msgs s (dq_head q) = Some ks"
  using list_msgs_rep [of s None xs ks] by (simp add: messages_def mq_rep_def dlist_def)

lemma remove_msgs_rep:
  assumes "messages s q xs ks"
  shows "\<exists>s' q'. remove_msgs s q (dq_head q) = Some (ks, s', q') \<and> messages s' q' [] []
    \<and> dom (ms_links s') = dom (ms_links s) - set xs"
  using assms
proof (induction xs arbitrary: s q ks)
  case Nil
  then have "ks = []" "dq_head q = None" using messages_head [OF Nil] by (simp_all add: messages_def)
  with Nil show ?case by (subst remove_msgs.simps) simp
next
  case (Cons x xs)
  then obtain k js where ks: "ks = k # js" "ms_id s x = Some k" "map (ms_id s) xs = map Some js"
    by (cases ks) (auto simp: messages_def)
  have m: "mq_rep (ms_links s) q (x # xs)" "\<forall>a\<in>dom (ms_links s). a < ms_fresh s"
    using Cons.prems by (simp_all add: messages_def)
  have x: "ms_links s x = Some \<lparr>d_prev = None, d_next = hd_or xs None\<rparr>" "dq_head q = Some x"
    using m(1) by (auto simp: mq_rep_def dlist_def)
  have new: "x \<notin> set xs" using mq.distinct_law [OF m(1)] by simp
  obtain h1 q1 where h1: "queue_remove (ms_links s) q x = Some (1, h1, q1)" "mq_rep h1 q1 (remove1 x (x # xs))"
    "dom h1 = dom (ms_links s)" by (rule mq.deq_obtain [OF m(1), of x]) simp_all
  define s1 where "s1 = s\<lparr>ms_links := h1(x := None), ms_id := (ms_id s)(x := None)\<rparr>"
  have s1: "ms_links s1 = h1(x := None)" "ms_id s1 = (ms_id s)(x := None)" "ms_fresh s1 = ms_fresh s" by (simp_all add: s1_def)
  have "mq_rep h1 q1 xs" using h1(2) by simp
  then have "mq_rep (ms_links s1) q1 xs" by (rule mq_frame) (use new s1(1) in auto)
  moreover have "map (ms_id s1) xs = map Some js" using ks(3) new unfolding s1(2) by (metis map_fun_upd)
  ultimately have "messages s1 q1 xs js" using m(2) h1(3) by (auto simp: messages_def s1 simp del: map_eq_conv)
  from Cons.IH [OF this] obtain s' q' where n: "remove_msgs s1 q1 (dq_head q1) = Some (js, s', q')" "messages s' q' [] []"
    "dom (ms_links s') = dom (ms_links s1) - set xs" by (elim exE conjE)
  have "dq_head q1 = hd_or xs None" using h1(2) by (simp add: mq_rep_def dlist_def)
  then have "remove_msgs s q (Some x) = Some (ks, s', q')"
    using n(1) ks(1,2) x(1) h1(1) by (subst remove_msgs.simps) (simp add: s1_def)
  moreover have "dom (ms_links s') = dom (ms_links s) - set (x # xs)" using n(3) h1(3) s1(1) by auto
  ultimately show ?case using x(2) n(2) by auto
qed

text \<open>The test lists the messages in the order of appending, twice, and leaves none allocated.\<close>

lemma queue_test_result:
  assumes "\<forall>a\<in>dom (ms_links s). a < ms_fresh s"
  shows "\<exists>s'. queue_test s cnt = Some (([0..cnt - 1], max 0 cnt), [0..cnt - 1], ([], 0), s')
    \<and> dom (ms_links s') = dom (ms_links s)"
proof -
  let ?q = "\<lparr>dq_head = None, dq_tail = None, msg_cnt = 0\<rparr>"
  have "messages s ?q [] []" using assms by (simp add: messages_def mq_rep_def dlist_def)
  from append_msgs_rep [OF this, of "[0..cnt - 1]"] obtain s1 q1 ys where
    a: "append_msgs s ?q [0..cnt - 1] = Some (s1, q1)" "messages s1 q1 ys [0..cnt - 1]"
    "dom (ms_links s1) = dom (ms_links s) \<union> set ys" "set ys \<inter> dom (ms_links s) = {}" by auto
  obtain s2 q2 where r: "remove_msgs s1 q1 (dq_head q1) = Some ([0..cnt - 1], s2, q2)" "messages s2 q2 [] []"
    "dom (ms_links s2) = dom (ms_links s1) - set ys" using remove_msgs_rep [OF a(2)] by (elim exE conjE)
  have "length ys = length [0..cnt - 1]" using a(2) by (metis length_map messages_def)
  then have "msg_cnt q1 = max 0 cnt" "msg_cnt q2 = 0" using a(2) r(2) by (simp_all add: messages_def mq_rep_def)
  moreover have "dom (ms_links s2) = dom (ms_links s)" using r(3) a(3,4) by auto
  ultimately show ?thesis using a(1) r(1) listed [OF a(2)] listed [OF r(2)] by (simp add: queue_test_def)
qed

section \<open>The check of packages\<close>

text \<open>
  The result is the package the caller holds, which the check changes: its last comparison is an
  assignment. A failed \<^verbatim>\<open>assert\<close> and a comparison past the end of the data are \<^const>\<open>None\<close>.
\<close>

definition pbuf_debug :: "PBuf \<Rightarrow> byte list \<Rightarrow> PBuf option" where
  "pbuf_debug p serialized_buf_in = do {
     (r, t) \<leftarrow> pbuf_deserialize serialized_buf_in;
     require (pb_pid p = pb_pid t);
     require (pb_time_stamp p = pb_time_stamp t);
     require (pb_vote p = pb_vote t);
     let p = p\<lparr>pb_data_len := pb_data_len t\<rparr>;
     require (pb_data_len p \<noteq> 0);
     (if 0 < pb_data_len p then do {
        d \<leftarrow> pb_data p;
        d \<leftarrow> memcpy_from d (unat (pb_data_len p));
        d' \<leftarrow> pb_data t;
        d' \<leftarrow> memcpy_from d' (unat (pb_data_len p));
        require (d = d');
        Some p }
      else Some p) }"

text \<open>The data of the test is \<^verbatim>\<open>"test proposal"\<close> with its terminating zero; the time is read from the clock.\<close>

definition test_proposal :: "byte list" where
  "test_proposal = [116, 101, 115, 116, 32, 112, 114, 111, 112, 111, 115, 97, 108, 0]"

definition pbuf_test :: "c_ulong \<Rightarrow> (int \<times> PBuf option) option" where
  "pbuf_test time = do {
     r \<leftarrow> pbuf_serialize 10 1 time (13 + 1) (Some test_proposal);
     (case r of
        Inl e \<Rightarrow> Some (- 1, None)
      | Inr proposal_send_buf \<Rightarrow> do {
          let s = pbuf_new_local 10 1 time (13 + 1) (Some test_proposal);
          s \<leftarrow> pbuf_debug s proposal_send_buf;
          (r, tmp) \<leftarrow> pbuf_deserialize proposal_send_buf;
          Some (0, Some tmp) }) }"

text \<open>The check accepts what the serialiser makes of a package with data.\<close>

lemma pbuf_debug_accepts:
  assumes "dat \<noteq> []" and "length dat < 2 ^ 63" and "unat len = length dat"
    and "pbuf_serialize pid vote ts len (Some dat) = Some (Inr buf)"
  shows "pbuf_debug (pbuf_new_local pid vote ts len (Some dat)) buf = Some (pbuf_new_local pid vote ts len (Some dat))"
proof -
  have "buf = put_ulong (32 + len) @ put_int pid @ put_int vote @ put_ulong ts @ put_ulong len @ dat"
    using pbuf_serialize_ok [OF assms(1-3), of pid vote ts "[]"] assms(4) by simp
  moreover have "len \<noteq> 0" using assms(1,3) by auto
  moreover have "0 < len" using \<open>len \<noteq> 0\<close> by (simp add: word_neq_0_conv)
  ultimately show ?thesis
    using assms(3) by (simp add: pbuf_debug_def pbuf_new_local_def pbuf_deserialize_image memcpy_from_def Let_def)
qed

text \<open>
  It rejects a correct package without data, and it does not compare the lengths: a package that claims
  more data than it was serialised with passes.
\<close>

lemma pbuf_debug_rejects_empty:
  assumes "pbuf_serialize pid vote ts 0 None = Some (Inr buf)"
  shows "pbuf_debug (pbuf_new_local pid vote ts 0 None) buf = None"
proof -
  have "buf = put_ulong 32 @ put_int pid @ put_int vote @ put_ulong ts @ put_ulong 0 @ []"
    using assms pbuf_serialize_empty by simp
  then show ?thesis
    by (simp add: pbuf_debug_def pbuf_new_local_def pbuf_deserialize_image [of _ _ _ _ 0 "[]", simplified])
qed

lemma pbuf_debug_ignores_length:
  assumes "dat \<noteq> []" and "length dat < 2 ^ 63" and "unat len = length dat"
    and "pbuf_serialize pid vote ts len (Some dat) = Some (Inr buf)"
  shows "pbuf_debug (pbuf_new_local pid vote ts n (Some (dat @ extra))) buf \<noteq> None"
proof -
  have "buf = put_ulong (32 + len) @ put_int pid @ put_int vote @ put_ulong ts @ put_ulong len @ dat"
    using pbuf_serialize_ok [OF assms(1-3), of pid vote ts "[]"] assms(4) by simp
  moreover have "len \<noteq> 0" using assms(1,3) by auto
  moreover have "0 < len" using \<open>len \<noteq> 0\<close> by (simp add: word_neq_0_conv)
  ultimately show ?thesis
    using assms(3) by (simp add: pbuf_debug_def pbuf_new_local_def pbuf_deserialize_image memcpy_from_def Let_def)
qed

lemma pbuf_test_succeeds:
  "pbuf_test time = Some (0, Some (pbuf_new_local 10 1 time 14 (Some test_proposal)))"
proof -
  have l: "test_proposal \<noteq> []" "length test_proposal < 2 ^ 63" "unat (14 :: c_ulong) = length test_proposal"
    by (simp_all add: test_proposal_def)
  let ?buf = "put_ulong (32 + 14) @ put_int 10 @ put_int 1 @ put_ulong time @ put_ulong 14 @ test_proposal"
  have s: "pbuf_serialize 10 1 time 14 (Some test_proposal) = Some (Inr ?buf)"
    using pbuf_serialize_ok [OF l, of 10 1 time "[]"] by simp
  have "pbuf_deserialize ?buf = Some (14, pbuf_new_local 10 1 time 14 (Some test_proposal))"
    using l(3) by (simp add: pbuf_deserialize_image memcpy_from_def pbuf_new_local_def)
  then show ?thesis
    using s pbuf_debug_accepts [OF l s] by (simp add: pbuf_test_def)
qed

end
